(* ===== verification/Sftp_Prelude.thy ===== *)
theory Sftp_Prelude
  imports Main "HOL-Library.Word"
begin

text \<open>
  Shared vocabulary of the development: the machine types of the Go program, Go errors as
  values, Go strings as byte strings, and the generic lemmas and simplification collections
  that the component theories use.

  Conventions. A Go \<^verbatim>\<open>uintN\<close> or \<^verbatim>\<open>intN\<close> whose width matters is an \<open>N word\<close> (an
  \<^verbatim>\<open>int64\<close> is read with \<open>sint\<close>). A \<^verbatim>\<open>[]byte\<close> is a list of 8-bit words, given by its
  contents; a Go \<^verbatim>\<open>string\<close> is a sequence of bytes and is modelled by HOL's \<open>string\<close>, whose
  characters are exactly the 256 byte values. A Go function with results \<^verbatim>\<open>(v, err)\<close> returns
  \<open>go_error + 'v\<close> where the value is not used after an error, and the pair of both where it
  is. A run-time panic is \<open>None\<close> of an option type, or a constructor of the result type.
\<close>

unbundle bit_operations_syntax

type_synonym byte = "8 word"
type_synonym u32 = "32 word"
type_synonym u64 = "64 word"
type_synonym bytes = "byte list"

named_theorems codec_simps \<open>equations that evaluate encoders and decoders\<close>
named_theorems handle_simps \<open>equations of the handle tables\<close>
named_theorems path_simps \<open>equations of the path operations\<close>

subsection \<open>Errors\<close>

text \<open>
  The error values the program creates, inspects or passes on. \<open>Errno n t\<close> is
  \<^verbatim>\<open>syscall.Errno(n)\<close> together with the text its \<^verbatim>\<open>Error\<close> method gives (the table of texts
  belongs to the operating system). \<open>FxErr\<close> is the \<^verbatim>\<open>fxerr\<close> of request-errors.go,
  \<open>StatusErr\<close> the \<^verbatim>\<open>*StatusError\<close> of sftp.go, \<open>Wrapped\<close> the value of
  \<^verbatim>\<open>errors.Wrapf\<close>, \<open>ErrText\<close> that of \<^verbatim>\<open>errors.New\<close> and \<^verbatim>\<open>errors.Errorf\<close>.
\<close>

datatype go_error =
    Errno nat string
  | PathError string string go_error
  | LinkError string string string go_error
  | FxErr u32
  | StatusErr u32 string string
  | EOF
  | ErrUnexpectedEOF
  | ErrNotExist
  | ErrExist
  | ErrInvalid
  | ErrShortPacket
  | ErrLongPacket
  | ErrUnknownExtendedPacket
  | ErrBadPattern
  | UnexpectedPacketErr byte byte
  | UnexpectedIDErr u32 u32
  | UnexpectedVersionErr u32 u32
  | UnimplementedPacketErr byte
  | Wrapped string go_error
  | ErrText string

text \<open>\<^verbatim>\<open>errors.Cause\<close>: the innermost error under any number of wraps.\<close>

fun errors_Cause :: "go_error \<Rightarrow> go_error" where
  "errors_Cause (Wrapped _ e) = errors_Cause e"
| "errors_Cause e = e"

text \<open>The system error numbers the program names (linux).\<close>

abbreviation EPERM :: go_error where "EPERM \<equiv> Errno 1 ''operation not permitted''"
abbreviation ENOENT :: go_error where "ENOENT \<equiv> Errno 2 ''no such file or directory''"
abbreviation EBADF :: go_error where "EBADF \<equiv> Errno 9 ''bad file descriptor''"
abbreviation ENOTDIR :: go_error where "ENOTDIR \<equiv> Errno 20 ''not a directory''"
abbreviation EINVAL :: go_error where "EINVAL \<equiv> Errno 22 ''invalid argument''"

subsection \<open>Strings and bytes\<close>

definition byte_of_char :: "char \<Rightarrow> byte" where
  "byte_of_char c = of_nat (of_char c)"

definition char_of_byte :: "byte \<Rightarrow> char" where
  "char_of_byte b = char_of (unat b)"

text \<open>The conversions \<^verbatim>\<open>[]byte(s)\<close> and \<^verbatim>\<open>string(b)\<close>.\<close>

definition bytes_of_string :: "string \<Rightarrow> bytes" where
  "bytes_of_string s = map byte_of_char s"

definition string_of_bytes :: "bytes \<Rightarrow> string" where
  "string_of_bytes b = map char_of_byte b"

text \<open>Decimal printing, \<^verbatim>\<open>strconv.Itoa\<close> and the \<^verbatim>\<open>%d\<close> verb.\<close>

fun digits_of :: "nat \<Rightarrow> string" where
  "digits_of n = (if n < 10 then [char_of (48 + n)] else digits_of (n div 10) @ [char_of (48 + n mod 10)])"

declare digits_of.simps [simp del]

definition Itoa :: "int \<Rightarrow> string" where
  "Itoa i = (if i < 0 then CHR ''-'' # digits_of (nat (- i)) else digits_of (nat i))"

text \<open>Reading decimal digits back; used to show that \<open>Itoa\<close> is injective.\<close>

definition undigits :: "string \<Rightarrow> nat" where
  "undigits s = foldl (\<lambda>a c. 10 * a + (of_char c - 48)) 0 s"

subsection \<open>Generic lemmas\<close>

lemma char_of_byte_of_char [simp]: "char_of_byte (byte_of_char c) = c"
proof -
  have "unat (of_nat (of_char c) :: byte) = of_char c"
    by (simp add: unat_of_nat)
  then show ?thesis
    by (simp add: byte_of_char_def char_of_byte_def)
qed

lemma byte_of_char_of_byte [simp]: "byte_of_char (char_of_byte b) = b"
proof -
  have "of_char (char_of (unat b) :: char) = unat b mod 256"
    by simp
  also have "\<dots> = unat b"
  proof (rule mod_less)
    show "unat b < 256" using unsigned_less [of b] by simp
  qed
  finally show ?thesis
    by (simp add: byte_of_char_def char_of_byte_def)
qed

lemma string_of_bytes_of_string [simp]: "string_of_bytes (bytes_of_string s) = s"
  by (simp add: string_of_bytes_def bytes_of_string_def comp_def)

lemma bytes_of_string_of_bytes [simp]: "bytes_of_string (string_of_bytes b) = b"
  by (simp add: string_of_bytes_def bytes_of_string_def comp_def)

lemma length_bytes_of_string [simp]: "length (bytes_of_string s) = length s"
  by (simp add: bytes_of_string_def)

lemma length_string_of_bytes [simp]: "length (string_of_bytes b) = length b"
  by (simp add: string_of_bytes_def)

lemma undigits_digits_of: "undigits (digits_of n) = n"
proof (induction n rule: digits_of.induct)
  case (1 n)
  show ?case
  proof (cases "n < 10")
    case True
    then show ?thesis by (simp add: digits_of.simps [of n] undigits_def)
  next
    case False
    with "1.IH" have "undigits (digits_of (n div 10)) = n div 10" by simp
    with False show ?thesis
      by (simp add: digits_of.simps [of n] undigits_def)
  qed
qed

lemma digits_of_inject [simp]: "digits_of m = digits_of n \<longleftrightarrow> m = n"
  by (metis undigits_digits_of)

lemma Itoa_inject_nonneg: "0 \<le> i \<Longrightarrow> 0 \<le> j \<Longrightarrow> Itoa i = Itoa j \<longleftrightarrow> i = j"
  by (simp add: Itoa_def eq_nat_nat_iff)

text \<open>A successor at its width, read as a signed number.\<close>

lemma sint_plus_one:
  fixes w :: "64 word"
  assumes "sint w < 2 ^ 63 - 1"
  shows "sint (w + 1) = sint w + 1"
proof -
  have lo: "- (2 ^ 63) \<le> sint w" using sint_ge [of w] by simp
  have "sint (w + 1) = signed_take_bit 63 (sint w + 1)"
    by (simp add: sint_word_ariths(1))
  also have "\<dots> = sint w + 1"
    using lo assms by (intro signed_take_bit_int_eq_self) auto
  finally show ?thesis .
qed

end
