(* ===== verification/Page_Allocator.thy ===== *)
theory Page_Allocator
  imports Sftp_Prelude
begin

text \<open>
  The page allocator of pkgsftp/allocator.go, which keeps the buffers of finished requests
  for reuse. What matters about it is which buffer is handed to whom, so a page is modelled
  by its address, and the Go heap by the first address that \<^verbatim>\<open>make\<close> has not returned yet. The
  mutex makes every operation atomic; each operation is one function on the state.
\<close>

type_synonym page = nat

record allocator =
  available :: "page list"
  used :: "u32 \<rightharpoonup> page list"
  heap_next :: page

definition maxMsgLength :: nat where
  "maxMsgLength = 256 * 1024"

definition newAllocator :: "page \<Rightarrow> allocator" where
  "newAllocator h = \<lparr>available = [], used = Map.empty, heap_next = h\<rparr>"

text \<open>
  \<^verbatim>\<open>GetPage\<close>: the last available page is taken and cut off the slice; with none available a new
  one is allocated; the page is recorded under the request's order id.
\<close>

definition GetPage :: "allocator \<Rightarrow> u32 \<Rightarrow> page \<times> allocator" where
  "GetPage a requestOrderID =
     (let (result, a1) =
            (if length (available a) > 0
             then (let truncLength = length (available a) - 1
                   in (available a ! truncLength, a\<lparr>available := take truncLength (available a)\<rparr>))
             else (heap_next a, a\<lparr>heap_next := Suc (heap_next a)\<rparr>));
          olds = (case used a1 requestOrderID of None \<Rightarrow> [] | Some ps \<Rightarrow> ps)
      in (result, a1\<lparr>used := (used a1)(requestOrderID \<mapsto> olds @ [result])\<rparr>))"

definition ReleasePages :: "allocator \<Rightarrow> u32 \<Rightarrow> allocator" where
  "ReleasePages a requestOrderID =
     (let a1 = (case used a requestOrderID of
                  None \<Rightarrow> a
                | Some ps \<Rightarrow> (if length ps > 0 then a\<lparr>available := available a @ ps\<rparr> else a))
      in a1\<lparr>used := (used a1)(requestOrderID := None)\<rparr>)"

definition Free :: "allocator \<Rightarrow> allocator" where
  "Free a = a\<lparr>available := [], used := Map.empty\<rparr>"

definition countUsedPages :: "allocator \<Rightarrow> nat" where
  "countUsedPages a = (\<Sum>k \<in> dom (used a). length (the (used a k)))"

definition countAvailablePages :: "allocator \<Rightarrow> nat" where
  "countAvailablePages a = length (available a)"

definition isRequestOrderIDUsed :: "allocator \<Rightarrow> u32 \<Rightarrow> bool" where
  "isRequestOrderIDUsed a requestOrderID = (used a requestOrderID \<noteq> None)"

text \<open>The pages recorded under an order id, none if there is no entry.\<close>

definition pages_of :: "allocator \<Rightarrow> u32 \<Rightarrow> page list" where
  "pages_of a k = (case used a k of None \<Rightarrow> [] | Some ps \<Rightarrow> ps)"

text \<open>
  The invariant: no page is handed out twice. The available pages are distinct, the pages of
  one request are distinct, the pages of two requests are disjoint, none of them is available,
  and every page known to the allocator was allocated.
\<close>

definition alloc_inv :: "allocator \<Rightarrow> bool" where
  "alloc_inv a \<longleftrightarrow>
     distinct (available a) \<and>
     (\<forall>k. distinct (pages_of a k)) \<and>
     (\<forall>k. set (pages_of a k) \<inter> set (available a) = {}) \<and>
     (\<forall>j k. j \<noteq> k \<longrightarrow> set (pages_of a j) \<inter> set (pages_of a k) = {}) \<and>
     (\<forall>p \<in> set (available a). p < heap_next a) \<and>
     (\<forall>k. \<forall>p \<in> set (pages_of a k). p < heap_next a)"

subsection \<open>What the operations do\<close>

lemma pages_of_GetPage:
  "GetPage a k = (p, a') \<Longrightarrow>
   pages_of a' = (pages_of a)(k := pages_of a k @ [p])"
  by (auto simp: GetPage_def pages_of_def Let_def fun_eq_iff split: if_splits option.splits)

lemma available_GetPage:
  "GetPage a k = (p, a') \<Longrightarrow>
   (if available a = [] then p = heap_next a \<and> available a' = [] \<and> heap_next a' = Suc (heap_next a)
    else available a = available a' @ [p] \<and> heap_next a' = heap_next a)"
  by (cases "available a" rule: rev_cases)
     (auto simp: GetPage_def Let_def nth_append split: option.splits)

lemma pages_of_ReleasePages: "pages_of (ReleasePages a k) = (pages_of a)(k := [])"
  by (auto simp: ReleasePages_def pages_of_def Let_def fun_eq_iff split: option.splits)

lemma available_ReleasePages: "available (ReleasePages a k) = available a @ pages_of a k"
  by (auto simp: ReleasePages_def pages_of_def Let_def split: option.splits)

lemma heap_next_ReleasePages [simp]: "heap_next (ReleasePages a k) = heap_next a"
  by (auto simp: ReleasePages_def Let_def split: option.splits)

lemma isRequestOrderIDUsed_ReleasePages:
  "isRequestOrderIDUsed (ReleasePages a k) j \<longleftrightarrow> j \<noteq> k \<and> isRequestOrderIDUsed a j"
  by (auto simp: ReleasePages_def isRequestOrderIDUsed_def Let_def split: option.splits)

lemma alloc_inv_new: "alloc_inv (newAllocator h)"
  by (simp add: alloc_inv_def newAllocator_def pages_of_def)

lemma alloc_inv_Free: "alloc_inv (Free a)"
  by (simp add: alloc_inv_def Free_def pages_of_def)

lemma alloc_inv_disjoint:
  "alloc_inv a \<Longrightarrow> p \<in> set (pages_of a j) \<Longrightarrow> p \<in> set (pages_of a k) \<Longrightarrow> j = k"
  unfolding alloc_inv_def by blast

lemma alloc_inv_ReleasePages: "alloc_inv a \<Longrightarrow> alloc_inv (ReleasePages a k)"
  using alloc_inv_disjoint [of a]
  by (auto simp: alloc_inv_def pages_of_ReleasePages available_ReleasePages)

text \<open>The page \<^verbatim>\<open>GetPage\<close> returns is in nobody's hands.\<close>

lemma GetPage_unused:
  assumes "alloc_inv a" and "GetPage a k = (p, a')"
  shows "p \<notin> set (pages_of a j)"
proof (cases "available a = []")
  case True
  with available_GetPage [OF assms(2)] have "p = heap_next a" by simp
  with assms(1) show ?thesis by (auto simp: alloc_inv_def)
next
  case False
  with available_GetPage [OF assms(2)] have "p \<in> set (available a)" by auto
  with assms(1) show ?thesis by (auto simp: alloc_inv_def)
qed

lemma alloc_inv_GetPage:
  assumes inv: "alloc_inv a" and get: "GetPage a k = (p, a')"
  shows "alloc_inv a'"
proof -
  have unused: "p \<notin> set (pages_of a j)" for j
    using GetPage_unused [OF inv get] .
  show ?thesis
  proof (cases "available a = []")
    case True
    with available_GetPage [OF get] inv unused show ?thesis
      by (auto simp: alloc_inv_def pages_of_GetPage [OF get] less_Suc_eq split: if_splits)
  next
    case False
    with available_GetPage [OF get] have av: "available a = available a' @ [p]"
      and h: "heap_next a' = heap_next a" by auto
    from inv unused show ?thesis
      by (auto simp: alloc_inv_def pages_of_GetPage [OF get] av h split: if_splits)
  qed
qed

subsection \<open>The page pool as its clients see it\<close>

text \<open>
  The packet manager and the receive loop rely on two promises of the pool only: a page that
  is handed out is held by no request, and giving a request's pages back takes nothing from
  the others. Both follow from the laws below for every state reached by the operations.
\<close>

fun pool_step :: "('s \<Rightarrow> u32 \<Rightarrow> page \<times> 's) \<Rightarrow> ('s \<Rightarrow> u32 \<Rightarrow> 's) \<Rightarrow> 's \<Rightarrow> u32 + u32 \<Rightarrow> 's" where
  "pool_step get release s (Inl k) = (case get s k of (_, s') \<Rightarrow> s')"
| "pool_step get release s (Inr k) = release s k"

text \<open>A run of a pool: a list of requests for a page (\<open>Inl\<close>) and of releases (\<open>Inr\<close>).\<close>

fun pool_run :: "('s \<Rightarrow> u32 \<Rightarrow> page \<times> 's) \<Rightarrow> ('s \<Rightarrow> u32 \<Rightarrow> 's) \<Rightarrow> 's \<Rightarrow> (u32 + u32) list \<Rightarrow> 's" where
  "pool_run get release s [] = s"
| "pool_run get release s (e # es) = pool_run get release (pool_step get release s e) es"

locale page_pool =
  fixes get :: "'s \<Rightarrow> u32 \<Rightarrow> page \<times> 's"
    and release :: "'s \<Rightarrow> u32 \<Rightarrow> 's"
    and held :: "'s \<Rightarrow> u32 \<Rightarrow> page list"
    and inv :: "'s \<Rightarrow> bool"
  assumes inv_get: "inv s \<Longrightarrow> get s k = (p, s') \<Longrightarrow> inv s'"
    and inv_release: "inv s \<Longrightarrow> inv (release s k)"
    and get_fresh: "inv s \<Longrightarrow> get s k = (p, s') \<Longrightarrow> p \<notin> set (held s j)"
    and held_get: "get s k = (p, s') \<Longrightarrow> held s' = (held s)(k := held s k @ [p])"
    and held_release: "held (release s k) = (held s)(k := [])"
begin

lemma inv_run: "inv s \<Longrightarrow> inv (pool_run get release s es)"
proof (induction es arbitrary: s)
  case (Cons e es)
  then have "inv (pool_step get release s e)"
    by (cases e) (auto intro: inv_get inv_release split: prod.split)
  with Cons.IH show ?case by simp
qed simp

lemma get_after_run_fresh:
  "inv s \<Longrightarrow> get (pool_run get release s es) k = (p, s') \<Longrightarrow>
   p \<notin> set (held (pool_run get release s es) j)"
  by (rule get_fresh [OF inv_run])

text \<open>What a request holds is not touched by the other requests' traffic.\<close>

lemma held_step_other:
  "e \<noteq> Inl j \<Longrightarrow> e \<noteq> Inr j \<Longrightarrow> held (pool_step get release s e) j = held s j"
  by (cases e) (auto simp: held_get held_release split: prod.split)

lemma held_run_other:
  "Inl j \<notin> set es \<Longrightarrow> Inr j \<notin> set es \<Longrightarrow> held (pool_run get release s es) j = held s j"
  by (induction es arbitrary: s) (auto simp: held_step_other)

end

interpretation pool: page_pool GetPage ReleasePages pages_of alloc_inv
  by unfold_locales
     (auto simp: alloc_inv_GetPage alloc_inv_ReleasePages GetPage_unused pages_of_GetPage pages_of_ReleasePages)

end
