(* ===== verification/Wire_Codec.thy ===== *)
theory Wire_Codec
  imports Page_Allocator
begin

text \<open>
  The wire format of pkgsftp/packet.go: big-endian integers and length-prefixed strings, each
  with an unsafe reader (which panics on a short buffer: \<open>None\<close>) and a safe one (which reports
  \<open>ErrShortPacket\<close>), and the framing of packets on the connection by \<^verbatim>\<open>sendPacket\<close> and
  \<^verbatim>\<open>recvPacket\<close>.

  The encoders append to a buffer, as in the source. The locale \<open>wire_codec\<close> states what a
  decoder promises about an encoder; every field type of the protocol is an interpretation,
  and the loops that read sequences of fields are treated once, inside the locale.
\<close>

subsection \<open>Integers and strings\<close>

definition marshalUint32 :: "bytes \<Rightarrow> u32 \<Rightarrow> bytes" where
  "marshalUint32 b v = b @ [ucast (drop_bit 24 v), ucast (drop_bit 16 v), ucast (drop_bit 8 v), ucast v]"

definition marshalUint64 :: "bytes \<Rightarrow> u64 \<Rightarrow> bytes" where
  "marshalUint64 b v = marshalUint32 (marshalUint32 b (ucast (drop_bit 32 v))) (ucast v)"

definition marshalString :: "bytes \<Rightarrow> string \<Rightarrow> bytes" where
  "marshalString b v = marshalUint32 b (of_nat (length v)) @ bytes_of_string v"

fun unmarshalUint32 :: "bytes \<Rightarrow> (u32 \<times> bytes) option" where
  "unmarshalUint32 (b0 # b1 # b2 # b3 # rest) =
     Some (ucast b3 OR push_bit 8 (ucast b2) OR push_bit 16 (ucast b1) OR push_bit 24 (ucast b0), rest)"
| "unmarshalUint32 _ = None"

definition unmarshalUint32Safe :: "bytes \<Rightarrow> go_error + (u32 \<times> bytes)" where
  "unmarshalUint32Safe b =
     (if length b < 4 then Inl ErrShortPacket
      else case unmarshalUint32 b of Some r \<Rightarrow> Inr r | None \<Rightarrow> Inl ErrShortPacket)"

definition unmarshalUint64 :: "bytes \<Rightarrow> (u64 \<times> bytes) option" where
  "unmarshalUint64 b =
     (case unmarshalUint32 b of None \<Rightarrow> None
      | Some (h, b) \<Rightarrow>
          (case unmarshalUint32 b of None \<Rightarrow> None
           | Some (l, b) \<Rightarrow> Some (push_bit 32 (ucast h) OR ucast l, b)))"

definition unmarshalUint64Safe :: "bytes \<Rightarrow> go_error + (u64 \<times> bytes)" where
  "unmarshalUint64Safe b =
     (if length b < 8 then Inl ErrShortPacket
      else case unmarshalUint64 b of Some r \<Rightarrow> Inr r | None \<Rightarrow> Inl ErrShortPacket)"

definition unmarshalString :: "bytes \<Rightarrow> (string \<times> bytes) option" where
  "unmarshalString b =
     (case unmarshalUint32 b of None \<Rightarrow> None
      | Some (n, b) \<Rightarrow>
          (if unat n \<le> length b then Some (string_of_bytes (take (unat n) b), drop (unat n) b) else None))"

definition unmarshalStringSafe :: "bytes \<Rightarrow> go_error + (string \<times> bytes)" where
  "unmarshalStringSafe b =
     (case unmarshalUint32Safe b of Inl e \<Rightarrow> Inl e
      | Inr (n, b) \<Rightarrow>
          (if unat n > length b then Inl ErrShortPacket
           else Inr (string_of_bytes (take (unat n) b), drop (unat n) b)))"

datatype extensionPair = ExtensionPair (ep_Name: string) (ep_Data: string)

definition unmarshalExtensionPair :: "bytes \<Rightarrow> go_error + (extensionPair \<times> bytes)" where
  "unmarshalExtensionPair b =
     (case unmarshalStringSafe b of Inl e \<Rightarrow> Inl e
      | Inr (n, b) \<Rightarrow>
          (case unmarshalStringSafe b of Inl e \<Rightarrow> Inl e
           | Inr (d, b) \<Rightarrow> Inr (ExtensionPair n d, b)))"

definition marshalExtensionPair :: "bytes \<Rightarrow> extensionPair \<Rightarrow> bytes" where
  "marshalExtensionPair b e = marshalString (marshalString b (ep_Name e)) (ep_Data e)"

text \<open>
  The loop \<^verbatim>\<open>for len(b) > 0\<close> that reads a sequence of elements until the buffer is used up or
  an element is malformed. Every successful read takes at least one byte (shown for each
  decoder below), so as many rounds as there are bytes are enough.
\<close>

fun read_all_n :: "(bytes \<Rightarrow> go_error + ('a \<times> bytes)) \<Rightarrow> nat \<Rightarrow> bytes \<Rightarrow> 'a list \<times> go_error option" where
  "read_all_n dec 0 b = ([], None)"
| "read_all_n dec (Suc n) b =
     (if b = [] then ([], None)
      else case dec b of
             Inl e \<Rightarrow> ([], Some e)
           | Inr (x, rest) \<Rightarrow> (case read_all_n dec n rest of (xs, e) \<Rightarrow> (x # xs, e)))"

definition read_all :: "(bytes \<Rightarrow> go_error + ('a \<times> bytes)) \<Rightarrow> bytes \<Rightarrow> 'a list \<times> go_error option" where
  "read_all dec b = read_all_n dec (length b) b"

subsection \<open>Framing\<close>

text \<open>\<^verbatim>\<open>copy(dst[at:], src)\<close> on slice contents: what fits is overwritten.\<close>

definition go_copy :: "'a list \<Rightarrow> nat \<Rightarrow> 'a list \<Rightarrow> 'a list" where
  "go_copy dst at src =
     (let n = min (length dst - at) (length src)
      in take at dst @ take n src @ drop (at + n) dst)"

text \<open>The bytes \<^verbatim>\<open>sendPacket\<close> hands to the connection for a marshalled packet: the packet is slid
  down four bytes to make room for the big-endian length.\<close>

definition packet_frame :: "bytes \<Rightarrow> bytes" where
  "packet_frame bb =
     (let packet = go_copy (bb @ replicate 4 0) 4 bb
      in go_copy packet 0 (marshalUint32 [] (of_nat (length bb))))"

text \<open>
  A connection as the receiver sees it: the bytes that will still arrive and the error that
  ends the stream. \<^verbatim>\<open>io.ReadFull\<close> gives the bytes it was asked for, or the error; a stream that
  ends with EOF inside the request gives \<^verbatim>\<open>io.ErrUnexpectedEOF\<close>.
\<close>

record reader =
  incoming_bytes :: bytes
  ends_with :: go_error

definition ReadFull :: "reader \<Rightarrow> nat \<Rightarrow> (go_error + bytes) \<times> reader" where
  "ReadFull r n =
     (let bs = incoming_bytes r
      in if n \<le> length bs then (Inr (take n bs), r\<lparr>incoming_bytes := drop n bs\<rparr>)
         else (Inl (if bs \<noteq> [] \<and> ends_with r = EOF then ErrUnexpectedEOF else ends_with r),
               r\<lparr>incoming_bytes := []\<rparr>))"

datatype recv_result = RecvOk byte bytes | RecvErr go_error | RecvPanic

text \<open>
  \<^verbatim>\<open>recvPacket\<close>. The length of a frame is bounded before its bytes are read; the first byte is
  the packet type. A frame of length zero has no first byte: \<^verbatim>\<open>b[0]\<close> and \<^verbatim>\<open>b[1:length]\<close> are out
  of range, a run-time panic. With the allocator enabled the buffer is a page of
  \<^verbatim>\<open>maxMsgLength\<close> bytes, taken from the pool before anything is read.
\<close>

definition recvPacket :: "reader \<Rightarrow> allocator option \<Rightarrow> u32 \<Rightarrow> recv_result \<times> reader \<times> allocator option" where
  "recvPacket r alloc orderID =
     (let alloc' = map_option (\<lambda>a. snd (GetPage a orderID)) alloc
      in case ReadFull r 4 of
           (Inl e, r) \<Rightarrow> (RecvErr e, r, alloc')
         | (Inr b, r) \<Rightarrow>
             (case unmarshalUint32 b of
                None \<Rightarrow> (RecvPanic, r, alloc')
              | Some (len, _) \<Rightarrow>
                  (if unat len > maxMsgLength then (RecvErr ErrLongPacket, r, alloc')
                   else case ReadFull r (unat len) of
                          (Inl e, r) \<Rightarrow> (RecvErr e, r, alloc')
                        | (Inr b, r) \<Rightarrow>
                            (case b of [] \<Rightarrow> (RecvPanic, r, alloc')
                             | t # d \<Rightarrow> (RecvOk t d, r, alloc')))))"

subsection \<open>What a decoder promises\<close>

locale wire_codec =
  fixes enc :: "'a \<Rightarrow> bytes"
    and dec :: "bytes \<Rightarrow> go_error + ('a \<times> bytes)"
    and ok :: "'a \<Rightarrow> bool"
  assumes dec_enc: "ok x \<Longrightarrow> dec (enc x @ rest) = Inr (x, rest)"
    and dec_exact: "dec b = Inr (x, rest) \<Longrightarrow> ok x \<and> b = enc x @ rest"
    and enc_nonempty: "enc x \<noteq> []"
    and dec_error: "dec b = Inl e \<Longrightarrow> e = ErrShortPacket"
begin

text \<open>Encodings are uniquely readable, whatever follows them.\<close>

lemma enc_unique:
  assumes "ok x" "ok y" "enc x @ r = enc y @ s"
  shows "x = y \<and> r = s"
proof -
  have "Inr (x, r) = dec (enc x @ r)" using assms(1) by (simp add: dec_enc)
  also have "\<dots> = dec (enc y @ s)" by (simp add: assms(3))
  also have "\<dots> = Inr (y, s)" using assms(2) by (simp add: dec_enc)
  finally show ?thesis by simp
qed

lemma dec_consumes: "dec b = Inr (x, rest) \<Longrightarrow> length rest < length b"
  using dec_exact [of b x rest] enc_nonempty [of x] by (auto simp: length_greater_0_conv)

lemma dec_result_iff: "dec b = Inr (x, rest) \<longleftrightarrow> ok x \<and> b = enc x @ rest"
  using dec_exact dec_enc by blast

text \<open>A buffer is refused exactly when no encoding is a prefix of it.\<close>

lemma dec_refuses_iff: "(\<exists>e. dec b = Inl e) \<longleftrightarrow> \<not> (\<exists>x rest. ok x \<and> b = enc x @ rest)"
proof (cases "dec b")
  case (Inl e)
  then show ?thesis using dec_enc by fastforce
next
  case (Inr r)
  then obtain x rest where "dec b = Inr (x, rest)" by (cases r) auto
  then show ?thesis using dec_exact by fastforce
qed

text \<open>The decoder of a sequence: read elements while bytes are left.\<close>

lemma read_all_fuel:
  assumes "length b \<le> n" "length b \<le> m"
  shows "read_all_n dec n b = read_all_n dec m b"
  using assms
proof (induction n arbitrary: b m)
  case 0
  then show ?case by (cases m) auto
next
  case (Suc n)
  show ?case
  proof (cases "b = [] \<or> m = 0")
    case True
    with Suc.prems show ?thesis by (cases m) auto
  next
    case False
    then obtain m' where m: "m = Suc m'" by (cases m) auto
    show ?thesis
    proof (cases "dec b")
      case (Inr r)
      obtain x rest where r: "r = (x, rest)" by (cases r)
      with Inr have "length rest < length b" by (simp add: dec_consumes)
      with Suc.prems m have "read_all_n dec n rest = read_all_n dec m' rest"
        by (intro Suc.IH) auto
      with Inr r m show ?thesis by simp
    qed (simp add: m)
  qed
qed

lemma read_all_Nil: "read_all dec [] = ([], None)"
  by (simp add: read_all_def)

lemma read_all_Cons:
  assumes "ok x"
  shows "read_all dec (enc x @ rest) = (case read_all dec rest of (xs, e) \<Rightarrow> (x # xs, e))"
proof -
  obtain k where k: "length (enc x @ rest) = Suc k"
    using enc_nonempty [of x] by (cases "enc x") auto
  have le: "length rest \<le> k"
    using k enc_nonempty [of x] by (cases "enc x") auto
  have "read_all dec (enc x @ rest) = read_all_n dec (Suc k) (enc x @ rest)"
    by (simp only: read_all_def k)
  also have "\<dots> = (case read_all_n dec k rest of (xs, e) \<Rightarrow> (x # xs, e))"
    using assms enc_nonempty [of x] by (simp add: dec_enc)
  also have "read_all_n dec k rest = read_all dec rest"
    unfolding read_all_def using le by (rule read_all_fuel) simp
  finally show ?thesis .
qed

lemma read_all_concat:
  "list_all ok xs \<Longrightarrow> read_all dec (concat (map enc xs)) = (xs, None)"
  by (induction xs) (auto simp: read_all_Nil read_all_Cons)

lemma read_all_n_exact:
  "length b \<le> n \<Longrightarrow> read_all_n dec n b = (xs, None) \<Longrightarrow> list_all ok xs \<and> b = concat (map enc xs)"
proof (induction n arbitrary: b xs)
  case (Suc n)
  show ?case
  proof (cases "b = []")
    case False
    with Suc.prems obtain x rest ys where x: "dec b = Inr (x, rest)"
      and ys: "read_all_n dec n rest = (ys, None)" "xs = x # ys"
      by (auto split: sum.splits prod.splits)
    from dec_consumes [OF x] Suc.prems(1) have "length rest \<le> n" by simp
    from Suc.IH [OF this ys(1)] dec_exact [OF x] ys(2) show ?thesis by simp
  qed (use Suc.prems in auto)
qed simp

lemma read_all_exact: "read_all dec b = (xs, None) \<longleftrightarrow> list_all ok xs \<and> b = concat (map enc xs)"
  unfolding read_all_def
  using read_all_n_exact [of b "length b" xs] read_all_concat [of xs]
  by (auto simp: read_all_def)

end

subsection \<open>The field types are codecs\<close>

lemma join_split_u32:
  fixes v :: u32
  shows "ucast (ucast v :: byte) OR push_bit 8 (ucast (ucast (drop_bit 8 v) :: byte)) OR
     push_bit 16 (ucast (ucast (drop_bit 16 v) :: byte)) OR
     push_bit 24 (ucast (ucast (drop_bit 24 v) :: byte)) = v"
proof (rule bit_word_eqI)
  fix n assume "n < LENGTH(32)"
  then consider "n < 8" | "8 \<le> n" "n < 16" | "16 \<le> n" "n < 24" | "24 \<le> n" "n < 32"
    by (simp add: not_less) linarith
  then show "bit (ucast (ucast v :: byte) OR push_bit 8 (ucast (ucast (drop_bit 8 v) :: byte)) OR
     push_bit 16 (ucast (ucast (drop_bit 16 v) :: byte)) OR
     push_bit 24 (ucast (ucast (drop_bit 24 v) :: byte)) :: u32) n = bit v n"
    by cases (auto simp: bit_simps)
qed

lemma split_join_u32:
  fixes b0 b1 b2 b3 :: byte
  defines "w \<equiv> (ucast b3 OR push_bit 8 (ucast b2) OR push_bit 16 (ucast b1) OR push_bit 24 (ucast b0) :: u32)"
  shows "ucast (drop_bit 24 w) = b0" "ucast (drop_bit 16 w) = b1"
    "ucast (drop_bit 8 w) = b2" "ucast w = b3"
  unfolding w_def by (rule bit_word_eqI; auto simp: bit_simps dest: bit_imp_le_length)+

lemma join_split_u64:
  fixes v :: u64
  shows "push_bit 32 (ucast (ucast (drop_bit 32 v) :: u32)) OR ucast (ucast v :: u32) = v"
proof (rule bit_word_eqI)
  fix n assume "n < LENGTH(64)"
  then consider "n < 32" | "32 \<le> n" "n < 64" by (simp add: not_less) linarith
  then show "bit (push_bit 32 (ucast (ucast (drop_bit 32 v) :: u32)) OR ucast (ucast v :: u32) :: u64) n = bit v n"
    by cases (auto simp: bit_simps)
qed

lemma split_join_u64:
  fixes h l :: u32
  defines "w \<equiv> (push_bit 32 (ucast h) OR ucast l :: u64)"
  shows "ucast (drop_bit 32 w) = h" "ucast w = l"
  unfolding w_def by (rule bit_word_eqI; auto simp: bit_simps dest: bit_imp_le_length)+

text \<open>Encoding into a buffer is appending the encoding; the condition keeps the equations from
  rewriting their own right-hand sides.\<close>

lemma marshal_nonempty [simp]:
  "marshalUint32 b v \<noteq> []" "marshalUint64 b w \<noteq> []" "marshalString b s \<noteq> []"
  by (simp_all add: marshalUint32_def marshalUint64_def marshalString_def)

lemma marshal_append [codec_simps]:
  "b \<noteq> [] \<Longrightarrow> marshalUint32 b v = b @ marshalUint32 [] v"
  "b \<noteq> [] \<Longrightarrow> marshalUint64 b w = b @ marshalUint64 [] w"
  "b \<noteq> [] \<Longrightarrow> marshalString b s = b @ marshalString [] s"
  by (simp_all add: marshalUint32_def marshalUint64_def marshalString_def)

lemma length_marshal [simp]:
  "length (marshalUint32 b v) = length b + 4"
  "length (marshalUint64 b w) = length b + 8"
  "length (marshalString b s) = length b + 4 + length s"
  by (simp_all add: marshalUint32_def marshalUint64_def marshalString_def)

lemma unmarshalUint32_marshal [simp]: "unmarshalUint32 (marshalUint32 [] v @ r) = Some (v, r)"
  by (simp add: marshalUint32_def join_split_u32)

lemma unmarshalUint32_None_iff: "unmarshalUint32 b = None \<longleftrightarrow> length b < 4"
  by (induction b rule: unmarshalUint32.induct) auto

lemma unmarshalUint32_Some:
  assumes "unmarshalUint32 b = Some (v, r)"
  shows "b = marshalUint32 [] v @ r"
proof -
  from assms obtain b0 b1 b2 b3 where b: "b = b0 # b1 # b2 # b3 # r"
    and v: "v = ucast b3 OR push_bit 8 (ucast b2) OR push_bit 16 (ucast b1) OR push_bit 24 (ucast b0)"
    by (cases b rule: unmarshalUint32.cases) auto
  show ?thesis
    unfolding b v marshalUint32_def by (simp only: split_join_u32 append.simps)
qed

lemma unmarshalUint64_marshal [simp]: "unmarshalUint64 (marshalUint64 [] v @ r) = Some (v, r)"
  by (simp add: unmarshalUint64_def marshalUint64_def marshal_append join_split_u64)

lemma unmarshalUint64_None_iff: "unmarshalUint64 b = None \<longleftrightarrow> length b < 8"
proof (cases "unmarshalUint32 b")
  case None
  then show ?thesis
    using unmarshalUint32_None_iff [of b] by (simp add: unmarshalUint64_def)
next
  case (Some r)
  then obtain v s where r: "unmarshalUint32 b = Some (v, s)" by (cases r) auto
  then have "length b = 4 + length s" by (auto dest!: unmarshalUint32_Some)
  with unmarshalUint32_None_iff [of s] show ?thesis
    by (cases "unmarshalUint32 s") (auto simp: unmarshalUint64_def r)
qed

lemma unmarshalUint64_Some:
  assumes "unmarshalUint64 b = Some (v, r)"
  shows "b = marshalUint64 [] v @ r"
proof -
  from assms obtain h l c where h: "unmarshalUint32 b = Some (h, c)"
    and l: "unmarshalUint32 c = Some (l, r)" and v: "v = push_bit 32 (ucast h) OR ucast l"
    by (auto simp: unmarshalUint64_def split: option.splits)
  have "b = marshalUint32 [] h @ marshalUint32 [] l @ r"
    using h l by (auto dest!: unmarshalUint32_Some)
  also have "\<dots> = marshalUint64 [] v @ r"
    unfolding marshalUint64_def v split_join_u64 by (simp add: marshal_append)
  finally show ?thesis .
qed

interpretation u32c: wire_codec "marshalUint32 []" unmarshalUint32Safe "\<lambda>_. True"
proof unfold_locales
  fix x rest
  show "unmarshalUint32Safe (marshalUint32 [] x @ rest) = Inr (x, rest)"
    by (simp add: unmarshalUint32Safe_def)
qed (auto simp: unmarshalUint32Safe_def marshalUint32_def dest!: unmarshalUint32_Some
      split: if_splits option.splits)

interpretation u64c: wire_codec "marshalUint64 []" unmarshalUint64Safe "\<lambda>_. True"
proof unfold_locales
  fix x rest
  show "unmarshalUint64Safe (marshalUint64 [] x @ rest) = Inr (x, rest)"
    by (simp add: unmarshalUint64Safe_def)
next
  fix b x rest
  assume "unmarshalUint64Safe b = Inr (x, rest)"
  then show "True \<and> b = marshalUint64 [] x @ rest"
    by (auto simp: unmarshalUint64Safe_def dest!: unmarshalUint64_Some split: if_splits option.splits)
qed (auto simp: unmarshalUint64Safe_def marshalUint64_def marshalUint32_def split: if_splits option.splits)

text \<open>A string whose length fits in 32 bits; every string read off the wire is one.\<close>

definition wire_string :: "string \<Rightarrow> bool" where
  "wire_string s \<longleftrightarrow> length s < 2 ^ 32"

lemma unat_length_wire: "wire_string s \<Longrightarrow> unat (of_nat (length s) :: u32) = length s"
  by (simp add: wire_string_def unat_of_nat)

interpretation strc: wire_codec "marshalString []" unmarshalStringSafe wire_string
proof unfold_locales
  fix x rest
  assume "wire_string x"
  then show "unmarshalStringSafe (marshalString [] x @ rest) = Inr (x, rest)"
    by (simp add: unmarshalStringSafe_def marshalString_def u32c.dec_enc unat_length_wire)
next
  fix b x rest
  assume "unmarshalStringSafe b = Inr (x, rest)"
  then obtain n c where n: "unmarshalUint32Safe b = Inr (n, c)" and le: "unat n \<le> length c"
    and x: "x = string_of_bytes (take (unat n) c)" and rest: "rest = drop (unat n) c"
    by (auto simp: unmarshalStringSafe_def split: sum.splits if_splits)
  have len: "length x = unat n" using le x by simp
  then have "wire_string x" using unsigned_less [of n] by (simp add: wire_string_def)
  moreover from n have "b = marshalUint32 [] n @ c" by (simp add: u32c.dec_result_iff)
  ultimately show "wire_string x \<and> b = marshalString [] x @ rest"
    by (simp add: marshalString_def len rest) (simp add: x)
qed (auto simp: unmarshalStringSafe_def marshalString_def marshalUint32_def
      split: sum.splits if_splits dest: u32c.dec_error)

definition wire_pair :: "extensionPair \<Rightarrow> bool" where
  "wire_pair e \<longleftrightarrow> wire_string (ep_Name e) \<and> wire_string (ep_Data e)"

interpretation extc: wire_codec "marshalExtensionPair []" unmarshalExtensionPair wire_pair
proof unfold_locales
  fix x rest
  assume "wire_pair x"
  then show "unmarshalExtensionPair (marshalExtensionPair [] x @ rest) = Inr (x, rest)"
    by (cases x)
       (simp add: unmarshalExtensionPair_def marshalExtensionPair_def wire_pair_def
         marshal_append strc.dec_enc)
next
  fix b x rest
  assume "unmarshalExtensionPair b = Inr (x, rest)"
  then obtain n d c where "unmarshalStringSafe b = Inr (n, c)" "unmarshalStringSafe c = Inr (d, rest)"
    "x = ExtensionPair n d"
    by (auto simp: unmarshalExtensionPair_def split: sum.splits)
  then show "wire_pair x \<and> b = marshalExtensionPair [] x @ rest"
    by (simp add: strc.dec_result_iff wire_pair_def marshalExtensionPair_def marshal_append)
qed (auto simp: unmarshalExtensionPair_def marshalExtensionPair_def marshalString_def marshalUint32_def
      split: sum.splits dest: strc.dec_error)

lemmas codec_read [codec_simps] =
  u32c.dec_enc [simplified] u64c.dec_enc [simplified] strc.dec_enc extc.dec_enc

lemma unmarshalString_marshal [codec_simps]:
  "wire_string s \<Longrightarrow> unmarshalString (marshalString [] s @ r) = Some (s, r)"
  by (simp add: unmarshalString_def marshalString_def unat_length_wire)

subsection \<open>Frames\<close>

lemma go_copy_fits:
  "at + length src \<le> length dst \<Longrightarrow> go_copy dst at src = take at dst @ src @ drop (at + length src) dst"
  by (simp add: go_copy_def Let_def min_absorb2)

lemma packet_frame_eq: "packet_frame bb = marshalUint32 [] (of_nat (length bb)) @ bb"
  by (simp add: packet_frame_def Let_def go_copy_fits)

lemma unat_length_frame:
  "length bb < 2 ^ 32 \<Longrightarrow> unat (of_nat (length bb) :: u32) = length bb"
  by (simp add: unat_of_nat)

lemma ReadFull_append:
  "incoming_bytes r = bs @ rest \<Longrightarrow> n = length bs \<Longrightarrow>
   ReadFull r n = (Inr bs, r\<lparr>incoming_bytes := rest\<rparr>)"
  by (simp add: ReadFull_def Let_def)

lemma ReadFull_length: "ReadFull r n = (Inr b, r') \<Longrightarrow> length b = n"
  by (auto simp: ReadFull_def Let_def split: if_splits)

text \<open>What the length field of a frame makes the receiver do.\<close>

lemma recvPacket_header:
  assumes "incoming_bytes r = marshalUint32 [] len @ body"
  shows "recvPacket r alloc oid =
    (let alloc' = map_option (\<lambda>a. snd (GetPage a oid)) alloc; r' = r\<lparr>incoming_bytes := body\<rparr>
     in if unat len > maxMsgLength then (RecvErr ErrLongPacket, r', alloc')
        else case ReadFull r' (unat len) of
               (Inl e, r) \<Rightarrow> (RecvErr e, r, alloc')
             | (Inr b, r) \<Rightarrow> (case b of [] \<Rightarrow> (RecvPanic, r, alloc') | t # d \<Rightarrow> (RecvOk t d, r, alloc')))"
proof -
  have "ReadFull r 4 = (Inr (marshalUint32 [] len), r\<lparr>incoming_bytes := body\<rparr>)"
    using assms by (rule ReadFull_append) simp
  moreover have "unmarshalUint32 (marshalUint32 [] len) = Some (len, [])"
    using unmarshalUint32_marshal [of len "[]"] by simp
  ultimately show ?thesis
    by (simp add: recvPacket_def Let_def)
qed

lemma recvPacket_frame:
  assumes "0 < length bb" and "length bb \<le> maxMsgLength"
    and "incoming_bytes r = packet_frame bb @ rest"
  shows "recvPacket r alloc oid =
    (RecvOk (hd bb) (tl bb), r\<lparr>incoming_bytes := rest\<rparr>, map_option (\<lambda>a. snd (GetPage a oid)) alloc)"
proof -
  have in_bytes: "incoming_bytes r = marshalUint32 [] (of_nat (length bb)) @ bb @ rest"
    using assms(3) by (simp add: packet_frame_eq)
  have len: "unat (of_nat (length bb) :: u32) = length bb"
    using assms(2) by (intro unat_length_frame) (simp add: maxMsgLength_def)
  have "ReadFull (r\<lparr>incoming_bytes := bb @ rest\<rparr>) (length bb) = (Inr bb, r\<lparr>incoming_bytes := rest\<rparr>)"
    by (subst ReadFull_append [where bs = bb and rest = rest]) auto
  then show ?thesis
    using assms(1,2) unfolding recvPacket_header [OF in_bytes] Let_def len
    by (cases bb) auto
qed

text \<open>
  What one side sends, the other receives. A packet of 1 to 256 KiB, framed by
  \<^verbatim>\<open>sendPacket\<close>, is delivered by \<^verbatim>\<open>recvPacket\<close> as its type byte and its payload, and the stream
  is left exactly behind the frame, whatever follows it and whether or not pages are pooled.
\<close>

theorem recvPacket_of_frame:
  assumes "0 < length bb" and "length bb \<le> maxMsgLength"
    and "incoming_bytes r = packet_frame bb @ rest"
  shows "recvPacket r alloc oid =
    (RecvOk (hd bb) (tl bb), r\<lparr>incoming_bytes := rest\<rparr>, map_option (\<lambda>a. snd (GetPage a oid)) alloc)"
  using assms by (rule recvPacket_frame)

text \<open>The witness: a three-byte packet followed by two more bytes.\<close>

theorem recvPacket_of_frame_witness:
  "recvPacket \<lparr>incoming_bytes = packet_frame [5, 7, 9] @ [1, 2], ends_with = EOF\<rparr> None 1 =
     (RecvOk 5 [7, 9], \<lparr>incoming_bytes = [1, 2], ends_with = EOF\<rparr>, None)"
  using recvPacket_of_frame [of "[5, 7, 9]" "\<lparr>incoming_bytes = packet_frame [5, 7, 9] @ [1, 2], ends_with = EOF\<rparr>" "[1, 2]" None 1]
  by (simp add: maxMsgLength_def)

text \<open>
  C38: the receiver's bounds. A packet that is delivered has at most 256 KiB including its
  type byte, and the only inputs that make \<^verbatim>\<open>recvPacket\<close> panic are streams that start with a
  frame of length zero: a peer that sends four zero bytes stops the process.
\<close>

theorem recvPacket_bounds_and_panic:
  "case fst (recvPacket r alloc oid) of
     RecvOk t d \<Rightarrow> Suc (length d) \<le> maxMsgLength \<and> take 4 (incoming_bytes r) \<noteq> [0, 0, 0, 0]
   | RecvErr e \<Rightarrow> take 4 (incoming_bytes r) \<noteq> [0, 0, 0, 0]
   | RecvPanic \<Rightarrow> take 4 (incoming_bytes r) = [0, 0, 0, 0]"
proof (cases "unmarshalUint32 (incoming_bytes r)")
  case None
  then have short: "length (incoming_bytes r) < 4" by (simp add: unmarshalUint32_None_iff)
  have "take 4 (incoming_bytes r) \<noteq> [0, 0, 0, 0]"
  proof
    assume "take 4 (incoming_bytes r) = [0, 0, 0, 0]"
    from arg_cong [OF this, of length] short show False by simp
  qed
  with short show ?thesis by (simp add: recvPacket_def ReadFull_def Let_def)
next
  case (Some x)
  then obtain len body where "unmarshalUint32 (incoming_bytes r) = Some (len, body)" by (cases x) auto
  then have in_bytes: "incoming_bytes r = marshalUint32 [] len @ body" by (rule unmarshalUint32_Some)
  have zero: "take 4 (incoming_bytes r) = [0, 0, 0, 0] \<longleftrightarrow> len = 0"
  proof
    assume "take 4 (incoming_bytes r) = [0, 0, 0, 0]"
    then have "marshalUint32 [] len = marshalUint32 [] 0" by (simp add: in_bytes marshalUint32_def)
    then show "len = 0" using u32c.enc_unique [where x = len and y = 0 and r = "[]" and s = "[]"] by simp
  qed (simp add: in_bytes marshalUint32_def)
  show ?thesis
    unfolding recvPacket_header [OF in_bytes] zero Let_def
    by (auto split: prod.splits sum.splits list.splits dest!: ReadFull_length simp: unat_eq_0)
       (auto simp: ReadFull_def Let_def unat_eq_0 split: if_splits)
qed

text \<open>
  An announced length over 256 KiB is refused before any of the body is read, so a
  peer cannot make the receiver allocate or wait for more than that.
\<close>

theorem recvPacket_refuses_long:
  assumes "maxMsgLength < unat len" and "incoming_bytes r = marshalUint32 [] len @ body"
  shows "fst (recvPacket r alloc oid) = RecvErr ErrLongPacket \<and>
         incoming_bytes (fst (snd (recvPacket r alloc oid))) = body"
  using assms(1) unfolding recvPacket_header [OF assms(2)] by (simp add: Let_def)

theorem recvPacket_refuses_long_witness:
  "fst (recvPacket \<lparr>incoming_bytes = marshalUint32 [] 300000 @ [9], ends_with = EOF\<rparr> None 1) = RecvErr ErrLongPacket \<and>
   incoming_bytes (fst (snd (recvPacket \<lparr>incoming_bytes = marshalUint32 [] 300000 @ [9], ends_with = EOF\<rparr> None 1))) = [9]"
  by (rule recvPacket_refuses_long) (simp_all add: maxMsgLength_def)

end
