(* ===== verification/Sftp_Protocol.thy ===== *)
theory Sftp_Protocol
  imports Wire_Codec
begin

text \<open>
  The protocol vocabulary of pkgsftp/sftp.go and pkgsftp/request-errors.go: packet types, status
  codes, open flags, their printed names, the texts of the error values, and the list of
  protocol extensions the server announces, which \<^verbatim>\<open>SetSFTPExtensions\<close> may replace.
\<close>

subsection \<open>Packet types, status codes, open flags\<close>

abbreviation sshFxpInit :: byte where "sshFxpInit \<equiv> 1"
abbreviation sshFxpVersion :: byte where "sshFxpVersion \<equiv> 2"
abbreviation sshFxpOpen :: byte where "sshFxpOpen \<equiv> 3"
abbreviation sshFxpClose :: byte where "sshFxpClose \<equiv> 4"
abbreviation sshFxpRead :: byte where "sshFxpRead \<equiv> 5"
abbreviation sshFxpWrite :: byte where "sshFxpWrite \<equiv> 6"
abbreviation sshFxpLstat :: byte where "sshFxpLstat \<equiv> 7"
abbreviation sshFxpFstat :: byte where "sshFxpFstat \<equiv> 8"
abbreviation sshFxpSetstat :: byte where "sshFxpSetstat \<equiv> 9"
abbreviation sshFxpFsetstat :: byte where "sshFxpFsetstat \<equiv> 10"
abbreviation sshFxpOpendir :: byte where "sshFxpOpendir \<equiv> 11"
abbreviation sshFxpReaddir :: byte where "sshFxpReaddir \<equiv> 12"
abbreviation sshFxpRemove :: byte where "sshFxpRemove \<equiv> 13"
abbreviation sshFxpMkdir :: byte where "sshFxpMkdir \<equiv> 14"
abbreviation sshFxpRmdir :: byte where "sshFxpRmdir \<equiv> 15"
abbreviation sshFxpRealpath :: byte where "sshFxpRealpath \<equiv> 16"
abbreviation sshFxpStat :: byte where "sshFxpStat \<equiv> 17"
abbreviation sshFxpRename :: byte where "sshFxpRename \<equiv> 18"
abbreviation sshFxpReadlink :: byte where "sshFxpReadlink \<equiv> 19"
abbreviation sshFxpSymlink :: byte where "sshFxpSymlink \<equiv> 20"
abbreviation sshFxpStatus :: byte where "sshFxpStatus \<equiv> 101"
abbreviation sshFxpHandle :: byte where "sshFxpHandle \<equiv> 102"
abbreviation sshFxpData :: byte where "sshFxpData \<equiv> 103"
abbreviation sshFxpName :: byte where "sshFxpName \<equiv> 104"
abbreviation sshFxpAttrs :: byte where "sshFxpAttrs \<equiv> 105"
abbreviation sshFxpExtended :: byte where "sshFxpExtended \<equiv> 200"
abbreviation sshFxpExtendedReply :: byte where "sshFxpExtendedReply \<equiv> 201"

abbreviation sshFxOk :: u32 where "sshFxOk \<equiv> 0"
abbreviation sshFxEOF :: u32 where "sshFxEOF \<equiv> 1"
abbreviation sshFxNoSuchFile :: u32 where "sshFxNoSuchFile \<equiv> 2"
abbreviation sshFxPermissionDenied :: u32 where "sshFxPermissionDenied \<equiv> 3"
abbreviation sshFxFailure :: u32 where "sshFxFailure \<equiv> 4"
abbreviation sshFxBadMessage :: u32 where "sshFxBadMessage \<equiv> 5"
abbreviation sshFxNoConnection :: u32 where "sshFxNoConnection \<equiv> 6"
abbreviation sshFxConnectionLost :: u32 where "sshFxConnectionLost \<equiv> 7"
abbreviation sshFxOPUnsupported :: u32 where "sshFxOPUnsupported \<equiv> 8"
abbreviation sshFxInvalidHandle :: u32 where "sshFxInvalidHandle \<equiv> 9"
abbreviation sshFxNoSuchPath :: u32 where "sshFxNoSuchPath \<equiv> 10"
abbreviation sshFxFileAlreadyExists :: u32 where "sshFxFileAlreadyExists \<equiv> 11"
abbreviation sshFxWriteProtect :: u32 where "sshFxWriteProtect \<equiv> 12"
abbreviation sshFxNoMedia :: u32 where "sshFxNoMedia \<equiv> 13"
abbreviation sshFxNoSpaceOnFilesystem :: u32 where "sshFxNoSpaceOnFilesystem \<equiv> 14"
abbreviation sshFxQuotaExceeded :: u32 where "sshFxQuotaExceeded \<equiv> 15"
abbreviation sshFxUnlnownPrincipal :: u32 where "sshFxUnlnownPrincipal \<equiv> 16"
abbreviation sshFxLockConflict :: u32 where "sshFxLockConflict \<equiv> 17"
abbreviation sshFxDitNotEmpty :: u32 where "sshFxDitNotEmpty \<equiv> 18"
abbreviation sshFxNotADirectory :: u32 where "sshFxNotADirectory \<equiv> 19"
abbreviation sshFxInvalidFilename :: u32 where "sshFxInvalidFilename \<equiv> 20"
abbreviation sshFxLinkLoop :: u32 where "sshFxLinkLoop \<equiv> 21"
abbreviation sshFxCannotDelete :: u32 where "sshFxCannotDelete \<equiv> 22"
abbreviation sshFxInvalidParameter :: u32 where "sshFxInvalidParameter \<equiv> 23"
abbreviation sshFxFileIsADirectory :: u32 where "sshFxFileIsADirectory \<equiv> 24"
abbreviation sshFxByteRangeLockConflict :: u32 where "sshFxByteRangeLockConflict \<equiv> 25"
abbreviation sshFxByteRangeLockRefused :: u32 where "sshFxByteRangeLockRefused \<equiv> 26"
abbreviation sshFxDeletePending :: u32 where "sshFxDeletePending \<equiv> 27"
abbreviation sshFxFileCorrupt :: u32 where "sshFxFileCorrupt \<equiv> 28"
abbreviation sshFxOwnerInvalid :: u32 where "sshFxOwnerInvalid \<equiv> 29"
abbreviation sshFxGroupInvalid :: u32 where "sshFxGroupInvalid \<equiv> 30"
abbreviation sshFxNoMatchingByteRangeLock :: u32 where "sshFxNoMatchingByteRangeLock \<equiv> 31"

abbreviation sshFxfRead :: u32 where "sshFxfRead \<equiv> 1"
abbreviation sshFxfWrite :: u32 where "sshFxfWrite \<equiv> 2"
abbreviation sshFxfAppend :: u32 where "sshFxfAppend \<equiv> 4"
abbreviation sshFxfCreat :: u32 where "sshFxfCreat \<equiv> 8"
abbreviation sshFxfTrunc :: u32 where "sshFxfTrunc \<equiv> 16"
abbreviation sshFxfExcl :: u32 where "sshFxfExcl \<equiv> 32"

definition sftpProtocolVersion :: u32 where
  "sftpProtocolVersion = 3"

text \<open>The names of packet types (\<^verbatim>\<open>fxp.String\<close>) and of status codes (\<^verbatim>\<open>fx.String\<close>; the code is a
  \<^verbatim>\<open>uint8\<close> there, so a 32-bit code is cut to its low byte first).\<close>

definition fxp_String :: "byte \<Rightarrow> string" where
  "fxp_String f =
     (if f = sshFxpInit then ''SSH_FXP_INIT'' else
      if f = sshFxpVersion then ''SSH_FXP_VERSION'' else
      if f = sshFxpOpen then ''SSH_FXP_OPEN'' else
      if f = sshFxpClose then ''SSH_FXP_CLOSE'' else
      if f = sshFxpRead then ''SSH_FXP_READ'' else
      if f = sshFxpWrite then ''SSH_FXP_WRITE'' else
      if f = sshFxpLstat then ''SSH_FXP_LSTAT'' else
      if f = sshFxpFstat then ''SSH_FXP_FSTAT'' else
      if f = sshFxpSetstat then ''SSH_FXP_SETSTAT'' else
      if f = sshFxpFsetstat then ''SSH_FXP_FSETSTAT'' else
      if f = sshFxpOpendir then ''SSH_FXP_OPENDIR'' else
      if f = sshFxpReaddir then ''SSH_FXP_READDIR'' else
      if f = sshFxpRemove then ''SSH_FXP_REMOVE'' else
      if f = sshFxpMkdir then ''SSH_FXP_MKDIR'' else
      if f = sshFxpRmdir then ''SSH_FXP_RMDIR'' else
      if f = sshFxpRealpath then ''SSH_FXP_REALPATH'' else
      if f = sshFxpStat then ''SSH_FXP_STAT'' else
      if f = sshFxpRename then ''SSH_FXP_RENAME'' else
      if f = sshFxpReadlink then ''SSH_FXP_READLINK'' else
      if f = sshFxpSymlink then ''SSH_FXP_SYMLINK'' else
      if f = sshFxpStatus then ''SSH_FXP_STATUS'' else
      if f = sshFxpHandle then ''SSH_FXP_HANDLE'' else
      if f = sshFxpData then ''SSH_FXP_DATA'' else
      if f = sshFxpName then ''SSH_FXP_NAME'' else
      if f = sshFxpAttrs then ''SSH_FXP_ATTRS'' else
      if f = sshFxpExtended then ''SSH_FXP_EXTENDED'' else
      if f = sshFxpExtendedReply then ''SSH_FXP_EXTENDED_REPLY'' else
      ''unknown'')"

definition fx_String :: "byte \<Rightarrow> string" where
  "fx_String f =
     (if f = 0 then ''SSH_FX_OK'' else
      if f = 1 then ''SSH_FX_EOF'' else
      if f = 2 then ''SSH_FX_NO_SUCH_FILE'' else
      if f = 3 then ''SSH_FX_PERMISSION_DENIED'' else
      if f = 4 then ''SSH_FX_FAILURE'' else
      if f = 5 then ''SSH_FX_BAD_MESSAGE'' else
      if f = 6 then ''SSH_FX_NO_CONNECTION'' else
      if f = 7 then ''SSH_FX_CONNECTION_LOST'' else
      if f = 8 then ''SSH_FX_OP_UNSUPPORTED'' else
      ''unknown'')"

text \<open>The text of an \<^verbatim>\<open>fxerr\<close> (request-errors.go).\<close>

definition fxerr_Error :: "u32 \<Rightarrow> string" where
  "fxerr_Error e =
     (if e = sshFxOk then ''OK'' else
      if e = sshFxEOF then ''EOF'' else
      if e = sshFxNoSuchFile then ''No Such File'' else
      if e = sshFxPermissionDenied then ''Permission Denied'' else
      if e = sshFxBadMessage then ''Bad Message'' else
      if e = sshFxNoConnection then ''No Connection'' else
      if e = sshFxConnectionLost then ''Connection Lost'' else
      if e = sshFxOPUnsupported then ''Operation Unsupported'' else
      ''Failure'')"

abbreviation ErrSSHFxOpUnsupported :: go_error where
  "ErrSSHFxOpUnsupported \<equiv> FxErr sshFxOPUnsupported"

subsection \<open>Error texts\<close>

text \<open>
  \<^verbatim>\<open>strconv.Quote\<close> as the \<^verbatim>\<open>%q\<close> verb uses it, for strings of ASCII characters. (Go also keeps
  printable characters beyond ASCII; they are written as \<^verbatim>\<open>\x\<close> escapes here.)
\<close>

definition hex_digit :: "nat \<Rightarrow> char" where
  "hex_digit n = (if n < 10 then char_of (48 + n) else char_of (87 + n))"

definition quote_char :: "char \<Rightarrow> string" where
  "quote_char c =
     (let n = (of_char c :: nat)
      in if n = 34 \<or> n = 92 then [char_of (92::nat), c]
         else if 32 \<le> n \<and> n < 127 then [c]
         else if n = 7 then [char_of (92::nat), CHR ''a'']
         else if n = 8 then [char_of (92::nat), CHR ''b'']
         else if n = 12 then [char_of (92::nat), CHR ''f'']
         else if n = 10 then [char_of (92::nat), CHR ''n'']
         else if n = 13 then [char_of (92::nat), CHR ''r'']
         else if n = 9 then [char_of (92::nat), CHR ''t'']
         else if n = 11 then [char_of (92::nat), CHR ''v'']
         else [char_of (92::nat), CHR ''x'', hex_digit (n div 16), hex_digit (n mod 16)])"

definition go_quote :: "string \<Rightarrow> string" where
  "go_quote s = char_of (34::nat) # concat (map quote_char s) @ [char_of (34::nat)]"

definition decimal :: "u32 \<Rightarrow> string" where
  "decimal v = digits_of (unat v)"

text \<open>The \<^verbatim>\<open>Error\<close> method of every error value of the model.\<close>

fun err_Error :: "go_error \<Rightarrow> string" where
  "err_Error (Errno _ t) = t"
| "err_Error (PathError op path e) = op @ '' '' @ path @ '': '' @ err_Error e"
| "err_Error (LinkError op old new e) = op @ '' '' @ old @ '' '' @ new @ '': '' @ err_Error e"
| "err_Error (FxErr c) = fxerr_Error c"
| "err_Error (StatusErr code m _) = ''sftp: '' @ go_quote m @ '' ('' @ fx_String (ucast code) @ '')''"
| "err_Error EOF = ''EOF''"
| "err_Error ErrUnexpectedEOF = ''unexpected EOF''"
| "err_Error ErrNotExist = ''file does not exist''"
| "err_Error ErrExist = ''file already exists''"
| "err_Error ErrInvalid = ''invalid argument''"
| "err_Error ErrShortPacket = ''packet too short''"
| "err_Error ErrLongPacket = ''packet too long''"
| "err_Error ErrUnknownExtendedPacket = ''unknown extended packet''"
| "err_Error ErrBadPattern = ''syntax error in pattern''"
| "err_Error (UnexpectedPacketErr want got) =
     ''sftp: unexpected packet: want '' @ fxp_String want @ '', got '' @ fxp_String got"
| "err_Error (UnexpectedIDErr want got) =
     ''sftp: unexpected id: want '' @ decimal want @ '', got '' @ decimal got"
| "err_Error (UnexpectedVersionErr want got) =
     ''sftp: unexpected server version: want '' @ decimal want @ '', got '' @ decimal got"
| "err_Error (UnimplementedPacketErr t) = ''sftp: unimplemented packet type: got '' @ fxp_String t"
| "err_Error (Wrapped m e) = m @ '': '' @ err_Error e"
| "err_Error (ErrText t) = t"

definition unexpectedCount :: "u32 \<Rightarrow> u32 \<Rightarrow> go_error" where
  "unexpectedCount want got =
     ErrText (''sftp: unexpected count: want '' @ decimal want @ '', got '' @ decimal got)"

definition unimplementedSeekWhence :: "int \<Rightarrow> go_error" where
  "unimplementedSeekWhence whence = ErrText (''sftp: unimplemented seek whence '' @ Itoa whence)"

subsection \<open>Extensions\<close>

definition supportedSFTPExtensions :: "extensionPair list" where
  "supportedSFTPExtensions =
     [ExtensionPair ''hardlink@openssh.com'' ''1'', ExtensionPair ''posix-rename@openssh.com'' ''1'']"

text \<open>The loop of \<^verbatim>\<open>getSupportedExtensionByName\<close>: the first entry with that name.\<close>

fun find_extension :: "extensionPair list \<Rightarrow> string \<Rightarrow> extensionPair option" where
  "find_extension [] n = None"
| "find_extension (e # es) n = (if ep_Name e = n then Some e else find_extension es n)"

definition getSupportedExtensionByName :: "string \<Rightarrow> go_error + extensionPair" where
  "getSupportedExtensionByName extensionName =
     (case find_extension supportedSFTPExtensions extensionName of
        Some e \<Rightarrow> Inr e
      | None \<Rightarrow> Inl (ErrText (''Unsupported extension: '' @ extensionName)))"

fun collect_extensions :: "string list \<Rightarrow> go_error + extensionPair list" where
  "collect_extensions [] = Inr []"
| "collect_extensions (x # xs) =
     (case getSupportedExtensionByName x of
        Inl e \<Rightarrow> Inl e
      | Inr p \<Rightarrow> (case collect_extensions xs of Inl e \<Rightarrow> Inl e | Inr ps \<Rightarrow> Inr (p # ps)))"

text \<open>\<^verbatim>\<open>SetSFTPExtensions\<close> on the package variable \<^verbatim>\<open>sftpExtensions\<close>: the new value, and the error.\<close>

definition SetSFTPExtensions :: "extensionPair list \<Rightarrow> string list \<Rightarrow> extensionPair list \<times> go_error option" where
  "SetSFTPExtensions sftpExtensions extensions =
     (case collect_extensions extensions of
        Inl e \<Rightarrow> (sftpExtensions, Some e)
      | Inr temp \<Rightarrow> (temp, None))"

subsection \<open>Facts\<close>

lemma collect_extensions_Inr:
  "collect_extensions xs = Inr ps \<Longrightarrow> map ep_Name ps = xs \<and> set ps \<subseteq> set supportedSFTPExtensions"
  by (induction xs arbitrary: ps)
     (auto simp: getSupportedExtensionByName_def supportedSFTPExtensions_def split: sum.splits option.splits if_splits)

lemma collect_extensions_Inl_iff:
  "(\<exists>e. collect_extensions xs = Inl e) \<longleftrightarrow> \<not> set xs \<subseteq> ep_Name ` set supportedSFTPExtensions"
  by (induction xs)
     (auto simp: getSupportedExtensionByName_def supportedSFTPExtensions_def split: sum.splits option.splits if_splits)

text \<open>
  \<^verbatim>\<open>SetSFTPExtensions\<close> is all or nothing. If every requested name is supported the announced
  list becomes exactly the requested names, in that order, each with its supported entry; if one
  is not, the error is reported and the announced list is unchanged.
\<close>

theorem SetSFTPExtensions_all_or_nothing:
  "if set names \<subseteq> ep_Name ` set supportedSFTPExtensions
   then \<exists>new. SetSFTPExtensions old names = (new, None) \<and> map ep_Name new = names \<and>
          set new \<subseteq> set supportedSFTPExtensions
   else \<exists>e. SetSFTPExtensions old names = (old, Some e)"
  using collect_extensions_Inl_iff [of names] collect_extensions_Inr [of names]
  by (cases "collect_extensions names") (auto simp: SetSFTPExtensions_def)

end
