(* ===== verification/File_Attrs.thy ===== *)
theory File_Attrs
  imports Sftp_Protocol
begin

text \<open>
  File attributes (pkgsftp/attrs.go, attrs_unix.go): the record \<^verbatim>\<open>FileStat\<close>, its variable wire
  format selected by a flag word, the two translations between POSIX mode bits and Go's
  \<^verbatim>\<open>os.FileMode\<close>, and the \<^verbatim>\<open>ls -l\<close> type word of server.go.
\<close>

subsection \<open>Flags and mode bits\<close>

abbreviation sshFileXferAttrSize :: u32 where "sshFileXferAttrSize \<equiv> 1"
abbreviation sshFileXferAttrUIDGID :: u32 where "sshFileXferAttrUIDGID \<equiv> 2"
abbreviation sshFileXferAttrPermissions :: u32 where "sshFileXferAttrPermissions \<equiv> 4"
abbreviation sshFileXferAttrACmodTime :: u32 where "sshFileXferAttrACmodTime \<equiv> 8"
abbreviation sshFileXferAttrExtented :: u32 where "sshFileXferAttrExtented \<equiv> 0x80000000"

text \<open>The bits of \<^verbatim>\<open>os.FileMode\<close> and of the POSIX mode (package \<^verbatim>\<open>syscall\<close>, linux).\<close>

abbreviation ModeDir :: u32 where "ModeDir \<equiv> 0x80000000"
abbreviation ModeSymlink :: u32 where "ModeSymlink \<equiv> 0x8000000"
abbreviation ModeDevice :: u32 where "ModeDevice \<equiv> 0x4000000"
abbreviation ModeNamedPipe :: u32 where "ModeNamedPipe \<equiv> 0x2000000"
abbreviation ModeSocket :: u32 where "ModeSocket \<equiv> 0x1000000"
abbreviation ModeSetuid :: u32 where "ModeSetuid \<equiv> 0x800000"
abbreviation ModeSetgid :: u32 where "ModeSetgid \<equiv> 0x400000"
abbreviation ModeCharDevice :: u32 where "ModeCharDevice \<equiv> 0x200000"
abbreviation ModeSticky :: u32 where "ModeSticky \<equiv> 0x100000"
abbreviation ModeIrregular :: u32 where "ModeIrregular \<equiv> 0x80000"
abbreviation ModeType :: u32 where "ModeType \<equiv> 0x8F280000"
abbreviation ModePerm :: u32 where "ModePerm \<equiv> 0x1FF"

abbreviation S_IFMT :: u32 where "S_IFMT \<equiv> 0xF000"
abbreviation S_IFSOCK :: u32 where "S_IFSOCK \<equiv> 0xC000"
abbreviation S_IFLNK :: u32 where "S_IFLNK \<equiv> 0xA000"
abbreviation S_IFREG :: u32 where "S_IFREG \<equiv> 0x8000"
abbreviation S_IFBLK :: u32 where "S_IFBLK \<equiv> 0x6000"
abbreviation S_IFDIR :: u32 where "S_IFDIR \<equiv> 0x4000"
abbreviation S_IFCHR :: u32 where "S_IFCHR \<equiv> 0x2000"
abbreviation S_IFIFO :: u32 where "S_IFIFO \<equiv> 0x1000"
abbreviation S_ISUID :: u32 where "S_ISUID \<equiv> 0x800"
abbreviation S_ISGID :: u32 where "S_ISGID \<equiv> 0x400"
abbreviation S_ISVTX :: u32 where "S_ISVTX \<equiv> 0x200"

definition type_to_mode :: "u32 \<Rightarrow> u32" where
  "type_to_mode t =
     (if t = S_IFBLK then ModeDevice
      else if t = S_IFCHR then ModeDevice OR ModeCharDevice
      else if t = S_IFDIR then ModeDir
      else if t = S_IFIFO then ModeNamedPipe
      else if t = S_IFLNK then ModeSymlink
      else if t = S_IFREG then 0
      else if t = S_IFSOCK then ModeSocket
      else 0)"

definition toFileMode :: "u32 \<Rightarrow> u32" where
  "toFileMode mode =
     (let fm = mode AND 0x1FF;
          fm = fm OR type_to_mode (mode AND S_IFMT);
          fm = (if mode AND S_ISGID \<noteq> 0 then fm OR ModeSetgid else fm);
          fm = (if mode AND S_ISUID \<noteq> 0 then fm OR ModeSetuid else fm);
          fm = (if mode AND S_ISVTX \<noteq> 0 then fm OR ModeSticky else fm)
      in fm)"

definition fromFileMode :: "u32 \<Rightarrow> u32" where
  "fromFileMode mode =
     (let ret = 0;
          ret = (if mode AND ModeDevice \<noteq> 0
                 then (if mode AND ModeCharDevice \<noteq> 0 then ret OR S_IFCHR else ret OR S_IFBLK)
                 else ret);
          ret = (if mode AND ModeDir \<noteq> 0 then ret OR S_IFDIR else ret);
          ret = (if mode AND ModeSymlink \<noteq> 0 then ret OR S_IFLNK else ret);
          ret = (if mode AND ModeNamedPipe \<noteq> 0 then ret OR S_IFIFO else ret);
          ret = (if mode AND ModeSetgid \<noteq> 0 then ret OR S_ISGID else ret);
          ret = (if mode AND ModeSetuid \<noteq> 0 then ret OR S_ISUID else ret);
          ret = (if mode AND ModeSticky \<noteq> 0 then ret OR S_ISVTX else ret);
          ret = (if mode AND ModeSocket \<noteq> 0 then ret OR S_IFSOCK else ret);
          ret = (if mode AND ModeType = 0 then ret OR S_IFREG else ret)
      in ret OR (mode AND ModePerm))"

subsection \<open>Records\<close>

datatype StatExtended = StatExtended (ExtType: string) (ExtData: string)

record FileStat =
  fs_Size :: u64
  fs_Mode :: u32
  fs_Mtime :: u32
  fs_Atime :: u32
  fs_UID :: u32
  fs_GID :: u32
  fs_Extended :: "StatExtended list"

definition zeroFileStat :: FileStat where
  "zeroFileStat = \<lparr>fs_Size = 0, fs_Mode = 0, fs_Mtime = 0, fs_Atime = 0, fs_UID = 0, fs_GID = 0, fs_Extended = []\<rparr>"

text \<open>
  What \<^verbatim>\<open>os.FileInfo.Sys()\<close> holds: nothing, the \<^verbatim>\<open>*syscall.Stat_t\<close> of a local file (link
  count, owner, group), the \<^verbatim>\<open>*FileStat\<close> of a remote one, or something else.
\<close>

datatype sys_info = SysNil | SysStatT u64 u32 u32 | SysFileStat FileStat | SysOther

text \<open>An \<^verbatim>\<open>os.FileInfo\<close>: name, size, mode, modification time in Unix seconds and \<^verbatim>\<open>Sys\<close>.\<close>

record fileInfo =
  fi_name :: string
  fi_size :: u64
  fi_mode :: u32
  fi_mtime :: u64
  fi_sys :: sys_info

definition IsDir :: "fileInfo \<Rightarrow> bool" where
  "IsDir fi = (fi_mode fi AND ModeDir \<noteq> 0)"

definition fileInfoFromStat :: "FileStat \<Rightarrow> string \<Rightarrow> fileInfo" where
  "fileInfoFromStat st name =
     \<lparr>fi_name = name, fi_size = fs_Size st, fi_mode = toFileMode (fs_Mode st),
      fi_mtime = ucast (fs_Mtime st), fi_sys = SysFileStat st\<rparr>"

definition fileStatFromInfoOs :: "fileInfo \<Rightarrow> u32 \<Rightarrow> FileStat \<Rightarrow> u32 \<times> FileStat" where
  "fileStatFromInfoOs fi flags fileStat =
     (case fi_sys fi of
        SysStatT _ uid gid \<Rightarrow> (flags OR sshFileXferAttrUIDGID, fileStat\<lparr>fs_UID := uid, fs_GID := gid\<rparr>)
      | _ \<Rightarrow> (flags, fileStat))"

definition fileStatFromInfo :: "fileInfo \<Rightarrow> u32 \<times> FileStat" where
  "fileStatFromInfo fi =
     (let mtime = fi_mtime fi;
          atime = mtime;
          flags = sshFileXferAttrSize OR sshFileXferAttrPermissions OR sshFileXferAttrACmodTime;
          fileStat = zeroFileStat\<lparr>fs_Size := fi_size fi, fs_Mode := fromFileMode (fi_mode fi),
                                   fs_Mtime := ucast mtime, fs_Atime := ucast atime\<rparr>
      in fileStatFromInfoOs fi flags fileStat)"

subsection \<open>Wire format\<close>

definition marshalFileInfo :: "bytes \<Rightarrow> fileInfo \<Rightarrow> bytes" where
  "marshalFileInfo b fi =
     (let (flags, fileStat) = fileStatFromInfo fi;
          b = marshalUint32 b flags;
          b = (if flags AND sshFileXferAttrSize \<noteq> 0 then marshalUint64 b (fs_Size fileStat) else b);
          b = (if flags AND sshFileXferAttrUIDGID \<noteq> 0
               then marshalUint32 (marshalUint32 b (fs_UID fileStat)) (fs_GID fileStat) else b);
          b = (if flags AND sshFileXferAttrPermissions \<noteq> 0 then marshalUint32 b (fs_Mode fileStat) else b);
          b = (if flags AND sshFileXferAttrACmodTime \<noteq> 0
               then marshalUint32 (marshalUint32 b (fs_Atime fileStat)) (fs_Mtime fileStat) else b)
      in b)"

text \<open>
  \<^verbatim>\<open>getFileStat\<close> drops the errors of the safe readers: a short buffer yields the zero value and
  the nil slice, so everything read after that is zero too.
\<close>

definition or_zero :: "go_error + ('a \<times> bytes) \<Rightarrow> 'a \<Rightarrow> 'a \<times> bytes" where
  "or_zero r z = (case r of Inl _ \<Rightarrow> (z, []) | Inr vb \<Rightarrow> vb)"

fun read_extended :: "nat \<Rightarrow> bytes \<Rightarrow> StatExtended list \<times> bytes" where
  "read_extended 0 b = ([], b)"
| "read_extended (Suc n) b =
     (let (typ, b) = or_zero (unmarshalStringSafe b) [];
          (data, b) = or_zero (unmarshalStringSafe b) [];
          (es, b) = read_extended n b
      in (StatExtended typ data # es, b))"

definition getFileStat :: "u32 \<Rightarrow> bytes \<Rightarrow> FileStat \<times> bytes" where
  "getFileStat flags b =
     (let fs = zeroFileStat;
          (fs, b) = (if flags AND sshFileXferAttrSize = sshFileXferAttrSize
                     then (let (v, b) = or_zero (unmarshalUint64Safe b) 0 in (fs\<lparr>fs_Size := v\<rparr>, b)) else (fs, b));
          (fs, b) = (if flags AND sshFileXferAttrUIDGID = sshFileXferAttrUIDGID
                     then (let (v, b) = or_zero (unmarshalUint32Safe b) 0 in (fs\<lparr>fs_UID := v\<rparr>, b)) else (fs, b));
          (fs, b) = (if flags AND sshFileXferAttrUIDGID = sshFileXferAttrUIDGID
                     then (let (v, b) = or_zero (unmarshalUint32Safe b) 0 in (fs\<lparr>fs_GID := v\<rparr>, b)) else (fs, b));
          (fs, b) = (if flags AND sshFileXferAttrPermissions = sshFileXferAttrPermissions
                     then (let (v, b) = or_zero (unmarshalUint32Safe b) 0 in (fs\<lparr>fs_Mode := v\<rparr>, b)) else (fs, b));
          (fs, b) = (if flags AND sshFileXferAttrACmodTime = sshFileXferAttrACmodTime
                     then (let (at, b) = or_zero (unmarshalUint32Safe b) 0;
                               (mt, b) = or_zero (unmarshalUint32Safe b) 0
                           in (fs\<lparr>fs_Atime := at, fs_Mtime := mt\<rparr>, b)) else (fs, b))
      in if flags AND sshFileXferAttrExtented = sshFileXferAttrExtented
         then (let (count, b) = or_zero (unmarshalUint32Safe b) 0;
                   (ext, b) = read_extended (unat count) b
               in (fs\<lparr>fs_Extended := ext\<rparr>, b))
         else (fs, b))"

text \<open>\<^verbatim>\<open>unmarshalAttrs\<close> reads the flags with the unsafe reader.\<close>

definition unmarshalAttrs :: "bytes \<Rightarrow> (FileStat \<times> bytes) option" where
  "unmarshalAttrs b =
     (case unmarshalUint32 b of None \<Rightarrow> None | Some (flags, b) \<Rightarrow> Some (getFileStat flags b))"

subsection \<open>The type word of a long listing\<close>

definition exec_char :: "bool \<Rightarrow> bool \<Rightarrow> char \<Rightarrow> char \<Rightarrow> char" where
  "exec_char x special both only =
     (if x \<and> special then both else if special then only else if x then CHR ''x'' else CHR ''-'')"

definition runLsTypeWord :: "fileInfo \<Rightarrow> string" where
  "runLsTypeWord dirent =
     (let mode = fi_mode dirent;
          tc = (if mode AND ModeDir \<noteq> 0 then CHR ''d''
                else if mode AND ModeDevice \<noteq> 0
                     then (if mode AND ModeCharDevice \<noteq> 0 then CHR ''c'' else CHR ''b'')
                else if mode AND ModeSymlink \<noteq> 0 then CHR ''l''
                else if mode AND ModeSocket \<noteq> 0 then CHR ''s''
                else if mode AND ModeNamedPipe \<noteq> 0 then CHR ''p''
                else CHR ''-'');
          orc = (if mode AND 0x100 \<noteq> 0 then CHR ''r'' else CHR ''-'');
          owc = (if mode AND 0x80 \<noteq> 0 then CHR ''w'' else CHR ''-'');
          oxc = exec_char (mode AND 0x40 \<noteq> 0) (mode AND ModeSetuid \<noteq> 0) CHR ''s'' CHR ''S'';
          grc = (if mode AND 0x20 \<noteq> 0 then CHR ''r'' else CHR ''-'');
          gwc = (if mode AND 0x10 \<noteq> 0 then CHR ''w'' else CHR ''-'');
          gxc = exec_char (mode AND 0x8 \<noteq> 0) (mode AND ModeSetgid \<noteq> 0) CHR ''s'' CHR ''S'';
          arc = (if mode AND 0x4 \<noteq> 0 then CHR ''r'' else CHR ''-'');
          awc = (if mode AND 0x2 \<noteq> 0 then CHR ''w'' else CHR ''-'');
          axc = exec_char (mode AND 0x1 \<noteq> 0) (mode AND ModeSticky \<noteq> 0) CHR ''t'' CHR ''T''
      in [tc, orc, owc, oxc, grc, gwc, gxc, arc, awc, axc])"

subsection \<open>Mode translations are inverse to each other\<close>

text \<open>
  A POSIX mode: one of the seven file types, the three special bits and the nine permission
  bits. A Go mode: the corresponding type bits, the special bits and the permissions.
\<close>

definition posix_types :: "u32 list" where
  "posix_types = [S_IFBLK, S_IFCHR, S_IFDIR, S_IFIFO, S_IFLNK, S_IFREG, S_IFSOCK]"

definition posix_mode :: "u32 \<Rightarrow> bool" where
  "posix_mode m \<longleftrightarrow> m AND 0xFFFF0000 = 0 \<and> m AND S_IFMT \<in> set posix_types"

definition go_mode :: "u32 \<Rightarrow> bool" where
  "go_mode m \<longleftrightarrow> m AND 0x700FFE00 = 0 \<and> m AND ModeType \<in> type_to_mode ` set posix_types"

lemma and_single_bit:
  fixes w :: u32
  shows "w AND 2 ^ n = 0 \<or> w AND 2 ^ n = 2 ^ n"
proof (cases "bit w n")
  case True
  then have "w AND 2 ^ n = 2 ^ n"
    by (intro bit_word_eqI) (auto simp: bit_and_iff bit_exp_iff)
  then show ?thesis ..
next
  case False
  then show ?thesis by (simp add: and_exp_eq_0_iff_not_bit)
qed

lemmas and_special_bits =
  and_single_bit [where n = 9, simplified] and_single_bit [where n = 10, simplified]
  and_single_bit [where n = 11, simplified] and_single_bit [where n = 20, simplified]
  and_single_bit [where n = 22, simplified] and_single_bit [where n = 23, simplified]

lemma and_or_mask:
  fixes m :: u32
  shows "((m AND k) OR c) AND d = (m AND (k AND d)) OR (c AND d)"
  by (simp add: bit.conj_disj_distrib2 and.assoc)

lemma split_posix_mode:
  fixes m :: u32
  assumes "m AND 0xFFFF0000 = 0"
  shows "(m AND 0xF000) OR (m AND 0x800) OR (m AND 0x400) OR (m AND 0x200) OR (m AND 0x1FF) = m"
proof -
  have "m = m AND - 1" by simp
  also have "(- 1 :: u32) = 0xFFFF0000 OR 0xF000 OR 0x800 OR 0x400 OR 0x200 OR 0x1FF" by simp
  finally have "m = (m AND 0xFFFF0000) OR ((m AND 0xF000) OR (m AND 0x800) OR (m AND 0x400) OR (m AND 0x200) OR (m AND 0x1FF))"
    unfolding bit.conj_disj_distrib .
  then show ?thesis using assms by simp
qed

text \<open>The special bits, one at a time.\<close>

definition special_bits :: "bool \<Rightarrow> bool \<Rightarrow> bool \<Rightarrow> u32 \<Rightarrow> u32 \<Rightarrow> u32 \<Rightarrow> u32" where
  "special_bits gs us vs g u v = (if gs then g else 0) OR (if us then u else 0) OR (if vs then v else 0)"

lemma if_or: "(if c then x OR k else x) = x OR (if c then k else (0::u32))"
  by simp

text \<open>Both translations as a union of independent contributions.\<close>

lemma fromFileMode_alt:
  "fromFileMode mode =
     (if mode AND ModeDevice \<noteq> 0 then if mode AND ModeCharDevice \<noteq> 0 then S_IFCHR else S_IFBLK else 0) OR
     (if mode AND ModeDir \<noteq> 0 then S_IFDIR else 0) OR (if mode AND ModeSymlink \<noteq> 0 then S_IFLNK else 0) OR
     (if mode AND ModeNamedPipe \<noteq> 0 then S_IFIFO else 0) OR (if mode AND ModeSetgid \<noteq> 0 then S_ISGID else 0) OR
     (if mode AND ModeSetuid \<noteq> 0 then S_ISUID else 0) OR (if mode AND ModeSticky \<noteq> 0 then S_ISVTX else 0) OR
     (if mode AND ModeSocket \<noteq> 0 then S_IFSOCK else 0) OR (if mode AND ModeType = 0 then S_IFREG else 0) OR
     (mode AND ModePerm)"
  unfolding fromFileMode_def if_or unfolding Let_def by (simp only: or.assoc or.left_neutral)

lemma fromFileMode_perm:
  assumes "k AND 0x1FF = 0"
  shows "fromFileMode ((m AND 0x1FF) OR k) = fromFileMode k OR (m AND 0x1FF)"
  using assms by (simp add: fromFileMode_alt and_or_mask or.assoc cong: if_cong split del: if_split)

lemma toFileMode_parts:
  "toFileMode m = (m AND 0x1FF) OR (type_to_mode (m AND S_IFMT) OR
     special_bits (m AND S_ISGID \<noteq> 0) (m AND S_ISUID \<noteq> 0) (m AND S_ISVTX \<noteq> 0) ModeSetgid ModeSetuid ModeSticky)"
  by (simp add: toFileMode_def special_bits_def Let_def or.assoc)

lemma fromFileMode_parts:
  "list_all (\<lambda>t. \<forall>gs us vs.
     (type_to_mode t OR special_bits gs us vs ModeSetgid ModeSetuid ModeSticky) AND 0x1FF = 0 \<and>
     fromFileMode (type_to_mode t OR special_bits gs us vs ModeSetgid ModeSetuid ModeSticky) =
       t OR special_bits gs us vs S_ISGID S_ISUID S_ISVTX) posix_types"
  by (simp add: posix_types_def all_bool_eq type_to_mode_def special_bits_def fromFileMode_def Let_def)

lemma special_bits_of_mode:
  "special_bits (m AND S_ISGID \<noteq> 0) (m AND S_ISUID \<noteq> 0) (m AND S_ISVTX \<noteq> 0) S_ISGID S_ISUID S_ISVTX =
     (m AND S_ISGID) OR (m AND S_ISUID) OR (m AND S_ISVTX)"
  using and_special_bits(1,2,3) [of m] by (auto simp: special_bits_def)

lemma fromFileMode_toFileMode:
  assumes "posix_mode m"
  shows "fromFileMode (toFileMode m) = m"
proof -
  let ?t = "m AND S_IFMT"
  let ?sp = "special_bits (m AND S_ISGID \<noteq> 0) (m AND S_ISUID \<noteq> 0) (m AND S_ISVTX \<noteq> 0)"
  from assms have t: "?t \<in> set posix_types" by (simp add: posix_mode_def)
  with fromFileMode_parts have parts:
    "(type_to_mode ?t OR ?sp ModeSetgid ModeSetuid ModeSticky) AND 0x1FF = 0"
    "fromFileMode (type_to_mode ?t OR ?sp ModeSetgid ModeSetuid ModeSticky) = ?t OR ?sp S_ISGID S_ISUID S_ISVTX"
    unfolding list_all_iff by blast+
  have "fromFileMode (toFileMode m) = (?t OR ?sp S_ISGID S_ISUID S_ISVTX) OR (m AND 0x1FF)"
    unfolding toFileMode_parts fromFileMode_perm [OF parts(1)] parts(2) ..
  also have "\<dots> = (m AND 0xF000) OR (m AND 0x800) OR (m AND 0x400) OR (m AND 0x200) OR (m AND 0x1FF)"
    unfolding special_bits_of_mode by (simp only: or.assoc or.commute or.left_commute)
  also have "\<dots> = m"
    using assms by (intro split_posix_mode) (simp add: posix_mode_def)
  finally show ?thesis .
qed

text \<open>The other direction, from Go's modes.\<close>

lemma toFileMode_perm:
  assumes "k AND 0x1FF = 0"
  shows "toFileMode ((m AND 0x1FF) OR k) = toFileMode k OR (m AND 0x1FF)"
  using assms
  by (simp add: toFileMode_parts and_or_mask) (simp only: or.assoc or.commute or.left_commute)

lemma toFileMode_fromFileMode_parts:
  "list_all (\<lambda>t. \<forall>gs us vs.
     (t OR special_bits gs us vs S_ISGID S_ISUID S_ISVTX) AND 0x1FF = 0 \<and>
     toFileMode (t OR special_bits gs us vs S_ISGID S_ISUID S_ISVTX) =
       type_to_mode t OR special_bits gs us vs ModeSetgid ModeSetuid ModeSticky) posix_types"
  by (simp add: posix_types_def all_bool_eq type_to_mode_def special_bits_def toFileMode_def Let_def)

lemma split_go_mode:
  fixes m :: u32
  assumes "m AND 0x700FFE00 = 0"
  shows "(m AND 0x1FF) OR ((m AND ModeType) OR (m AND ModeSetgid) OR (m AND ModeSetuid) OR (m AND ModeSticky)) = m"
proof -
  have "m = m AND - 1" by simp
  also have "(- 1 :: u32) = 0x700FFE00 OR (0x1FF OR (0x8F280000 OR 0x400000 OR 0x800000 OR 0x100000))" by simp
  finally have "m = (m AND 0x700FFE00) OR ((m AND 0x1FF) OR ((m AND ModeType) OR (m AND ModeSetgid) OR (m AND ModeSetuid) OR (m AND ModeSticky)))"
    unfolding bit.conj_disj_distrib .
  then show ?thesis using assms by simp
qed

lemma special_bits_of_go_mode:
  "special_bits (m AND ModeSetgid \<noteq> 0) (m AND ModeSetuid \<noteq> 0) (m AND ModeSticky \<noteq> 0) ModeSetgid ModeSetuid ModeSticky =
     (m AND ModeSetgid) OR (m AND ModeSetuid) OR (m AND ModeSticky)"
  using and_special_bits(4,5,6) [of m] by (auto simp: special_bits_def)

lemma toFileMode_fromFileMode:
  assumes "go_mode m"
  shows "toFileMode (fromFileMode m) = m"
proof -
  let ?sp = "special_bits (m AND ModeSetgid \<noteq> 0) (m AND ModeSetuid \<noteq> 0) (m AND ModeSticky \<noteq> 0)"
  from assms obtain t where t: "t \<in> set posix_types" and mt: "m AND ModeType = type_to_mode t"
    by (auto simp: go_mode_def)
  let ?k = "type_to_mode t OR ?sp ModeSetgid ModeSetuid ModeSticky"
  have m: "m = (m AND 0x1FF) OR ?k"
    using split_go_mode [of m] assms unfolding special_bits_of_go_mode mt by (simp add: go_mode_def)
  from t fromFileMode_parts have p1: "?k AND 0x1FF = 0"
    "fromFileMode ?k = t OR ?sp S_ISGID S_ISUID S_ISVTX"
    unfolding list_all_iff by blast+
  from t toFileMode_fromFileMode_parts have p2: "(t OR ?sp S_ISGID S_ISUID S_ISVTX) AND 0x1FF = 0"
    "toFileMode (t OR ?sp S_ISGID S_ISUID S_ISVTX) = ?k"
    unfolding list_all_iff by blast+
  have "fromFileMode m = (t OR ?sp S_ISGID S_ISUID S_ISVTX) OR (m AND 0x1FF)"
    by (subst m) (simp only: fromFileMode_perm [OF p1(1)] p1(2))
  also have "\<dots> = (m AND 0x1FF) OR (t OR ?sp S_ISGID S_ISUID S_ISVTX)"
    by (rule or.commute)
  finally have "toFileMode (fromFileMode m) = ?k OR (m AND 0x1FF)"
    by (simp only: toFileMode_perm [OF p2(1)] p2(2))
  also have "\<dots> = m" using m by (simp only: or.commute)
  finally show ?thesis .
qed

text \<open>
  The two mode translations are inverse to each other. A POSIX mode survives the trip
  through \<^verbatim>\<open>toFileMode\<close> and \<^verbatim>\<open>fromFileMode\<close>, and a Go file mode (one file type, setuid, setgid,
  sticky, permissions) survives the trip through \<^verbatim>\<open>fromFileMode\<close> and \<^verbatim>\<open>toFileMode\<close>.
\<close>

theorem file_mode_roundtrip:
  assumes "posix_mode m" and "go_mode n"
  shows "fromFileMode (toFileMode m) = m \<and> toFileMode (fromFileMode n) = n"
  using assms by (simp add: fromFileMode_toFileMode toFileMode_fromFileMode)

theorem file_mode_roundtrip_witness:
  "fromFileMode (toFileMode 0x49ED) = 0x49ED \<and> toFileMode (fromFileMode 0x80100000) = 0x80100000"
  by (rule file_mode_roundtrip) (simp_all add: posix_mode_def go_mode_def posix_types_def type_to_mode_def)

subsection \<open>Attributes on the wire\<close>

lemma fileStatFromInfo_cases:
  obtains (unix) uid gid where "fst (fileStatFromInfo fi) = 15"
    "snd (fileStatFromInfo fi) =
       zeroFileStat\<lparr>fs_Size := fi_size fi, fs_Mode := fromFileMode (fi_mode fi), fs_Mtime := ucast (fi_mtime fi),
                    fs_Atime := ucast (fi_mtime fi), fs_UID := uid, fs_GID := gid\<rparr>"
  | (other) "fst (fileStatFromInfo fi) = 13"
    "snd (fileStatFromInfo fi) =
       zeroFileStat\<lparr>fs_Size := fi_size fi, fs_Mode := fromFileMode (fi_mode fi), fs_Mtime := ucast (fi_mtime fi),
                    fs_Atime := ucast (fi_mtime fi)\<rparr>"
  by (cases "fi_sys fi") (auto simp: fileStatFromInfo_def fileStatFromInfoOs_def Let_def)

lemma unmarshalAttrs_marshal [codec_simps]:
  "unmarshalAttrs (marshalFileInfo [] fi @ rest) = Some (snd (fileStatFromInfo fi), rest)"
proof (cases fi rule: fileStatFromInfo_cases)
  case (unix uid gid)
  then show ?thesis
    by (simp add: unmarshalAttrs_def marshalFileInfo_def getFileStat_def or_zero_def case_prod_beta
        codec_simps zeroFileStat_def)
next
  case other
  then show ?thesis
    by (simp add: unmarshalAttrs_def marshalFileInfo_def getFileStat_def or_zero_def case_prod_beta
        codec_simps zeroFileStat_def)
qed

text \<open>
  Attributes survive the wire. What the server encodes with \<^verbatim>\<open>marshalFileInfo\<close> the client
  decodes with \<^verbatim>\<open>unmarshalAttrs\<close> to the same \<^verbatim>\<open>FileStat\<close>, with or without owner and group, and the
  bytes behind it are left alone.
\<close>

theorem attrs_roundtrip:
  "unmarshalAttrs (marshalFileInfo [] fi @ rest) = Some (snd (fileStatFromInfo fi), rest)"
  by (rule unmarshalAttrs_marshal)

lemma fileStatFromInfo_fields:
  "fs_Size (snd (fileStatFromInfo fi)) = fi_size fi"
  "fs_Mode (snd (fileStatFromInfo fi)) = fromFileMode (fi_mode fi)"
  "fs_Mtime (snd (fileStatFromInfo fi)) = ucast (fi_mtime fi)"
  by (cases fi rule: fileStatFromInfo_cases; simp)+

text \<open>
  The file information a client rebuilds from an attribute reply has the size, the mode
  and, up to the year 2106, the modification time of the server's file.
\<close>

theorem client_sees_server_file_info:
  assumes "go_mode (fi_mode fi)" and "unat (fi_mtime fi) < 2 ^ 32"
    and "unmarshalAttrs (marshalFileInfo [] fi @ rest) = Some (st, rest')"
  shows "fileInfoFromStat st name =
    \<lparr>fi_name = name, fi_size = fi_size fi, fi_mode = fi_mode fi, fi_mtime = fi_mtime fi, fi_sys = SysFileStat st\<rparr>"
proof -
  from assms(3) have st: "st = snd (fileStatFromInfo fi)"
    by (simp add: unmarshalAttrs_marshal)
  have "ucast (ucast (fi_mtime fi) :: u32) = fi_mtime fi"
    using assms(2) by (intro word_unat_eq_iff [THEN iffD2]) (simp add: unsigned_ucast_eq unsigned_take_bit_eq take_bit_nat_eq_self)
  then show ?thesis
    using assms(1) by (simp add: fileInfoFromStat_def st fileStatFromInfo_fields toFileMode_fromFileMode)
qed

theorem client_sees_server_file_info_witness:
  "let fi = \<lparr>fi_name = ''a.txt'', fi_size = 11, fi_mode = 0x1A4, fi_mtime = 1600000000, fi_sys = SysStatT 1 1000 1000\<rparr>;
       st = snd (fileStatFromInfo fi)
   in fileInfoFromStat st ''a.txt'' = fi\<lparr>fi_sys := SysFileStat st\<rparr>"
  unfolding Let_def
  by (subst client_sees_server_file_info
        [of "\<lparr>fi_name = ''a.txt'', fi_size = 11, fi_mode = 0x1A4, fi_mtime = 1600000000, fi_sys = SysStatT 1 1000 1000\<rparr>" "[]" _ "[]"])
     (simp_all add: go_mode_def posix_types_def type_to_mode_def unmarshalAttrs_marshal [where rest = "[]", simplified])

end
