(* ===== verification/Go_Path.thy ===== *)
theory Go_Path
  imports Sftp_Prelude "HOL-Library.Sublist"
begin

text \<open>
  The functions of Go's \<^verbatim>\<open>path\<close>, \<^verbatim>\<open>path/filepath\<close> and \<^verbatim>\<open>strings\<close> packages that the program uses, on
  a system whose separator is the slash. \<^verbatim>\<open>Clean\<close> is given by its rules on path elements: empty
  elements and \<open>.\<close> are dropped, an inner \<open>..\<close> removes the element before it, and \<open>..\<close> at the
  root is dropped.
\<close>

subsection \<open>Splitting and joining\<close>

abbreviation slash :: char where "slash \<equiv> CHR ''/''"

fun split_on :: "char \<Rightarrow> string \<Rightarrow> string list" where
  "split_on d [] = [[]]"
| "split_on d (c # cs) =
     (if c = d then [] # split_on d cs
      else case split_on d cs of [] \<Rightarrow> [[c]] | w # ws \<Rightarrow> (c # w) # ws)"

fun join_with :: "string \<Rightarrow> string list \<Rightarrow> string" where
  "join_with sep [] = []"
| "join_with sep [w] = w"
| "join_with sep (w # ws) = w @ sep @ join_with sep ws"

definition IsAbs :: "string \<Rightarrow> bool" where
  "IsAbs p = (case p of c # _ \<Rightarrow> c = slash | [] \<Rightarrow> False)"

definition HasPrefix :: "string \<Rightarrow> string \<Rightarrow> bool" where
  "HasPrefix s pre = prefix pre s"

definition HasSuffix :: "string \<Rightarrow> string \<Rightarrow> bool" where
  "HasSuffix s suf = suffix suf s"

text \<open>One element of a path, with the elements kept so far in reverse order.\<close>

definition clean_step :: "bool \<Rightarrow> string list \<Rightarrow> string \<Rightarrow> string list" where
  "clean_step rooted out e =
     (if e = [] \<or> e = ''.'' then out
      else if e = ''..''
      then (case out of
              [] \<Rightarrow> if rooted then [] else [''..'']
            | w # ws \<Rightarrow> if w = ''..'' then ''..'' # out else ws)
      else e # out)"

definition clean_elems :: "bool \<Rightarrow> string list \<Rightarrow> string list" where
  "clean_elems rooted es = rev (foldl (clean_step rooted) [] es)"

definition render :: "bool \<Rightarrow> string list \<Rightarrow> string" where
  "render rooted es =
     (if es = [] then if rooted then ''/'' else ''.''
      else (if rooted then ''/'' else []) @ join_with ''/'' es)"

definition Clean :: "string \<Rightarrow> string" where
  "Clean p = render (IsAbs p) (clean_elems (IsAbs p) (split_on slash p))"

text \<open>\<^verbatim>\<open>Join\<close> drops leading empty elements, and is empty when all are.\<close>

definition Join :: "string list \<Rightarrow> string" where
  "Join es = (case dropWhile (\<lambda>e. e = []) es of [] \<Rightarrow> [] | es \<Rightarrow> Clean (join_with ''/'' es))"

text \<open>The part after the last slash, and the part up to and including it.\<close>

definition after_slash :: "string \<Rightarrow> string" where
  "after_slash p = rev (takeWhile (\<lambda>c. c \<noteq> slash) (rev p))"

definition upto_slash :: "string \<Rightarrow> string" where
  "upto_slash p = rev (dropWhile (\<lambda>c. c \<noteq> slash) (rev p))"

definition Split :: "string \<Rightarrow> string \<times> string" where
  "Split p = (upto_slash p, after_slash p)"

definition Base :: "string \<Rightarrow> string" where
  "Base p =
     (if p = [] then ''.''
      else let q = rev (dropWhile (\<lambda>c. c = slash) (rev p)); b = after_slash q
           in if b = [] then ''/'' else b)"

definition Dir :: "string \<Rightarrow> string" where
  "Dir p = Clean (upto_slash p)"

text \<open>The file name extension: from the last dot of the last element, empty without one.\<close>

definition Ext :: "string \<Rightarrow> string" where
  "Ext p = (let b = after_slash p
            in if CHR ''.'' \<in> set b then CHR ''.'' # rev (takeWhile (\<lambda>c. c \<noteq> CHR ''.'') (rev b)) else [])"

text \<open>\<^verbatim>\<open>strings.Replace(s, old, new, n)\<close> for a non-empty \<^verbatim>\<open>old\<close>; a negative \<open>n\<close> replaces all.\<close>

function replace_n :: "string \<Rightarrow> string \<Rightarrow> string \<Rightarrow> int \<Rightarrow> string" where
  "replace_n s old new n =
     (if s = [] \<or> n = 0 \<or> old = [] then s
      else if prefix old s then new @ replace_n (drop (length old) s) old new (n - 1)
      else hd s # replace_n (tl s) old new n)"
  by pat_completeness auto
termination by (relation "measure (\<lambda>(s, _). length s)") (auto simp: prefix_def)

declare replace_n.simps [simp del]

definition strings_Replace :: "string \<Rightarrow> string \<Rightarrow> string \<Rightarrow> int \<Rightarrow> string" where
  "strings_Replace s old new n = replace_n s old new n"

definition strings_Contains :: "string \<Rightarrow> string \<Rightarrow> bool" where
  "strings_Contains s t = sublist t s"

subsection \<open>Clean paths\<close>

text \<open>A proper path element: not empty, not a dot, no slash in it.\<close>

definition is_elem :: "string \<Rightarrow> bool" where
  "is_elem e \<longleftrightarrow> e \<noteq> [] \<and> e \<noteq> ''.'' \<and> slash \<notin> set e"

text \<open>The normal form of the elements of a cleaned path: \<open>..\<close> only in front, and not at all when rooted.\<close>

definition normal_elems :: "bool \<Rightarrow> string list \<Rightarrow> bool" where
  "normal_elems rooted es \<longleftrightarrow>
     list_all is_elem es \<and>
     (if rooted then ''..'' \<notin> set es
      else \<exists>k ns. es = replicate k ''..'' @ ns \<and> ''..'' \<notin> set ns)"

lemma split_on_nonempty [simp]: "split_on d s \<noteq> []"
  by (induction s) (auto split: list.split)

lemma split_on_no_delim: "w \<in> set (split_on d s) \<Longrightarrow> d \<notin> set w"
proof (induction s arbitrary: w)
  case (Cons c cs)
  then show ?case by (cases "split_on d cs") (auto split: if_splits)
qed simp

lemma split_on_word: "d \<notin> set w \<Longrightarrow> split_on d w = [w]"
  by (induction w) auto

lemma split_on_append: "d \<notin> set w \<Longrightarrow> split_on d (w @ d # s) = w # split_on d s"
  by (induction w) auto

lemma split_on_join:
  "list_all (\<lambda>w. slash \<notin> set w) es \<Longrightarrow> es \<noteq> [] \<Longrightarrow> split_on slash (join_with ''/'' es) = es"
proof (induction es)
  case (Cons w ws)
  then show ?case by (cases ws) (auto simp: split_on_word split_on_append)
qed simp

lemma split_on_slash_append:
  "split_on slash (a @ slash # b) = split_on slash a @ split_on slash b"
proof (induction a)
  case (Cons c cs)
  then show ?case by (cases "split_on slash cs") auto
qed simp

lemma clean_fold_elems:
  "list_all is_elem es \<Longrightarrow> ''..'' \<notin> set es \<Longrightarrow> foldl (clean_step r) out es = rev es @ out"
  by (induction es arbitrary: out) (auto simp: clean_step_def is_elem_def)

lemma clean_fold_dotdots: "foldl (clean_step False) (replicate n ''..'') (replicate k ''..'') = replicate (n + k) ''..''"
proof (induction k arbitrary: n)
  case (Suc k)
  have "clean_step False (replicate n ''..'') ''..'' = replicate (Suc n) ''..''"
    by (cases n) (auto simp: clean_step_def)
  with Suc.IH [of "Suc n"] show ?case by simp
qed simp

lemma clean_elems_normal_id: "normal_elems r es \<Longrightarrow> clean_elems r es = es"
proof (cases r)
  case False
  assume "normal_elems r es"
  with False obtain k ns where es: "es = replicate k ''..'' @ ns" and ns: "''..'' \<notin> set ns" "list_all is_elem ns"
    by (auto simp: normal_elems_def)
  then show ?thesis
    using False clean_fold_dotdots [of 0 k] by (simp add: clean_elems_def clean_fold_elems)
qed (simp add: normal_elems_def clean_elems_def clean_fold_elems)

lemma normal_tl: "normal_elems r (es @ [w]) \<Longrightarrow> normal_elems r es"
proof (cases r)
  case False
  assume "normal_elems r (es @ [w])"
  with False obtain k ns where *: "list_all is_elem es" "es @ [w] = replicate k ''..'' @ ns" "''..'' \<notin> set ns"
    by (auto simp: normal_elems_def)
  show ?thesis
  proof (cases ns rule: rev_cases)
    case Nil
    with * obtain j where "k = Suc j" by (cases k) auto
    with * Nil have "es = replicate j ''..''" by (simp add: replicate_append_same [symmetric])
    with * False show ?thesis unfolding normal_elems_def by (auto intro!: exI [of _ j] exI [of _ "[]"])
  next
    case (snoc ms m)
    with * False show ?thesis unfolding normal_elems_def by auto
  qed
qed (simp add: normal_elems_def)

lemma normal_snoc:
  assumes "normal_elems r es" "is_elem e" "e \<noteq> ''..''"
  shows "normal_elems r (es @ [e])"
proof (cases r)
  case False
  with assms(1) obtain k ns where "es = replicate k ''..'' @ ns" "''..'' \<notin> set ns"
    by (auto simp: normal_elems_def)
  then have "es @ [e] = replicate k ''..'' @ (ns @ [e])" "''..'' \<notin> set (ns @ [e])" using assms(3) by auto
  then have "\<exists>k ns. es @ [e] = replicate k ''..'' @ ns \<and> ''..'' \<notin> set ns" by blast
  with assms False show ?thesis unfolding normal_elems_def by simp
qed (use assms in \<open>auto simp: normal_elems_def\<close>)

lemma normal_dotdot:
  assumes "normal_elems False es" "es = [] \<or> last es = ''..''"
  shows "normal_elems False (es @ [''..''])"
proof -
  from assms(1) obtain k ns where es: "es = replicate k ''..'' @ ns" and ns: "''..'' \<notin> set ns"
    by (auto simp: normal_elems_def)
  with assms(2) have "ns = []" by (cases ns rule: rev_cases) auto
  with es have "es @ [''..''] = replicate (Suc k) ''..''" by (simp add: replicate_append_same)
  moreover have "list_all is_elem (es @ [''..''])" using assms(1) by (simp add: normal_elems_def is_elem_def)
  ultimately show ?thesis unfolding normal_elems_def by (auto intro!: exI [of _ "Suc k"] exI [of _ "[]"])
qed

lemma normal_clean_step:
  assumes "normal_elems r (rev out)" "slash \<notin> set e"
  shows "normal_elems r (rev (clean_step r out e))"
proof (cases "e = ''..''")
  case True
  show ?thesis
  proof (cases out)
    case Nil
    with True assms normal_dotdot [of "[]"] show ?thesis
      by (cases r) (auto simp: clean_step_def normal_elems_def)
  next
    case (Cons w ws)
    show ?thesis
    proof (cases "w = ''..''")
      case w: True
      with Cons assms(1) have "\<not> r" by (auto simp: normal_elems_def)
      with w True Cons assms(1) normal_dotdot [of "rev out"] show ?thesis by (simp add: clean_step_def)
    next
      case False
      with True Cons assms(1) show ?thesis by (auto simp: clean_step_def intro: normal_tl)
    qed
  qed
next
  case False
  with assms show ?thesis by (auto simp: clean_step_def is_elem_def intro: normal_snoc)
qed

lemma normal_clean_elems:
  assumes "\<And>e. e \<in> set es \<Longrightarrow> slash \<notin> set e"
  shows "normal_elems r (clean_elems r es)"
proof -
  have "normal_elems r (rev out) \<Longrightarrow> normal_elems r (rev (foldl (clean_step r) out es))" for out
    using assms by (induction es arbitrary: out) (auto intro: normal_clean_step)
  from this [of "[]"] show ?thesis by (auto simp: clean_elems_def normal_elems_def)
qed

text \<open>A cleaned path is the rendering of normal elements, and reading it back gives them.\<close>

lemma Clean_cases:
  obtains es where "Clean p = render (IsAbs p) es" "normal_elems (IsAbs p) es"
  unfolding Clean_def using normal_clean_elems split_on_no_delim by blast

lemma join_not_slash:
  "list_all is_elem es \<Longrightarrow> es \<noteq> [] \<Longrightarrow> \<exists>c cs. join_with ''/'' es = c # cs \<and> c \<noteq> slash"
proof (induction es)
  case (Cons w ws)
  then obtain c cs where "w = c # cs" "c \<noteq> slash" by (cases w) (auto simp: is_elem_def)
  then show ?case by (cases ws) auto
qed simp

lemma elems_no_slash: "list_all is_elem es \<Longrightarrow> list_all (\<lambda>w. slash \<notin> set w) es"
  by (auto simp: list_all_iff is_elem_def)

lemma IsAbs_render: "normal_elems r es \<Longrightarrow> IsAbs (render r es) = r"
  using join_not_slash [of es] by (auto simp: render_def IsAbs_def normal_elems_def)

lemma split_render:
  assumes "normal_elems r es"
  shows "split_on slash (render r es) =
    (if es = [] then if r then [[], []] else [''.''] else if r then [] # es else es)"
  using assms split_on_join [OF elems_no_slash, of es] by (auto simp: render_def normal_elems_def)

lemma clean_elems_render:
  assumes "normal_elems r es"
  shows "clean_elems r (split_on slash (render r es)) = es"
  using clean_elems_normal_id [OF assms] unfolding split_render [OF assms]
  by (auto simp: clean_elems_def clean_step_def)

lemma Clean_render: "normal_elems r es \<Longrightarrow> Clean (render r es) = render r es"
  by (simp add: Clean_def IsAbs_render clean_elems_render)

lemma Clean_idem [simp]: "Clean (Clean p) = Clean p"
  by (rule Clean_cases [of p]) (simp add: Clean_render)

lemma IsAbs_Clean [simp]: "IsAbs (Clean p) = IsAbs p"
  by (rule Clean_cases [of p]) (simp add: IsAbs_render)

text \<open>Joining an absolute clean path below another stays below it.\<close>

lemma Join_abs:
  assumes "normal_elems True rs" "normal_elems True es"
  shows "Join [render True rs, render True es] = render True (rs @ es)"
proof -
  have ne: "render True rs \<noteq> []" by (simp add: render_def)
  have abs: "IsAbs (render True rs @ slash # render True es)"
    using ne by (auto simp: IsAbs_def render_def)
  have nf: "list_all is_elem rs" "list_all is_elem es" "''..'' \<notin> set rs" "''..'' \<notin> set es"
    using assms by (auto simp: normal_elems_def)
  have "clean_elems True (split_on slash (render True rs) @ split_on slash (render True es)) = rs @ es"
    unfolding split_render [OF assms(1)] split_render [OF assms(2)]
    using nf by (auto simp: clean_elems_def clean_step_def clean_fold_elems)
  with abs ne show ?thesis by (simp add: Join_def Clean_def split_on_slash_append)
qed

lemma render_prefix: "prefix (render True rs) (render True (rs @ es))"
  if "rs \<noteq> []"
proof -
  have "prefix (join_with ''/'' rs) (join_with ''/'' (rs @ es))" if "rs \<noteq> []" for rs
    using that
  proof (induction rs)
    case (Cons w ws)
    then show ?case by (cases ws; cases es) auto
  qed simp
  with that show ?thesis by (auto simp: render_def)
qed

lemma render_root_prefix: "prefix ''/'' (render True es)"
  by (simp add: render_def)

end
