(* ===== verification/Os_Api.thy ===== *)
theory Os_Api
  imports File_Attrs Go_Path
begin

text \<open>
  The operating system as the program sees it: the functions of Go's \<^verbatim>\<open>os\<close>, \<^verbatim>\<open>syscall\<close> and
  \<^verbatim>\<open>time\<close> packages, as a record of functions over an abstract world \<open>'w\<close> and abstract open files
  \<open>'f\<close>. Nothing is assumed about them: every definition that calls the system takes the record as
  an argument, and a theorem that needs a law of it states the law.
\<close>

text \<open>The flags of \<^verbatim>\<open>os.OpenFile\<close> (linux).\<close>

abbreviation O_RDONLY :: u32 where "O_RDONLY \<equiv> 0"
abbreviation O_WRONLY :: u32 where "O_WRONLY \<equiv> 1"
abbreviation O_RDWR :: u32 where "O_RDWR \<equiv> 2"
abbreviation O_CREATE :: u32 where "O_CREATE \<equiv> 0x40"
abbreviation O_EXCL :: u32 where "O_EXCL \<equiv> 0x80"
abbreviation O_TRUNC :: u32 where "O_TRUNC \<equiv> 0x200"

text \<open>A point in time in the local calendar, as a listing prints it.\<close>

record civil_time =
  ct_month :: string
  ct_day :: nat
  ct_year :: int
  ct_hour :: nat
  ct_minute :: nat

text \<open>The fields of \<^verbatim>\<open>syscall.Statfs_t\<close> that the program reads, as 64-bit values.\<close>

record Statfs_t =
  sf_Bsize :: u64
  sf_Frsize :: u64
  sf_Blocks :: u64
  sf_Bfree :: u64
  sf_Bavail :: u64
  sf_Files :: u64
  sf_Ffree :: u64
  sf_Flags :: u64
  sf_Namelen :: u64

record ('w, 'f) os_api =
  os_Stat :: "string \<Rightarrow> 'w \<Rightarrow> go_error + fileInfo"
  os_Lstat :: "string \<Rightarrow> 'w \<Rightarrow> go_error + fileInfo"
  os_Readlink :: "string \<Rightarrow> 'w \<Rightarrow> go_error + string"
  os_Getwd :: "'w \<Rightarrow> go_error + string"
  os_Mkdir :: "string \<Rightarrow> u32 \<Rightarrow> 'w \<Rightarrow> go_error option \<times> 'w"
  os_MkdirAll :: "string \<Rightarrow> u32 \<Rightarrow> 'w \<Rightarrow> go_error option \<times> 'w"
  os_Remove :: "string \<Rightarrow> 'w \<Rightarrow> go_error option \<times> 'w"
  os_Rename :: "string \<Rightarrow> string \<Rightarrow> 'w \<Rightarrow> go_error option \<times> 'w"
  os_Symlink :: "string \<Rightarrow> string \<Rightarrow> 'w \<Rightarrow> go_error option \<times> 'w"
  os_Link :: "string \<Rightarrow> string \<Rightarrow> 'w \<Rightarrow> go_error option \<times> 'w"
  os_Truncate :: "string \<Rightarrow> u64 \<Rightarrow> 'w \<Rightarrow> go_error option \<times> 'w"
  os_Chmod :: "string \<Rightarrow> u32 \<Rightarrow> 'w \<Rightarrow> go_error option \<times> 'w"
  os_Chtimes :: "string \<Rightarrow> u32 \<Rightarrow> u32 \<Rightarrow> 'w \<Rightarrow> go_error option \<times> 'w"
  os_Chown :: "string \<Rightarrow> u32 \<Rightarrow> u32 \<Rightarrow> 'w \<Rightarrow> go_error option \<times> 'w"
  os_OpenFile :: "string \<Rightarrow> u32 \<Rightarrow> u32 \<Rightarrow> 'w \<Rightarrow> (go_error + 'f) \<times> 'w"
  os_Create :: "string \<Rightarrow> 'w \<Rightarrow> (go_error + 'f) \<times> 'w"
  file_Name :: "'f \<Rightarrow> string"
  file_Stat :: "'f \<Rightarrow> 'w \<Rightarrow> go_error + fileInfo"
  file_ReadAt :: "'f \<Rightarrow> nat \<Rightarrow> u64 \<Rightarrow> 'w \<Rightarrow> bytes \<times> go_error option"
  file_WriteAt :: "'f \<Rightarrow> bytes \<Rightarrow> u64 \<Rightarrow> 'w \<Rightarrow> go_error option \<times> 'w"
  file_Readdir :: "'f \<Rightarrow> nat \<Rightarrow> 'w \<Rightarrow> (go_error + fileInfo list) \<times> 'w"
  file_Truncate :: "'f \<Rightarrow> u64 \<Rightarrow> 'w \<Rightarrow> go_error option \<times> 'w"
  file_Chmod :: "'f \<Rightarrow> u32 \<Rightarrow> 'w \<Rightarrow> go_error option \<times> 'w"
  file_Chown :: "'f \<Rightarrow> u32 \<Rightarrow> u32 \<Rightarrow> 'w \<Rightarrow> go_error option \<times> 'w"
  file_Close :: "'f \<Rightarrow> 'w \<Rightarrow> go_error option \<times> 'w"
  syscall_Statfs :: "string \<Rightarrow> 'w \<Rightarrow> go_error + Statfs_t"
  time_Now :: "'w \<Rightarrow> int"
  time_civil :: "u64 \<Rightarrow> 'w \<Rightarrow> civil_time"

text \<open>\<^verbatim>\<open>os.IsNotExist\<close> and \<^verbatim>\<open>os.IsExist\<close> look through the wrappers of the \<^verbatim>\<open>os\<close> package.\<close>

fun underlyingError :: "go_error \<Rightarrow> go_error" where
  "underlyingError (PathError _ _ e) = e"
| "underlyingError (LinkError _ _ _ e) = e"
| "underlyingError e = e"

definition os_IsNotExist :: "go_error option \<Rightarrow> bool" where
  "os_IsNotExist err = (case err of None \<Rightarrow> False
     | Some e \<Rightarrow> (case underlyingError e of Errno n _ \<Rightarrow> n = 2 | ErrNotExist \<Rightarrow> True | _ \<Rightarrow> False))"

definition os_IsExist :: "go_error option \<Rightarrow> bool" where
  "os_IsExist err = (case err of None \<Rightarrow> False
     | Some e \<Rightarrow> (case underlyingError e of Errno n _ \<Rightarrow> n = 17 \<or> n = 39 | ErrExist \<Rightarrow> True | _ \<Rightarrow> False))"

definition the_error :: "go_error + 'a \<Rightarrow> go_error option" where
  "the_error r = (case r of Inl e \<Rightarrow> Some e | Inr _ \<Rightarrow> None)"

text \<open>\<^verbatim>\<open>filepath.Abs\<close> resolves a relative path against the working directory.\<close>

definition filepath_Abs :: "('w, 'f, 'z) os_api_scheme \<Rightarrow> string \<Rightarrow> 'w \<Rightarrow> go_error + string" where
  "filepath_Abs os p w =
     (if IsAbs p then Inr (Clean p)
      else case os_Getwd os w of Inl e \<Rightarrow> Inl e | Inr wd \<Rightarrow> Inr (Join [wd, p]))"

end
