(* ===== verification/User_Gov.thy ===== *)
theory User_Gov
  imports Os_Api
begin

text \<open>
  The users of src/user/usergov.go: who may log in, with which password or key. The parser of
  authorized keys belongs to golang.org/x/crypto/ssh and is the parameter \<open>parse\<close>; it gives the
  key's wire form, which is all the program compares.
\<close>

record Auth =
  Username :: string
  Password :: string
  PublicKey :: string

record User =
  JailDirectory :: string
  Readonly :: bool
  user_Auth :: Auth
  IsCleanDirUser :: bool

definition zeroUser :: User where
  "zeroUser = \<lparr>JailDirectory = [], Readonly = False,
     user_Auth = \<lparr>Username = [], Password = [], PublicKey = []\<rparr>, IsCleanDirUser = False\<rparr>"

record UserGov =
  Users :: "User list"

definition NewUserGov :: "User list \<Rightarrow> UserGov" where
  "NewUserGov users = \<lparr>Users = users\<rparr>"

definition SetUsers :: "UserGov \<Rightarrow> User list \<Rightarrow> UserGov" where
  "SetUsers ug users = ug\<lparr>Users := users\<rparr>"

fun auth_pass_loop :: "User list \<Rightarrow> string \<Rightarrow> string \<Rightarrow> User \<times> bool" where
  "auth_pass_loop [] name pass = (zeroUser, False)"
| "auth_pass_loop (v # vs) name pass =
     (if Username (user_Auth v) = name \<and> Password (user_Auth v) = pass then (v, True)
      else auth_pass_loop vs name pass)"

definition AuthPass :: "UserGov \<Rightarrow> string \<Rightarrow> string \<Rightarrow> User \<times> bool" where
  "AuthPass ug name pass = auth_pass_loop (Users ug) name pass"

text \<open>The loop over the users stops at the first key of that name that cannot be parsed.\<close>

fun auth_key_loop :: "(string \<Rightarrow> go_error + bytes) \<Rightarrow> User list \<Rightarrow> string \<Rightarrow> bytes \<Rightarrow> User \<times> bool \<times> go_error option" where
  "auth_key_loop parse [] name key = (zeroUser, False, None)"
| "auth_key_loop parse (v # vs) name key =
     (if Username (user_Auth v) = name
      then case parse (PublicKey (user_Auth v)) of
             Inl err \<Rightarrow> (v, False, Some err)
           | Inr k \<Rightarrow> if string_of_bytes k = string_of_bytes key then (v, True, None)
                      else auth_key_loop parse vs name key
      else auth_key_loop parse vs name key)"

definition AuthPublicKey :: "(string \<Rightarrow> go_error + bytes) \<Rightarrow> UserGov \<Rightarrow> string \<Rightarrow> bytes \<Rightarrow> User \<times> bool \<times> go_error option" where
  "AuthPublicKey parse ug name pubKey = auth_key_loop parse (Users ug) name pubKey"

definition CreateUserDir :: "('w, 'f, 'z) os_api_scheme \<Rightarrow> string \<Rightarrow> string \<Rightarrow> 'w \<Rightarrow> 'w" where
  "CreateUserDir os baseDir name w =
     (let dirPath = Join [baseDir, name]
      in if os_IsNotExist (the_error (os_Stat os dirPath w)) then snd (os_Mkdir os dirPath 0x1FF w) else w)"

subsection \<open>Who is let in\<close>

lemma auth_pass_loop_find:
  "auth_pass_loop vs name pass =
     (case find (\<lambda>v. Username (user_Auth v) = name \<and> Password (user_Auth v) = pass) vs of
        None \<Rightarrow> (zeroUser, False) | Some v \<Rightarrow> (v, True))"
  by (induction vs) auto

text \<open>
  Password logins. \<^verbatim>\<open>AuthPass\<close> lets a login in exactly when a configured user has that name and
  that password, and the user it returns is the first such one.
\<close>

theorem AuthPass_correct:
  "case AuthPass ug name pass of
     (u, True) \<Rightarrow> find (\<lambda>v. Username (user_Auth v) = name \<and> Password (user_Auth v) = pass) (Users ug) = Some u
   | (u, False) \<Rightarrow> u = zeroUser \<and>
       \<not> (\<exists>v \<in> set (Users ug). Username (user_Auth v) = name \<and> Password (user_Auth v) = pass)"
  by (auto simp: AuthPass_def auth_pass_loop_find find_None_iff split: option.split)

lemma string_of_bytes_inject [simp]: "string_of_bytes a = string_of_bytes b \<longleftrightarrow> a = b"
  by (metis bytes_of_string_of_bytes)

lemma auth_key_sound:
  "auth_key_loop parse vs name key = (u, True, e) \<Longrightarrow>
     u \<in> set vs \<and> Username (user_Auth u) = name \<and> parse (PublicKey (user_Auth u)) = Inr key \<and> e = None"
  by (induction vs) (auto split: if_splits sum.splits)

lemma auth_key_complete:
  "v \<in> set vs \<Longrightarrow> Username (user_Auth v) = name \<Longrightarrow> parse (PublicKey (user_Auth v)) = Inr key \<Longrightarrow>
   \<forall>u \<in> set vs. Username (user_Auth u) = name \<longrightarrow> (\<exists>k. parse (PublicKey (user_Auth u)) = Inr k) \<Longrightarrow>
   \<exists>u. auth_key_loop parse vs name key = (u, True, None)"
  by (induction vs) (auto split: sum.splits)

text \<open>
  Key logins. A login by key succeeds only for a configured user of that name whose stored key
  is the offered one; and it does succeed whenever such a user exists and every stored key of that name
  can be parsed. (A single malformed key listed under the same name before it shuts the user out.)
\<close>

theorem AuthPublicKey_correct:
  "(\<forall>u e. AuthPublicKey parse ug name key = (u, True, e) \<longrightarrow>
      u \<in> set (Users ug) \<and> Username (user_Auth u) = name \<and> parse (PublicKey (user_Auth u)) = Inr key) \<and>
   ((\<forall>u \<in> set (Users ug). Username (user_Auth u) = name \<longrightarrow> (\<exists>k. parse (PublicKey (user_Auth u)) = Inr k)) \<longrightarrow>
    (\<exists>v \<in> set (Users ug). Username (user_Auth v) = name \<and> parse (PublicKey (user_Auth v)) = Inr key) \<longrightarrow>
    (\<exists>u. AuthPublicKey parse ug name key = (u, True, None)))"
  using auth_key_sound [of parse "Users ug" name key] auth_key_complete [of _ "Users ug" name parse key]
  unfolding AuthPublicKey_def by blast

text \<open>The witness: a parser that accepts keys starting with \<open>k\<close>, and one user.\<close>

definition demo_user :: User where
  "demo_user = zeroUser\<lparr>JailDirectory := ''bob'', user_Auth := \<lparr>Username = ''bob'', Password = ''pw'', PublicKey = ''key''\<rparr>\<rparr>"

definition demo_parse :: "string \<Rightarrow> go_error + bytes" where
  "demo_parse s = (case s of CHR ''k'' # t \<Rightarrow> Inr (bytes_of_string t) | _ \<Rightarrow> Inl (ErrText ''ssh: no key found''))"

theorem AuthPublicKey_correct_witness:
  "\<exists>u. AuthPublicKey demo_parse (NewUserGov [demo_user]) ''bob'' (bytes_of_string ''ey'') = (u, True, None)"
  using AuthPublicKey_correct [of demo_parse "NewUserGov [demo_user]" "''bob''" "bytes_of_string ''ey''"]
  by (simp add: NewUserGov_def demo_user_def demo_parse_def)

end
