(* ===== verification/Config_Service.thy ===== *)
theory Config_Service
  imports User_Gov Sftp_Protocol
begin

text \<open>
  The configuration of src/ssftp: its data and loading (config.go) and its validation
  (configvalidator.go). The YAML parser and \<^verbatim>\<open>url.Parse\<close> are parameters; reading the file is given by
  its result. The waits between two attempts are not modelled.
\<close>

subsection \<open>Data\<close>

record Webhook =
  wh_Name :: string
  wh_Url :: string

record LogDest =
  Kind :: string
  Properties :: "string \<rightharpoonup> string"

record ClientDownloader =
  dl_Name :: string
  dl_Host :: string
  dl_Port :: int
  dl_Username :: string
  dl_Password :: string
  dl_PrivatekeyPath :: string
  dl_PrivatekeyPassphrase :: string
  dl_LocalStagingDirectory :: string
  dl_RemoteDirectory :: string
  dl_DeleteRemoteFileAfterDownload :: bool
  dl_OverrideExistingFile :: bool

record ClientUploader =
  ul_Name :: string
  ul_Host :: string
  ul_Port :: int
  ul_Username :: string
  ul_Password :: string
  ul_PrivatekeyPath :: string
  ul_PrivatekeyPassphrase :: string
  ul_LocalDirectoryToUpload :: string
  ul_RemoteDirectory :: string
  ul_OverrideRemoteExistingFile :: bool

record SSFTPYamlUsers =
  StagingDirUsers :: "User list"
  CleanDirUsers :: "User list"

record SSFTPYaml =
  y_SftpPort :: int
  y_EnableVirusScan :: bool
  y_EnableFileScavenging :: bool
  y_EnableSftpClientDownloader :: bool
  y_EnableSftpClientUploader :: bool
  y_LogDests :: "LogDest list"
  y_Users :: SSFTPYamlUsers
  y_Webhooks :: "Webhook list"
  y_ClientDownloaders :: "ClientDownloader list"
  y_ClientUploaders :: "ClientUploader list"

record Config =
  SftpPort :: int
  EnableVirusScan :: bool
  EnableFileScavenging :: bool
  EnableSftpClientDownloader :: bool
  EnableSftpClientUploader :: bool
  StagingPath :: string
  LocalRemoteUploadArchiveBasePath :: string
  CleanPath :: string
  QuarantinePath :: string
  LogDests :: "LogDest list"
  cfg_Users :: "User list"
  Webhooks :: "Webhook list"
  ClientDownloaders :: "ClientDownloader list"
  ClientUploaders :: "ClientUploader list"

definition zeroConfig :: Config where
  "zeroConfig = \<lparr>SftpPort = 0, EnableVirusScan = False, EnableFileScavenging = False,
     EnableSftpClientDownloader = False, EnableSftpClientUploader = False, StagingPath = [],
     LocalRemoteUploadArchiveBasePath = [], CleanPath = [], QuarantinePath = [], LogDests = [], cfg_Users = [],
     Webhooks = [], ClientDownloaders = [], ClientUploaders = []\<rparr>"

definition SystemConfigPath :: string where "SystemConfigPath = ''/mnt/ssftp/system/ssftp.yaml''"
definition DefaultStagingPath :: string where "DefaultStagingPath = ''/mnt/ssftp/staging''"
definition DefaultUploadArchivePath :: string where "DefaultUploadArchivePath = ''/mnt/ssftp/uploadarchive''"
definition DefaultCleanPath :: string where "DefaultCleanPath = ''/mnt/ssftp/clean''"
definition DefaultQuarantinePath :: string where "DefaultQuarantinePath = ''/mnt/ssftp/quarantine''"
definition VirusFoundWebook :: string where "VirusFoundWebook = ''virusFound''"

record ConfigService =
  cs_config :: Config
  cs_valid :: bool

definition NewConfigService :: ConfigService where
  "NewConfigService = \<lparr>cs_config = zeroConfig, cs_valid = False\<rparr>"

subsection \<open>Validation\<close>

definition ValidWebhookNames :: "string list" where
  "ValidWebhookNames = [''virusFound'']"

record ConfigValidator =
  cv_config :: Config
  cv_ok :: bool
  erroMessages :: "string list"

definition NewConfigValidator :: "Config \<Rightarrow> ConfigValidator" where
  "NewConfigValidator c = \<lparr>cv_config = c, cv_ok = True, erroMessages = []\<rparr>"

text \<open>\<^verbatim>\<open>addErrf\<close> with the formatted text, and its use under a condition.\<close>

definition addErrf :: "ConfigValidator \<Rightarrow> string \<Rightarrow> ConfigValidator" where
  "addErrf cv msg = cv\<lparr>erroMessages := erroMessages cv @ [msg], cv_ok := False\<rparr>"

definition check :: "bool \<Rightarrow> string \<Rightarrow> ConfigValidator \<Rightarrow> ConfigValidator" where
  "check bad msg cv = (if bad then addErrf cv msg else cv)"

fun toNewlineString :: "string list \<Rightarrow> string" where
  "toNewlineString [] = []"
| "toNewlineString (v # vs) = v @ [CHR 0x0A] @ toNewlineString vs"

definition toDelimitedString :: "string list \<Rightarrow> string" where
  "toDelimitedString s = join_with '', '' s"

fun dup_loop :: "string list \<Rightarrow> string set \<Rightarrow> string list" where
  "dup_loop [] seen = []"
| "dup_loop (v # vs) seen = (if v \<notin> seen then dup_loop vs (insert v seen) else v # dup_loop vs seen)"

definition hasDupElements :: "string list \<Rightarrow> string list \<times> bool" where
  "hasDupElements s = (let dupElems = dup_loop s {} in if length dupElems = 0 then (dupElems, False) else (dupElems, True))"

definition isValidWebhookName :: "string \<Rightarrow> bool" where
  "isValidWebhookName name = (\<exists>w \<in> set ValidWebhookNames. w = name)"

definition validatePortSetDefault :: "ConfigValidator \<Rightarrow> ConfigValidator" where
  "validatePortSetDefault cv =
     (if SftpPort (cv_config cv) = 0 then cv\<lparr>cv_config := (cv_config cv)\<lparr>SftpPort := 2002\<rparr>\<rparr> else cv)"

definition validateWebhook_one :: "(string \<Rightarrow> bool) \<Rightarrow> ConfigValidator \<Rightarrow> Webhook \<Rightarrow> ConfigValidator" where
  "validateWebhook_one url_ok cv v =
     (let cv = check (\<not> isValidWebhookName (wh_Name v))
                 (''ConfigValidator - Webhook name '' @ wh_Name v @ '' is invalid. Valid names are '' @
                  toDelimitedString ValidWebhookNames) cv
      in check (\<not> url_ok (wh_Url v)) (''ConfigValidator - Webhook Url '' @ wh_Url v @ '' is invalid'') cv)"

definition validateWebhook :: "(string \<Rightarrow> bool) \<Rightarrow> ConfigValidator \<Rightarrow> ConfigValidator" where
  "validateWebhook url_ok cv =
     (if length (Webhooks (cv_config cv)) > 0
      then foldl (validateWebhook_one url_ok) cv (Webhooks (cv_config cv)) else cv)"

text \<open>The texts are those \<^verbatim>\<open>fmt.Sprintf\<close> gives, also where the source passes one argument too many or
  too few.\<close>

definition downloader_name :: "ConfigValidator \<Rightarrow> ClientDownloader \<Rightarrow> ConfigValidator" where
  "downloader_name cv v =
     check (length (dl_Name v) = 0) (''ConfigValidator - Downloader name cannot be empty%!(EXTRA string='' @ dl_Name v @ '')'') cv"

definition downloader_fields :: "ConfigValidator \<Rightarrow> ClientDownloader \<Rightarrow> ConfigValidator" where
  "downloader_fields cv v =
     (let cv = check (dl_Port v = 0) ''ConfigValidator - Downloader %!s(MISSING) port cannot be empty'' cv;
          cv = check (length (dl_Host v) = 0) (''ConfigValidator - Downloader '' @ dl_Name v @ '' host cannot be empty'') cv
      in check (length (dl_LocalStagingDirectory v) = 0)
           (''ConfigValidator - Downloader '' @ dl_Name v @ '' LocalStagingDirectory cannot be empty'') cv)"

definition validateDownloaders :: "ConfigValidator \<Rightarrow> ConfigValidator" where
  "validateDownloaders cv =
     (let ds = ClientDownloaders (cv_config cv);
          localStgDirs = map dl_LocalStagingDirectory ds;
          downloaderNames = map dl_Name ds;
          cv = foldl downloader_name cv ds;
          (s, hasDupNames) = hasDupElements downloaderNames;
          cv = check hasDupNames
                 (''ConfigValidator - Downloader Name are unique identifier and must be unique, '' @ toNewlineString s) cv;
          (s, hasDup) = hasDupElements localStgDirs;
          cv = check hasDup
                 (''ConfigValidator - Downloader LocalStagingDirectory '' @ toNewlineString s @
                  '' is duplicated. This will cause Downloaders to override downloaded files in same LocalStagingDirectory'') cv
      in foldl downloader_fields cv ds)"

definition uploader_name :: "ConfigValidator \<Rightarrow> ClientUploader \<Rightarrow> ConfigValidator" where
  "uploader_name cv v = check (length (ul_Name v) = 0) ''ConfigValidator - Uploader name cannot be empty'' cv"

definition uploader_fields :: "ConfigValidator \<Rightarrow> ClientUploader \<Rightarrow> ConfigValidator" where
  "uploader_fields cv v =
     (let cv = check (ul_Port v = 0) (''ConfigValidator - Uploader '' @ ul_Name v @ '' port cannot be empty'') cv
      in check (length (ul_Host v) = 0) (''ConfigValidator - Uploader '' @ ul_Name v @ '' host cannot be empty'') cv)"

definition validateUploaders :: "ConfigValidator \<Rightarrow> ConfigValidator" where
  "validateUploaders cv =
     (let us = ClientUploaders (cv_config cv);
          uploaderNames = map ul_Name us;
          cv = foldl uploader_name cv us;
          (s, hasDup) = hasDupElements uploaderNames;
          cv = check hasDup
                 (''ConfigValidator - Uploader Name are unique identifier and must be unique, '' @ toNewlineString s) cv
      in foldl uploader_fields cv us)"

definition clean_user_fields :: "ConfigValidator \<Rightarrow> User \<Rightarrow> ConfigValidator" where
  "clean_user_fields cv v =
     (if \<not> IsCleanDirUser v then cv
      else
        let cv = check (length (Username (user_Auth v)) = 0)
                   ''ConfigValidator - Users.cleanDir Username cannot be empty'' cv;
            cv = check (length (Password (user_Auth v)) = 0)
                   ''ConfigValidator - Users.cleanDir Password cannot be empty even though Public Key authn is used'' cv
        in check (length (JailDirectory v) = 0)
             ''ConfigValidator - Users.cleanDir directory cannot be empty, either (*) to pin to root directory or a given directory name'' cv)"

definition validateUsersCleanDir :: "ConfigValidator \<Rightarrow> ConfigValidator" where
  "validateUsersCleanDir cv = foldl clean_user_fields cv (cfg_Users (cv_config cv))"

definition staging_user_fields :: "ConfigValidator \<Rightarrow> User \<Rightarrow> ConfigValidator" where
  "staging_user_fields cv v =
     (if IsCleanDirUser v then cv
      else
        let cv = check (length (Username (user_Auth v)) = 0)
                   ''ConfigValidator - Users.stagingDir Username cannot be empty'' cv;
            cv = check (length (Password (user_Auth v)) = 0)
                   ''ConfigValidator - Users.stagingDir - Password cannot be empty even though Public Key authn is used'' cv;
            cv = check (JailDirectory v = ''*'')
                   ''ConfigValidator - Users.stagingDir - Root(*) is not permitted in Staging directory, only Clean directory can have Root(*)'' cv
        in check (length (JailDirectory v) = 0)
             ''ConfigValidator - Users.stagingDir - directory cannot be empty'' cv)"

definition validateUsersStagingDir :: "ConfigValidator \<Rightarrow> ConfigValidator" where
  "validateUsersStagingDir cv = foldl staging_user_fields cv (cfg_Users (cv_config cv))"

text \<open>\<^verbatim>\<open>Validate\<close> works on the shared configuration: the defaulted port stays in it.\<close>

definition Validate :: "(string \<Rightarrow> bool) \<Rightarrow> ConfigValidator \<Rightarrow> (string \<times> bool) \<times> ConfigValidator" where
  "Validate url_ok cv =
     (let cv = validatePortSetDefault cv;
          cv = validateWebhook url_ok cv;
          cv = validateDownloaders cv;
          cv = validateUploaders cv;
          cv = validateUsersCleanDir cv;
          cv = validateUsersStagingDir cv
      in ((toNewlineString (erroMessages cv), cv_ok cv), cv))"

subsection \<open>Loading\<close>

definition mergeStagingCleanDirUsers :: "SSFTPYaml \<Rightarrow> User list" where
  "mergeStagingCleanDirUsers y =
     StagingDirUsers (y_Users y) @ map (\<lambda>v. v\<lparr>IsCleanDirUser := True\<rparr>) (CleanDirUsers (y_Users y))"

definition getYamlConfgPath :: "string \<Rightarrow> string" where
  "getYamlConfgPath env =
     (if env \<noteq> [] \<and> env = ''dev''
      then ''/mnt/c/weixian/projects/Azure-Scanned-File-Transfer/src/ssftp/ssftp.yaml'' else SystemConfigPath)"

definition set_paths :: "string \<Rightarrow> Config \<Rightarrow> Config" where
  "set_paths env c =
     (if env = ''dev''
      then c\<lparr>StagingPath := ''/mnt/c/ssftp/staging'', LocalRemoteUploadArchiveBasePath := ''/mnt/c/ssftp/uploadarchive'',
             CleanPath := ''/mnt/c/ssftp/clean'', QuarantinePath := ''/mnt/c/ssftp/quarantine''\<rparr>
      else c\<lparr>StagingPath := DefaultStagingPath, LocalRemoteUploadArchiveBasePath := DefaultUploadArchivePath,
             CleanPath := DefaultCleanPath, QuarantinePath := DefaultQuarantinePath\<rparr>)"

definition copy_yaml :: "SSFTPYaml \<Rightarrow> Config \<Rightarrow> Config" where
  "copy_yaml y c =
     c\<lparr>SftpPort := y_SftpPort y, Webhooks := y_Webhooks y, LogDests := y_LogDests y,
       EnableVirusScan := y_EnableVirusScan y, EnableFileScavenging := y_EnableFileScavenging y,
       EnableSftpClientDownloader := y_EnableSftpClientDownloader y,
       EnableSftpClientUploader := y_EnableSftpClientUploader y,
       cfg_Users := mergeStagingCleanDirUsers y, ClientDownloaders := y_ClientDownloaders y,
       ClientUploaders := y_ClientUploaders y\<rparr>"

text \<open>One attempt of the loading loop, from the result of reading the file; the flag says whether it
  succeeded. The configuration is overwritten before it is validated.\<close>

definition load_attempt ::
  "(bytes \<Rightarrow> go_error + SSFTPYaml) \<Rightarrow> (string \<Rightarrow> bool) \<Rightarrow> string \<Rightarrow> ConfigService \<Rightarrow> go_error + bytes \<Rightarrow> bool \<times> ConfigService" where
  "load_attempt unmarshal url_ok env c file =
     (let c = c\<lparr>cs_valid := False\<rparr>
      in case file of
           Inl _ \<Rightarrow> (False, c)
         | Inr b \<Rightarrow>
             (case unmarshal b of
                Inl _ \<Rightarrow> (False, c)
              | Inr y \<Rightarrow>
                  (let cfg = copy_yaml y (set_paths env (cs_config c))
                   in case Validate url_ok (NewConfigValidator cfg) of
                        ((msg, ok), cv) \<Rightarrow>
                          (if ok then (True, c\<lparr>cs_config := cv_config cv, cs_valid := True\<rparr>)
                           else (False, c\<lparr>cs_config := cv_config cv\<rparr>)))))"

text \<open>The loop over the successive results of reading the file; it ends with the first success.\<close>

fun LoadYamlConfig ::
  "(bytes \<Rightarrow> go_error + SSFTPYaml) \<Rightarrow> (string \<Rightarrow> bool) \<Rightarrow> string \<Rightarrow> ConfigService \<Rightarrow> (go_error + bytes) list \<Rightarrow> bool \<times> ConfigService" where
  "LoadYamlConfig unmarshal url_ok env c [] = (False, c)"
| "LoadYamlConfig unmarshal url_ok env c (f # fs) =
     (case load_attempt unmarshal url_ok env c f of
        (True, c) \<Rightarrow> (True, c)
      | (False, c) \<Rightarrow> LoadYamlConfig unmarshal url_ok env c fs)"

text \<open>\<^verbatim>\<open>waitConfigValid\<close> returns in the states in which this holds.\<close>

definition waitConfigValid_returns :: "ConfigService \<Rightarrow> bool" where
  "waitConfigValid_returns c = cs_valid c"

fun logdest_loop :: "LogDest list \<Rightarrow> string \<Rightarrow> string \<Rightarrow> string" where
  "logdest_loop [] k prop = []"
| "logdest_loop (v # vs) k prop =
     (if Kind v = k then (case Properties v prop of None \<Rightarrow> [] | Some s \<Rightarrow> s) else logdest_loop vs k prop)"

definition GetLogDestProp :: "ConfigService \<Rightarrow> string \<Rightarrow> string \<Rightarrow> string" where
  "GetLogDestProp c k prop = logdest_loop (LogDests (cs_config c)) k prop"

fun webhook_loop :: "Webhook list \<Rightarrow> string \<Rightarrow> string" where
  "webhook_loop [] k = []"
| "webhook_loop (v # vs) k = (if wh_Name v = k then wh_Url v else webhook_loop vs k)"

definition getWebHook :: "ConfigService \<Rightarrow> string \<Rightarrow> string" where
  "getWebHook c k = webhook_loop (Webhooks (cs_config c)) k"

subsection \<open>What a validation step promises\<close>

text \<open>The flag is set exactly when no message was recorded.\<close>

definition honest :: "ConfigValidator \<Rightarrow> bool" where
  "honest cv \<longleftrightarrow> (cv_ok cv \<longleftrightarrow> erroMessages cv = [])"

locale validation =
  fixes vstep :: "ConfigValidator \<Rightarrow> ConfigValidator"
    and spec :: "Config \<Rightarrow> bool"
  assumes keeps: "cv_config (vstep cv) = cv_config cv"
    and verdict: "cv_ok (vstep cv) \<longleftrightarrow> cv_ok cv \<and> spec (cv_config cv)"
    and honest_step: "honest cv \<Longrightarrow> honest (vstep cv)"
begin

text \<open>A step never clears an error, and a run that was fine before it says whether the configuration
  meets the step's specification.\<close>

lemma vstep_monotone: "\<not> cv_ok cv \<Longrightarrow> \<not> cv_ok (vstep cv)"
  by (simp add: verdict)

lemma vstep_messages:
  "honest cv \<Longrightarrow> erroMessages (vstep cv) = [] \<longleftrightarrow> erroMessages cv = [] \<and> spec (cv_config cv)"
  using honest_step [of cv] verdict [of cv] by (auto simp: honest_def)

end

text \<open>Two steps in sequence are a step for both specifications.\<close>

locale validation_pair = fst_step: validation f P + snd_step: validation g Q for f P g Q
begin

lemma pair_law:
  "cv_config (g (f cv)) = cv_config cv"
  "cv_ok (g (f cv)) \<longleftrightarrow> cv_ok cv \<and> P (cv_config cv) \<and> Q (cv_config cv)"
  "honest cv \<Longrightarrow> honest (g (f cv))"
  by (simp_all add: fst_step.keeps snd_step.keeps fst_step.verdict snd_step.verdict
      fst_step.honest_step snd_step.honest_step)

end

sublocale validation_pair \<subseteq> both: validation "\<lambda>cv. g (f cv)" "\<lambda>c. P c \<and> Q c"
  by unfold_locales (simp_all add: pair_law)

text \<open>The loops of the validator check one element after the other.\<close>

definition elem_check :: "(ConfigValidator \<Rightarrow> 'a \<Rightarrow> ConfigValidator) \<Rightarrow> ('a \<Rightarrow> bool) \<Rightarrow> bool" where
  "elem_check st P \<longleftrightarrow> (\<forall>cv v. cv_config (st cv v) = cv_config cv \<and>
     (cv_ok (st cv v) \<longleftrightarrow> cv_ok cv \<and> P v) \<and> (honest cv \<longrightarrow> honest (st cv v)))"

lemma check_law [simp]:
  "cv_config (check b m cv) = cv_config cv" "cv_ok (check b m cv) \<longleftrightarrow> cv_ok cv \<and> \<not> b"
  "honest cv \<Longrightarrow> honest (check b m cv)"
  by (auto simp: check_def addErrf_def honest_def)

lemma elem_check_foldl:
  assumes "elem_check st P"
  shows "cv_config (foldl st cv vs) = cv_config cv"
    "cv_ok (foldl st cv vs) \<longleftrightarrow> cv_ok cv \<and> list_all P vs"
    "honest cv \<Longrightarrow> honest (foldl st cv vs)"
  using assms by (induction vs arbitrary: cv) (auto simp: elem_check_def)

lemma dup_loop_distinct: "dup_loop s seen = [] \<longleftrightarrow> distinct s \<and> set s \<inter> seen = {}"
  by (induction s arbitrary: seen) auto

lemma hasDupElements_distinct: "snd (hasDupElements s) \<longleftrightarrow> \<not> distinct s"
  by (simp add: hasDupElements_def Let_def dup_loop_distinct)

definition webhook_valid :: "(string \<Rightarrow> bool) \<Rightarrow> Webhook \<Rightarrow> bool" where
  "webhook_valid url_ok v \<longleftrightarrow> wh_Name v = ''virusFound'' \<and> url_ok (wh_Url v)"

definition webhooks_valid :: "(string \<Rightarrow> bool) \<Rightarrow> Config \<Rightarrow> bool" where
  "webhooks_valid url_ok c \<longleftrightarrow> list_all (webhook_valid url_ok) (Webhooks c)"

definition downloaders_valid :: "Config \<Rightarrow> bool" where
  "downloaders_valid c \<longleftrightarrow>
     list_all (\<lambda>d. dl_Name d \<noteq> [] \<and> dl_Port d \<noteq> 0 \<and> dl_Host d \<noteq> [] \<and> dl_LocalStagingDirectory d \<noteq> []) (ClientDownloaders c) \<and>
     distinct (map dl_Name (ClientDownloaders c)) \<and> distinct (map dl_LocalStagingDirectory (ClientDownloaders c))"

definition uploaders_valid :: "Config \<Rightarrow> bool" where
  "uploaders_valid c \<longleftrightarrow>
     list_all (\<lambda>u. ul_Name u \<noteq> [] \<and> ul_Port u \<noteq> 0 \<and> ul_Host u \<noteq> []) (ClientUploaders c) \<and>
     distinct (map ul_Name (ClientUploaders c))"

definition user_valid :: "User \<Rightarrow> bool" where
  "user_valid u \<longleftrightarrow> Username (user_Auth u) \<noteq> [] \<and> Password (user_Auth u) \<noteq> [] \<and> JailDirectory u \<noteq> []"

definition clean_users_valid :: "Config \<Rightarrow> bool" where
  "clean_users_valid c \<longleftrightarrow> list_all (\<lambda>u. if IsCleanDirUser u then user_valid u else True) (cfg_Users c)"

definition staging_users_valid :: "Config \<Rightarrow> bool" where
  "staging_users_valid c \<longleftrightarrow>
     list_all (\<lambda>u. if IsCleanDirUser u then True else user_valid u \<and> JailDirectory u \<noteq> ''*'') (cfg_Users c)"

lemmas elem_checks_def = elem_check_def validateWebhook_one_def downloader_name_def downloader_fields_def
  uploader_name_def uploader_fields_def clean_user_fields_def staging_user_fields_def

lemma elem_checks:
  "elem_check (validateWebhook_one url_ok) (webhook_valid url_ok)"
  "elem_check downloader_name (\<lambda>d. dl_Name d \<noteq> [])"
  "elem_check downloader_fields (\<lambda>d. dl_Port d \<noteq> 0 \<and> dl_Host d \<noteq> [] \<and> dl_LocalStagingDirectory d \<noteq> [])"
  "elem_check uploader_name (\<lambda>u. ul_Name u \<noteq> [])"
  "elem_check uploader_fields (\<lambda>u. ul_Port u \<noteq> 0 \<and> ul_Host u \<noteq> [])"
  "elem_check clean_user_fields (\<lambda>u. if IsCleanDirUser u then user_valid u else True)"
  "elem_check staging_user_fields (\<lambda>u. if IsCleanDirUser u then True else user_valid u \<and> JailDirectory u \<noteq> ''*'')"
  by (auto simp: elem_checks_def Let_def webhook_valid_def user_valid_def isValidWebhookName_def ValidWebhookNames_def)

lemmas fold_laws = elem_checks [THEN elem_check_foldl(1)] elem_checks [THEN elem_check_foldl(2)]
  elem_checks [THEN elem_check_foldl(3)]

interpretation web: validation "validateWebhook url_ok" "webhooks_valid url_ok"
  by unfold_locales (auto simp: validateWebhook_def webhooks_valid_def fold_laws)

interpretation downs: validation validateDownloaders downloaders_valid
  by unfold_locales
     (auto simp: validateDownloaders_def downloaders_valid_def Let_def fold_laws case_prod_unfold
        hasDupElements_distinct list_all_iff)

interpretation ups: validation validateUploaders uploaders_valid
  by unfold_locales
     (auto simp: validateUploaders_def uploaders_valid_def Let_def fold_laws case_prod_unfold
        hasDupElements_distinct list_all_iff)

interpretation cleans: validation validateUsersCleanDir clean_users_valid
  by unfold_locales (auto simp: validateUsersCleanDir_def clean_users_valid_def fold_laws)

interpretation stagings: validation validateUsersStagingDir staging_users_valid
  by unfold_locales (auto simp: validateUsersStagingDir_def staging_users_valid_def fold_laws)

interpretation remote: validation_pair validateDownloaders downloaders_valid validateUploaders uploaders_valid ..

interpretation accounts: validation_pair validateUsersCleanDir clean_users_valid validateUsersStagingDir staging_users_valid ..

interpretation checks: validation_pair "\<lambda>cv. validateUploaders (validateDownloaders cv)"
  "\<lambda>c. downloaders_valid c \<and> uploaders_valid c"
  "\<lambda>cv. validateUsersStagingDir (validateUsersCleanDir cv)" "\<lambda>c. clean_users_valid c \<and> staging_users_valid c" ..

definition config_valid :: "(string \<Rightarrow> bool) \<Rightarrow> Config \<Rightarrow> bool" where
  "config_valid url_ok c \<longleftrightarrow> webhooks_valid url_ok c \<and> downloaders_valid c \<and> uploaders_valid c \<and>
     clean_users_valid c \<and> staging_users_valid c"

lemma Validate_law:
  assumes "Validate url_ok (NewConfigValidator c) = ((msg, ok), cv)"
  shows "ok \<longleftrightarrow> config_valid url_ok c" "msg = [] \<longleftrightarrow> config_valid url_ok c"
    "cv_config cv = c\<lparr>SftpPort := if SftpPort c = 0 then 2002 else SftpPort c\<rparr>"
proof -
  let ?c = "c\<lparr>SftpPort := if SftpPort c = 0 then 2002 else SftpPort c\<rparr>"
  let ?cv0 = "validateWebhook url_ok (validatePortSetDefault (NewConfigValidator c))"
  let ?cv1 = "validateUsersStagingDir (validateUsersCleanDir (validateUploaders (validateDownloaders ?cv0)))"
  have p: "cv_config (validatePortSetDefault (NewConfigValidator c)) = ?c"
    "cv_ok (validatePortSetDefault (NewConfigValidator c))"
    "honest (validatePortSetDefault (NewConfigValidator c))"
    by (auto simp: validatePortSetDefault_def NewConfigValidator_def honest_def)
  have w: "cv_config ?cv0 = ?c" "cv_ok ?cv0 \<longleftrightarrow> webhooks_valid url_ok ?c" "honest ?cv0"
    using p by (auto simp: web.keeps web.verdict web.honest_step)
  have f: "cv_config ?cv1 = ?c" "cv_ok ?cv1 \<longleftrightarrow> config_valid url_ok ?c" "honest ?cv1"
    using w checks.pair_law [of ?cv0] by (auto simp: config_valid_def)
  have same: "config_valid url_ok ?c = config_valid url_ok c"
    by (simp add: config_valid_def webhooks_valid_def downloaders_valid_def uploaders_valid_def
        clean_users_valid_def staging_users_valid_def)
  have nl: "toNewlineString xs = [] \<longleftrightarrow> xs = []" for xs by (cases xs) auto
  have res: "msg = toNewlineString (erroMessages ?cv1)" "ok = cv_ok ?cv1" "cv = ?cv1"
    using assms unfolding Validate_def Let_def by (auto simp only: prod.inject)
  show "ok \<longleftrightarrow> config_valid url_ok c" using res f same by simp
  show "msg = [] \<longleftrightarrow> config_valid url_ok c" using res f same nl by (simp add: honest_def)
  show "cv_config cv = ?c" using res f by simp
qed

text \<open>
  C39: the validator decides its specification. It accepts a configuration exactly when every webhook has a
  known name and a parsable address, downloaders and uploaders have distinct non-empty names, hosts and
  ports (downloaders also distinct staging directories), and every user has a name, a password and a directory (not the root, for
  staging users); its message is empty exactly then; and the only thing it changes is to replace port 0 by 2002.
\<close>

theorem Validate_decides:
  "case Validate url_ok (NewConfigValidator c) of
     ((msg, ok), cv) \<Rightarrow> (ok \<longleftrightarrow> config_valid url_ok c) \<and> (msg = [] \<longleftrightarrow> config_valid url_ok c) \<and>
       cv_config cv = c\<lparr>SftpPort := if SftpPort c = 0 then 2002 else SftpPort c\<rparr>"
proof -
  obtain msg ok cv where v: "Validate url_ok (NewConfigValidator c) = ((msg, ok), cv)" by (metis prod.exhaust)
  from Validate_law [OF v] show ?thesis unfolding v by simp
qed

subsection \<open>Loading\<close>

lemma load_attempt_law:
  assumes "load_attempt unmarshal url_ok env c file = (ok, c')"
  shows "cs_valid c' = ok" "ok \<Longrightarrow> config_valid url_ok (cs_config c') \<and> SftpPort (cs_config c') \<noteq> 0"
proof -
  show "cs_valid c' = ok"
    using assms by (auto simp: load_attempt_def Let_def split: sum.splits prod.splits if_splits)
  assume ok
  with assms obtain b y msg cv where y: "file = Inr b" "unmarshal b = Inr y"
    and v: "Validate url_ok (NewConfigValidator (copy_yaml y (set_paths env (cs_config c)))) = ((msg, True), cv)"
    and c': "cs_config c' = cv_config cv"
    by (auto simp: load_attempt_def Let_def split: sum.splits prod.splits if_splits)
  have "config_valid url_ok (d\<lparr>SftpPort := k\<rparr>) = config_valid url_ok d" for d :: Config and k
    by (simp add: config_valid_def webhooks_valid_def downloaders_valid_def uploaders_valid_def
        clean_users_valid_def staging_users_valid_def)
  with Validate_law [OF v] c' show "config_valid url_ok (cs_config c') \<and> SftpPort (cs_config c') \<noteq> 0" by simp
qed

text \<open>
  Nothing starts on an invalid configuration. The loading loop reports success exactly when it leaves the
  service in a state in which \<^verbatim>\<open>waitConfigValid\<close> returns, and then the configuration in force is
  valid and has a port; as long as every attempt fails, the goroutines that wait stay blocked.
\<close>

theorem loading_ends_with_valid_config:
  assumes "LoadYamlConfig unmarshal url_ok env c files = (ok, c')" and "files \<noteq> []"
  shows "waitConfigValid_returns c' = ok \<and>
    (if ok then config_valid url_ok (cs_config c') \<and> SftpPort (cs_config c') \<noteq> 0 else True)"
  using assms
proof (induction files arbitrary: c)
  case (Cons f fs)
  obtain k d where a: "load_attempt unmarshal url_ok env c f = (k, d)" by (cases "load_attempt unmarshal url_ok env c f")
  note law = load_attempt_law [OF a]
  show ?case
  proof (cases "k \<or> fs = []")
    case True
    with Cons.prems a law show ?thesis by (auto simp: waitConfigValid_returns_def split: bool.splits)
  next
    case False
    with Cons.prems a have "LoadYamlConfig unmarshal url_ok env d fs = (ok, c')" "fs \<noteq> []" by auto
    then show ?thesis by (rule Cons.IH)
  qed
qed simp

definition demo_yaml :: SSFTPYaml where
  "demo_yaml = \<lparr>y_SftpPort = 0, y_EnableVirusScan = True, y_EnableFileScavenging = True,
     y_EnableSftpClientDownloader = False, y_EnableSftpClientUploader = False, y_LogDests = [],
     y_Users = \<lparr>StagingDirUsers = [demo_user], CleanDirUsers = []\<rparr>, y_Webhooks = [], y_ClientDownloaders = [], y_ClientUploaders = []\<rparr>"

text \<open>The first read of the file fails, the second gives a configuration with one user and no port.\<close>

lemma demo_load:
  "\<exists>c. LoadYamlConfig (\<lambda>_. Inr demo_yaml) (\<lambda>_. True) [] NewConfigService [Inl ENOENT, Inr []] = (True, c) \<and>
       cfg_Users (cs_config c) = [demo_user]"
proof -
  let ?c = "copy_yaml demo_yaml (set_paths [] zeroConfig)"
  obtain msg k cv where v: "Validate (\<lambda>_. True) (NewConfigValidator ?c) = ((msg, k), cv)" by (metis prod.exhaust)
  have "config_valid (\<lambda>_. True) ?c"
    by (simp add: config_valid_def webhooks_valid_def downloaders_valid_def uploaders_valid_def clean_users_valid_def
        staging_users_valid_def copy_yaml_def demo_yaml_def mergeStagingCleanDirUsers_def demo_user_def zeroUser_def
        user_valid_def)
  with Validate_law(1) [OF v] have k by simp
  moreover have "cfg_Users (cv_config cv) = [demo_user]"
    unfolding Validate_law(3) [OF v] by (simp add: copy_yaml_def mergeStagingCleanDirUsers_def demo_yaml_def)
  ultimately show ?thesis using v by (simp add: load_attempt_def Let_def NewConfigService_def)
qed

theorem loading_ends_with_valid_config_witness:
  "\<exists>c'. LoadYamlConfig (\<lambda>_. Inr demo_yaml) (\<lambda>_. True) [] NewConfigService [Inl ENOENT, Inr []] = (True, c') \<and>
     waitConfigValid_returns c' \<and> config_valid (\<lambda>_. True) (cs_config c')"
proof -
  obtain c' where l: "LoadYamlConfig (\<lambda>_. Inr demo_yaml) (\<lambda>_. True) [] NewConfigService [Inl ENOENT, Inr []] = (True, c')"
    using demo_load by blast
  from loading_ends_with_valid_config [OF l] l show ?thesis by auto
qed

end
