(* ===== verification/Scan_Pipeline.thy ===== *)
theory Scan_Pipeline
  imports Config_Service
begin

text \<open>
  The scanning of uploaded files in src/ssftp: the scanner client (clamav.go), the file watcher that
  collects finished uploads and moves scanned files (filewatcher.go), and the event loop that connects
  them (overlord.go). The virus scanner is the parameter \<open>clamd\<close>: for a path, an error of the connection, or the
  first result of the scan (its status and raw text), \<open>None\<close> if the scanner closed the result channel without one.
\<close>

subsection \<open>The scanner client\<close>

datatype ScanStatus = OK | Virus | Error

record ClamAvScanResult =
  filePath :: string
  Message :: string
  Status :: ScanStatus
  VirusFound :: bool
  scan_Error :: bool

type_synonym clamd = "string \<Rightarrow> go_error + (string \<times> string) option"

definition convertClamdStatusToLocalEnum :: "string \<Rightarrow> ScanStatus \<times> bool" where
  "convertClamdStatusToLocalEnum status =
     (if status = ''OK'' then (OK, False)
      else if status = ''FOUND'' then (Virus, True)
      else if status = ''ERROR'' then (Error, False)
      else (Error, False))"

text \<open>The result that \<^verbatim>\<open>ScanFile\<close> puts on the channel; \<open>None\<close> for the nil dereference of a missing result.\<close>

definition ScanFile :: "clamd \<Rightarrow> string \<Rightarrow> bool \<Rightarrow> ClamAvScanResult option" where
  "ScanFile clamd path enableVirusScan =
     (if \<not> enableVirusScan
      then (case convertClamdStatusToLocalEnum ''OK'' of (s, _) \<Rightarrow>
              Some \<lparr>filePath = path, Message = ''ClamAV scan disabled in config'', Status = s, VirusFound = False, scan_Error = False\<rparr>)
      else case clamd path of
             Inl err \<Rightarrow>
               (case convertClamdStatusToLocalEnum ''ERROR'' of (status, vf) \<Rightarrow>
                  Some \<lparr>filePath = path, Message = err_Error err, Status = status, VirusFound = vf, scan_Error = True\<rparr>)
           | Inr None \<Rightarrow> None
           | Inr (Some (st, raw)) \<Rightarrow>
               (case convertClamdStatusToLocalEnum st of (status, vf) \<Rightarrow>
                  Some \<lparr>filePath = path, Message = raw, Status = status, VirusFound = vf, scan_Error = False\<rparr>))"

subsection \<open>Collecting finished uploads\<close>

definition UploadTimeLimitMin :: int where
  "UploadTimeLimitMin = 120"

definition isScavengedFileDownloadState :: "string \<Rightarrow> bool" where
  "isScavengedFileDownloadState path = (Ext path = ''.download'')"

text \<open>The walk over the staging directory, from the entries \<^verbatim>\<open>filepath.Walk\<close> visits in order.\<close>

definition scavenge_files :: "(string \<times> (go_error + fileInfo)) list \<Rightarrow> string list" where
  "scavenge_files entries =
     map fst (filter (\<lambda>(path, r). case r of Inl _ \<Rightarrow> False
        | Inr info \<Rightarrow> \<not> IsDir info \<and> \<not> isScavengedFileDownloadState path) entries)"

definition isScavengedFileInOpenFileList :: "('w, 'f, 'z) os_api_scheme \<Rightarrow> string \<Rightarrow> 'f list \<Rightarrow> bool" where
  "isScavengedFileInOpenFileList os sfile opens = (\<exists>f \<in> set opens. file_Name os f = sfile)"

text \<open>Minutes since the modification, rounded towards zero.\<close>

definition uploadTimeDurationMins :: "int \<Rightarrow> u64 \<Rightarrow> int" where
  "uploadTimeDurationMins now mtime =
     (let d = now - sint mtime in if d < 0 then - ((- d) div 60) else d div 60)"

fun isSFTPOpenFileTimeup :: "('w, 'f, 'z) os_api_scheme \<Rightarrow> 'w \<Rightarrow> string \<Rightarrow> 'f list \<Rightarrow> go_error + ('f option \<times> bool)" where
  "isSFTPOpenFileTimeup os w sfile [] =
     (case os_Stat os sfile w of Inl err \<Rightarrow> Inl err | Inr _ \<Rightarrow> Inr (None, False))"
| "isSFTPOpenFileTimeup os w sfile (f # fs) =
     (if sfile = file_Name os f
      then (case os_Stat os (file_Name os f) w of
              Inl err \<Rightarrow> Inl err
            | Inr info \<Rightarrow> Inr (Some f, uploadTimeDurationMins (time_Now os w) (fi_mtime info) \<ge> UploadTimeLimitMin))
      else isSFTPOpenFileTimeup os w sfile fs)"

text \<open>One scavenged file: whether it counts as closed, and the world after an idle upload was closed.\<close>

definition upload_state_one :: "('w, 'f, 'z) os_api_scheme \<Rightarrow> 'f list \<Rightarrow> 'w \<Rightarrow> string \<Rightarrow> bool \<times> 'w" where
  "upload_state_one os opens w f =
     (if isScavengedFileInOpenFileList os f opens
      then (case isSFTPOpenFileTimeup os w f opens of
              Inl _ \<Rightarrow> (False, w)
            | Inr (ofile, isTimeup) \<Rightarrow>
                (if isTimeup
                 then (True, case ofile of Some o1 \<Rightarrow> snd (file_Close os o1 w) | None \<Rightarrow> w)
                 else (False, w)))
      else (True, w))"

fun upload_state_loop :: "('w, 'f, 'z) os_api_scheme \<Rightarrow> 'f list \<Rightarrow> 'w \<Rightarrow> string list \<Rightarrow> string list \<times> 'w" where
  "upload_state_loop os opens w [] = ([], w)"
| "upload_state_loop os opens w (f # fs) =
     (case upload_state_one os opens w f of
        (closed, w) \<Rightarrow> (case upload_state_loop os opens w fs of (cs, w) \<Rightarrow> (if closed then f # cs else cs, w)))"

definition checkScavengedFilesUploadState ::
  "('w, 'f, 'z) os_api_scheme \<Rightarrow> 'f list \<Rightarrow> 'w \<Rightarrow> string list \<Rightarrow> (string list \<times> bool) \<times> 'w" where
  "checkScavengedFilesUploadState os opens w files =
     (if length opens = 0 then ((files, True), w)
      else case upload_state_loop os opens w files of
             (closeds, w) \<Rightarrow> (if length closeds > 0 then ((closeds, True), w) else ((closeds, False), w)))"

subsection \<open>Moving scanned files\<close>

text \<open>Two more calls of the system: opening for reading, and \<^verbatim>\<open>io.Copy\<close> between open files.\<close>

record ('w, 'f) drive_api = "('w, 'f) os_api" +
  os_Open :: "string \<Rightarrow> 'w \<Rightarrow> (go_error + 'f) \<times> 'w"
  io_Copy :: "'f \<Rightarrow> 'f \<Rightarrow> 'w \<Rightarrow> go_error option \<times> 'w"

definition isFileExist :: "('w, 'f, 'z) os_api_scheme \<Rightarrow> string \<Rightarrow> 'w \<Rightarrow> bool" where
  "isFileExist os path w = (the_error (os_Stat os path w) = None)"

definition close_if_open :: "('w, 'f, 'z) os_api_scheme \<Rightarrow> 'f option \<Rightarrow> 'w \<Rightarrow> 'w" where
  "close_if_open os f w = (case f of None \<Rightarrow> w | Some f \<Rightarrow> snd (file_Close os f w))"

text \<open>\<^verbatim>\<open>moveFileBetweenDrives\<close>. An error of opening other than a missing file is not checked; copying from
  the nil file then fails. The destination is closed on return.\<close>

definition moveFileBetweenDrives :: "('w, 'f) drive_api \<Rightarrow> 'w \<Rightarrow> string \<Rightarrow> string \<Rightarrow> go_error option \<times> 'w" where
  "moveFileBetweenDrives os w srcPath destPath =
     (if \<not> isFileExist os srcPath w then (None, w)
      else
        case os_Open os srcPath w of
          (opened, w) \<Rightarrow>
            (if os_IsNotExist (the_error opened) then (None, w)
             else
               let srcFile = (case opened of Inl _ \<Rightarrow> None | Inr f \<Rightarrow> Some f);
                   w = snd (os_MkdirAll os (Dir destPath) 0x1FF w)
               in case os_Create os destPath w of
                    (Inl err, w) \<Rightarrow> (Some err, close_if_open os srcFile w)
                  | (Inr destFile, w) \<Rightarrow>
                      (case (case srcFile of None \<Rightarrow> (Some ErrInvalid, w) | Some f \<Rightarrow> io_Copy os destFile f w) of
                         (err, w) \<Rightarrow>
                           (let w = close_if_open os srcFile w
                            in case err of
                                 Some e \<Rightarrow> (Some e, snd (file_Close os destFile w))
                               | None \<Rightarrow>
                                   (case os_Remove os srcPath w of
                                      (err, w) \<Rightarrow> (err, snd (file_Close os destFile w)))))))"

definition moveFileByStatus :: "('w, 'f) drive_api \<Rightarrow> Config \<Rightarrow> 'w \<Rightarrow> ClamAvScanResult \<Rightarrow> string \<times> 'w" where
  "moveFileByStatus os cfg w scanR =
     (let cleanPath = strings_Replace (filePath scanR) (StagingPath cfg) (CleanPath cfg) (-1);
          quarantinePath = strings_Replace (filePath scanR) (StagingPath cfg) (QuarantinePath cfg) (-1)
      in if \<not> VirusFound scanR
         then (cleanPath, snd (moveFileBetweenDrives os w (filePath scanR) cleanPath))
         else (quarantinePath, snd (moveFileBetweenDrives os w (filePath scanR) quarantinePath)))"

text \<open>What the event loop does with a scan result: it leaves the file alone on an error, and otherwise moves it, and
  reports a virus to the configured webhook.\<close>

datatype disposition = LeftInStaging | Moved string | MovedAndReported string string

definition overlord_scan_event :: "('w, 'f) drive_api \<Rightarrow> ConfigService \<Rightarrow> 'w \<Rightarrow> ClamAvScanResult \<Rightarrow> disposition \<times> 'w" where
  "overlord_scan_event os c w scanR =
     (if scan_Error scanR then (LeftInStaging, w)
      else case moveFileByStatus os (cs_config c) w scanR of
             (destPath, w) \<Rightarrow>
               (if VirusFound scanR then (MovedAndReported destPath (getWebHook c VirusFoundWebook), w)
                else (Moved destPath, w)))"

subsection \<open>The goroutines of a batch\<close>

text \<open>
  The notifier announces the files of a batch one by one and waits for each to be done
  (\<^verbatim>\<open>notifyOverlordProcessScavengedFiles\<close>); the event loop starts a scan per announcement and handles the results
  (\<^verbatim>\<open>Overlord.Start\<close>). All channels are unbuffered, so a communication is one common step. The configuration may be
  reloaded at any time: \<open>confs\<close> are the configurations in force during the batch. Other programs
  and connections may change the world between two steps.
\<close>

datatype notifier = Announce | AwaitDone string | BatchDone

datatype event_loop = Listening | Handling ClamAvScanResult | Signalling

record 'w scan_state =
  batch :: "string list"
  notif :: notifier
  scanning :: "string list"
  eloop :: event_loop
  disposed :: "(string \<times> disposition) list"
  panicked :: bool
  world :: 'w

definition scan_start :: "string list \<Rightarrow> 'w \<Rightarrow> 'w scan_state" where
  "scan_start files w =
     \<lparr>batch = files, notif = Announce, scanning = [], eloop = Listening, disposed = [], panicked = False, world = w\<rparr>"

inductive scan_step :: "('w, 'f) drive_api \<Rightarrow> clamd \<Rightarrow> ConfigService set \<Rightarrow> 'w scan_state \<Rightarrow> 'w scan_state \<Rightarrow> bool"
  for os clamd confs where
  announce: "notif s = Announce \<Longrightarrow> batch s = f # fs \<Longrightarrow> eloop s = Listening \<Longrightarrow>
    scan_step os clamd confs s (s\<lparr>notif := AwaitDone f, batch := fs, scanning := scanning s @ [f]\<rparr>)"
| batch_end: "notif s = Announce \<Longrightarrow> batch s = [] \<Longrightarrow> scan_step os clamd confs s (s\<lparr>notif := BatchDone\<rparr>)"
| scanned: "scanning s = xs @ f # ys \<Longrightarrow> eloop s = Listening \<Longrightarrow> c \<in> confs \<Longrightarrow>
    ScanFile clamd f (EnableVirusScan (cs_config c)) = Some r \<Longrightarrow>
    scan_step os clamd confs s (s\<lparr>scanning := xs @ ys, eloop := Handling r\<rparr>)"
| scan_panic: "scanning s = xs @ f # ys \<Longrightarrow> c \<in> confs \<Longrightarrow>
    ScanFile clamd f (EnableVirusScan (cs_config c)) = None \<Longrightarrow> scan_step os clamd confs s (s\<lparr>panicked := True\<rparr>)"
| handle: "eloop s = Handling r \<Longrightarrow> c \<in> confs \<Longrightarrow> overlord_scan_event os c (world s) r = (d, w) \<Longrightarrow>
    scan_step os clamd confs s (s\<lparr>eloop := Signalling, disposed := disposed s @ [(filePath r, d)], world := w\<rparr>)"
| signal: "eloop s = Signalling \<Longrightarrow> notif s = AwaitDone f \<Longrightarrow>
    scan_step os clamd confs s (s\<lparr>eloop := Listening, notif := Announce\<rparr>)"

inductive scan_reach :: "('w, 'f) drive_api \<Rightarrow> clamd \<Rightarrow> ConfigService set \<Rightarrow> string list \<Rightarrow> 'w scan_state \<Rightarrow> bool"
  for os clamd confs files where
  start: "scan_reach os clamd confs files (scan_start files w)"
| outside: "scan_reach os clamd confs files s \<Longrightarrow> scan_reach os clamd confs files (s\<lparr>world := w\<rparr>)"
| more: "scan_reach os clamd confs files s \<Longrightarrow> \<not> panicked s \<Longrightarrow> scan_step os clamd confs s t \<Longrightarrow>
    scan_reach os clamd confs files t"

subsection \<open>Files are handled one at a time, each once\<close>

definition scan_inv :: "string list \<Rightarrow> 'w scan_state \<Rightarrow> bool" where
  "scan_inv files s = (case notif s of
     Announce \<Rightarrow> scanning s = [] \<and> eloop s = Listening \<and> map fst (disposed s) @ batch s = files
   | BatchDone \<Rightarrow> scanning s = [] \<and> eloop s = Listening \<and> batch s = [] \<and> map fst (disposed s) = files
   | AwaitDone f \<Rightarrow>
       (case eloop s of
          Listening \<Rightarrow> scanning s = [f] \<and> map fst (disposed s) @ f # batch s = files
        | Handling r \<Rightarrow> scanning s = [] \<and> filePath r = f \<and> map fst (disposed s) @ f # batch s = files
        | Signalling \<Rightarrow> scanning s = [] \<and> map fst (disposed s) @ batch s = files))"

lemma ScanFile_path: "ScanFile clamd f e = Some r \<Longrightarrow> filePath r = f"
  by (auto simp: ScanFile_def split: if_splits sum.splits option.splits prod.splits)

lemma scan_inv_step: "scan_step os clamd confs s t \<Longrightarrow> scan_inv files s \<Longrightarrow> scan_inv files t"
proof (induction rule: scan_step.induct)
  case (scanned s xs f ys c r)
  then show ?case
    by (cases "notif s") (auto simp: scan_inv_def ScanFile_path Cons_eq_append_conv append_eq_Cons_conv)
next
  case (handle s r c d w)
  then show ?case by (cases "notif s") (auto simp: scan_inv_def)
next
  case (announce s f fs)
  then show ?case by (simp add: scan_inv_def)
qed (auto simp: scan_inv_def split: notifier.splits event_loop.splits)

lemma scan_inv_reach: "scan_reach os clamd confs files s \<Longrightarrow> scan_inv files s"
proof (induction rule: scan_reach.induct)
  case (outside s w)
  then show ?case by (simp add: scan_inv_def cong: notifier.case_cong event_loop.case_cong)
next
  case (more s t)
  then show ?case using scan_inv_step by blast
qed (simp add: scan_inv_def scan_start_def)

text \<open>
  One file at a time, none skipped, none twice. In every reachable state of a batch at most one file is being scanned,
  the files disposed of so far are the first ones of the batch in order, and when the batch is reported as done, all
  of them have been disposed of.
\<close>

theorem batch_in_order:
  assumes "scan_reach os clamd confs files s"
  shows "length (scanning s) \<le> 1 \<and> prefix (map fst (disposed s)) files \<and>
    (if notif s = BatchDone then map fst (disposed s) = files else True)"
  using scan_inv_reach [OF assms]
  by (auto simp: scan_inv_def prefix_def split: notifier.splits event_loop.splits)

definition scan_left :: "'w scan_state \<Rightarrow> nat" where
  "scan_left s = 5 * length (batch s) + (if panicked s then 0 else
     case notif s of
       BatchDone \<Rightarrow> 1
     | Announce \<Rightarrow> 2
     | AwaitDone _ \<Rightarrow> (case eloop s of Listening \<Rightarrow> 5 | Handling _ \<Rightarrow> 4 | Signalling \<Rightarrow> 3))"

lemma scan_progress:
  assumes "scan_inv files s" "confs \<noteq> {}" "\<not> panicked s" "notif s \<noteq> BatchDone"
  shows "\<exists>t. scan_step os clamd confs s t \<and> scan_left t < scan_left s"
proof -
  obtain c where c: "c \<in> confs" using assms(2) by blast
  show ?thesis
  proof (cases "notif s")
    case Announce
    with assms(1) have l: "eloop s = Listening" by (simp add: scan_inv_def)
    show ?thesis
    proof (cases "batch s")
      case Nil
      with Announce show ?thesis using scan_step.batch_end [of s] assms(3) by (force simp: scan_left_def)
    next
      case (Cons f fs)
      with Announce l show ?thesis using scan_step.announce [of s f fs] assms(3) by (force simp: scan_left_def)
    qed
  next
    case (AwaitDone f)
    show ?thesis
    proof (cases "eloop s")
      case Listening
      with AwaitDone assms(1) have sc: "scanning s = [] @ f # []" by (simp add: scan_inv_def)
      show ?thesis
      proof (cases "ScanFile clamd f (EnableVirusScan (cs_config c))")
        case None
        with scan_step.scan_panic [OF sc c] AwaitDone Listening assms(3) show ?thesis by (force simp: scan_left_def)
      next
        case (Some r)
        with scan_step.scanned [OF sc Listening c] AwaitDone Listening assms(3) show ?thesis
          by (force simp: scan_left_def)
      qed
    next
      case (Handling r)
      obtain d w where "overlord_scan_event os c (world s) r = (d, w)" by (cases "overlord_scan_event os c (world s) r")
      with scan_step.handle [OF Handling c] AwaitDone Handling assms(3) show ?thesis by (force simp: scan_left_def)
    next
      case Signalling
      with scan_step.signal [OF Signalling AwaitDone] AwaitDone assms(3) show ?thesis by (force simp: scan_left_def)
    qed
  qed (use assms in simp)
qed

text \<open>
  A batch always completes. From every reachable state the goroutines can go on until the whole batch is done (or
  the scanner client has crashed on a missing result): they never wait for each other in a circle.
\<close>

theorem batch_completes:
  assumes "scan_reach os clamd confs files s" and "confs \<noteq> {}"
  shows "\<exists>t. (scan_step os clamd confs)\<^sup>*\<^sup>* s t \<and> (notif t = BatchDone \<or> panicked t)"
proof -
  have "scan_inv files s" using assms(1) by (rule scan_inv_reach)
  then show ?thesis
  proof (induction "scan_left s" arbitrary: s rule: less_induct)
    case less
    show ?case
    proof (cases "notif s = BatchDone \<or> panicked s")
      case False
      then obtain u where u: "scan_step os clamd confs s u" "scan_left u < scan_left s"
        using scan_progress [OF less.prems assms(2)] by blast
      with less.hyps scan_inv_step [OF u(1) less.prems] show ?thesis
        by (meson converse_rtranclp_into_rtranclp)
    qed blast
  qed
qed

subsection \<open>Where files go\<close>

definition disposed_ok :: "('w, 'f) drive_api \<Rightarrow> clamd \<Rightarrow> ConfigService set \<Rightarrow> 'w scan_state \<Rightarrow> bool" where
  "disposed_ok os clamd confs s \<longleftrightarrow>
     (\<forall>r. eloop s = Handling r \<longrightarrow> (\<exists>c \<in> confs. ScanFile clamd (filePath r) (EnableVirusScan (cs_config c)) = Some r)) \<and>
     (\<forall>(f, d) \<in> set (disposed s). \<exists>c \<in> confs. \<exists>c' \<in> confs. \<exists>r w.
        ScanFile clamd f (EnableVirusScan (cs_config c)) = Some r \<and> fst (overlord_scan_event os c' w r) = d)"

lemma disposed_ok_step: "scan_step os clamd confs s t \<Longrightarrow> disposed_ok os clamd confs s \<Longrightarrow> disposed_ok os clamd confs t"
proof (induction rule: scan_step.induct)
  case (scanned s xs f ys c r)
  then show ?case using ScanFile_path [of clamd f _ r] by (auto simp: disposed_ok_def)
next
  case (handle s r c d w)
  then obtain c1 where "c1 \<in> confs" "ScanFile clamd (filePath r) (EnableVirusScan (cs_config c1)) = Some r"
    by (auto simp: disposed_ok_def)
  moreover have "fst (overlord_scan_event os c (world s) r) = d" using handle.hyps(3) by simp
  ultimately show ?case using handle.hyps(2) handle.prems unfolding disposed_ok_def by auto
qed (auto simp: disposed_ok_def)

lemma disposed_ok_reach: "scan_reach os clamd confs files s \<Longrightarrow> disposed_ok os clamd confs s"
proof (induction rule: scan_reach.induct)
  case (more s t)
  then show ?case using disposed_ok_step by blast
qed (auto simp: disposed_ok_def scan_start_def)

text \<open>The verdict on a file under a configuration that has scanning switched on.\<close>

definition verdict_of :: "ConfigService \<Rightarrow> clamd \<Rightarrow> string \<Rightarrow> disposition option" where
  "verdict_of c clamd f =
     (let cfg = cs_config c
      in case clamd f of
           Inl _ \<Rightarrow> Some LeftInStaging
         | Inr None \<Rightarrow> None
         | Inr (Some (st, _)) \<Rightarrow>
             (if st = ''FOUND''
              then Some (MovedAndReported (strings_Replace f (StagingPath cfg) (QuarantinePath cfg) (-1)) (getWebHook c VirusFoundWebook))
              else Some (Moved (strings_Replace f (StagingPath cfg) (CleanPath cfg) (-1)))))"

lemma overlord_verdict:
  assumes "ScanFile clamd f True = Some r"
  shows "Some (fst (overlord_scan_event os c w r)) = verdict_of c clamd f"
  using assms
  by (auto simp: ScanFile_def overlord_scan_event_def moveFileByStatus_def verdict_of_def
      convertClamdStatusToLocalEnum_def Let_def split: sum.splits option.splits prod.splits if_splits)


lemma replace_n_none: "\<not> sublist old s \<Longrightarrow> replace_n s old new n = s"
proof (induction s old new n rule: replace_n.induct)
  case (1 s old new n)
  show ?case
  proof (cases "s = [] \<or> n = 0 \<or> old = []")
    case False
    with 1 have np: "\<not> prefix old s" by (auto intro: prefix_imp_sublist)
    obtain c cs where s: "s = c # cs" using False by (cases s) auto
    have "\<not> sublist old cs" using 1(3) s by (meson sublist_Cons_right)
    with 1(2) False np s show ?thesis by (simp add: replace_n.simps [of "c # cs"])
  qed (simp add: replace_n.simps [of s])
qed

lemma Replace_prefix:
  assumes "old \<noteq> []" "\<not> sublist old rest"
  shows "strings_Replace (old @ rest) old new (-1) = new @ rest"
proof -
  have "replace_n (old @ rest) old new (-1) = new @ replace_n rest old new (-2)"
    using assms(1) by (simp add: replace_n.simps [of "old @ rest"])
  then show ?thesis using assms(2) by (simp add: strings_Replace_def replace_n_none)
qed

text \<open>
  The directory structure is kept. A file at some place below the staging directory is moved to the same place
  below the clean directory, or below quarantine if a virus was found.
\<close>

theorem destination_mirrors_staging:
  assumes "StagingPath cfg \<noteq> []" and "\<not> strings_Contains rest (StagingPath cfg)" and "filePath r = StagingPath cfg @ rest"
  shows "fst (moveFileByStatus os cfg w r) = (if VirusFound r then QuarantinePath cfg else CleanPath cfg) @ rest"
  using assms by (simp add: moveFileByStatus_def Let_def Replace_prefix strings_Contains_def)

text \<open>
  No file is lost by a failed move. If the data cannot be copied, the move reports the error and never calls \<^verbatim>\<open>os.Remove\<close>: its result is the
  same with any other function in the place of \<^verbatim>\<open>os.Remove\<close>.
\<close>

theorem failed_copy_keeps_the_file:
  assumes "\<And>d f w. fst (io_Copy os d f w) \<noteq> None"
  shows "moveFileBetweenDrives (os\<lparr>os_Remove := x\<rparr>) w src dest = moveFileBetweenDrives os w src dest"
proof -
  have copy: "\<exists>e w'. io_Copy os d f v = (Some e, w')" for d f v
    using assms [of d f v] by (cases "io_Copy os d f v") auto
  have c: "close_if_open (os\<lparr>os_Remove := x\<rparr>) g v = close_if_open os g v" for g v
    by (simp add: close_if_open_def split: option.split)
  have e: "isFileExist (os\<lparr>os_Remove := x\<rparr>) src w = isFileExist os src w" by (simp add: isFileExist_def)
  show ?thesis
    unfolding moveFileBetweenDrives_def c e
    by (auto simp: Let_def split: prod.split sum.split option.split) (metis copy fst_conv option.distinct(1))+
qed

subsection \<open>Concrete runs\<close>

text \<open>A system without files, on which every copy fails, and a scanner that finds a virus in one path.\<close>

definition demo_drive :: "(nat, nat) drive_api" where
  "demo_drive = \<lparr>os_Stat = \<lambda>_ _. Inl ENOENT, os_Lstat = \<lambda>_ _. Inl ENOENT, os_Readlink = \<lambda>_ _. Inl ENOENT,
     os_Getwd = \<lambda>_. Inr ''/'', os_Mkdir = \<lambda>_ _ w. (None, w + 1), os_MkdirAll = \<lambda>_ _ w. (None, w + 1),
     os_Remove = \<lambda>_ w. (None, w + 1), os_Rename = \<lambda>_ _ w. (None, w + 1), os_Symlink = \<lambda>_ _ w. (None, w + 1),
     os_Link = \<lambda>_ _ w. (None, w + 1), os_Truncate = \<lambda>_ _ w. (None, w + 1), os_Chmod = \<lambda>_ _ w. (None, w + 1),
     os_Chtimes = \<lambda>_ _ _ w. (None, w + 1), os_Chown = \<lambda>_ _ _ w. (None, w + 1),
     os_OpenFile = \<lambda>_ _ _ w. (Inr 0, w + 1), os_Create = \<lambda>_ w. (Inr 0, w + 1), file_Name = \<lambda>_. ''/f'',
     file_Stat = \<lambda>_ _. Inl ENOENT, file_ReadAt = \<lambda>_ _ _ _. ([], Some EOF), file_WriteAt = \<lambda>_ _ _ w. (None, w + 1),
     file_Readdir = \<lambda>_ _ w. (Inl EOF, w), file_Truncate = \<lambda>_ _ w. (None, w + 1), file_Chmod = \<lambda>_ _ w. (None, w + 1),
     file_Chown = \<lambda>_ _ _ w. (None, w + 1), file_Close = \<lambda>_ w. (None, w), syscall_Statfs = \<lambda>_ _. Inl ENOENT,
     time_Now = \<lambda>_. 0, time_civil = \<lambda>_ _. \<lparr>ct_month = ''January'', ct_day = 1, ct_year = 1970, ct_hour = 0, ct_minute = 0\<rparr>,
     os_Open = \<lambda>_ w. (Inr 0, w), io_Copy = \<lambda>_ _ w. (Some EINVAL, w)\<rparr>"

definition demo_clamd :: clamd where
  "demo_clamd f = Inr (Some (if f = ''/mnt/ssftp/staging/bob/v'' then ''FOUND'' else ''OK'', ''raw''))"

definition demo_conf :: ConfigService where
  "demo_conf = \<lparr>cs_config = set_paths [] (zeroConfig\<lparr>EnableVirusScan := True\<rparr>), cs_valid = True\<rparr>"

lemma demo_run:
  "\<exists>s. scan_reach demo_drive demo_clamd {demo_conf} [f, g] s \<and> map fst (disposed s) = [f] \<and>
       disposed s = [(f, the (verdict_of demo_conf demo_clamd f))]"
proof -
  let ?step = "scan_step demo_drive demo_clamd {demo_conf}"
  let ?s0 = "scan_start [f, g] (0 :: nat)"
  let ?s1 = "?s0\<lparr>notif := AwaitDone f, batch := [g], scanning := scanning ?s0 @ [f]\<rparr>"
  have s1: "?step ?s0 ?s1" by (rule scan_step.announce) (simp_all add: scan_start_def)
  obtain r where r: "ScanFile demo_clamd f (EnableVirusScan (cs_config demo_conf)) = Some r"
    by (simp add: ScanFile_def demo_clamd_def demo_conf_def set_paths_def case_prod_unfold)
  have en: "EnableVirusScan (cs_config demo_conf)" by (simp add: demo_conf_def set_paths_def)
  let ?s2 = "?s1\<lparr>scanning := [] @ [], eloop := Handling r\<rparr>"
  have s2: "?step ?s1 ?s2"
    using r by (intro scan_step.scanned [where f = f and c = demo_conf]) (simp_all add: scan_start_def)
  obtain d w where ev: "overlord_scan_event demo_drive demo_conf (world ?s2) r = (d, w)"
    by (cases "overlord_scan_event demo_drive demo_conf (world ?s2) r")
  let ?s3 = "?s2\<lparr>eloop := Signalling, disposed := disposed ?s2 @ [(filePath r, d)], world := w\<rparr>"
  have s3: "?step ?s2 ?s3" by (rule scan_step.handle [OF _ _ ev]) simp_all
  have "scan_reach demo_drive demo_clamd {demo_conf} [f, g] ?s3"
    using s1 s2 s3 by (intro scan_reach.more [OF scan_reach.more [OF scan_reach.more [OF scan_reach.start]]])
       (simp_all add: scan_start_def)
  moreover have "Some d = verdict_of demo_conf demo_clamd f"
    using overlord_verdict [of demo_clamd f r demo_drive demo_conf "world ?s2"] r en by (simp only: ev fst_conv)
  moreover have "filePath r = f" using r by (rule ScanFile_path)
  ultimately show ?thesis by (intro exI [of _ ?s3]) (auto simp: scan_start_def dest: sym)
qed

theorem batch_in_order_witness:
  "\<exists>s. scan_reach demo_drive demo_clamd {demo_conf} [''/a'', ''/b''] s \<and> disposed s \<noteq> [] \<and>
       prefix (map fst (disposed s)) [''/a'', ''/b'']"
proof -
  obtain s where s: "scan_reach demo_drive demo_clamd {demo_conf} [''/a'', ''/b''] s" "map fst (disposed s) = [''/a'']"
    by (rule exE [OF demo_run [of "''/a''" "''/b''"]]) (elim conjE, rule that)
  from batch_in_order [OF s(1)] s show ?thesis by auto
qed

theorem batch_completes_witness:
  "\<exists>t. (scan_step demo_drive demo_clamd {demo_conf})\<^sup>*\<^sup>* (scan_start [''/a''] 0) t \<and> (notif t = BatchDone \<or> panicked t)"
  by (rule batch_completes [OF scan_reach.start]) simp


theorem destination_mirrors_staging_witness:
  "fst (moveFileByStatus demo_drive (cs_config demo_conf) 0
     \<lparr>filePath = ''/mnt/ssftp/staging/bob/a.txt'', Message = [], Status = OK, VirusFound = False, scan_Error = False\<rparr>) =
   ''/mnt/ssftp/clean/bob/a.txt''"
proof -
  let ?r = "\<lparr>filePath = ''/mnt/ssftp/staging/bob/a.txt'', Message = [], Status = OK, VirusFound = False, scan_Error = False\<rparr>"
  have "\<not> strings_Contains ''/bob/a.txt'' (StagingPath (cs_config demo_conf))" by code_simp
  moreover have "StagingPath (cs_config demo_conf) = ''/mnt/ssftp/staging''" "CleanPath (cs_config demo_conf) = ''/mnt/ssftp/clean''"
    by (simp_all add: demo_conf_def set_paths_def DefaultStagingPath_def DefaultCleanPath_def)
  ultimately show ?thesis
    using destination_mirrors_staging [of "cs_config demo_conf" "''/bob/a.txt''" ?r demo_drive 0] by simp
qed

theorem failed_copy_keeps_the_file_witness:
  "moveFileBetweenDrives (demo_drive\<lparr>os_Remove := \<lambda>_ w. (None, w + 9)\<rparr>) 0 ''/s'' ''/d'' =
   moveFileBetweenDrives demo_drive 0 ''/s'' ''/d''"
  by (rule failed_copy_keeps_the_file) (simp add: demo_drive_def)

end
