(* ===== verification/Sftp_Packets.thy ===== *)
theory Sftp_Packets
  imports File_Attrs
begin

text \<open>
  The packets of pkgsftp/packet.go and their classification in packet-typing.go. Requests and
  responses are interfaces in the source, implemented by one struct per packet; here each is a
  datatype with one constructor per struct, its arguments the fields in the source's order.

  A decoder fills a fresh struct field by field and stops at the first error, and
  \<^verbatim>\<open>makePacket\<close> returns the partly filled packet together with the error, so decoders return both.
\<close>

subsection \<open>Values under an \<^verbatim>\<open>interface{}\<close> and how they are encoded\<close>

datatype goval =
    VNil
  | VU8 byte
  | VU32 u32
  | VU64 u64
  | VString string
  | VFileInfo fileInfo
  | VBytes bytes
  | VStruct "goval list"
  | VSlice "goval list"
  | VOther

text \<open>\<^verbatim>\<open>marshal\<close>; structs and slices are encoded element by element (a \<^verbatim>\<open>[]byte\<close> is a slice of
  \<^verbatim>\<open>uint8\<close>); any other type panics.\<close>

fun marshal :: "bytes \<Rightarrow> goval \<Rightarrow> bytes option"
  and marshal_each :: "bytes \<Rightarrow> goval list \<Rightarrow> bytes option" where
  "marshal b VNil = Some b"
| "marshal b (VU8 v) = Some (b @ [v])"
| "marshal b (VU32 v) = Some (marshalUint32 b v)"
| "marshal b (VU64 v) = Some (marshalUint64 b v)"
| "marshal b (VString v) = Some (marshalString b v)"
| "marshal b (VFileInfo v) = Some (marshalFileInfo b v)"
| "marshal b (VBytes v) = Some (b @ v)"
| "marshal b (VStruct vs) = marshal_each b vs"
| "marshal b (VSlice vs) = marshal_each b vs"
| "marshal b VOther = None"
| "marshal_each b [] = Some b"
| "marshal_each b (v # vs) = (case marshal b v of None \<Rightarrow> None | Some b \<Rightarrow> marshal_each b vs)"

subsection \<open>Requests\<close>

datatype specificPacket =
    sshFxpExtendedPacketStatVFS u32 string string
  | sshFxpExtendedPacketPosixRename u32 string string string
  | sshFxpExtendedPacketHardlink u32 string string string

datatype requestPacket =
    sshFxInitPacket u32 "extensionPair list"
  | sshFxpReaddirPacket u32 string
  | sshFxpOpendirPacket u32 string
  | sshFxpLstatPacket u32 string
  | sshFxpStatPacket u32 string
  | sshFxpFstatPacket u32 string
  | sshFxpClosePacket u32 string
  | sshFxpRemovePacket u32 string
  | sshFxpRmdirPacket u32 string
  | sshFxpSymlinkPacket u32 string string
  | sshFxpReadlinkPacket u32 string
  | sshFxpRealpathPacket u32 string
  | sshFxpOpenPacket u32 string u32 u32
  | sshFxpReadPacket u32 string u64 u32
  | sshFxpRenamePacket u32 string string
  | sshFxpWritePacket u32 string u64 u32 bytes
  | sshFxpMkdirPacket u32 string u32
  | sshFxpSetstatPacket u32 string u32 goval
  | sshFxpFsetstatPacket u32 string u32 goval
  | sshFxpExtendedPacket u32 string "specificPacket option"

fun specificPacket_id :: "specificPacket \<Rightarrow> u32" where
  "specificPacket_id (sshFxpExtendedPacketStatVFS i _ _) = i"
| "specificPacket_id (sshFxpExtendedPacketPosixRename i _ _ _) = i"
| "specificPacket_id (sshFxpExtendedPacketHardlink i _ _ _) = i"

text \<open>The init packet has no id; its \<^verbatim>\<open>id\<close> method gives zero.\<close>

fun requestPacket_id :: "requestPacket \<Rightarrow> u32" where
  "requestPacket_id (sshFxInitPacket _ _) = 0"
| "requestPacket_id (sshFxpReaddirPacket i _) = i"
| "requestPacket_id (sshFxpOpendirPacket i _) = i"
| "requestPacket_id (sshFxpLstatPacket i _) = i"
| "requestPacket_id (sshFxpStatPacket i _) = i"
| "requestPacket_id (sshFxpFstatPacket i _) = i"
| "requestPacket_id (sshFxpClosePacket i _) = i"
| "requestPacket_id (sshFxpRemovePacket i _) = i"
| "requestPacket_id (sshFxpRmdirPacket i _) = i"
| "requestPacket_id (sshFxpSymlinkPacket i _ _) = i"
| "requestPacket_id (sshFxpReadlinkPacket i _) = i"
| "requestPacket_id (sshFxpRealpathPacket i _) = i"
| "requestPacket_id (sshFxpOpenPacket i _ _ _) = i"
| "requestPacket_id (sshFxpReadPacket i _ _ _) = i"
| "requestPacket_id (sshFxpRenamePacket i _ _) = i"
| "requestPacket_id (sshFxpWritePacket i _ _ _ _) = i"
| "requestPacket_id (sshFxpMkdirPacket i _ _) = i"
| "requestPacket_id (sshFxpSetstatPacket i _ _ _) = i"
| "requestPacket_id (sshFxpFsetstatPacket i _ _ _) = i"
| "requestPacket_id (sshFxpExtendedPacket i _ _) = i"

subsection \<open>Encoders\<close>

definition marshal_Init :: "u32 \<Rightarrow> extensionPair list \<Rightarrow> bytes" where
  "marshal_Init version exts = foldl marshalExtensionPair (marshalUint32 [sshFxpInit] version) exts"

definition marshalIDString :: "byte \<Rightarrow> u32 \<Rightarrow> string \<Rightarrow> bytes" where
  "marshalIDString packetType ID str = marshalString (marshalUint32 [packetType] ID) str"

definition marshal_Readdir :: "u32 \<Rightarrow> string \<Rightarrow> bytes" where
  "marshal_Readdir ID Handle = marshalIDString sshFxpReaddir ID Handle"

definition marshal_Opendir :: "u32 \<Rightarrow> string \<Rightarrow> bytes" where
  "marshal_Opendir ID Path = marshalIDString sshFxpOpendir ID Path"

definition marshal_Lstat :: "u32 \<Rightarrow> string \<Rightarrow> bytes" where
  "marshal_Lstat ID Path = marshalIDString sshFxpLstat ID Path"

definition marshal_Stat :: "u32 \<Rightarrow> string \<Rightarrow> bytes" where
  "marshal_Stat ID Path = marshalIDString sshFxpStat ID Path"

definition marshal_Fstat :: "u32 \<Rightarrow> string \<Rightarrow> bytes" where
  "marshal_Fstat ID Handle = marshalIDString sshFxpFstat ID Handle"

definition marshal_Close :: "u32 \<Rightarrow> string \<Rightarrow> bytes" where
  "marshal_Close ID Handle = marshalIDString sshFxpClose ID Handle"

definition marshal_Remove :: "u32 \<Rightarrow> string \<Rightarrow> bytes" where
  "marshal_Remove ID Filename = marshalIDString sshFxpRemove ID Filename"

definition marshal_Rmdir :: "u32 \<Rightarrow> string \<Rightarrow> bytes" where
  "marshal_Rmdir ID Path = marshalIDString sshFxpRmdir ID Path"

definition marshal_Readlink :: "u32 \<Rightarrow> string \<Rightarrow> bytes" where
  "marshal_Readlink ID Path = marshalIDString sshFxpReadlink ID Path"

definition marshal_Realpath :: "u32 \<Rightarrow> string \<Rightarrow> bytes" where
  "marshal_Realpath ID Path = marshalIDString sshFxpRealpath ID Path"

definition marshal_Symlink :: "u32 \<Rightarrow> string \<Rightarrow> string \<Rightarrow> bytes" where
  "marshal_Symlink ID Targetpath Linkpath =
     marshalString (marshalString (marshalUint32 [sshFxpSymlink] ID) Targetpath) Linkpath"

definition marshal_Open :: "u32 \<Rightarrow> string \<Rightarrow> u32 \<Rightarrow> u32 \<Rightarrow> bytes" where
  "marshal_Open ID Path Pflags Flags =
     marshalUint32 (marshalUint32 (marshalString (marshalUint32 [sshFxpOpen] ID) Path) Pflags) Flags"

definition marshal_Read :: "u32 \<Rightarrow> string \<Rightarrow> u64 \<Rightarrow> u32 \<Rightarrow> bytes" where
  "marshal_Read ID Handle Offset Len =
     marshalUint32 (marshalUint64 (marshalString (marshalUint32 [sshFxpRead] ID) Handle) Offset) Len"

definition marshal_Rename :: "u32 \<Rightarrow> string \<Rightarrow> string \<Rightarrow> bytes" where
  "marshal_Rename ID Oldpath Newpath =
     marshalString (marshalString (marshalUint32 [sshFxpRename] ID) Oldpath) Newpath"

definition marshal_Write :: "u32 \<Rightarrow> string \<Rightarrow> u64 \<Rightarrow> u32 \<Rightarrow> bytes \<Rightarrow> bytes" where
  "marshal_Write ID Handle Offset Length Data =
     marshalUint32 (marshalUint64 (marshalString (marshalUint32 [sshFxpWrite] ID) Handle) Offset) Length @ Data"

definition marshal_Mkdir :: "u32 \<Rightarrow> string \<Rightarrow> u32 \<Rightarrow> bytes" where
  "marshal_Mkdir ID Path Flags =
     marshalUint32 (marshalString (marshalUint32 [sshFxpMkdir] ID) Path) Flags"

definition marshal_Setstat :: "u32 \<Rightarrow> string \<Rightarrow> u32 \<Rightarrow> goval \<Rightarrow> bytes option" where
  "marshal_Setstat ID Path Flags Attrs =
     marshal (marshalUint32 (marshalString (marshalUint32 [sshFxpSetstat] ID) Path) Flags) Attrs"

definition marshal_Fsetstat :: "u32 \<Rightarrow> string \<Rightarrow> u32 \<Rightarrow> goval \<Rightarrow> bytes option" where
  "marshal_Fsetstat ID Handle Flags Attrs =
     marshal (marshalUint32 (marshalString (marshalUint32 [sshFxpFsetstat] ID) Handle) Flags) Attrs"

text \<open>The three extended requests as the client encodes them.\<close>

definition marshal_Hardlink :: "u32 \<Rightarrow> string \<Rightarrow> string \<Rightarrow> bytes" where
  "marshal_Hardlink ID Oldpath Newpath =
     marshalString (marshalString (marshalString (marshalUint32 [sshFxpExtended] ID)
       ''hardlink@openssh.com'') Oldpath) Newpath"

definition marshal_PosixRename :: "u32 \<Rightarrow> string \<Rightarrow> string \<Rightarrow> bytes" where
  "marshal_PosixRename ID Oldpath Newpath =
     marshalString (marshalString (marshalString (marshalUint32 [sshFxpExtended] ID)
       ''posix-rename@openssh.com'') Oldpath) Newpath"

definition marshal_Statvfs :: "u32 \<Rightarrow> string \<Rightarrow> bytes" where
  "marshal_Statvfs ID Path =
     marshalString (marshalString (marshalUint32 [sshFxpExtended] ID) ''statvfs@openssh.com'') Path"

text \<open>The \<^verbatim>\<open>MarshalBinary\<close> methods together. The extended packet, which only the server builds,
  has none; its three forms are encoded by the client's own packet types.\<close>

fun MarshalBinary :: "requestPacket \<Rightarrow> bytes option" where
  "MarshalBinary (sshFxInitPacket v e) = Some (marshal_Init v e)"
| "MarshalBinary (sshFxpReaddirPacket i s) = Some (marshal_Readdir i s)"
| "MarshalBinary (sshFxpOpendirPacket i s) = Some (marshal_Opendir i s)"
| "MarshalBinary (sshFxpLstatPacket i s) = Some (marshal_Lstat i s)"
| "MarshalBinary (sshFxpStatPacket i s) = Some (marshal_Stat i s)"
| "MarshalBinary (sshFxpFstatPacket i s) = Some (marshal_Fstat i s)"
| "MarshalBinary (sshFxpClosePacket i s) = Some (marshal_Close i s)"
| "MarshalBinary (sshFxpRemovePacket i s) = Some (marshal_Remove i s)"
| "MarshalBinary (sshFxpRmdirPacket i s) = Some (marshal_Rmdir i s)"
| "MarshalBinary (sshFxpReadlinkPacket i s) = Some (marshal_Readlink i s)"
| "MarshalBinary (sshFxpRealpathPacket i s) = Some (marshal_Realpath i s)"
| "MarshalBinary (sshFxpSymlinkPacket i t l) = Some (marshal_Symlink i t l)"
| "MarshalBinary (sshFxpOpenPacket i p pf f) = Some (marshal_Open i p pf f)"
| "MarshalBinary (sshFxpReadPacket i h off len) = Some (marshal_Read i h off len)"
| "MarshalBinary (sshFxpRenamePacket i old new) = Some (marshal_Rename i old new)"
| "MarshalBinary (sshFxpWritePacket i h off len d) = Some (marshal_Write i h off len d)"
| "MarshalBinary (sshFxpMkdirPacket i p f) = Some (marshal_Mkdir i p f)"
| "MarshalBinary (sshFxpSetstatPacket i p f a) = marshal_Setstat i p f a"
| "MarshalBinary (sshFxpFsetstatPacket i h f a) = marshal_Fsetstat i h f a"
| "MarshalBinary (sshFxpExtendedPacket _ _ (Some (sshFxpExtendedPacketStatVFS i _ p))) = Some (marshal_Statvfs i p)"
| "MarshalBinary (sshFxpExtendedPacket _ _ (Some (sshFxpExtendedPacketPosixRename i _ old new))) = Some (marshal_PosixRename i old new)"
| "MarshalBinary (sshFxpExtendedPacket _ _ (Some (sshFxpExtendedPacketHardlink i _ old new))) = Some (marshal_Hardlink i old new)"
| "MarshalBinary (sshFxpExtendedPacket _ _ None) = None"

subsection \<open>Decoders\<close>

text \<open>Read one field: on an error the packet filled so far is the result.\<close>

definition try_field :: "go_error + ('a \<times> bytes) \<Rightarrow> 'r \<Rightarrow> ('a \<Rightarrow> bytes \<Rightarrow> 'r \<times> go_error option) \<Rightarrow> 'r \<times> go_error option" where
  "try_field r sofar k = (case r of Inl e \<Rightarrow> (sofar, Some e) | Inr (v, b) \<Rightarrow> k v b)"

abbreviation try_u32 where "try_u32 b \<equiv> try_field (unmarshalUint32Safe b)"
abbreviation try_u64 where "try_u64 b \<equiv> try_field (unmarshalUint64Safe b)"
abbreviation try_str where "try_str b \<equiv> try_field (unmarshalStringSafe b)"

definition unmarshal_Init :: "bytes \<Rightarrow> requestPacket \<times> go_error option" where
  "unmarshal_Init b =
     try_u32 b (sshFxInitPacket 0 []) (\<lambda>v b.
       case read_all unmarshalExtensionPair b of (exts, err) \<Rightarrow> (sshFxInitPacket v exts, err))"

definition unmarshalIDString :: "(u32 \<Rightarrow> string \<Rightarrow> requestPacket) \<Rightarrow> bytes \<Rightarrow> requestPacket \<times> go_error option" where
  "unmarshalIDString mk b =
     try_u32 b (mk 0 []) (\<lambda>i b. try_str b (mk i []) (\<lambda>s _. (mk i s, None)))"

definition unmarshal_Readdir :: "bytes \<Rightarrow> requestPacket \<times> go_error option" where
  "unmarshal_Readdir = unmarshalIDString sshFxpReaddirPacket"

definition unmarshal_Opendir :: "bytes \<Rightarrow> requestPacket \<times> go_error option" where
  "unmarshal_Opendir = unmarshalIDString sshFxpOpendirPacket"

definition unmarshal_Lstat :: "bytes \<Rightarrow> requestPacket \<times> go_error option" where
  "unmarshal_Lstat = unmarshalIDString sshFxpLstatPacket"

definition unmarshal_Stat :: "bytes \<Rightarrow> requestPacket \<times> go_error option" where
  "unmarshal_Stat = unmarshalIDString sshFxpStatPacket"

definition unmarshal_Fstat :: "bytes \<Rightarrow> requestPacket \<times> go_error option" where
  "unmarshal_Fstat = unmarshalIDString sshFxpFstatPacket"

definition unmarshal_Close :: "bytes \<Rightarrow> requestPacket \<times> go_error option" where
  "unmarshal_Close = unmarshalIDString sshFxpClosePacket"

definition unmarshal_Remove :: "bytes \<Rightarrow> requestPacket \<times> go_error option" where
  "unmarshal_Remove = unmarshalIDString sshFxpRemovePacket"

definition unmarshal_Rmdir :: "bytes \<Rightarrow> requestPacket \<times> go_error option" where
  "unmarshal_Rmdir = unmarshalIDString sshFxpRmdirPacket"

definition unmarshal_Readlink :: "bytes \<Rightarrow> requestPacket \<times> go_error option" where
  "unmarshal_Readlink = unmarshalIDString sshFxpReadlinkPacket"

definition unmarshal_Realpath :: "bytes \<Rightarrow> requestPacket \<times> go_error option" where
  "unmarshal_Realpath = unmarshalIDString sshFxpRealpathPacket"

definition unmarshal_Symlink :: "bytes \<Rightarrow> requestPacket \<times> go_error option" where
  "unmarshal_Symlink b =
     try_u32 b (sshFxpSymlinkPacket 0 [] []) (\<lambda>i b.
     try_str b (sshFxpSymlinkPacket i [] []) (\<lambda>t b.
     try_str b (sshFxpSymlinkPacket i t []) (\<lambda>l _. (sshFxpSymlinkPacket i t l, None))))"

definition unmarshal_Open :: "bytes \<Rightarrow> requestPacket \<times> go_error option" where
  "unmarshal_Open b =
     try_u32 b (sshFxpOpenPacket 0 [] 0 0) (\<lambda>i b.
     try_str b (sshFxpOpenPacket i [] 0 0) (\<lambda>p b.
     try_u32 b (sshFxpOpenPacket i p 0 0) (\<lambda>pf b.
     try_u32 b (sshFxpOpenPacket i p pf 0) (\<lambda>f _. (sshFxpOpenPacket i p pf f, None)))))"

definition unmarshal_Read :: "bytes \<Rightarrow> requestPacket \<times> go_error option" where
  "unmarshal_Read b =
     try_u32 b (sshFxpReadPacket 0 [] 0 0) (\<lambda>i b.
     try_str b (sshFxpReadPacket i [] 0 0) (\<lambda>h b.
     try_u64 b (sshFxpReadPacket i h 0 0) (\<lambda>off b.
     try_u32 b (sshFxpReadPacket i h off 0) (\<lambda>len _. (sshFxpReadPacket i h off len, None)))))"

definition unmarshal_Rename :: "bytes \<Rightarrow> requestPacket \<times> go_error option" where
  "unmarshal_Rename b =
     try_u32 b (sshFxpRenamePacket 0 [] []) (\<lambda>i b.
     try_str b (sshFxpRenamePacket i [] []) (\<lambda>old b.
     try_str b (sshFxpRenamePacket i old []) (\<lambda>new _. (sshFxpRenamePacket i old new, None))))"

text \<open>The length of the data is compared at 32 bits, as in the source.\<close>

definition unmarshal_Write :: "bytes \<Rightarrow> requestPacket \<times> go_error option" where
  "unmarshal_Write b =
     try_u32 b (sshFxpWritePacket 0 [] 0 0 []) (\<lambda>i b.
     try_str b (sshFxpWritePacket i [] 0 0 []) (\<lambda>h b.
     try_u64 b (sshFxpWritePacket i h 0 0 []) (\<lambda>off b.
     try_u32 b (sshFxpWritePacket i h off 0 []) (\<lambda>len b.
       if (of_nat (length b) :: u32) < len then (sshFxpWritePacket i h off len [], Some ErrShortPacket)
       else (sshFxpWritePacket i h off len (take (unat len) b), None)))))"

definition unmarshal_Mkdir :: "bytes \<Rightarrow> requestPacket \<times> go_error option" where
  "unmarshal_Mkdir b =
     try_u32 b (sshFxpMkdirPacket 0 [] 0) (\<lambda>i b.
     try_str b (sshFxpMkdirPacket i [] 0) (\<lambda>p b.
     try_u32 b (sshFxpMkdirPacket i p 0) (\<lambda>f _. (sshFxpMkdirPacket i p f, None))))"

definition unmarshal_Setstat :: "bytes \<Rightarrow> requestPacket \<times> go_error option" where
  "unmarshal_Setstat b =
     try_u32 b (sshFxpSetstatPacket 0 [] 0 VNil) (\<lambda>i b.
     try_str b (sshFxpSetstatPacket i [] 0 VNil) (\<lambda>p b.
     try_u32 b (sshFxpSetstatPacket i p 0 VNil) (\<lambda>f b. (sshFxpSetstatPacket i p f (VBytes b), None))))"

definition unmarshal_Fsetstat :: "bytes \<Rightarrow> requestPacket \<times> go_error option" where
  "unmarshal_Fsetstat b =
     try_u32 b (sshFxpFsetstatPacket 0 [] 0 VNil) (\<lambda>i b.
     try_str b (sshFxpFsetstatPacket i [] 0 VNil) (\<lambda>h b.
     try_u32 b (sshFxpFsetstatPacket i h 0 VNil) (\<lambda>f b. (sshFxpFsetstatPacket i h f (VBytes b), None))))"

definition unmarshal_StatVFS :: "bytes \<Rightarrow> specificPacket \<times> go_error option" where
  "unmarshal_StatVFS b =
     try_u32 b (sshFxpExtendedPacketStatVFS 0 [] []) (\<lambda>i b.
     try_str b (sshFxpExtendedPacketStatVFS i [] []) (\<lambda>r b.
     try_str b (sshFxpExtendedPacketStatVFS i r []) (\<lambda>p _. (sshFxpExtendedPacketStatVFS i r p, None))))"

definition unmarshal_PosixRename :: "bytes \<Rightarrow> specificPacket \<times> go_error option" where
  "unmarshal_PosixRename b =
     try_u32 b (sshFxpExtendedPacketPosixRename 0 [] [] []) (\<lambda>i b.
     try_str b (sshFxpExtendedPacketPosixRename i [] [] []) (\<lambda>r b.
     try_str b (sshFxpExtendedPacketPosixRename i r [] []) (\<lambda>old b.
     try_str b (sshFxpExtendedPacketPosixRename i r old []) (\<lambda>new _.
       (sshFxpExtendedPacketPosixRename i r old new, None)))))"

definition unmarshal_Hardlink :: "bytes \<Rightarrow> specificPacket \<times> go_error option" where
  "unmarshal_Hardlink b =
     try_u32 b (sshFxpExtendedPacketHardlink 0 [] [] []) (\<lambda>i b.
     try_str b (sshFxpExtendedPacketHardlink i [] [] []) (\<lambda>r b.
     try_str b (sshFxpExtendedPacketHardlink i r [] []) (\<lambda>old b.
     try_str b (sshFxpExtendedPacketHardlink i r old []) (\<lambda>new _.
       (sshFxpExtendedPacketHardlink i r old new, None)))))"

text \<open>The extended packet: the request name selects the specific packet, which is decoded from the
  same bytes again. An unknown name is an error that \<^verbatim>\<open>errors.Cause\<close> recognises.\<close>

definition unmarshal_Extended :: "bytes \<Rightarrow> requestPacket \<times> go_error option" where
  "unmarshal_Extended bOrig =
     try_u32 bOrig (sshFxpExtendedPacket 0 [] None) (\<lambda>i b.
     try_str b (sshFxpExtendedPacket i [] None) (\<lambda>req _.
       if req = ''statvfs@openssh.com''
       then (case unmarshal_StatVFS bOrig of (s, e) \<Rightarrow> (sshFxpExtendedPacket i req (Some s), e))
       else if req = ''posix-rename@openssh.com''
       then (case unmarshal_PosixRename bOrig of (s, e) \<Rightarrow> (sshFxpExtendedPacket i req (Some s), e))
       else if req = ''hardlink@openssh.com''
       then (case unmarshal_Hardlink bOrig of (s, e) \<Rightarrow> (sshFxpExtendedPacket i req (Some s), e))
       else (sshFxpExtendedPacket i req None,
             Some (Wrapped ''packet type <nil>'' ErrUnknownExtendedPacket))))"

text \<open>
  \<^verbatim>\<open>makePacket\<close>: from the type byte and the payload to a packet and an error. \<open>None\<close> is the nil
  packet of an unknown type.
\<close>

definition makePacket :: "byte \<Rightarrow> bytes \<Rightarrow> requestPacket option \<times> go_error option" where
  "makePacket pktType pktBytes =
     (let known = (\<lambda>unmarshal. case unmarshal pktBytes of (pkt, err) \<Rightarrow> (Some pkt, err))
      in if pktType = sshFxpInit then known unmarshal_Init
         else if pktType = sshFxpLstat then known unmarshal_Lstat
         else if pktType = sshFxpOpen then known unmarshal_Open
         else if pktType = sshFxpClose then known unmarshal_Close
         else if pktType = sshFxpRead then known unmarshal_Read
         else if pktType = sshFxpWrite then known unmarshal_Write
         else if pktType = sshFxpFstat then known unmarshal_Fstat
         else if pktType = sshFxpSetstat then known unmarshal_Setstat
         else if pktType = sshFxpFsetstat then known unmarshal_Fsetstat
         else if pktType = sshFxpOpendir then known unmarshal_Opendir
         else if pktType = sshFxpReaddir then known unmarshal_Readdir
         else if pktType = sshFxpRemove then known unmarshal_Remove
         else if pktType = sshFxpMkdir then known unmarshal_Mkdir
         else if pktType = sshFxpRmdir then known unmarshal_Rmdir
         else if pktType = sshFxpRealpath then known unmarshal_Realpath
         else if pktType = sshFxpStat then known unmarshal_Stat
         else if pktType = sshFxpRename then known unmarshal_Rename
         else if pktType = sshFxpReadlink then known unmarshal_Readlink
         else if pktType = sshFxpSymlink then known unmarshal_Symlink
         else if pktType = sshFxpExtended then known unmarshal_Extended
         else (None, Some (ErrText (''unhandled packet type: '' @ fxp_String pktType))))"

subsection \<open>Classification\<close>

text \<open>The interface \<^verbatim>\<open>notReadOnly\<close>: which packets implement it.\<close>

fun notReadOnly :: "requestPacket \<Rightarrow> bool" where
  "notReadOnly (sshFxpWritePacket _ _ _ _ _) = True"
| "notReadOnly (sshFxpSetstatPacket _ _ _ _) = True"
| "notReadOnly (sshFxpFsetstatPacket _ _ _ _) = True"
| "notReadOnly (sshFxpRemovePacket _ _) = True"
| "notReadOnly (sshFxpMkdirPacket _ _ _) = True"
| "notReadOnly (sshFxpRmdirPacket _ _) = True"
| "notReadOnly (sshFxpRenamePacket _ _ _) = True"
| "notReadOnly (sshFxpSymlinkPacket _ _ _) = True"
| "notReadOnly _ = False"

text \<open>The \<^verbatim>\<open>readonly\<close> methods of the extended packets: a nil specific packet counts as read-only.\<close>

fun specific_readonly :: "specificPacket \<Rightarrow> bool" where
  "specific_readonly (sshFxpExtendedPacketStatVFS _ _ _) = True"
| "specific_readonly (sshFxpExtendedPacketPosixRename _ _ _ _) = False"
| "specific_readonly (sshFxpExtendedPacketHardlink _ _ _ _) = True"

definition extended_readonly :: "specificPacket option \<Rightarrow> bool" where
  "extended_readonly s = (case s of None \<Rightarrow> True | Some p \<Rightarrow> specific_readonly p)"

subsection \<open>Responses\<close>

datatype sshFxpNameAttr = NameAttr (na_Name: string) (na_LongName: string) (na_Attrs: "goval list")

record StatVFS =
  sv_ID :: u32
  sv_Bsize :: u64
  sv_Frsize :: u64
  sv_Blocks :: u64
  sv_Bfree :: u64
  sv_Bavail :: u64
  sv_Files :: u64
  sv_Ffree :: u64
  sv_Favail :: u64
  sv_Fsid :: u64
  sv_Flag :: u64
  sv_Namemax :: u64

definition TotalSpace :: "StatVFS \<Rightarrow> u64" where
  "TotalSpace p = sv_Frsize p * sv_Blocks p"

definition FreeSpace :: "StatVFS \<Rightarrow> u64" where
  "FreeSpace p = sv_Frsize p * sv_Bfree p"

datatype responsePacket =
    sshFxVersionPacket u32 "extensionPair list"
  | sshFxpNamePacket u32 "sshFxpNameAttr list"
  | sshFxpHandlePacket u32 string
  | sshFxpStatusPacket u32 u32 string string
  | sshFxpDataPacket u32 u32 bytes
  | sshFxpStatResponse u32 fileInfo
  | sshFxpExtendedReplyPacket StatVFS

fun responsePacket_id :: "responsePacket \<Rightarrow> u32" where
  "responsePacket_id (sshFxVersionPacket _ _) = 0"
| "responsePacket_id (sshFxpNamePacket i _) = i"
| "responsePacket_id (sshFxpHandlePacket i _) = i"
| "responsePacket_id (sshFxpStatusPacket i _ _ _) = i"
| "responsePacket_id (sshFxpDataPacket i _ _) = i"
| "responsePacket_id (sshFxpStatResponse i _) = i"
| "responsePacket_id (sshFxpExtendedReplyPacket s) = sv_ID s"

definition marshal_Version :: "u32 \<Rightarrow> extensionPair list \<Rightarrow> bytes" where
  "marshal_Version version exts = foldl marshalExtensionPair (marshalUint32 [sshFxpVersion] version) exts"

definition marshal_NameAttr :: "sshFxpNameAttr \<Rightarrow> bytes option" where
  "marshal_NameAttr p = marshal_each (marshalString (marshalString [] (na_Name p)) (na_LongName p)) (na_Attrs p)"

fun append_NameAttrs :: "bytes \<Rightarrow> sshFxpNameAttr list \<Rightarrow> bytes option" where
  "append_NameAttrs b [] = Some b"
| "append_NameAttrs b (na # nas) =
     (case marshal_NameAttr na of None \<Rightarrow> None | Some ab \<Rightarrow> append_NameAttrs (b @ ab) nas)"

definition marshal_Name :: "u32 \<Rightarrow> sshFxpNameAttr list \<Rightarrow> bytes option" where
  "marshal_Name ID NameAttrs =
     append_NameAttrs (marshalUint32 (marshalUint32 [sshFxpName] ID) (of_nat (length NameAttrs))) NameAttrs"

definition marshal_Handle :: "u32 \<Rightarrow> string \<Rightarrow> bytes" where
  "marshal_Handle ID Handle = marshalString (marshalUint32 [sshFxpHandle] ID) Handle"

definition marshalStatus :: "bytes \<Rightarrow> u32 \<Rightarrow> string \<Rightarrow> string \<Rightarrow> bytes" where
  "marshalStatus b code msg lang = marshalString (marshalString (marshalUint32 b code) msg) lang"

definition marshal_Status :: "u32 \<Rightarrow> u32 \<Rightarrow> string \<Rightarrow> string \<Rightarrow> bytes" where
  "marshal_Status ID code msg lang = marshalStatus (marshalUint32 [sshFxpStatus] ID) code msg lang"

text \<open>The data packet is built in the buffer of its data: nine bytes are appended, the data is moved
  behind the header and the header is written. Slicing beyond the data panics.\<close>

definition marshal_Data :: "u32 \<Rightarrow> u32 \<Rightarrow> bytes \<Rightarrow> bytes option" where
  "marshal_Data ID Length Data =
     (if unat Length \<le> length Data
      then (let b = Data @ replicate 9 0;
                b = go_copy b 9 (take (unat Length) Data);
                b = b[0 := sshFxpData];
                b = go_copy b 1 (marshalUint32 [] ID);
                b = go_copy b 5 (marshalUint32 [] Length)
            in Some b)
      else None)"

definition marshal_StatResponse :: "u32 \<Rightarrow> fileInfo \<Rightarrow> bytes" where
  "marshal_StatResponse ID info = marshalFileInfo (marshalUint32 [sshFxpAttrs] ID) info"

definition marshal_StatVFS :: "StatVFS \<Rightarrow> bytes" where
  "marshal_StatVFS p =
     foldl marshalUint64 (marshalUint32 [sshFxpExtendedReply] (sv_ID p))
       [sv_Bsize p, sv_Frsize p, sv_Blocks p, sv_Bfree p, sv_Bavail p, sv_Files p, sv_Ffree p,
        sv_Favail p, sv_Fsid p, sv_Flag p, sv_Namemax p]"

fun MarshalResponse :: "responsePacket \<Rightarrow> bytes option" where
  "MarshalResponse (sshFxVersionPacket v e) = Some (marshal_Version v e)"
| "MarshalResponse (sshFxpNamePacket i nas) = marshal_Name i nas"
| "MarshalResponse (sshFxpHandlePacket i h) = Some (marshal_Handle i h)"
| "MarshalResponse (sshFxpStatusPacket i c m l) = Some (marshal_Status i c m l)"
| "MarshalResponse (sshFxpDataPacket i n d) = marshal_Data i n d"
| "MarshalResponse (sshFxpStatResponse i info) = Some (marshal_StatResponse i info)"
| "MarshalResponse (sshFxpExtendedReplyPacket s) = Some (marshal_StatVFS s)"

text \<open>The data packet as the client would read it (\<^verbatim>\<open>sshFxpDataPacket.UnmarshalBinary\<close>).\<close>

definition unmarshal_Data :: "bytes \<Rightarrow> responsePacket \<times> go_error option" where
  "unmarshal_Data b =
     try_u32 b (sshFxpDataPacket 0 0 []) (\<lambda>i b.
     try_u32 b (sshFxpDataPacket i 0 []) (\<lambda>len b.
       if (of_nat (length b) :: u32) < len then (sshFxpDataPacket i len [], Some ErrShortPacket)
       else (sshFxpDataPacket i len (take (unat len) b), None)))"

end
