(* ===== verification/Packet_Roundtrip.thy ===== *)
theory Packet_Roundtrip
  imports Sftp_Packets
begin

text \<open>
  What the encoders and decoders of \<open>Sftp_Packets\<close> promise together: every well-formed request
  survives the wire, a decoder accepts nothing but encodings, a packet that cannot be decoded
  still carries its request id, and the responses are laid out as the client reads them.
\<close>

subsection \<open>Well-formed requests\<close>

text \<open>Strings fit their length field; a write announces the length of its data; attributes are the
  raw bytes a decoder stores; an extended request carries one of the three known forms.\<close>

fun wire_specific :: "u32 \<Rightarrow> string \<Rightarrow> specificPacket \<Rightarrow> bool" where
  "wire_specific i req (sshFxpExtendedPacketStatVFS j r p) \<longleftrightarrow>
     i = j \<and> req = r \<and> r = ''statvfs@openssh.com'' \<and> wire_string p"
| "wire_specific i req (sshFxpExtendedPacketPosixRename j r old new) \<longleftrightarrow>
     i = j \<and> req = r \<and> r = ''posix-rename@openssh.com'' \<and> wire_string old \<and> wire_string new"
| "wire_specific i req (sshFxpExtendedPacketHardlink j r old new) \<longleftrightarrow>
     i = j \<and> req = r \<and> r = ''hardlink@openssh.com'' \<and> wire_string old \<and> wire_string new"

definition is_bytes :: "goval \<Rightarrow> bool" where
  "is_bytes a = (case a of VBytes _ \<Rightarrow> True | _ \<Rightarrow> False)"

lemma is_bytesE: "is_bytes a \<Longrightarrow> (\<And>bs. a = VBytes bs \<Longrightarrow> P) \<Longrightarrow> P"
  by (cases a) (auto simp: is_bytes_def)

fun wire_packet :: "requestPacket \<Rightarrow> bool" where
  "wire_packet (sshFxInitPacket _ exts) = list_all wire_pair exts"
| "wire_packet (sshFxpReaddirPacket _ s) = wire_string s"
| "wire_packet (sshFxpOpendirPacket _ s) = wire_string s"
| "wire_packet (sshFxpLstatPacket _ s) = wire_string s"
| "wire_packet (sshFxpStatPacket _ s) = wire_string s"
| "wire_packet (sshFxpFstatPacket _ s) = wire_string s"
| "wire_packet (sshFxpClosePacket _ s) = wire_string s"
| "wire_packet (sshFxpRemovePacket _ s) = wire_string s"
| "wire_packet (sshFxpRmdirPacket _ s) = wire_string s"
| "wire_packet (sshFxpSymlinkPacket _ s t) = (wire_string s \<and> wire_string t)"
| "wire_packet (sshFxpReadlinkPacket _ s) = wire_string s"
| "wire_packet (sshFxpRealpathPacket _ s) = wire_string s"
| "wire_packet (sshFxpOpenPacket _ s _ _) = wire_string s"
| "wire_packet (sshFxpReadPacket _ s _ _) = wire_string s"
| "wire_packet (sshFxpRenamePacket _ s t) = (wire_string s \<and> wire_string t)"
| "wire_packet (sshFxpWritePacket _ s _ n d) = (wire_string s \<and> length d = unat n)"
| "wire_packet (sshFxpMkdirPacket _ s _) = wire_string s"
| "wire_packet (sshFxpSetstatPacket _ s _ a) = (wire_string s \<and> is_bytes a)"
| "wire_packet (sshFxpFsetstatPacket _ s _ a) = (wire_string s \<and> is_bytes a)"
| "wire_packet (sshFxpExtendedPacket i r (Some sp)) = wire_specific i r sp"
| "wire_packet (sshFxpExtendedPacket _ _ None) = False"

lemmas encode_defs =
  marshal_Init_def marshalIDString_def marshal_Readdir_def marshal_Opendir_def marshal_Lstat_def
  marshal_Stat_def marshal_Fstat_def marshal_Close_def marshal_Remove_def marshal_Rmdir_def
  marshal_Readlink_def marshal_Realpath_def marshal_Symlink_def marshal_Open_def marshal_Read_def
  marshal_Rename_def marshal_Write_def marshal_Mkdir_def marshal_Setstat_def marshal_Fsetstat_def
  marshal_Hardlink_def marshal_PosixRename_def marshal_Statvfs_def

lemmas decode_defs =
  unmarshal_Init_def unmarshalIDString_def unmarshal_Readdir_def unmarshal_Opendir_def unmarshal_Lstat_def
  unmarshal_Stat_def unmarshal_Fstat_def unmarshal_Close_def unmarshal_Remove_def unmarshal_Rmdir_def
  unmarshal_Readlink_def unmarshal_Realpath_def unmarshal_Symlink_def unmarshal_Open_def unmarshal_Read_def
  unmarshal_Rename_def unmarshal_Write_def unmarshal_Mkdir_def unmarshal_Setstat_def unmarshal_Fsetstat_def
  unmarshal_StatVFS_def unmarshal_PosixRename_def unmarshal_Hardlink_def

lemma codec_read_end [codec_simps]:
  "unmarshalUint32Safe (marshalUint32 [] v) = Inr (v, [])"
  "unmarshalUint64Safe (marshalUint64 [] w) = Inr (w, [])"
  "wire_string s \<Longrightarrow> unmarshalStringSafe (marshalString [] s) = Inr (s, [])"
  using codec_read(1) [where rest = "[]"] codec_read(2) [where rest = "[]"] codec_read(3) [where rest = "[]"]
  by simp_all

lemma foldl_marshalExtensionPair [codec_simps]:
  "b \<noteq> [] \<Longrightarrow> foldl marshalExtensionPair b exts = b @ concat (map (marshalExtensionPair []) exts)"
proof (induction exts arbitrary: b)
  case (Cons e exts)
  have "marshalExtensionPair b e = b @ marshalExtensionPair [] e"
    using Cons.prems by (simp add: marshalExtensionPair_def marshal_append)
  with Cons show ?case by simp
qed simp

lemma try_field_Inr [codec_simps]: "try_field (Inr (v, b)) z k = k v b"
  by (simp add: try_field_def)

lemma wire_names [codec_simps]:
  "wire_string ''statvfs@openssh.com''" "wire_string ''posix-rename@openssh.com''"
  "wire_string ''hardlink@openssh.com''"
  by (simp_all add: wire_string_def)

subsection \<open>Round trip\<close>

text \<open>The switch of \<^verbatim>\<open>makePacket\<close>, one equation per packet type.\<close>

lemma makePacket_simps [codec_simps]:
  "makePacket sshFxpInit b = (case unmarshal_Init b of (p, e) \<Rightarrow> (Some p, e))"
  "makePacket sshFxpLstat b = (case unmarshal_Lstat b of (p, e) \<Rightarrow> (Some p, e))"
  "makePacket sshFxpOpen b = (case unmarshal_Open b of (p, e) \<Rightarrow> (Some p, e))"
  "makePacket sshFxpClose b = (case unmarshal_Close b of (p, e) \<Rightarrow> (Some p, e))"
  "makePacket sshFxpRead b = (case unmarshal_Read b of (p, e) \<Rightarrow> (Some p, e))"
  "makePacket sshFxpWrite b = (case unmarshal_Write b of (p, e) \<Rightarrow> (Some p, e))"
  "makePacket sshFxpFstat b = (case unmarshal_Fstat b of (p, e) \<Rightarrow> (Some p, e))"
  "makePacket sshFxpSetstat b = (case unmarshal_Setstat b of (p, e) \<Rightarrow> (Some p, e))"
  "makePacket sshFxpFsetstat b = (case unmarshal_Fsetstat b of (p, e) \<Rightarrow> (Some p, e))"
  "makePacket sshFxpOpendir b = (case unmarshal_Opendir b of (p, e) \<Rightarrow> (Some p, e))"
  "makePacket sshFxpReaddir b = (case unmarshal_Readdir b of (p, e) \<Rightarrow> (Some p, e))"
  "makePacket sshFxpRemove b = (case unmarshal_Remove b of (p, e) \<Rightarrow> (Some p, e))"
  "makePacket sshFxpMkdir b = (case unmarshal_Mkdir b of (p, e) \<Rightarrow> (Some p, e))"
  "makePacket sshFxpRmdir b = (case unmarshal_Rmdir b of (p, e) \<Rightarrow> (Some p, e))"
  "makePacket sshFxpRealpath b = (case unmarshal_Realpath b of (p, e) \<Rightarrow> (Some p, e))"
  "makePacket sshFxpStat b = (case unmarshal_Stat b of (p, e) \<Rightarrow> (Some p, e))"
  "makePacket sshFxpRename b = (case unmarshal_Rename b of (p, e) \<Rightarrow> (Some p, e))"
  "makePacket sshFxpReadlink b = (case unmarshal_Readlink b of (p, e) \<Rightarrow> (Some p, e))"
  "makePacket sshFxpSymlink b = (case unmarshal_Symlink b of (p, e) \<Rightarrow> (Some p, e))"
  "makePacket sshFxpExtended b = (case unmarshal_Extended b of (p, e) \<Rightarrow> (Some p, e))"
  by (simp_all add: makePacket_def Let_def)


lemma makePacket_Write:
  assumes "wire_string h" "length d = unat n"
  shows "unmarshal_Write (tl (marshal_Write i h off n d)) = (sshFxpWritePacket i h off n d, None)"
proof -
  have "(of_nat (length d) :: u32) = n" using assms(2) by simp
  with assms show ?thesis by (simp add: encode_defs decode_defs codec_simps)
qed

lemma makePacket_Extended:
  assumes "wire_specific i r sp"
  shows "\<exists>bs. MarshalBinary (sshFxpExtendedPacket i r (Some sp)) = Some (sshFxpExtended # bs) \<and>
           unmarshal_Extended bs = (sshFxpExtendedPacket i r (Some sp), None)"
  using assms by (cases sp) (auto simp: encode_defs decode_defs unmarshal_Extended_def codec_simps)

lemma makePacket_MarshalBinary:
  assumes "wire_packet p"
  shows "\<exists>t b. MarshalBinary p = Some (t # b) \<and> makePacket t b = (Some p, None)"
proof (cases p)
  case (sshFxInitPacket v exts)
  with assms show ?thesis
    by (simp add: encode_defs decode_defs codec_simps extc.read_all_concat)
next
  case (sshFxpWritePacket i h off n d)
  with assms have "unmarshal_Write (tl (marshal_Write i h off n d)) = (p, None)"
    by (simp add: makePacket_Write)
  with sshFxpWritePacket show ?thesis
    by (simp add: encode_defs codec_simps)
next
  case (sshFxpSetstatPacket i s f a)
  with assms obtain bs where "a = VBytes bs" "wire_string s" by (auto elim: is_bytesE)
  with sshFxpSetstatPacket show ?thesis
    by (simp add: encode_defs decode_defs codec_simps)
next
  case (sshFxpFsetstatPacket i s f a)
  with assms obtain bs where "a = VBytes bs" "wire_string s" by (auto elim: is_bytesE)
  with sshFxpFsetstatPacket show ?thesis
    by (simp add: encode_defs decode_defs codec_simps)
next
  case (sshFxpExtendedPacket i r sp)
  with assms obtain s where sp: "sp = Some s" and w: "wire_specific i r s" by (cases sp) auto
  from makePacket_Extended [OF w] obtain bs where
    "MarshalBinary p = Some (sshFxpExtended # bs)" "unmarshal_Extended bs = (p, None)"
    unfolding sshFxpExtendedPacket sp by blast
  then show ?thesis using makePacket_simps(20) [of bs] by auto
qed (use assms in \<open>simp_all add: encode_defs decode_defs codec_simps\<close>)

text \<open>
  C10: the round trip. Every well-formed request, encoded by its \<^verbatim>\<open>MarshalBinary\<close>, is one type byte
  and a payload from which \<^verbatim>\<open>makePacket\<close> rebuilds the same request without an error, for all twenty
  request types and the three extended requests.
\<close>

theorem request_roundtrip:
  assumes "wire_packet p"
  shows "case MarshalBinary p of
      Some (t # b) \<Rightarrow> makePacket t b = (Some p, None)
    | _ \<Rightarrow> False"
  using makePacket_MarshalBinary [OF assms] by auto

text \<open>The witness: a write request of three bytes.\<close>

theorem request_roundtrip_witness:
  "wire_packet (sshFxpWritePacket 7 ''0'' 4096 3 [1, 2, 3]) \<and>
   (case MarshalBinary (sshFxpWritePacket 7 ''0'' 4096 3 [1, 2, 3]) of
      Some (t # b) \<Rightarrow> makePacket t b = (Some (sshFxpWritePacket 7 ''0'' 4096 3 [1, 2, 3]), None)
    | _ \<Rightarrow> False)"
proof -
  have "wire_packet (sshFxpWritePacket 7 ''0'' 4096 3 [1, 2, 3])" by (simp add: wire_string_def)
  with request_roundtrip [OF this] show ?thesis by blast
qed

subsection \<open>Exactness\<close>

text \<open>What a successful read says about the bytes.\<close>

lemma try_field_None_iff:
  "try_field r z k = (p, None) \<longleftrightarrow> (\<exists>v b. r = Inr (v, b) \<and> k v b = (p, None))"
  by (auto simp: try_field_def split: sum.splits)

lemmas try_field_exact =
  try_field_None_iff u32c.dec_result_iff u64c.dec_result_iff strc.dec_result_iff

definition exactly_read :: "byte \<Rightarrow> bytes \<Rightarrow> requestPacket \<Rightarrow> bool" where
  "exactly_read t b p \<longleftrightarrow> wire_packet p \<and> (\<exists>bs rest. MarshalBinary p = Some bs \<and> t # b = bs @ rest)"

lemma exactly_readI:
  "wire_packet p \<Longrightarrow> MarshalBinary p = Some (t # bs) \<Longrightarrow> b = bs @ rest \<Longrightarrow> exactly_read t b p"
  unfolding exactly_read_def by simp

lemma exact_IDString:
  assumes "unmarshalIDString mk b = (p, None)"
  obtains i s r where "p = mk i s" "wire_string s" "b = marshalUint32 [] i @ marshalString [] s @ r"
  using assms by (auto simp: unmarshalIDString_def try_field_exact)

lemma exact_simple:
  "unmarshal_Readdir b = (p, None) \<Longrightarrow> exactly_read sshFxpReaddir b p"
  "unmarshal_Opendir b = (p, None) \<Longrightarrow> exactly_read sshFxpOpendir b p"
  "unmarshal_Lstat b = (p, None) \<Longrightarrow> exactly_read sshFxpLstat b p"
  "unmarshal_Stat b = (p, None) \<Longrightarrow> exactly_read sshFxpStat b p"
  "unmarshal_Fstat b = (p, None) \<Longrightarrow> exactly_read sshFxpFstat b p"
  "unmarshal_Close b = (p, None) \<Longrightarrow> exactly_read sshFxpClose b p"
  "unmarshal_Remove b = (p, None) \<Longrightarrow> exactly_read sshFxpRemove b p"
  "unmarshal_Rmdir b = (p, None) \<Longrightarrow> exactly_read sshFxpRmdir b p"
  "unmarshal_Readlink b = (p, None) \<Longrightarrow> exactly_read sshFxpReadlink b p"
  "unmarshal_Realpath b = (p, None) \<Longrightarrow> exactly_read sshFxpRealpath b p"
  by (auto simp: decode_defs(3-12) encode_defs codec_simps elim!: exact_IDString intro!: exactly_readI)

lemma exact_fields:
  "unmarshal_Symlink b = (p, None) \<Longrightarrow> exactly_read sshFxpSymlink b p"
  "unmarshal_Open b = (p, None) \<Longrightarrow> exactly_read sshFxpOpen b p"
  "unmarshal_Read b = (p, None) \<Longrightarrow> exactly_read sshFxpRead b p"
  "unmarshal_Rename b = (p, None) \<Longrightarrow> exactly_read sshFxpRename b p"
  "unmarshal_Mkdir b = (p, None) \<Longrightarrow> exactly_read sshFxpMkdir b p"
  by (auto simp: decode_defs encode_defs codec_simps try_field_exact intro!: exactly_readI)

lemma exact_setstat:
  "unmarshal_Setstat b = (p, None) \<Longrightarrow> exactly_read sshFxpSetstat b p"
  "unmarshal_Fsetstat b = (p, None) \<Longrightarrow> exactly_read sshFxpFsetstat b p"
  by (auto simp: decode_defs encode_defs codec_simps try_field_exact is_bytes_def
      intro!: exactly_readI [where rest = "[]"])

lemma exact_Init:
  assumes "unmarshal_Init b = (p, None)"
  shows "exactly_read sshFxpInit b p"
proof -
  obtain v r where b: "b = marshalUint32 [] v @ r"
    and pr: "(case read_all unmarshalExtensionPair r of (exts, err) \<Rightarrow> (sshFxInitPacket v exts, err)) = (p, None)"
    using assms by (auto simp: decode_defs try_field_exact)
  from pr obtain exts where r: "read_all unmarshalExtensionPair r = (exts, None)"
    and p: "p = sshFxInitPacket v exts"
    by (cases "read_all unmarshalExtensionPair r") simp
  from r have "list_all wire_pair exts" "r = concat (map (marshalExtensionPair []) exts)"
    by (simp_all add: extc.read_all_exact)
  with b p show ?thesis
    by (auto simp: encode_defs codec_simps intro!: exactly_readI [where rest = "[]"])
qed

text \<open>The 32-bit comparison of the data length is sound even for payloads beyond 4 GiB.\<close>

lemma not_short_u32:
  assumes "\<not> (of_nat (length b) :: u32) < n"
  shows "unat n \<le> length b"
proof -
  have "unat n \<le> unat (of_nat (length b) :: u32)" using assms by (simp add: word_less_nat_alt)
  also have "\<dots> \<le> length b" by (simp add: unat_of_nat)
  finally show ?thesis .
qed

lemma exact_Write:
  assumes "unmarshal_Write b = (p, None)"
  shows "exactly_read sshFxpWrite b p"
proof -
  obtain i h off n r where
    b: "b = marshalUint32 [] i @ marshalString [] h @ marshalUint64 [] off @ marshalUint32 [] n @ r"
    and h: "wire_string h" and n: "unat n \<le> length r"
    and p: "p = sshFxpWritePacket i h off n (take (unat n) r)"
    using assms by (auto simp: decode_defs try_field_exact dest: not_short_u32 split: if_split_asm)
  let ?bs = "marshalUint32 [] i @ marshalString [] h @ marshalUint64 [] off @ marshalUint32 [] n @ take (unat n) r"
  have "MarshalBinary p = Some (sshFxpWrite # ?bs)" by (simp add: p encode_defs codec_simps)
  moreover have "b = ?bs @ drop (unat n) r" by (simp add: b)
  moreover have "wire_packet p" using h n by (simp add: p)
  ultimately show ?thesis by (intro exactly_readI)
qed

lemma exact_Extended:
  assumes "unmarshal_Extended b = (p, None)"
  shows "exactly_read sshFxpExtended b p"
proof -
  obtain i req r sp where
    b: "b = marshalUint32 [] i @ marshalString [] req @ r" and req: "wire_string req"
    and p: "p = sshFxpExtendedPacket i req (Some sp)"
    and sp: "req = ''statvfs@openssh.com'' \<and> unmarshal_StatVFS b = (sp, None) \<or>
        req = ''posix-rename@openssh.com'' \<and> unmarshal_PosixRename b = (sp, None) \<or>
        req = ''hardlink@openssh.com'' \<and> unmarshal_Hardlink b = (sp, None)"
    using assms by (auto simp: unmarshal_Extended_def try_field_exact split: if_split_asm prod.split_asm)
  from sp b req show ?thesis unfolding p
    by (auto simp: decode_defs try_field_None_iff codec_simps strc.dec_result_iff encode_defs
        intro!: exactly_readI)
qed

lemma makePacket_cases:
  assumes "makePacket t b = (Some p, e)"
  obtains "t = sshFxpInit" "unmarshal_Init b = (p, e)"
  | "t = sshFxpLstat" "unmarshal_Lstat b = (p, e)"
  | "t = sshFxpOpen" "unmarshal_Open b = (p, e)"
  | "t = sshFxpClose" "unmarshal_Close b = (p, e)"
  | "t = sshFxpRead" "unmarshal_Read b = (p, e)"
  | "t = sshFxpWrite" "unmarshal_Write b = (p, e)"
  | "t = sshFxpFstat" "unmarshal_Fstat b = (p, e)"
  | "t = sshFxpSetstat" "unmarshal_Setstat b = (p, e)"
  | "t = sshFxpFsetstat" "unmarshal_Fsetstat b = (p, e)"
  | "t = sshFxpOpendir" "unmarshal_Opendir b = (p, e)"
  | "t = sshFxpReaddir" "unmarshal_Readdir b = (p, e)"
  | "t = sshFxpRemove" "unmarshal_Remove b = (p, e)"
  | "t = sshFxpMkdir" "unmarshal_Mkdir b = (p, e)"
  | "t = sshFxpRmdir" "unmarshal_Rmdir b = (p, e)"
  | "t = sshFxpRealpath" "unmarshal_Realpath b = (p, e)"
  | "t = sshFxpStat" "unmarshal_Stat b = (p, e)"
  | "t = sshFxpRename" "unmarshal_Rename b = (p, e)"
  | "t = sshFxpReadlink" "unmarshal_Readlink b = (p, e)"
  | "t = sshFxpSymlink" "unmarshal_Symlink b = (p, e)"
  | "t = sshFxpExtended" "unmarshal_Extended b = (p, e)"
  using assms by (simp add: makePacket_def Let_def split: if_split_asm prod.split_asm)

text \<open>
  C26: exactness. \<^verbatim>\<open>makePacket\<close> accepts nothing but encodings: if it reports no error, the packet it
  returns is well formed and the bytes it was given start with that packet's own encoding.
\<close>

theorem makePacket_exact:
  assumes "makePacket t b = (Some p, None)"
  shows "wire_packet p \<and> (\<exists>bs rest. MarshalBinary p = Some bs \<and> t # b = bs @ rest)"
proof -
  from assms have "exactly_read t b p"
    by (cases rule: makePacket_cases)
       (auto intro: exact_simple exact_fields exact_setstat exact_Init exact_Write exact_Extended)
  then show ?thesis by (simp add: exactly_read_def)
qed

text \<open>The witness: a stat request of the path \<open>a\<close>, followed by one stray byte.\<close>

theorem makePacket_exact_witness:
  "makePacket sshFxpStat [0, 0, 0, 9, 0, 0, 0, 1, 97, 255] = (Some (sshFxpStatPacket 9 ''a''), None) \<and>
   (\<exists>bs rest. MarshalBinary (sshFxpStatPacket 9 ''a'') = Some bs \<and>
      sshFxpStat # [0, 0, 0, 9, 0, 0, 0, 1, 97, 255] = bs @ rest)"
proof -
  have *: "makePacket sshFxpStat [0, 0, 0, 9, 0, 0, 0, 1, 97, 255] = (Some (sshFxpStatPacket 9 ''a''), None)"
    by code_simp
  from makePacket_exact [OF this] * show ?thesis by blast
qed

subsection \<open>Malformed packets\<close>

text \<open>The id a request has: its first four bytes, zero if there are not as many.\<close>

definition wire_id :: "bytes \<Rightarrow> u32" where
  "wire_id b = (case unmarshalUint32Safe b of Inl _ \<Rightarrow> 0 | Inr (i, _) \<Rightarrow> i)"

lemma id_of_decoders:
  "requestPacket_id (fst (unmarshal_Symlink b)) = wire_id b"
  "requestPacket_id (fst (unmarshal_Open b)) = wire_id b"
  "requestPacket_id (fst (unmarshal_Read b)) = wire_id b"
  "requestPacket_id (fst (unmarshal_Write b)) = wire_id b"
  "requestPacket_id (fst (unmarshal_Rename b)) = wire_id b"
  "requestPacket_id (fst (unmarshal_Mkdir b)) = wire_id b"
  "requestPacket_id (fst (unmarshal_Setstat b)) = wire_id b"
  "requestPacket_id (fst (unmarshal_Fsetstat b)) = wire_id b"
  "requestPacket_id (fst (unmarshal_Extended b)) = wire_id b"
  by (auto simp: decode_defs unmarshal_Extended_def try_field_def wire_id_def split: sum.split prod.split)

lemma id_of_IDString:
  assumes "\<And>i s. requestPacket_id (mk i s) = i"
  shows "requestPacket_id (fst (unmarshalIDString mk b)) = wire_id b"
  using assms by (auto simp: unmarshalIDString_def try_field_def wire_id_def split: sum.split prod.split)

lemma id_of_simple_decoders:
  "requestPacket_id (fst (unmarshal_Readdir b)) = wire_id b"
  "requestPacket_id (fst (unmarshal_Opendir b)) = wire_id b"
  "requestPacket_id (fst (unmarshal_Lstat b)) = wire_id b"
  "requestPacket_id (fst (unmarshal_Stat b)) = wire_id b"
  "requestPacket_id (fst (unmarshal_Fstat b)) = wire_id b"
  "requestPacket_id (fst (unmarshal_Close b)) = wire_id b"
  "requestPacket_id (fst (unmarshal_Remove b)) = wire_id b"
  "requestPacket_id (fst (unmarshal_Rmdir b)) = wire_id b"
  "requestPacket_id (fst (unmarshal_Readlink b)) = wire_id b"
  "requestPacket_id (fst (unmarshal_Realpath b)) = wire_id b"
  by (simp_all add: decode_defs(3-12) id_of_IDString)

lemma id_of_Init: "requestPacket_id (fst (unmarshal_Init b)) = 0"
  by (auto simp: unmarshal_Init_def try_field_def split: sum.split prod.split)

definition known_request_types :: "byte list" where
  "known_request_types =
     [sshFxpInit, sshFxpLstat, sshFxpOpen, sshFxpClose, sshFxpRead, sshFxpWrite, sshFxpFstat,
      sshFxpSetstat, sshFxpFsetstat, sshFxpOpendir, sshFxpReaddir, sshFxpRemove, sshFxpMkdir,
      sshFxpRmdir, sshFxpRealpath, sshFxpStat, sshFxpRename, sshFxpReadlink, sshFxpSymlink, sshFxpExtended]"

lemma makePacket_unknown:
  "t \<notin> set known_request_types \<Longrightarrow>
   makePacket t b = (None, Some (ErrText (''unhandled packet type: '' @ fxp_String t)))"
  by (simp add: makePacket_def Let_def known_request_types_def)

lemma makePacket_known:
  "t \<in> set known_request_types \<Longrightarrow> \<exists>p e. makePacket t b = (Some p, e)"
  unfolding known_request_types_def
  by (auto simp: makePacket_simps split: prod.split)

lemma makePacket_id:
  assumes "makePacket t b = (Some p, e)"
  shows "requestPacket_id p = (if t = sshFxpInit then 0 else wire_id b)"
proof -
  note ids = id_of_Init id_of_decoders id_of_simple_decoders
  have fst_p: "u b = (p, e) \<Longrightarrow> p = fst (u b)" for u :: "bytes \<Rightarrow> requestPacket \<times> go_error option"
    by simp
  from assms show ?thesis
    by (cases rule: makePacket_cases) (auto dest!: fst_p simp: ids)
qed

text \<open>
  A malformed packet can still be answered. For the twenty known types \<^verbatim>\<open>makePacket\<close> returns a
  packet whatever the payload is, and that packet carries the request id of the wire (zero
  if even the id is cut short, or for the init packet, which has none); every other type gives the nil packet and
  an error that names the type.
\<close>

theorem makePacket_always_identified:
  "case makePacket t b of
     (Some p, _) \<Rightarrow> t \<in> set known_request_types \<and> requestPacket_id p = (if t = sshFxpInit then 0 else wire_id b)
   | (None, e) \<Rightarrow> t \<notin> set known_request_types \<and> e = Some (ErrText (''unhandled packet type: '' @ fxp_String t))"
proof (cases "t \<in> set known_request_types")
  case True
  then obtain p e where "makePacket t b = (Some p, e)" using makePacket_known by blast
  with True makePacket_id [OF this] show ?thesis by simp
qed (simp add: makePacket_unknown)

subsection \<open>Responses as the client reads them\<close>

text \<open>The in-place construction of a data packet gives the layout of the protocol; what the buffer holds
  beyond the announced length stays behind it.\<close>

lemma go_copy_onto:
  "length mid = length src \<Longrightarrow> length pre = n \<Longrightarrow> go_copy (pre @ mid @ post) n src = pre @ src @ post"
  by (auto simp: go_copy_fits)

lemma list_of_nine:
  "length xs = 9 \<Longrightarrow> \<exists>a b c d e f g h i. xs = [a, b, c, d, e, f, g, h, i]"
  by (auto simp: numeral_eq_Suc length_Suc_conv)

lemma marshal_Data_layout:
  assumes "length d = unat n"
  shows "marshal_Data i n d = Some (sshFxpData # marshalUint32 [] i @ marshalUint32 [] n @ d)"
proof -
  have "length (take 9 (d @ replicate 9 0)) = 9" by (simp only: length_take) simp
  from list_of_nine [OF this] obtain b0 i0 i1 i2 i3 n0 n1 n2 n3 where
    nine: "take 9 (d @ replicate 9 0) = [b0, i0, i1, i2, i3, n0, n1, n2, n3]" by blast
  have "go_copy (d @ replicate 9 0) 9 d = take 9 (d @ replicate 9 0) @ d"
    by (simp add: go_copy_fits)
  then have "go_copy (d @ replicate 9 0) 9 d = [b0, i0, i1, i2, i3, n0, n1, n2, n3] @ d"
    by (simp only: nine)
  then show ?thesis
    using assms
      go_copy_onto [of "[i0, i1, i2, i3]" "marshalUint32 [] i" "[sshFxpData]" 1 "[n0, n1, n2, n3] @ d"]
      go_copy_onto [of "[n0, n1, n2, n3]" "marshalUint32 [] n" "sshFxpData # marshalUint32 [] i" 5 d]
    by (simp add: marshal_Data_def Let_def)
qed

text \<open>
  File data survives the wire. A data response whose length field is the number of its bytes
  is encoded, in place, as type, id, length and data, and \<^verbatim>\<open>UnmarshalBinary\<close> of the encoding gives the response
  back.
\<close>

theorem data_response_roundtrip:
  assumes "length d = unat n"
  shows "\<exists>b. MarshalResponse (sshFxpDataPacket i n d) = Some (sshFxpData # b) \<and>
             unmarshal_Data b = (sshFxpDataPacket i n d, None)"
proof -
  have "(of_nat (length d) :: u32) = n" using assms by simp
  then have "unmarshal_Data (marshalUint32 [] i @ marshalUint32 [] n @ d) = (sshFxpDataPacket i n d, None)"
    using assms by (simp add: unmarshal_Data_def codec_simps)
  then show ?thesis using assms by (simp add: marshal_Data_layout)
qed

theorem data_response_roundtrip_witness:
  "\<exists>b. MarshalResponse (sshFxpDataPacket 4 2 [8, 9]) = Some (sshFxpData # b) \<and>
       unmarshal_Data b = (sshFxpDataPacket 4 2 [8, 9], None)"
  by (rule data_response_roundtrip) simp

end
