(* ===== verification/Packet_Manager.thy ===== *)
theory Packet_Manager
  imports Packet_Roundtrip "HOL-Library.Multiset"
begin

text \<open>
  The packet manager of pkgsftp/packet-manager.go, which lets nine workers serve requests in
  parallel and still sends the responses in the order of the requests.

  The goroutines of the source are: the receive loop of \<^verbatim>\<open>Serve\<close>, which numbers the requests
  and queues them; the dispatcher started by \<^verbatim>\<open>workerChan\<close>, which registers a request and hands
  it to a worker; eight workers for reads and writes and one for everything else; and the
  controller, which collects requests and responses and sends what is ready. Every
  communication is one step of the relation \<open>pm_step\<close> below, so that a run of the relation is
  an interleaving of the goroutines. Channels are queues with the capacities of the source; the
  channel to the single worker is unbuffered, a rendezvous.

  The field \<open>accepted\<close> is history: the requests numbered so far. The program does not have it.
\<close>

subsection \<open>State and operations\<close>

definition SftpServerWorkerCount :: nat where
  "SftpServerWorkerCount = 8"

text \<open>A request or response with its order number. A request that could not be built at all (an unknown
  packet type) is a nil interface, \<open>None\<close>.\<close>

record orderedRequest =
  oreq_packet :: "requestPacket option"
  oreq_orderid :: u32

record orderedResponse =
  oresp_packet :: responsePacket
  oresp_orderid :: u32

text \<open>Where the dispatcher goroutine stands: waiting for a request, holding one it has taken, about to
  register it with the controller, about to hand it to a worker, or finished.\<close>

datatype dispatcher = DIdle | DTook orderedRequest | DRegister orderedRequest | DSend orderedRequest | DDone

record packetManager =
  requests :: "orderedRequest list"
  responses :: "orderedResponse list"
  fini :: bool
  incoming :: "orderedRequest list"
  outgoing :: "orderedResponse list"
  sent :: "orderedResponse list"
  working :: nat
  packetCount :: u32
  alloc :: "allocator option"
  pktChan :: "orderedRequest list"
  pktChan_closed :: bool
  dispatch :: dispatcher
  rwChan :: "orderedRequest list"
  rw_busy :: "orderedRequest list"
  rw_finishing :: nat
  cmd_busy :: "orderedRequest option"
  cmd_finishing :: nat
  controller_returned :: bool
  crashed :: bool
  accepted :: "orderedRequest list"

definition newPktMgr :: "allocator option \<Rightarrow> packetManager" where
  "newPktMgr a =
     \<lparr>requests = [], responses = [], fini = False, incoming = [], outgoing = [], sent = [], working = 0,
      packetCount = 0, alloc = a, pktChan = [], pktChan_closed = False, dispatch = DIdle, rwChan = [],
      rw_busy = [], rw_finishing = 0, cmd_busy = None, cmd_finishing = 0, controller_returned = False,
      crashed = False, accepted = []\<rparr>"

definition newOrderID :: "packetManager \<Rightarrow> u32 \<times> packetManager" where
  "newOrderID s = (let s = s\<lparr>packetCount := packetCount s + 1\<rparr> in (packetCount s, s))"

definition getNextOrderID :: "packetManager \<Rightarrow> u32" where
  "getNextOrderID s = packetCount s + 1"

definition newOrderedRequest :: "packetManager \<Rightarrow> requestPacket option \<Rightarrow> orderedRequest \<times> packetManager" where
  "newOrderedRequest s p =
     (case newOrderID s of (oid, s) \<Rightarrow> (\<lparr>oreq_packet = p, oreq_orderid = oid\<rparr>, s))"

definition newOrderedResponse :: "responsePacket \<Rightarrow> u32 \<Rightarrow> orderedResponse" where
  "newOrderedResponse p i = \<lparr>oresp_packet = p, oresp_orderid = i\<rparr>"

text \<open>The method \<^verbatim>\<open>Sort\<close> of the two slices: ascending order numbers.\<close>

definition sort_requests :: "orderedRequest list \<Rightarrow> orderedRequest list" where
  "sort_requests ps = sort_key oreq_orderid ps"

definition sort_responses :: "orderedResponse list \<Rightarrow> orderedResponse list" where
  "sort_responses ps = sort_key oresp_orderid ps"

text \<open>\<^verbatim>\<open>maybeSendPackets\<close>: while the oldest request and the oldest response belong together, send the
  response, give the request's pages back and drop both heads. An error of the sender is ignored.\<close>

function maybeSendPackets :: "packetManager \<Rightarrow> packetManager" where
  "maybeSendPackets s =
     (case (outgoing s, incoming s) of
        (out # outs, inp # ins) \<Rightarrow>
          (if oreq_orderid inp = oresp_orderid out
           then maybeSendPackets
             (s\<lparr>sent := sent s @ [out],
                alloc := map_option (\<lambda>a. ReleasePages a (oreq_orderid inp)) (alloc s),
                incoming := ins, outgoing := outs\<rparr>)
           else s)
      | _ \<Rightarrow> s)"
  by pat_completeness auto
termination by (relation "measure (\<lambda>s. length (incoming s))") (auto dest!: arg_cong [where f = length])

declare maybeSendPackets.simps [simp del]

text \<open>The three branches of the controller's \<^verbatim>\<open>select\<close>. The debug line of the first calls the packet's
  \<^verbatim>\<open>id\<close> method, a nil dereference if there is no packet.\<close>

definition controller_request :: "packetManager \<Rightarrow> packetManager" where
  "controller_request s =
     (case requests s of
        [] \<Rightarrow> s
      | pkt # rest \<Rightarrow>
          (case oreq_packet pkt of
             None \<Rightarrow> s\<lparr>crashed := True\<rparr>
           | Some _ \<Rightarrow>
               maybeSendPackets (s\<lparr>requests := rest, incoming := sort_requests (incoming s @ [pkt])\<rparr>)))"

definition controller_response :: "packetManager \<Rightarrow> packetManager" where
  "controller_response s =
     (case responses s of
        [] \<Rightarrow> s
      | pkt # rest \<Rightarrow>
          maybeSendPackets (s\<lparr>responses := rest, outgoing := sort_responses (outgoing s @ [pkt])\<rparr>))"

definition controller_fini :: "packetManager \<Rightarrow> packetManager" where
  "controller_fini s = s\<lparr>controller_returned := True\<rparr>"

text \<open>The two kinds of packets \<^verbatim>\<open>workerChan\<close> treats specially.\<close>

definition is_rw :: "orderedRequest \<Rightarrow> bool" where
  "is_rw p = (case oreq_packet p of
       Some (sshFxpReadPacket _ _ _ _) \<Rightarrow> True
     | Some (sshFxpWritePacket _ _ _ _ _) \<Rightarrow> True
     | _ \<Rightarrow> False)"

definition is_close :: "orderedRequest \<Rightarrow> bool" where
  "is_close p = (case oreq_packet p of Some (sshFxpClosePacket _ _) \<Rightarrow> True | _ \<Rightarrow> False)"

text \<open>\<^verbatim>\<open>incomingPacket\<close> and \<^verbatim>\<open>readyPacket\<close> are two atomic actions each: the wait group counts, and the channel
  takes the packet.\<close>

definition incomingPacket_add :: "packetManager \<Rightarrow> packetManager" where
  "incomingPacket_add s = s\<lparr>working := working s + 1\<rparr>"

definition incomingPacket_send :: "packetManager \<Rightarrow> orderedRequest \<Rightarrow> packetManager" where
  "incomingPacket_send s p = s\<lparr>requests := requests s @ [p]\<rparr>"

definition readyPacket_send :: "packetManager \<Rightarrow> orderedResponse \<Rightarrow> packetManager" where
  "readyPacket_send s r = s\<lparr>responses := responses s @ [r]\<rparr>"

definition readyPacket_done :: "packetManager \<Rightarrow> packetManager" where
  "readyPacket_done s = s\<lparr>working := working s - 1\<rparr>"

text \<open>The pages of a request: the receive loop takes one for the number the next request will get, a
  handler for the number of the request it works on.\<close>

definition take_page :: "packetManager \<Rightarrow> u32 \<Rightarrow> packetManager" where
  "take_page s oid = s\<lparr>alloc := map_option (\<lambda>a. snd (GetPage a oid)) (alloc s)\<rparr>"

subsection \<open>The goroutines as a step relation\<close>

inductive pm_step :: "packetManager \<Rightarrow> packetManager \<Rightarrow> bool" where
  receive_page: "\<not> pktChan_closed s \<Longrightarrow> pm_step s (take_page s (getNextOrderID s))"
| receive: "\<not> pktChan_closed s \<Longrightarrow> length (pktChan s) < SftpServerWorkerCount \<Longrightarrow>
    newOrderedRequest s p = (pkt, s') \<Longrightarrow>
    pm_step s (s'\<lparr>pktChan := pktChan s' @ [pkt], accepted := accepted s' @ [pkt]\<rparr>)"
| receive_end: "pm_step s (s\<lparr>pktChan_closed := True\<rparr>)"
| dispatch_take: "dispatch s = DIdle \<Longrightarrow> pktChan s = p # ps \<Longrightarrow>
    pm_step s (s\<lparr>pktChan := ps, dispatch := DTook p\<rparr>)"
| dispatch_add: "dispatch s = DTook p \<Longrightarrow> \<not> is_close p \<or> working s = 0 \<Longrightarrow>
    pm_step s ((incomingPacket_add s)\<lparr>dispatch := DRegister p\<rparr>)"
| dispatch_register: "dispatch s = DRegister p \<Longrightarrow> length (requests s) < SftpServerWorkerCount \<Longrightarrow>
    pm_step s ((incomingPacket_send s p)\<lparr>dispatch := DSend p\<rparr>)"
| dispatch_rw: "dispatch s = DSend p \<Longrightarrow> is_rw p \<Longrightarrow> length (rwChan s) < SftpServerWorkerCount \<Longrightarrow>
    pm_step s (s\<lparr>rwChan := rwChan s @ [p], dispatch := DIdle\<rparr>)"
| dispatch_cmd: "dispatch s = DSend p \<Longrightarrow> \<not> is_rw p \<Longrightarrow> cmd_busy s = None \<Longrightarrow> cmd_finishing s = 0 \<Longrightarrow>
    pm_step s (s\<lparr>cmd_busy := Some p, dispatch := DIdle\<rparr>)"
| dispatch_close: "dispatch s = DIdle \<Longrightarrow> pktChan s = [] \<Longrightarrow> pktChan_closed s \<Longrightarrow> working s = 0 \<Longrightarrow>
    pm_step s (s\<lparr>fini := True, dispatch := DDone\<rparr>)"
| rw_take: "rwChan s = p # ps \<Longrightarrow> length (rw_busy s) + rw_finishing s < SftpServerWorkerCount \<Longrightarrow>
    pm_step s (s\<lparr>rwChan := ps, rw_busy := rw_busy s @ [p]\<rparr>)"
| rw_page: "p \<in> set (rw_busy s) \<Longrightarrow> pm_step s (take_page s (oreq_orderid p))"
| rw_respond: "rw_busy s = ps @ p # qs \<Longrightarrow> length (responses s) < SftpServerWorkerCount \<Longrightarrow>
    pm_step s ((readyPacket_send s (newOrderedResponse r (oreq_orderid p)))
      \<lparr>rw_busy := ps @ qs, rw_finishing := rw_finishing s + 1\<rparr>)"
| rw_done: "rw_finishing s = Suc n \<Longrightarrow> pm_step s ((readyPacket_done s)\<lparr>rw_finishing := n\<rparr>)"
| cmd_page: "cmd_busy s = Some p \<Longrightarrow> pm_step s (take_page s (oreq_orderid p))"
| cmd_respond: "cmd_busy s = Some p \<Longrightarrow> length (responses s) < SftpServerWorkerCount \<Longrightarrow>
    pm_step s ((readyPacket_send s (newOrderedResponse r (oreq_orderid p)))
      \<lparr>cmd_busy := None, cmd_finishing := cmd_finishing s + 1\<rparr>)"
| cmd_done: "cmd_finishing s = Suc n \<Longrightarrow> pm_step s ((readyPacket_done s)\<lparr>cmd_finishing := n\<rparr>)"
| control_request: "\<not> controller_returned s \<Longrightarrow> requests s \<noteq> [] \<Longrightarrow>
    pm_step s (controller_request s)"
| control_response: "\<not> controller_returned s \<Longrightarrow> responses s \<noteq> [] \<Longrightarrow>
    pm_step s (controller_response s)"
| control_fini: "\<not> controller_returned s \<Longrightarrow> fini s \<Longrightarrow> pm_step s (controller_fini s)"

text \<open>The states of a run. A nil dereference stops the whole process.\<close>

inductive pm_reach :: "allocator option \<Rightarrow> packetManager \<Rightarrow> bool" for a where
  start: "pm_reach a (newPktMgr a)"
| more: "pm_reach a s \<Longrightarrow> \<not> crashed s \<Longrightarrow> pm_step s t \<Longrightarrow> pm_reach a t"

subsection \<open>What one round of sending does\<close>

definition heads_differ :: "packetManager \<Rightarrow> bool" where
  "heads_differ s = (case (outgoing s, incoming s) of
       (out # _, inp # _) \<Rightarrow> oreq_orderid inp \<noteq> oresp_orderid out | _ \<Rightarrow> True)"

lemma maybeSendPackets_spec:
  obtains ins1 ins2 outs1 outs2 where
    "maybeSendPackets s = s\<lparr>sent := sent s @ outs1,
       alloc := map_option (\<lambda>a. foldl ReleasePages a (map oreq_orderid ins1)) (alloc s),
       incoming := ins2, outgoing := outs2\<rparr>"
    "incoming s = ins1 @ ins2" "outgoing s = outs1 @ outs2"
    "map oreq_orderid ins1 = map oresp_orderid outs1"
    "heads_differ (maybeSendPackets s)"
proof (induction s arbitrary: thesis rule: maybeSendPackets.induct)
  case (1 s)
  show ?case
  proof (cases "outgoing s = [] \<or> incoming s = [] \<or> oreq_orderid (hd (incoming s)) \<noteq> oresp_orderid (hd (outgoing s))")
    case True
    then have same: "maybeSendPackets s = s" and hd: "heads_differ s"
      by (auto simp: maybeSendPackets.simps [of s] heads_differ_def split: list.splits)
    have "map_option (\<lambda>a. a) (alloc s) = alloc s" by (cases "alloc s") auto
    with same hd show ?thesis
      by (intro "1.prems" [where ?ins1.0 = "[]" and ?ins2.0 = "incoming s" and ?outs1.0 = "[]" and ?outs2.0 = "outgoing s"]) auto
  next
    case False
    then obtain out outs inp ins where o: "outgoing s = out # outs" and i: "incoming s = inp # ins"
      and eq: "oreq_orderid inp = oresp_orderid out"
      by (cases "outgoing s"; cases "incoming s") auto
    let ?s = "s\<lparr>sent := sent s @ [out], alloc := map_option (\<lambda>a. ReleasePages a (oreq_orderid inp)) (alloc s),
                incoming := ins, outgoing := outs\<rparr>"
    have step: "maybeSendPackets s = maybeSendPackets ?s"
      by (simp add: maybeSendPackets.simps [of s] o i eq)
    obtain ins1 outs1 ins2 outs2 where
      *: "maybeSendPackets ?s = ?s\<lparr>sent := sent ?s @ outs1,
       alloc := map_option (\<lambda>a. foldl ReleasePages a (map oreq_orderid ins1)) (alloc ?s),
       incoming := ins2, outgoing := outs2\<rparr>"
      "incoming ?s = ins1 @ ins2" "outgoing ?s = outs1 @ outs2"
      "map oreq_orderid ins1 = map oresp_orderid outs1" "heads_differ (maybeSendPackets ?s)"
      by (rule "1.IH" [OF refl o i eq])
    show ?thesis
    proof (rule "1.prems" [where ?ins1.0 = "inp # ins1" and ?ins2.0 = ins2 and ?outs1.0 = "out # outs1" and ?outs2.0 = outs2])
      show "maybeSendPackets s = s\<lparr>sent := sent s @ out # outs1,
       alloc := map_option (\<lambda>a. foldl ReleasePages a (map oreq_orderid (inp # ins1))) (alloc s),
       incoming := ins2, outgoing := outs2\<rparr>"
        unfolding step *(1) by (simp add: option.map_comp comp_def)
    qed (use * o i eq in \<open>auto simp: step\<close>)
  qed
qed

text \<open>The rest of the state is not touched.\<close>

lemma maybeSendPackets_frame [simp]:
  "requests (maybeSendPackets s) = requests s"
  "responses (maybeSendPackets s) = responses s"
  "fini (maybeSendPackets s) = fini s"
  "working (maybeSendPackets s) = working s"
  "packetCount (maybeSendPackets s) = packetCount s"
  "pktChan (maybeSendPackets s) = pktChan s"
  "pktChan_closed (maybeSendPackets s) = pktChan_closed s"
  "dispatch (maybeSendPackets s) = dispatch s"
  "rwChan (maybeSendPackets s) = rwChan s"
  "rw_busy (maybeSendPackets s) = rw_busy s"
  "rw_finishing (maybeSendPackets s) = rw_finishing s"
  "cmd_busy (maybeSendPackets s) = cmd_busy s"
  "cmd_finishing (maybeSendPackets s) = cmd_finishing s"
  "controller_returned (maybeSendPackets s) = controller_returned s"
  "crashed (maybeSendPackets s) = crashed s"
  "accepted (maybeSendPackets s) = accepted s"
  by (rule maybeSendPackets_spec [of s], simp)+

lemma controller_request_frame [simp]:
  "packetCount (controller_request s) = packetCount s" "accepted (controller_request s) = accepted s"
  "pktChan (controller_request s) = pktChan s" "dispatch (controller_request s) = dispatch s"
  "rwChan (controller_request s) = rwChan s" "rw_busy (controller_request s) = rw_busy s"
  "rw_finishing (controller_request s) = rw_finishing s" "cmd_busy (controller_request s) = cmd_busy s"
  "cmd_finishing (controller_request s) = cmd_finishing s" "working (controller_request s) = working s"
  "responses (controller_request s) = responses s"
  by (auto simp: controller_request_def split: list.split option.split)

lemma controller_response_frame [simp]:
  "packetCount (controller_response s) = packetCount s" "accepted (controller_response s) = accepted s"
  "pktChan (controller_response s) = pktChan s" "dispatch (controller_response s) = dispatch s"
  "rwChan (controller_response s) = rwChan s" "rw_busy (controller_response s) = rw_busy s"
  "rw_finishing (controller_response s) = rw_finishing s" "cmd_busy (controller_response s) = cmd_busy s"
  "cmd_finishing (controller_response s) = cmd_finishing s" "working (controller_response s) = working s"
  "requests (controller_response s) = requests s" "crashed (controller_response s) = crashed s"
  by (auto simp: controller_response_def split: list.split)

lemmas pm_defs = take_page_def incomingPacket_add_def incomingPacket_send_def readyPacket_send_def
  readyPacket_done_def newOrderedResponse_def controller_fini_def

subsection \<open>The invariant\<close>

text \<open>The requests are numbered from one, without gaps.\<close>

definition numbered :: "packetManager \<Rightarrow> bool" where
  "numbered s \<longleftrightarrow> packetCount s = of_nat (length (accepted s)) \<and>
     map oreq_orderid (accepted s) = map of_nat [1..<Suc (length (accepted s))]"

text \<open>The requests on their way: what the dispatcher holds, and what the workers have to do.\<close>

definition held :: "packetManager \<Rightarrow> orderedRequest list" where
  "held s = (case dispatch s of DTook p \<Rightarrow> [p] | DRegister p \<Rightarrow> [p] | _ \<Rightarrow> [])"

definition sending :: "packetManager \<Rightarrow> orderedRequest list" where
  "sending s = (case dispatch s of DSend p \<Rightarrow> [p] | _ \<Rightarrow> [])"

definition cmd_list :: "packetManager \<Rightarrow> orderedRequest list" where
  "cmd_list s = (case cmd_busy s of None \<Rightarrow> [] | Some p \<Rightarrow> [p])"

definition in_work :: "packetManager \<Rightarrow> orderedRequest list" where
  "in_work s = sending s @ rwChan s @ rw_busy s @ cmd_list s"

text \<open>Requests pass the stages in order: answered, incoming, in the channel to the controller, with
  the dispatcher, in the queue. The answered ones are those whose responses were sent, in order.\<close>

definition pipeline :: "packetManager \<Rightarrow> bool" where
  "pipeline s \<longleftrightarrow> (\<exists>answered.
     accepted s = answered @ incoming s @ requests s @ held s @ pktChan s \<and>
     map oreq_orderid answered = map oresp_orderid (sent s))"

text \<open>Every registered request that is not answered yet is in work or has a response on its way.\<close>

definition balance :: "packetManager \<Rightarrow> bool" where
  "balance s \<longleftrightarrow>
     mset (map oreq_orderid (incoming s @ requests s)) =
     mset (map oreq_orderid (in_work s)) + mset (map oresp_orderid (responses s @ outgoing s))"

text \<open>Nothing that could be sent is kept back.\<close>

definition tidy :: "packetManager \<Rightarrow> bool" where
  "tidy s \<longleftrightarrow> sorted (map oresp_orderid (outgoing s)) \<and> heads_differ s"

text \<open>The wait group counts the registered requests whose worker has not finished.\<close>

definition counted :: "packetManager \<Rightarrow> bool" where
  "counted s \<longleftrightarrow> working s =
     (case dispatch s of DRegister _ \<Rightarrow> 1 | DSend _ \<Rightarrow> 1 | _ \<Rightarrow> 0) + length (rwChan s) + length (rw_busy s) +
     rw_finishing s + length (cmd_list s) + cmd_finishing s"

text \<open>While a close request is with the dispatcher or in work, the reads and writes in work are younger.\<close>

definition barrier :: "packetManager \<Rightarrow> bool" where
  "barrier s \<longleftrightarrow>
     (\<forall>c \<in> set (cmd_list s). \<forall>p \<in> set (held s @ sending s). oreq_orderid c < oreq_orderid p) \<and>
     (\<forall>c \<in> set (cmd_list s @ (case dispatch s of DRegister p \<Rightarrow> [p] | _ \<Rightarrow> []) @ sending s). is_close c \<longrightarrow>
        (\<forall>q \<in> set (rwChan s @ rw_busy s). oreq_orderid c < oreq_orderid q))"

lemmas stage_defs = held_def sending_def cmd_list_def in_work_def

lemma numbered_step: "pm_step s t \<Longrightarrow> numbered s \<Longrightarrow> numbered t"
  by (induction rule: pm_step.induct)
     (auto simp: numbered_def pm_defs newOrderedRequest_def newOrderID_def Let_def)

lemma counted_step: "pm_step s t \<Longrightarrow> counted s \<Longrightarrow> counted t"
  by (induction rule: pm_step.induct)
     (auto simp: counted_def pm_defs newOrderedRequest_def newOrderID_def Let_def cmd_list_def split: dispatcher.splits)

text \<open>Below $2^{32}$ requests the numbers do not wrap around, and grow.\<close>

definition no_wrap :: "packetManager \<Rightarrow> bool" where
  "no_wrap s \<longleftrightarrow> length (accepted s) < 2 ^ 32"

lemma no_wrap_step: "pm_step s t \<Longrightarrow> no_wrap t \<Longrightarrow> no_wrap s"
  by (induction rule: pm_step.induct)
     (auto simp: no_wrap_def pm_defs newOrderedRequest_def newOrderID_def Let_def)

lemma numbered_ascending:
  assumes "numbered s" "no_wrap s"
  shows "sorted_wrt (<) (map oreq_orderid (accepted s))"
proof -
  let ?n = "length (accepted s)"
  have "(of_nat i :: u32) < of_nat j" if "i < j" "j \<in> set [1..<Suc ?n]" for i j
    using that assms(2) by (auto simp: no_wrap_def word_less_nat_alt unat_of_nat)
  then have "sorted_wrt (\<lambda>i j. (of_nat i :: u32) < of_nat j) [1..<Suc ?n]"
    by (blast intro: sorted_wrt_mono_rel [OF _ sorted_wrt_upt])
  then show ?thesis using assms(1) unfolding numbered_def by (simp only: sorted_wrt_map)
qed

text \<open>So a request that comes later in the pipeline has the larger number, and appending one to the
  incoming requests keeps them sorted.\<close>

lemma ascending_parts:
  assumes "numbered s" "no_wrap s" "accepted s = xs @ ys" "x \<in> set xs" "y \<in> set ys"
  shows "oreq_orderid x < oreq_orderid y"
proof -
  have "sorted_wrt (<) (map oreq_orderid xs @ map oreq_orderid ys)"
    using numbered_ascending [OF assms(1,2)] assms(3) by simp
  then show ?thesis using assms(4,5) by (auto simp: sorted_wrt_append)
qed

lemma sort_requests_id:
  assumes "numbered s" "no_wrap s" "accepted s = xs @ ps @ ys"
  shows "sort_requests ps = ps"
proof -
  have "sorted_wrt (<) (map oreq_orderid ps)"
    using numbered_ascending [OF assms(1,2)] assms(3) by (auto simp: sorted_wrt_append)
  then have "sorted (map oreq_orderid ps)" by (rule sorted_wrt_mono_rel [rotated]) simp
  then show ?thesis by (simp add: sort_requests_def sorted_sort_id sort_key_id_if_sorted)
qed

lemma maybeSendPackets_pipeline: "pipeline s \<Longrightarrow> pipeline (maybeSendPackets s)"
proof -
  assume "pipeline s"
  then obtain answered where a: "accepted s = answered @ incoming s @ requests s @ held s @ pktChan s"
    and ids: "map oreq_orderid answered = map oresp_orderid (sent s)" by (auto simp: pipeline_def)
  obtain ins1 ins2 outs1 outs2 where
    m: "maybeSendPackets s = s\<lparr>sent := sent s @ outs1,
       alloc := map_option (\<lambda>a. foldl ReleasePages a (map oreq_orderid ins1)) (alloc s),
       incoming := ins2, outgoing := outs2\<rparr>"
    "incoming s = ins1 @ ins2" "map oreq_orderid ins1 = map oresp_orderid outs1"
    by (rule maybeSendPackets_spec)
  then show ?thesis unfolding pipeline_def m(1)
    using a ids by (intro exI [of _ "answered @ ins1"]) (simp add: held_def)
qed

lemma pipeline_controller_request:
  assumes "numbered s" "no_wrap s" "pipeline s"
  shows "pipeline (controller_request s)"
proof (cases "requests s")
  case (Cons pkt rest)
  from assms(3) obtain answered where
    a: "accepted s = answered @ (incoming s @ [pkt]) @ rest @ held s @ pktChan s"
    and ids: "map oreq_orderid answered = map oresp_orderid (sent s)" by (auto simp: pipeline_def Cons)
  have "pipeline (s\<lparr>requests := rest, incoming := sort_requests (incoming s @ [pkt])\<rparr>)"
    using sort_requests_id [OF assms(1,2) a] a ids by (auto simp: pipeline_def held_def)
  moreover have "pipeline (s\<lparr>crashed := True\<rparr>)" using assms(3) by (simp add: pipeline_def held_def)
  ultimately show ?thesis
    by (simp add: controller_request_def Cons maybeSendPackets_pipeline split: option.split)
qed (simp add: controller_request_def assms)

lemma pipeline_controller_response: "pipeline s \<Longrightarrow> pipeline (controller_response s)"
proof (cases "responses s")
  case (Cons r rest)
  assume "pipeline s"
  then have "pipeline (s\<lparr>responses := rest, outgoing := sort_responses (outgoing s @ [r])\<rparr>)"
    by (simp add: pipeline_def held_def)
  then show ?thesis by (simp add: controller_response_def Cons maybeSendPackets_pipeline)
qed (simp add: controller_response_def)

lemma pipeline_step:
  assumes "pm_step s t" "numbered s" "no_wrap s" "pipeline s"
  shows "pipeline t"
  using assms
proof (induction rule: pm_step.induct)
  case (control_request s)
  then show ?case by (simp add: pipeline_controller_request)
next
  case (control_response s)
  then show ?case by (simp add: pipeline_controller_response)
qed (auto simp: pipeline_def held_def pm_defs newOrderedRequest_def newOrderID_def Let_def)

lemma maybeSendPackets_balance: "balance s \<Longrightarrow> balance (maybeSendPackets s)"
  by (rule maybeSendPackets_spec [of s]) (auto simp: balance_def stage_defs)

lemma balance_controller_request: "balance s \<Longrightarrow> balance (controller_request s)"
proof (cases "requests s")
  case (Cons pkt rest)
  assume b: "balance s"
  then have "balance (s\<lparr>requests := rest, incoming := sort_requests (incoming s @ [pkt])\<rparr>)"
    by (simp add: balance_def Cons stage_defs sort_requests_def add.assoc)
  moreover have "balance (s\<lparr>crashed := True\<rparr>)" using b by (simp add: balance_def stage_defs)
  ultimately show ?thesis
    by (simp add: controller_request_def Cons maybeSendPackets_balance split: option.split)
qed (simp add: controller_request_def)

lemma balance_controller_response: "balance s \<Longrightarrow> balance (controller_response s)"
proof (cases "responses s")
  case (Cons r rest)
  assume "balance s"
  then have "balance (s\<lparr>responses := rest, outgoing := sort_responses (outgoing s @ [r])\<rparr>)"
    by (simp add: balance_def Cons stage_defs sort_responses_def)
  then show ?thesis by (simp add: controller_response_def Cons maybeSendPackets_balance)
qed (simp add: controller_response_def)

lemma balance_step: "pm_step s t \<Longrightarrow> balance s \<Longrightarrow> balance t"
proof (induction rule: pm_step.induct)
  case (control_request s)
  then show ?case by (simp add: balance_controller_request)
next
  case (control_response s)
  then show ?case by (simp add: balance_controller_response)
qed (auto simp: balance_def stage_defs pm_defs newOrderedRequest_def newOrderID_def Let_def)

lemma maybeSendPackets_tidy: "sorted (map oresp_orderid (outgoing s)) \<Longrightarrow> tidy (maybeSendPackets s)"
  by (rule maybeSendPackets_spec [of s]) (auto simp: tidy_def sorted_append)

lemma tidy_controller_request: "tidy s \<Longrightarrow> tidy (controller_request s)"
  by (auto simp: controller_request_def split: list.split option.split intro!: maybeSendPackets_tidy)
     (auto simp: tidy_def heads_differ_def)

lemma tidy_controller_response: "tidy s \<Longrightarrow> tidy (controller_response s)"
  by (auto simp: controller_response_def sort_responses_def split: list.split intro!: maybeSendPackets_tidy)

lemma tidy_step: "pm_step s t \<Longrightarrow> tidy s \<Longrightarrow> tidy t"
proof (induction rule: pm_step.induct)
  case (control_request s)
  then show ?case by (simp add: tidy_controller_request)
next
  case (control_response s)
  then show ?case by (simp add: tidy_controller_response)
qed (simp_all add: tidy_def heads_differ_def pm_defs newOrderedRequest_def newOrderID_def Let_def split: list.splits)

text \<open>What is in work is registered, hence older than what the dispatcher or the queue holds.\<close>

lemma in_work_registered:
  assumes "balance s" "c \<in> set (in_work s)"
  shows "\<exists>r \<in> set (incoming s @ requests s). oreq_orderid r = oreq_orderid c"
proof -
  have "oreq_orderid c \<in># mset (map oreq_orderid (incoming s @ requests s))"
    using assms unfolding balance_def by simp
  then show ?thesis by auto
qed

lemma in_work_older:
  assumes "numbered s" "no_wrap s" "pipeline s" "balance s"
    and c: "c \<in> set (in_work s)" and p: "p \<in> set (held s @ pktChan s)"
  shows "oreq_orderid c < oreq_orderid p"
proof -
  from in_work_registered [OF assms(4) c] obtain r where
    r: "r \<in> set (incoming s @ requests s)" "oreq_orderid r = oreq_orderid c" by blast
  from assms(3) obtain answered where
    "accepted s = (answered @ incoming s @ requests s) @ (held s @ pktChan s)" by (auto simp: pipeline_def)
  from ascending_parts [OF assms(1,2) this _ p, of r] r show ?thesis by auto
qed

lemma barrier_step:
  assumes step: "pm_step s t" and b: "barrier s" and cnt: "counted s"
    and older: "\<And>c p. c \<in> set (in_work s) \<Longrightarrow> p \<in> set (held s @ pktChan s) \<Longrightarrow> oreq_orderid c < oreq_orderid p"
  shows "barrier t"
  using step b cnt older
proof (induction rule: pm_step.induct)
  case (dispatch_take s p ps)
  then show ?case by (auto simp: barrier_def stage_defs)
next
  case (dispatch_add s p)
  then show ?case by (auto simp: barrier_def stage_defs pm_defs counted_def)
next
  case (dispatch_cmd s p)
  then show ?case by (auto simp: barrier_def stage_defs)
next
  case (dispatch_rw s p)
  then show ?case by (auto simp: barrier_def stage_defs)
qed (auto simp: barrier_def stage_defs pm_defs newOrderedRequest_def newOrderID_def Let_def split: dispatcher.splits)

subsection \<open>Schedules\<close>

text \<open>A schedule names the step each goroutine takes next; running one gives a state of the relation.
  \<open>None\<close>: the named step is not enabled.\<close>

datatype pm_action =
    Receive "requestPacket option" | ReceivePage | ReceiveEnd
  | Take | Add | Register | HandOver | Shutdown
  | RwTake | RwPage nat | RwRespond nat responsePacket | RwDone
  | CmdPage | CmdRespond responsePacket | CmdDone
  | ControlRequest | ControlResponse | ControlFini

fun pm_apply :: "packetManager \<Rightarrow> pm_action \<Rightarrow> packetManager option" where
  "pm_apply s (Receive p) =
     (if pktChan_closed s \<or> length (pktChan s) \<ge> SftpServerWorkerCount then None
      else case newOrderedRequest s p of
        (pkt, s') \<Rightarrow> Some (s'\<lparr>pktChan := pktChan s' @ [pkt], accepted := accepted s' @ [pkt]\<rparr>))"
| "pm_apply s ReceivePage = (if pktChan_closed s then None else Some (take_page s (getNextOrderID s)))"
| "pm_apply s ReceiveEnd = Some (s\<lparr>pktChan_closed := True\<rparr>)"
| "pm_apply s Take = (case (dispatch s, pktChan s) of
     (DIdle, p # ps) \<Rightarrow> Some (s\<lparr>pktChan := ps, dispatch := DTook p\<rparr>) | _ \<Rightarrow> None)"
| "pm_apply s Add = (case dispatch s of
     DTook p \<Rightarrow> if is_close p \<and> working s \<noteq> 0 then None else Some ((incomingPacket_add s)\<lparr>dispatch := DRegister p\<rparr>)
   | _ \<Rightarrow> None)"
| "pm_apply s Register = (case dispatch s of
     DRegister p \<Rightarrow> if length (requests s) \<ge> SftpServerWorkerCount then None
       else Some ((incomingPacket_send s p)\<lparr>dispatch := DSend p\<rparr>)
   | _ \<Rightarrow> None)"
| "pm_apply s HandOver = (case dispatch s of
     DSend p \<Rightarrow>
       (if is_rw p
        then if length (rwChan s) \<ge> SftpServerWorkerCount then None
             else Some (s\<lparr>rwChan := rwChan s @ [p], dispatch := DIdle\<rparr>)
        else if cmd_busy s = None \<and> cmd_finishing s = 0 then Some (s\<lparr>cmd_busy := Some p, dispatch := DIdle\<rparr>)
        else None)
   | _ \<Rightarrow> None)"
| "pm_apply s Shutdown =
     (if dispatch s = DIdle \<and> pktChan s = [] \<and> pktChan_closed s \<and> working s = 0
      then Some (s\<lparr>fini := True, dispatch := DDone\<rparr>) else None)"
| "pm_apply s RwTake = (case rwChan s of
     p # ps \<Rightarrow> if length (rw_busy s) + rw_finishing s \<ge> SftpServerWorkerCount then None
       else Some (s\<lparr>rwChan := ps, rw_busy := rw_busy s @ [p]\<rparr>)
   | [] \<Rightarrow> None)"
| "pm_apply s (RwPage i) = (if i < length (rw_busy s) then Some (take_page s (oreq_orderid (rw_busy s ! i))) else None)"
| "pm_apply s (RwRespond i r) =
     (if i < length (rw_busy s) \<and> length (responses s) < SftpServerWorkerCount
      then Some ((readyPacket_send s (newOrderedResponse r (oreq_orderid (rw_busy s ! i))))
        \<lparr>rw_busy := take i (rw_busy s) @ drop (Suc i) (rw_busy s), rw_finishing := rw_finishing s + 1\<rparr>)
      else None)"
| "pm_apply s RwDone = (case rw_finishing s of 0 \<Rightarrow> None | Suc n \<Rightarrow> Some ((readyPacket_done s)\<lparr>rw_finishing := n\<rparr>))"
| "pm_apply s CmdPage = (case cmd_busy s of None \<Rightarrow> None | Some p \<Rightarrow> Some (take_page s (oreq_orderid p)))"
| "pm_apply s (CmdRespond r) = (case cmd_busy s of
     Some p \<Rightarrow> if length (responses s) \<ge> SftpServerWorkerCount then None
       else Some ((readyPacket_send s (newOrderedResponse r (oreq_orderid p)))
         \<lparr>cmd_busy := None, cmd_finishing := cmd_finishing s + 1\<rparr>)
   | None \<Rightarrow> None)"
| "pm_apply s CmdDone = (case cmd_finishing s of 0 \<Rightarrow> None | Suc n \<Rightarrow> Some ((readyPacket_done s)\<lparr>cmd_finishing := n\<rparr>))"
| "pm_apply s ControlRequest =
     (if controller_returned s \<or> requests s = [] then None else Some (controller_request s))"
| "pm_apply s ControlResponse =
     (if controller_returned s \<or> responses s = [] then None else Some (controller_response s))"
| "pm_apply s ControlFini = (if controller_returned s \<or> \<not> fini s then None else Some (controller_fini s))"

fun pm_run :: "packetManager \<Rightarrow> pm_action list \<Rightarrow> packetManager option" where
  "pm_run s [] = Some s"
| "pm_run s (x # xs) =
     (if crashed s then None else case pm_apply s x of None \<Rightarrow> None | Some t \<Rightarrow> pm_run t xs)"

lemma pm_apply_step: "pm_apply s x = Some t \<Longrightarrow> pm_step s t"
proof (cases x)
  case (RwRespond i r)
  assume "pm_apply s x = Some t"
  with RwRespond show ?thesis
    using pm_step.rw_respond [of s "take i (rw_busy s)" "rw_busy s ! i" "drop (Suc i) (rw_busy s)" r]
    by (auto simp: id_take_nth_drop [symmetric] split: if_split_asm)
next
  case (CmdRespond r)
  assume "pm_apply s x = Some t"
  with CmdRespond show ?thesis
    by (auto split: if_split_asm option.split_asm dest: pm_step.cmd_respond [of s _ r])
qed (auto split: if_split_asm prod.split_asm list.split_asm option.split_asm nat.split_asm dispatcher.split_asm
      intro: pm_step.intros)

lemma pm_run_reach: "pm_run s xs = Some t \<Longrightarrow> pm_reach a s \<Longrightarrow> pm_reach a t"
proof (induction xs arbitrary: s)
  case (Cons x xs)
  then obtain u where "\<not> crashed s" "pm_apply s x = Some u" and u: "pm_run u xs = Some t"
    by (auto split: if_split_asm option.split_asm)
  with Cons.prems(2) have "pm_reach a u" by (blast intro: pm_reach.more pm_apply_step)
  with u show ?case by (rule Cons.IH)
qed simp

lemmas pm_exec = newPktMgr_def newOrderedRequest_def newOrderID_def pm_defs SftpServerWorkerCount_def
  is_rw_def is_close_def controller_request_def controller_response_def maybeSendPackets.simps
  sort_requests_def sort_responses_def no_wrap_def stage_defs Let_def

lemmas pm_run_start = pm_run_reach [OF _ pm_reach.start]

definition pm_inv :: "packetManager \<Rightarrow> bool" where
  "pm_inv s \<longleftrightarrow> numbered s \<and> counted s \<and> balance s \<and> tidy s \<and> pipeline s \<and> barrier s"

lemma pm_inv_start: "pm_inv (newPktMgr a)"
  by (simp add: pm_inv_def newPktMgr_def numbered_def counted_def balance_def tidy_def pipeline_def
      barrier_def stage_defs heads_differ_def)

lemma pm_inv_step:
  assumes "pm_step s t" "no_wrap s" "pm_inv s"
  shows "pm_inv t"
  using assms numbered_step counted_step balance_step tidy_step pipeline_step barrier_step in_work_older
  unfolding pm_inv_def by blast

lemma pm_inv_reach:
  assumes "pm_reach a s" "no_wrap s"
  shows "pm_inv s"
  using assms
proof (induction rule: pm_reach.induct)
  case start
  show ?case by (rule pm_inv_start)
next
  case (more s t)
  then show ?case using pm_inv_step no_wrap_step by blast
qed

text \<open>
  C4: responses leave in the order of the requests. Whatever the interleaving of the receive
  loop, the dispatcher, the nine workers and the controller, the order numbers of the responses
  sent so far are 1, 2, 3, \<dots> without gap or repetition, as long as a connection has seen fewer
  than $2^{32}$ requests.
\<close>

theorem responses_in_request_order:
  assumes "pm_reach a s" and "no_wrap s"
  shows "map oresp_orderid (sent s) = map of_nat [1..<Suc (length (sent s))]"
proof -
  have inv: "pm_inv s" using assms by (rule pm_inv_reach)
  then obtain answered rest where acc: "accepted s = answered @ rest"
    and ids: "map oreq_orderid answered = map oresp_orderid (sent s)"
    by (auto simp: pm_inv_def pipeline_def)
  have len: "length answered = length (sent s)" using arg_cong [OF ids, of length] by simp
  have "map oreq_orderid answered = take (length answered) (map oreq_orderid (accepted s))"
    by (simp add: acc)
  also have "\<dots> = map of_nat (take (length answered) [1..<Suc (length (accepted s))])"
    using inv by (simp add: pm_inv_def numbered_def take_map)
  also have "take (length answered) [1..<Suc (length (accepted s))] = [1..<Suc (length answered)]"
    by (subst take_upt) (auto simp: acc)
  finally show ?thesis using ids len by simp
qed

text \<open>The witness: two stat requests, the first answered.\<close>

definition demo_schedule :: "pm_action list" where
  "demo_schedule =
     [Receive (Some (sshFxpStatPacket 5 ''/a'')), Take, Add, Register, HandOver, ControlRequest,
      CmdRespond (sshFxpStatusPacket 5 2 [] []), CmdDone, ControlResponse]"

theorem responses_in_request_order_witness:
  "\<exists>s. pm_reach None s \<and> no_wrap s \<and> sent s \<noteq> [] \<and>
       map oresp_orderid (sent s) = map of_nat [1..<Suc (length (sent s))]"
proof -
  obtain s where run: "pm_run (newPktMgr None) demo_schedule = Some s" and s: "no_wrap s" "sent s \<noteq> []"
    by (simp add: demo_schedule_def pm_exec)
  from responses_in_request_order [OF pm_run_start [OF run] s(1)] pm_run_start [OF run] s show ?thesis by blast
qed

text \<open>
  No response is lost while the controller runs. In a reachable state in which nothing is
  under way (the queue, the dispatcher, the workers and the channels are empty), every
  accepted request has been answered.
\<close>

theorem quiescent_all_answered:
  assumes "pm_reach a s" and "no_wrap s"
    and "pktChan s = []" and "held s = []" and "in_work s = []" and "requests s = []" and "responses s = []"
  shows "map oresp_orderid (sent s) = map oreq_orderid (accepted s)"
proof -
  have inv: "pm_inv s" using assms by (intro pm_inv_reach)
  have bal: "mset (map oreq_orderid (incoming s)) = mset (map oresp_orderid (outgoing s))"
    using inv assms by (simp add: pm_inv_def balance_def)
  from inv obtain answered where acc: "accepted s = answered @ incoming s"
    and ids: "map oreq_orderid answered = map oresp_orderid (sent s)"
    using assms by (auto simp: pm_inv_def pipeline_def)
  have "sort_requests (incoming s) = incoming s"
    using inv assms(2) acc by (intro sort_requests_id [of s answered _ "[]"]) (auto simp: pm_inv_def)
  then have "sorted (map oreq_orderid (incoming s))"
    by (metis sort_requests_def sorted_sort_key)
  moreover have "sorted (map oresp_orderid (outgoing s))" using inv by (simp add: pm_inv_def tidy_def)
  ultimately have "map oreq_orderid (incoming s) = map oresp_orderid (outgoing s)"
    using bal by (metis mset_eq_setD properties_for_sort sorted_sort_id)
  then have "incoming s = []"
    using inv by (auto simp: pm_inv_def tidy_def heads_differ_def Cons_eq_map_conv split: list.splits)
  with acc ids show ?thesis by simp
qed

theorem quiescent_all_answered_witness:
  "\<exists>s. pm_reach None s \<and> accepted s \<noteq> [] \<and> map oresp_orderid (sent s) = map oreq_orderid (accepted s)"
proof -
  obtain s where run: "pm_run (newPktMgr None) demo_schedule = Some s"
    and s: "no_wrap s" "pktChan s = []" "held s = []" "in_work s = []" "requests s = []" "responses s = []"
    and acc: "accepted s \<noteq> []"
    by (simp add: demo_schedule_def pm_exec)
  from quiescent_all_answered [OF pm_run_start [OF run] s] pm_run_start [OF run] acc show ?thesis by blast
qed

text \<open>
  C5: closing waits. While the command worker handles a close request, every read or write that
  is queued for the parallel workers or being handled by one came after that close, so no worker
  still uses a handle on behalf of an earlier request when it is closed.
\<close>

theorem close_waits_for_reads_and_writes:
  assumes "pm_reach a s" and "no_wrap s" and "cmd_busy s = Some c" and "is_close c"
  shows "\<forall>q \<in> set (rwChan s @ rw_busy s). oreq_orderid c < oreq_orderid q"
  using pm_inv_reach [OF assms(1,2)] assms(3,4)
  unfolding pm_inv_def barrier_def by (simp add: cmd_list_def)

text \<open>The witness: a close request in work and a read, received after it, waiting for a worker.\<close>

theorem close_waits_for_reads_and_writes_witness:
  "\<exists>s c. pm_reach None s \<and> cmd_busy s = Some c \<and> is_close c \<and> rwChan s \<noteq> [] \<and>
     (\<forall>q \<in> set (rwChan s @ rw_busy s). oreq_orderid c < oreq_orderid q)"
proof -
  obtain s c where run: "pm_run (newPktMgr None)
      [Receive (Some (sshFxpClosePacket 1 ''0'')), Receive (Some (sshFxpReadPacket 2 ''1'' 0 10)),
       Take, Add, Register, HandOver, Take, Add, Register, HandOver] = Some s"
    and s: "no_wrap s" "cmd_busy s = Some c" "is_close c" "rwChan s \<noteq> []"
    by (simp add: pm_exec)
  from close_waits_for_reads_and_writes [OF pm_run_start [OF run] s(1-3)] pm_run_start [OF run] s
  show ?thesis by blast
qed

text \<open>
  The end of a connection can lose responses. The dispatcher closes \<^verbatim>\<open>fini\<close> as soon as the
  workers have put their responses into the channel, not when the controller has sent them: there
  is a run in which the controller returns with an accepted, handled and unanswered request.
\<close>

theorem shutdown_may_drop_response:
  "\<exists>s. pm_reach None s \<and> controller_returned s \<and> \<not> crashed s \<and> working s = 0 \<and>
       length (accepted s) = 1 \<and> length (responses s) = 1 \<and> sent s = []"
proof -
  obtain s where "pm_run (newPktMgr None)
      [Receive (Some (sshFxpStatPacket 5 ''/a'')), ReceiveEnd, Take, Add, Register, HandOver,
       CmdRespond (sshFxpStatusPacket 5 2 [] []), CmdDone, Shutdown, ControlFini] = Some s"
    "controller_returned s" "\<not> crashed s" "working s = 0" "length (accepted s) = 1"
    "length (responses s) = 1" "sent s = []"
    by (simp add: pm_exec)
  then show ?thesis using pm_run_start by blast
qed

subsection \<open>Unknown packet types\<close>

lemma controller_request_crash:
  "crashed (controller_request s) \<longleftrightarrow> crashed s \<or> (\<exists>p ps. requests s = p # ps \<and> oreq_packet p = None)"
  by (auto simp: controller_request_def split: list.split option.split)

definition crash_cause :: "packetManager \<Rightarrow> bool" where
  "crash_cause s \<longleftrightarrow>
     set (requests s @ held s @ pktChan s) \<subseteq> set (accepted s) \<and>
     (crashed s \<longrightarrow> (\<exists>p \<in> set (accepted s). oreq_packet p = None))"

lemma controller_request_requests: "set (requests (controller_request s)) \<subseteq> set (requests s)"
  by (auto simp: controller_request_def split: list.split option.split)

lemma crash_cause_step: "pm_step s t \<Longrightarrow> crash_cause s \<Longrightarrow> crash_cause t"
proof (induction rule: pm_step.induct)
  case (control_request s)
  then show ?case
    using controller_request_requests [of s]
    by (auto simp: crash_cause_def controller_request_crash held_def)
next
  case (control_response s)
  then show ?case by (auto simp: crash_cause_def held_def)
qed (auto simp: crash_cause_def held_def pm_defs newOrderedRequest_def newOrderID_def Let_def)

lemma crash_cause_reach: "pm_reach a s \<Longrightarrow> crash_cause s"
proof (induction rule: pm_reach.induct)
  case start
  show ?case by (simp add: crash_cause_def newPktMgr_def held_def)
qed (rule crash_cause_step)

text \<open>
  What stops the server. The packet manager dereferences nil only after a request was
  accepted for which \<^verbatim>\<open>makePacket\<close> returned no packet, that is, one with an unknown type byte; one
  such packet is enough (the witness sends a packet of type 99).
\<close>

theorem crash_only_by_unknown_type:
  assumes "pm_reach a s" and "crashed s"
  shows "\<exists>p \<in> set (accepted s). oreq_packet p = None"
  using crash_cause_reach [OF assms(1)] assms(2) by (simp add: crash_cause_def)

theorem crash_only_by_unknown_type_witness:
  "\<exists>s. pm_reach None s \<and> crashed s \<and> accepted s = [\<lparr>oreq_packet = fst (makePacket 99 [0, 0, 0, 1]), oreq_orderid = 1\<rparr>] \<and>
       (\<exists>p \<in> set (accepted s). oreq_packet p = None)"
proof -
  have nil: "fst (makePacket 99 [0, 0, 0, 1]) = None" by (simp add: makePacket_def Let_def)
  obtain s where run: "pm_run (newPktMgr None)
      [Receive (fst (makePacket 99 [0, 0, 0, 1])), Take, Add, Register, ControlRequest] = Some s"
    and s: "crashed s" "accepted s = [\<lparr>oreq_packet = fst (makePacket 99 [0, 0, 0, 1]), oreq_orderid = 1\<rparr>]"
    by (simp add: pm_exec nil)
  from crash_only_by_unknown_type [OF pm_run_start [OF run] s(1)] pm_run_start [OF run] s show ?thesis by blast
qed

subsection \<open>Pages\<close>

text \<open>The pages of an answered request are back in the pool; the pool's own invariant holds.\<close>

definition pages_ok :: "packetManager \<Rightarrow> bool" where
  "pages_ok s = (case alloc s of None \<Rightarrow> True
     | Some a \<Rightarrow> alloc_inv a \<and> (\<forall>i \<in> set (map oresp_orderid (sent s)). pages_of a i = []))"

lemma pages_ok_cong: "alloc t = alloc s \<Longrightarrow> sent t = sent s \<Longrightarrow> pages_ok s \<Longrightarrow> pages_ok t"
  by (simp add: pages_ok_def cong: option.case_cong)

lemma pages_ok_take_page:
  assumes "pages_ok s" "oid \<notin> set (map oresp_orderid (sent s))"
  shows "pages_ok (take_page s oid)"
proof (cases "alloc s")
  case (Some a)
  obtain p a' where g: "GetPage a oid = (p, a')" by (cases "GetPage a oid")
  from assms Some g show ?thesis
    by (auto simp: pages_ok_def take_page_def pages_of_GetPage [OF g] intro: alloc_inv_GetPage)
qed (simp add: pages_ok_def take_page_def)

lemma foldl_ReleasePages:
  "alloc_inv a \<Longrightarrow> alloc_inv (foldl ReleasePages a is) \<and>
     pages_of (foldl ReleasePages a is) i = (if i \<in> set is then [] else pages_of a i)"
proof (induction "is" arbitrary: a)
  case (Cons j js)
  then have "alloc_inv (ReleasePages a j)" by (simp add: alloc_inv_ReleasePages)
  with Cons.IH [OF this] show ?case by (simp add: pages_of_ReleasePages)
qed simp

lemma pages_ok_maybeSendPackets: "pages_ok s \<Longrightarrow> pages_ok (maybeSendPackets s)"
proof (rule maybeSendPackets_spec [of s])
  fix ins1 ins2 outs1 outs2
  assume m: "maybeSendPackets s = s\<lparr>sent := sent s @ outs1,
       alloc := map_option (\<lambda>a. foldl ReleasePages a (map oreq_orderid ins1)) (alloc s),
       incoming := ins2, outgoing := outs2\<rparr>"
    and ids: "map oreq_orderid ins1 = map oresp_orderid outs1" and ok: "pages_ok s"
  have "oresp_orderid ` set outs1 = oreq_orderid ` set ins1"
    using arg_cong [OF ids, of set] by simp
  with m ids ok show ?thesis
    by (cases "alloc s") (auto simp: pages_ok_def foldl_ReleasePages)
qed

lemma pages_ok_controller:
  "pages_ok s \<Longrightarrow> pages_ok (controller_request s)"
  "pages_ok s \<Longrightarrow> pages_ok (controller_response s)"
  by (auto simp: controller_request_def controller_response_def split: list.split option.split
      intro!: pages_ok_maybeSendPackets intro: pages_ok_cong)

lemma in_work_not_sent:
  assumes "pm_inv s" "no_wrap s" "p \<in> set (in_work s)"
  shows "oreq_orderid p \<notin> set (map oresp_orderid (sent s))"
proof -
  from assms(1) obtain answered where
    acc: "accepted s = answered @ ((incoming s @ requests s) @ held s @ pktChan s)"
    and ids: "map oreq_orderid answered = map oresp_orderid (sent s)"
    by (auto simp: pm_inv_def pipeline_def)
  from in_work_registered [OF _ assms(3)] assms(1) obtain r where
    r: "r \<in> set (incoming s @ requests s)" "oreq_orderid r = oreq_orderid p" by (auto simp: pm_inv_def)
  have "oreq_orderid x < oreq_orderid p" if "x \<in> set answered" for x
    using ascending_parts [OF _ assms(2) acc that, of r] r assms(1) by (auto simp: pm_inv_def)
  then have "oreq_orderid p \<notin> set (map oreq_orderid answered)" by fastforce
  then show ?thesis unfolding ids .
qed

lemma next_not_sent:
  assumes "pm_inv s" "no_wrap s"
  shows "getNextOrderID s \<notin> set (map oresp_orderid (sent s))"
proof -
  let ?n = "length (accepted s)"
  from assms(1) have sub: "set (map oresp_orderid (sent s)) \<subseteq> of_nat ` {1..<Suc ?n}"
    unfolding pm_inv_def pipeline_def numbered_def
    by (metis (no_types, lifting) Un_upper1 list.set_map map_append set_append set_upt)
  have "(of_nat (Suc ?n) :: u32) \<noteq> of_nat i" if "1 \<le> i" "i \<le> ?n" for i
  proof
    assume "(of_nat (Suc ?n) :: u32) = of_nat i"
    then have "Suc ?n mod 2 ^ 32 = i mod 2 ^ 32"
      using unat_of_nat [of "Suc ?n", where 'a = 32] unat_of_nat [of i, where 'a = 32] by simp
    moreover have "?n < 2 ^ 32" using assms(2) by (simp add: no_wrap_def)
    moreover from this have "Suc ?n < 2 ^ 32 \<or> Suc ?n = 2 ^ 32" by linarith
    ultimately show False using that by (auto simp del: Suc_eq_plus1)
  qed
  then have "(of_nat (Suc ?n) :: u32) \<notin> of_nat ` {1..<Suc ?n}"
    unfolding image_iff by (metis atLeastLessThan_iff less_Suc_eq_le)
  moreover have "getNextOrderID s = of_nat (Suc ?n)"
    using assms(1) by (simp add: getNextOrderID_def pm_inv_def numbered_def add.commute)
  ultimately show ?thesis using sub by auto
qed

lemma pages_ok_step:
  assumes "pm_step s t" "pm_inv s" "no_wrap s" "pages_ok s"
  shows "pages_ok t"
  using assms
proof (induction rule: pm_step.induct)
  case (receive_page s)
  then show ?case by (intro pages_ok_take_page next_not_sent)
next
  case (rw_page p s)
  then have "p \<in> set (in_work s)" by (simp add: in_work_def)
  with rw_page show ?case by (intro pages_ok_take_page in_work_not_sent)
next
  case (cmd_page s p)
  then have "p \<in> set (in_work s)" by (simp add: in_work_def cmd_list_def)
  with cmd_page show ?case by (intro pages_ok_take_page in_work_not_sent)
qed (auto simp: pages_ok_controller pm_defs newOrderedRequest_def newOrderID_def Let_def
      elim: pages_ok_cong [rotated 2])

text \<open>
  Pages are recycled and never shared. In every reachable state of a server with a page pool,
  the pool keeps its invariant (no page is available or held twice), and a request whose response has been sent holds
  no page any more.
\<close>

theorem answered_requests_hold_no_pages:
  assumes "pm_reach (Some (newAllocator h)) s" and "no_wrap s"
  shows "case alloc s of
      Some a \<Rightarrow> alloc_inv a \<and> (\<forall>r \<in> set (sent s). pages_of a (oresp_orderid r) = [])
    | None \<Rightarrow> True"
proof -
  have "pages_ok s"
    using assms
  proof (induction rule: pm_reach.induct)
    case start
    show ?case by (simp add: pages_ok_def newPktMgr_def alloc_inv_new)
  next
    case (more s t)
    then have "no_wrap s" using no_wrap_step by blast
    with more show ?case using pages_ok_step pm_inv_reach by blast
  qed
  then show ?thesis by (simp add: pages_ok_def split: option.splits)
qed

text \<open>The witness: a read request with two pages, answered.\<close>

theorem answered_requests_hold_no_pages_witness:
  "\<exists>s a. pm_reach (Some (newAllocator 0)) s \<and> alloc s = Some a \<and> available a = [0, 1] \<and> length (sent s) = 1 \<and>
     (\<forall>r \<in> set (sent s). pages_of a (oresp_orderid r) = [])"
proof -
  obtain s a where run: "pm_run (newPktMgr (Some (newAllocator 0)))
      [ReceivePage, Receive (Some (sshFxpReadPacket 2 ''1'' 0 10)), Take, Add, Register, HandOver, RwTake,
       RwPage 0, ControlRequest, RwRespond 0 (sshFxpDataPacket 2 1 [7]), RwDone, ControlResponse] = Some s"
    and s: "no_wrap s" "alloc s = Some a" "available a = [0, 1]" "length (sent s) = 1"
    by (simp add: pm_exec getNextOrderID_def newAllocator_def GetPage_def ReleasePages_def)
  from answered_requests_hold_no_pages [OF pm_run_start [OF run] s(1)] pm_run_start [OF run] s show ?thesis by auto
qed

end
