(* ===== verification/Handle_Table.thy ===== *)
theory Handle_Table
  imports Sftp_Prelude
begin

text \<open>
  Both servers of pkgsftp give out file handles as decimal numbers of a counter and keep the open
  ones in a map. The locale states what the request handlers rely on; the two servers are
  interpretations. An object may record its own handle: \<open>tag\<close> is what the table stores of it. The lemmas are about
  runs of openings and closings.
\<close>

text \<open>A run: open an object (\<open>Inl\<close>) or close a handle (\<open>Inr\<close>).\<close>

fun ht_run :: "('s \<Rightarrow> 'f \<Rightarrow> string \<times> 's) \<Rightarrow> ('s \<Rightarrow> string \<Rightarrow> 's) \<Rightarrow> 's \<Rightarrow> ('f + string) list \<Rightarrow> 's" where
  "ht_run opn cls s [] = s"
| "ht_run opn cls s (Inl f # es) = (case opn s f of (_, s') \<Rightarrow> ht_run opn cls s' es)"
| "ht_run opn cls s (Inr h # es) = ht_run opn cls (cls s h) es"

text \<open>The names issued by a counter that stands at \<open>n\<close>.\<close>

definition issued_upto :: "int \<Rightarrow> string set" where
  "issued_upto n = Itoa ` {1..n}"

lemma issued_fresh: "0 \<le> n \<Longrightarrow> Itoa (n + 1) \<notin> issued_upto n"
  by (auto simp: issued_upto_def Itoa_inject_nonneg)

lemma issued_next: "0 \<le> n \<Longrightarrow> issued_upto (n + 1) = insert (Itoa (n + 1)) (issued_upto n)"
proof -
  assume "0 \<le> n"
  then have "{1..n + 1} = insert (n + 1) {1..n}" by auto
  then show ?thesis by (simp add: issued_upto_def)
qed

locale handle_table =
  fixes opn :: "'s \<Rightarrow> 'f \<Rightarrow> string \<times> 's"
    and cls :: "'s \<Rightarrow> string \<Rightarrow> 's"
    and look :: "'s \<Rightarrow> string \<Rightarrow> 'f option"
    and tag :: "string \<Rightarrow> 'f \<Rightarrow> 'f"
    and count :: "'s \<Rightarrow> int"
    and limit :: int
    and inv :: "'s \<Rightarrow> bool"
  assumes inv_issued: "inv s \<Longrightarrow> 0 \<le> count s \<and> dom (look s) \<subseteq> issued_upto (count s)"
    and opn_law: "inv s \<Longrightarrow> count s < limit \<Longrightarrow> opn s f = (h, s') \<Longrightarrow>
        inv s' \<and> h = Itoa (count s + 1) \<and> count s' = count s + 1 \<and> look s' = (look s)(h \<mapsto> tag h f)"
    and cls_law: "inv s \<Longrightarrow> inv (cls s h) \<and> count (cls s h) = count s \<and> look (cls s h) = (look s)(h := None)"
begin

text \<open>A new handle was never given out before.\<close>

lemma opn_fresh:
  assumes "inv s" "count s < limit" "opn s f = (h, s')"
  shows "h \<notin> issued_upto (count s) \<and> look s h = None \<and> look s' h = Some (tag h f)"
  using opn_law [OF assms] inv_issued [OF assms(1)] issued_fresh by auto

lemma issued_mono: "m \<le> n \<Longrightarrow> issued_upto m \<subseteq> issued_upto n"
  by (auto simp: issued_upto_def)

text \<open>An open handle keeps its object through everything that does not close it.\<close>

lemma run_keeps:
  assumes "inv s" "look s h = Some f" "Inr h \<notin> set es" "count s + int (length es) \<le> limit"
  shows "look (ht_run opn cls s es) h = Some f"
  using assms
proof (induction es arbitrary: s)
  case (Cons e es)
  show ?case
  proof (cases e)
    case (Inl g)
    obtain k s' where o: "opn s g = (k, s')" by (cases "opn s g")
    have lim: "count s < limit" using Cons.prems(4) by simp
    note law = opn_law [OF Cons.prems(1) lim o]
    have "k \<noteq> h" using opn_fresh [OF Cons.prems(1) lim o] Cons.prems(2) by auto
    with law Cons.prems have "look (ht_run opn cls s' es) h = Some f" by (intro Cons.IH) auto
    with Inl o show ?thesis by simp
  next
    case (Inr k)
    with Cons.prems cls_law [OF Cons.prems(1), of k] have "look (ht_run opn cls (cls s k) es) h = Some f"
      by (intro Cons.IH) auto
    with Inr show ?thesis by simp
  qed
qed simp

text \<open>A closed handle stays closed: its name is not given out again.\<close>

lemma run_never_reuses:
  assumes "inv s" "h \<in> issued_upto (count s)" "look s h = None" "count s + int (length es) \<le> limit"
  shows "look (ht_run opn cls s es) h = None"
  using assms
proof (induction es arbitrary: s)
  case (Cons e es)
  show ?case
  proof (cases e)
    case (Inl g)
    obtain k s' where o: "opn s g = (k, s')" by (cases "opn s g")
    have lim: "count s < limit" using Cons.prems(4) by simp
    note law = opn_law [OF Cons.prems(1) lim o]
    have "k \<noteq> h" using opn_fresh [OF Cons.prems(1) lim o] Cons.prems(2) by auto
    moreover have "h \<in> issued_upto (count s')"
      using law Cons.prems(2) issued_mono [of "count s" "count s'"] by auto
    ultimately have "look (ht_run opn cls s' es) h = None" using law Cons.prems by (intro Cons.IH) auto
    with Inl o show ?thesis by simp
  next
    case (Inr k)
    with Cons.prems cls_law [OF Cons.prems(1), of k] have "look (ht_run opn cls (cls s k) es) h = None"
      by (intro Cons.IH) auto
    with Inr show ?thesis by simp
  qed
qed simp

end

end
