(* ===== verification/Sftp_Server.thy ===== *)
theory Sftp_Server
  imports Packet_Manager Handle_Table User_Gov
begin

text \<open>
  The SFTP server of pkgsftp/server.go (with server_unix.go, server_statvfs_impl.go and
  server_statvfs_linux.go): what it answers to each request and which system calls it makes. The
  goroutines around it, and the order of the answers, are the subject of \<open>Packet_Manager\<close>; here a request is handled in one go.

  A handler takes the system \<open>os\<close>, the server, the world and the request, and gives its outcome, the new server
  and the new world.
\<close>

subsection \<open>The server and its options\<close>

record 'f Server =
  readOnly :: bool
  OpenFiles :: "string \<rightharpoonup> 'f"
  handleCount :: "64 word"
  svr_User :: User
  jailPath :: string
  svr_alloc :: "allocator option"
  sftpExtensions :: "extensionPair list"

datatype ServerOption = WithDebug | ReadOnly | WithAllocator

fun apply_option :: "page \<Rightarrow> 'f Server \<Rightarrow> ServerOption \<Rightarrow> 'f Server" where
  "apply_option h s WithDebug = s"
| "apply_option h s ReadOnly = s\<lparr>readOnly := True\<rparr>"
| "apply_option h s WithAllocator = s\<lparr>svr_alloc := Some (newAllocator h)\<rparr>"

text \<open>The advertised extensions are a variable of the package (\<open>SetSFTPExtensions\<close>), given here as \<open>exts\<close>.\<close>

definition NewServer :: "page \<Rightarrow> extensionPair list \<Rightarrow> User \<Rightarrow> string \<Rightarrow> ServerOption list \<Rightarrow> 'f Server" where
  "NewServer h exts user jail options =
     foldl (apply_option h)
       \<lparr>readOnly = False, OpenFiles = Map.empty, handleCount = 0, svr_User = user, jailPath = jail,
        svr_alloc = None, sftpExtensions = exts\<rparr> options"

subsection \<open>Handles\<close>

definition nextHandle :: "'f Server \<Rightarrow> 'f \<Rightarrow> string \<times> 'f Server" where
  "nextHandle svr f =
     (let svr = svr\<lparr>handleCount := handleCount svr + 1\<rparr>;
          handle = Itoa (sint (handleCount svr))
      in (handle, svr\<lparr>OpenFiles := (OpenFiles svr)(handle \<mapsto> f)\<rparr>))"

definition forgetHandle :: "'f Server \<Rightarrow> string \<Rightarrow> 'f Server" where
  "forgetHandle svr handle = svr\<lparr>OpenFiles := (OpenFiles svr)(handle := None)\<rparr>"

definition closeHandle :: "('w, 'f) os_api \<Rightarrow> 'f Server \<Rightarrow> 'w \<Rightarrow> string \<Rightarrow> go_error option \<times> 'f Server \<times> 'w" where
  "closeHandle os svr w handle =
     (case OpenFiles svr handle of
        Some f \<Rightarrow> (case file_Close os f w of (err, w) \<Rightarrow> (err, forgetHandle svr handle, w))
      | None \<Rightarrow> (Some EBADF, svr, w))"

definition getHandle_file :: "'f Server \<Rightarrow> string \<Rightarrow> 'f option" where
  "getHandle_file svr handle = OpenFiles svr handle"

subsection \<open>The user's directory\<close>

definition getUserJailPath :: "'f Server \<Rightarrow> string \<Rightarrow> string" where
  "getUserJailPath svr filePath =
     (let jp = Join [jailPath svr, JailDirectory (svr_User svr)]
      in if jailPath svr = [] then filePath
         else
           let chroot =
                 (if IsCleanDirUser (svr_User svr) \<and> JailDirectory (svr_User svr) = ''*'' then jailPath svr
                  else if IsCleanDirUser (svr_User svr) \<and> JailDirectory (svr_User svr) \<noteq> ''*''
                  then Join [jailPath svr, JailDirectory (svr_User svr)]
                  else if length (JailDirectory (svr_User svr)) > 0
                  then Join [jailPath svr, JailDirectory (svr_User svr)]
                  else if filePath = jp then filePath
                  else jailPath svr);
               c = Clean filePath
           in if IsAbs c \<and> HasPrefix c chroot then c else Join [chroot, c])"

text \<open>\<^verbatim>\<open>cleanPath\<close> of request-server.go, used for the answer to a realpath request.\<close>

definition cleanPath :: "string \<Rightarrow> string" where
  "cleanPath p = Clean (if IsAbs p then p else slash # p)"

subsection \<open>Status responses\<close>

definition translateErrno :: "nat \<Rightarrow> u32" where
  "translateErrno errno =
     (if errno = 0 then sshFxOk
      else if errno = 2 then sshFxNoSuchFile
      else if errno = 1 then sshFxPermissionDenied
      else sshFxFailure)"

definition status_code :: "go_error \<Rightarrow> u32" where
  "status_code err =
     (case err of
        Errno n _ \<Rightarrow> translateErrno n
      | PathError _ _ e \<Rightarrow> (case e of Errno n _ \<Rightarrow> translateErrno n | _ \<Rightarrow> sshFxFailure)
      | FxErr c \<Rightarrow> c
      | EOF \<Rightarrow> sshFxEOF
      | ErrNotExist \<Rightarrow> sshFxNoSuchFile
      | _ \<Rightarrow> sshFxFailure)"

definition statusFromError :: "u32 \<Rightarrow> go_error option \<Rightarrow> responsePacket" where
  "statusFromError i err =
     (case err of
        None \<Rightarrow> sshFxpStatusPacket i sshFxOk [] []
      | Some e \<Rightarrow> sshFxpStatusPacket i (status_code e) (err_Error e) [])"

definition clamp :: "u32 \<Rightarrow> u32 \<Rightarrow> u32" where
  "clamp v mx = (if v > mx then mx else v)"

definition maxTxPacket :: u32 where
  "maxTxPacket = push_bit 15 1"

text \<open>The buffer of a read: its length, and the pool after a page was taken for it.\<close>

definition getDataSlice :: "u32 \<Rightarrow> allocator option \<Rightarrow> u32 \<Rightarrow> nat \<times> allocator option" where
  "getDataSlice len al orderID =
     (unat (clamp len maxTxPacket), map_option (\<lambda>a. snd (GetPage a orderID)) al)"

subsection \<open>Long listings\<close>

definition pad_left :: "char \<Rightarrow> nat \<Rightarrow> string \<Rightarrow> string" where
  "pad_left c n s = replicate (n - length s) c @ s"

definition pad_right :: "nat \<Rightarrow> string \<Rightarrow> string" where
  "pad_right n s = s @ replicate (n - length s) CHR '' ''"

definition runLsStatt :: "('w, 'f) os_api \<Rightarrow> 'w \<Rightarrow> fileInfo \<Rightarrow> u64 \<Rightarrow> u32 \<Rightarrow> u32 \<Rightarrow> string" where
  "runLsStatt os w dirent numLinks uid gid =
     (let typeword = runLsTypeWord dirent;
          username = Itoa (uint uid);
          groupname = Itoa (uint gid);
          mtime = time_civil os (fi_mtime dirent) w;
          monthStr = take 3 (ct_month mtime);
          isOld = sint (fi_mtime dirent) < time_Now os w - 60 * 60 * 24 * 365 div 2;
          yearOrTime = (if isOld then Itoa (ct_year mtime)
                        else pad_left CHR ''0'' 2 (Itoa (int (ct_hour mtime))) @ '':'' @
                             pad_left CHR ''0'' 2 (Itoa (int (ct_minute mtime))))
      in join_with '' ''
           [typeword, pad_left CHR '' '' 4 (Itoa (uint numLinks)), pad_right 8 username, pad_right 8 groupname,
            pad_left CHR '' '' 8 (Itoa (sint (fi_size dirent))), monthStr, pad_left CHR '' '' 2 (Itoa (int (ct_day mtime))),
            pad_left CHR '' '' 5 yearOrTime, fi_name dirent])"

definition runLs :: "('w, 'f) os_api \<Rightarrow> 'w \<Rightarrow> string \<Rightarrow> fileInfo \<Rightarrow> string" where
  "runLs os w dirname dirent =
     (case fi_sys dirent of
        SysStatT nlink uid gid \<Rightarrow> runLsStatt os w dirent nlink uid gid
      | _ \<Rightarrow> Join [dirname, fi_name dirent])"

subsection \<open>Requests that answer themselves\<close>

datatype outcome = Responds responsePacket | HandlerError go_error | HandlerPanic

definition hasPflags :: "u32 \<Rightarrow> u32 list \<Rightarrow> bool" where
  "hasPflags pflags flags = list_all (\<lambda>f. pflags AND f \<noteq> 0) flags"

definition open_readonly :: "u32 \<Rightarrow> bool" where
  "open_readonly pflags = (\<not> hasPflags pflags [sshFxfWrite])"

text \<open>The flags an open request asks of the system; \<open>None\<close> if it asks for neither reading nor writing.\<close>

definition open_osFlags :: "u32 \<Rightarrow> u32 option" where
  "open_osFlags pflags =
     (let access = (if hasPflags pflags [sshFxfRead, sshFxfWrite] then Some O_RDWR
                    else if hasPflags pflags [sshFxfWrite] then Some O_WRONLY
                    else if hasPflags pflags [sshFxfRead] then Some O_RDONLY
                    else None)
      in map_option (\<lambda>fl.
           fl OR (if hasPflags pflags [sshFxfCreat] then O_CREATE else 0)
              OR (if hasPflags pflags [sshFxfTrunc] then O_TRUNC else 0)
              OR (if hasPflags pflags [sshFxfExcl] then O_EXCL else 0)) access)"

definition open_respond :: "('w, 'f) os_api \<Rightarrow> 'f Server \<Rightarrow> 'w \<Rightarrow> u32 \<Rightarrow> string \<Rightarrow> u32 \<Rightarrow> responsePacket \<times> 'f Server \<times> 'w" where
  "open_respond os svr w i path pflags =
     (case open_osFlags pflags of
        None \<Rightarrow> (statusFromError i (Some EINVAL), svr, w)
      | Some osFlags \<Rightarrow>
          (case os_OpenFile os path osFlags 0x1A4 w of
             (Inl err, w) \<Rightarrow> (statusFromError i (Some err), svr, w)
           | (Inr f, w) \<Rightarrow>
               (case nextHandle svr f of (handle, svr) \<Rightarrow> (sshFxpHandlePacket i handle, svr, w))))"

definition readdir_respond :: "('w, 'f) os_api \<Rightarrow> 'f Server \<Rightarrow> 'w \<Rightarrow> u32 \<Rightarrow> string \<Rightarrow> responsePacket \<times> 'f Server \<times> 'w" where
  "readdir_respond os svr w i handle =
     (case getHandle_file svr handle of
        None \<Rightarrow> (statusFromError i (Some EBADF), svr, w)
      | Some f \<Rightarrow>
          (let dirname = file_Name os f
           in case file_Readdir os f 128 w of
                (Inl err, w) \<Rightarrow> (statusFromError i (Some err), svr, w)
              | (Inr dirents, w) \<Rightarrow>
                  (sshFxpNamePacket i
                     (map (\<lambda>d. NameAttr (fi_name d) (runLs os w dirname d) [VFileInfo d]) dirents), svr, w)))"

text \<open>
  The attributes of a setstat request are decoded while they are applied. An error does not stop
  the sequence: the next attribute is tried on what is left of the bytes (nothing, after a
  decoding error) and its result replaces the error.
\<close>

type_synonym 'w attr_state = "bytes \<times> go_error option \<times> 'w"

definition set_size :: "(u64 \<Rightarrow> 'w \<Rightarrow> go_error option \<times> 'w) \<Rightarrow> 'w attr_state \<Rightarrow> 'w attr_state" where
  "set_size trunc st = (case st of (b, err, w) \<Rightarrow>
     (case unmarshalUint64Safe b of
        Inl e \<Rightarrow> ([], Some e, w)
      | Inr (sz, b) \<Rightarrow> (case trunc sz w of (err, w) \<Rightarrow> (b, err, w))))"

definition set_mode :: "(u32 \<Rightarrow> 'w \<Rightarrow> go_error option \<times> 'w) \<Rightarrow> 'w attr_state \<Rightarrow> 'w attr_state" where
  "set_mode chmod st = (case st of (b, err, w) \<Rightarrow>
     (case unmarshalUint32Safe b of
        Inl e \<Rightarrow> ([], Some e, w)
      | Inr (mode, b) \<Rightarrow> (case chmod mode w of (err, w) \<Rightarrow> (b, err, w))))"

definition set_pair :: "(u32 \<Rightarrow> u32 \<Rightarrow> 'w \<Rightarrow> go_error option \<times> 'w) \<Rightarrow> 'w attr_state \<Rightarrow> 'w attr_state" where
  "set_pair call st = (case st of (b, err, w) \<Rightarrow>
     (case unmarshalUint32Safe b of
        Inl e \<Rightarrow> ([], Some e, w)
      | Inr (x, b) \<Rightarrow>
          (case unmarshalUint32Safe b of
             Inl e \<Rightarrow> ([], Some e, w)
           | Inr (y, b) \<Rightarrow> (case call x y w of (err, w) \<Rightarrow> (b, err, w)))))"

definition apply_attrs ::
  "u32 \<Rightarrow> (u64 \<Rightarrow> 'w \<Rightarrow> go_error option \<times> 'w) \<Rightarrow> (u32 \<Rightarrow> 'w \<Rightarrow> go_error option \<times> 'w) \<Rightarrow>
   (u32 \<Rightarrow> u32 \<Rightarrow> 'w \<Rightarrow> go_error option \<times> 'w) \<Rightarrow> (u32 \<Rightarrow> u32 \<Rightarrow> 'w \<Rightarrow> go_error option \<times> 'w) \<Rightarrow>
   bytes \<Rightarrow> 'w \<Rightarrow> go_error option \<times> 'w" where
  "apply_attrs flags trunc chmod chtimes chown b w =
     (let st = (b, None, w);
          st = (if flags AND sshFileXferAttrSize \<noteq> 0 then set_size trunc st else st);
          st = (if flags AND sshFileXferAttrPermissions \<noteq> 0 then set_mode chmod st else st);
          st = (if flags AND sshFileXferAttrACmodTime \<noteq> 0 then set_pair chtimes st else st);
          st = (if flags AND sshFileXferAttrUIDGID \<noteq> 0 then set_pair chown st else st)
      in snd st)"

text \<open>The times of a path are only set if \<^verbatim>\<open>os.IsExist\<close> holds of the error of \<^verbatim>\<open>os.Stat\<close>.\<close>

definition setstat_chtimes :: "('w, 'f) os_api \<Rightarrow> string \<Rightarrow> u32 \<Rightarrow> u32 \<Rightarrow> 'w \<Rightarrow> go_error option \<times> 'w" where
  "setstat_chtimes os path atime mtime w =
     (if os_IsExist (the_error (os_Stat os path w)) then os_Chtimes os path atime mtime w else (None, w))"

definition setstat_respond :: "('w, 'f) os_api \<Rightarrow> 'w \<Rightarrow> u32 \<Rightarrow> string \<Rightarrow> u32 \<Rightarrow> goval \<Rightarrow> outcome \<times> 'w" where
  "setstat_respond os w i path flags attrs =
     (case attrs of
        VBytes b \<Rightarrow>
          (case apply_attrs flags (os_Truncate os path) (os_Chmod os path) (setstat_chtimes os path)
                  (os_Chown os path) b w of
             (err, w) \<Rightarrow> (Responds (statusFromError i err), w))
      | _ \<Rightarrow> (HandlerPanic, w))"

definition fsetstat_respond :: "('w, 'f) os_api \<Rightarrow> 'f Server \<Rightarrow> 'w \<Rightarrow> u32 \<Rightarrow> string \<Rightarrow> u32 \<Rightarrow> goval \<Rightarrow> outcome \<times> 'w" where
  "fsetstat_respond os svr w i handle flags attrs =
     (case getHandle_file svr handle of
        None \<Rightarrow> (Responds (statusFromError i (Some EBADF)), w)
      | Some f \<Rightarrow>
          (case attrs of
             VBytes b \<Rightarrow>
               (case apply_attrs flags (file_Truncate os f) (file_Chmod os f)
                       (\<lambda>at mt. os_Chtimes os (file_Name os f) at mt) (file_Chown os f) b w of
                  (err, w) \<Rightarrow> (Responds (statusFromError i err), w))
           | _ \<Rightarrow> (HandlerPanic, w)))"

definition statvfsFromStatfst :: "Statfs_t \<Rightarrow> StatVFS" where
  "statvfsFromStatfst st =
     \<lparr>sv_ID = 0, sv_Bsize = sf_Bsize st, sv_Frsize = sf_Frsize st, sv_Blocks = sf_Blocks st, sv_Bfree = sf_Bfree st,
      sv_Bavail = sf_Bavail st, sv_Files = sf_Files st, sv_Ffree = sf_Ffree st, sv_Favail = sf_Ffree st,
      sv_Fsid = 0, sv_Flag = sf_Flags st, sv_Namemax = sf_Namelen st\<rparr>"

definition statvfs_respond :: "('w, 'f) os_api \<Rightarrow> 'w \<Rightarrow> u32 \<Rightarrow> string \<Rightarrow> responsePacket" where
  "statvfs_respond os w i path =
     (case syscall_Statfs os path w of
        Inl err \<Rightarrow> statusFromError i (Some err)
      | Inr st \<Rightarrow> sshFxpExtendedReplyPacket ((statvfsFromStatfst st)\<lparr>sv_ID := i\<rparr>))"

fun specific_respond :: "('w, 'f) os_api \<Rightarrow> 'w \<Rightarrow> specificPacket \<Rightarrow> responsePacket \<times> 'w" where
  "specific_respond os w (sshFxpExtendedPacketStatVFS i _ path) = (statvfs_respond os w i path, w)"
| "specific_respond os w (sshFxpExtendedPacketPosixRename i _ old new) =
     (case os_Rename os old new w of (err, w) \<Rightarrow> (statusFromError i err, w))"
| "specific_respond os w (sshFxpExtendedPacketHardlink i _ old new) =
     (case os_Link os old new w of (err, w) \<Rightarrow> (statusFromError i err, w))"

subsection \<open>The dispatch of a request\<close>

definition emptyFileStat :: "goval list" where
  "emptyFileStat = [VU32 0]"

definition name_response :: "u32 \<Rightarrow> string \<Rightarrow> responsePacket" where
  "name_response i f = sshFxpNamePacket i [NameAttr f f emptyFileStat]"

text \<open>Answer with the status of a system call.\<close>

definition status_of :: "'f Server \<Rightarrow> u32 \<Rightarrow> go_error option \<times> 'w \<Rightarrow> outcome \<times> 'f Server \<times> 'w" where
  "status_of svr i r = (case r of (err, w) \<Rightarrow> (Responds (statusFromError i err), svr, w))"

definition stat_outcome :: "u32 \<Rightarrow> go_error + fileInfo \<Rightarrow> responsePacket" where
  "stat_outcome i r = (case r of Inl err \<Rightarrow> statusFromError i (Some err) | Inr info \<Rightarrow> sshFxpStatResponse i info)"

text \<open>Four of the cases below.\<close>

abbreviation handle_Opendir :: "('w, 'f) os_api \<Rightarrow> 'f Server \<Rightarrow> 'w \<Rightarrow> u32 \<Rightarrow> string \<Rightarrow> outcome \<times> 'f Server \<times> 'w" where
  "handle_Opendir os svr w i path \<equiv>
     (case os_Stat os (getUserJailPath svr path) w of
        Inl err \<Rightarrow> (Responds (statusFromError i (Some err)), svr, w)
      | Inr stat \<Rightarrow>
          (if \<not> IsDir stat
           then (Responds (statusFromError i (Some (PathError [] (getUserJailPath svr path) ENOTDIR))), svr, w)
           else case open_respond os svr w i path sshFxfRead of (r, svr, w) \<Rightarrow> (Responds r, svr, w)))"

abbreviation handle_Read :: "('w, 'f) os_api \<Rightarrow> 'f Server \<Rightarrow> 'w \<Rightarrow> u32 \<Rightarrow> string \<Rightarrow> u64 \<Rightarrow> u32 \<Rightarrow> u32 \<Rightarrow> outcome \<times> 'f Server \<times> 'w" where
  "handle_Read os svr w i handle offset len oid \<equiv>
     (case getHandle_file svr handle of
        None \<Rightarrow> (Responds (statusFromError i (Some EBADF)), svr, w)
      | Some f \<Rightarrow>
          (case getDataSlice len (svr_alloc svr) oid of
             (n, al) \<Rightarrow>
               (case file_ReadAt os f n offset w of
                  (data, err) \<Rightarrow>
                    (Responds (case err of
                         Some e \<Rightarrow> if e \<noteq> EOF \<or> data = [] then statusFromError i (Some e)
                                   else sshFxpDataPacket i (of_nat (length data)) data
                       | None \<Rightarrow> sshFxpDataPacket i (of_nat (length data)) data),
                     svr\<lparr>svr_alloc := al\<rparr>, w))))"

abbreviation handle_Write :: "('w, 'f) os_api \<Rightarrow> 'f Server \<Rightarrow> 'w \<Rightarrow> u32 \<Rightarrow> string \<Rightarrow> u64 \<Rightarrow> bytes \<Rightarrow> outcome \<times> 'f Server \<times> 'w" where
  "handle_Write os svr w i handle offset data \<equiv>
     (case getHandle_file svr handle of
        None \<Rightarrow> (Responds (statusFromError i (Some EBADF)), svr, w)
      | Some f \<Rightarrow> status_of svr i (file_WriteAt os f data offset w))"

abbreviation handle_Extended :: "('w, 'f) os_api \<Rightarrow> 'f Server \<Rightarrow> 'w \<Rightarrow> u32 \<Rightarrow> specificPacket option \<Rightarrow> outcome \<times> 'f Server \<times> 'w" where
  "handle_Extended os svr w i sp \<equiv>
     (case sp of
        None \<Rightarrow> (Responds (statusFromError i (Some ErrSSHFxOpUnsupported)), svr, w)
      | Some s \<Rightarrow> (case specific_respond os w s of (r, w) \<Rightarrow> (Responds r, svr, w)))"

fun handlePacket :: "('w, 'f) os_api \<Rightarrow> 'f Server \<Rightarrow> 'w \<Rightarrow> requestPacket option \<Rightarrow> u32 \<Rightarrow> outcome \<times> 'f Server \<times> 'w" where
  "handlePacket os svr w (Some (sshFxInitPacket _ _)) oid =
     (Responds (sshFxVersionPacket sftpProtocolVersion (sftpExtensions svr)), svr, w)"
| "handlePacket os svr w (Some (sshFxpStatPacket i path)) oid =
     (Responds (stat_outcome i (os_Stat os (getUserJailPath svr path) w)), svr, w)"
| "handlePacket os svr w (Some (sshFxpLstatPacket i path)) oid =
     (Responds (stat_outcome i (os_Lstat os path w)), svr, w)"
| "handlePacket os svr w (Some (sshFxpFstatPacket i handle)) oid =
     (case getHandle_file svr handle of
        None \<Rightarrow> (Responds (statusFromError i (Some EBADF)), svr, w)
      | Some f \<Rightarrow> (Responds (stat_outcome i (file_Stat os f w)), svr, w))"
| "handlePacket os svr w (Some (sshFxpMkdirPacket i path _)) oid =
     status_of svr i (os_Mkdir os (getUserJailPath svr path) 0x1ED w)"
| "handlePacket os svr w (Some (sshFxpRmdirPacket i path)) oid =
     status_of svr i (os_Remove os (getUserJailPath svr path) w)"
| "handlePacket os svr w (Some (sshFxpRemovePacket i filename)) oid =
     status_of svr i (os_Remove os filename w)"
| "handlePacket os svr w (Some (sshFxpRenamePacket i old new)) oid =
     status_of svr i (os_Rename os old new w)"
| "handlePacket os svr w (Some (sshFxpSymlinkPacket i target link)) oid =
     status_of svr i (os_Symlink os (getUserJailPath svr target) (getUserJailPath svr link) w)"
| "handlePacket os svr w (Some (sshFxpClosePacket i handle)) oid =
     (case closeHandle os svr w handle of (err, svr, w) \<Rightarrow> (Responds (statusFromError i err), svr, w))"
| "handlePacket os svr w (Some (sshFxpReadlinkPacket i path)) oid =
     (case os_Readlink os (getUserJailPath svr path) w of
        Inl err \<Rightarrow> (Responds (statusFromError i (Some err)), svr, w)
      | Inr f \<Rightarrow> (Responds (name_response i f), svr, w))"
| "handlePacket os svr w (Some (sshFxpRealpathPacket i path)) oid =
     (case filepath_Abs os (getUserJailPath svr path) w of
        Inl err \<Rightarrow> (Responds (statusFromError i (Some err)), svr, w)
      | Inr f \<Rightarrow> (Responds (name_response i (cleanPath f)), svr, w))"
| "handlePacket os svr w (Some (sshFxpOpendirPacket i path)) oid =
     handle_Opendir os svr w i path"
| "handlePacket os svr w (Some (sshFxpReadPacket i handle offset len)) oid =
     handle_Read os svr w i handle offset len oid"
| "handlePacket os svr w (Some (sshFxpWritePacket i handle offset _ data)) oid =
     handle_Write os svr w i handle offset data"
| "handlePacket os svr w (Some (sshFxpExtendedPacket i _ sp)) oid =
     handle_Extended os svr w i sp"
| "handlePacket os svr w (Some (sshFxpOpenPacket i path pflags _)) oid =
     (case open_respond os svr w i path pflags of (r, svr, w) \<Rightarrow> (Responds r, svr, w))"
| "handlePacket os svr w (Some (sshFxpReaddirPacket i handle)) oid =
     (case readdir_respond os svr w i handle of (r, svr, w) \<Rightarrow> (Responds r, svr, w))"
| "handlePacket os svr w (Some (sshFxpSetstatPacket i path flags attrs)) oid =
     (case setstat_respond os w i path flags attrs of (r, w) \<Rightarrow> (r, svr, w))"
| "handlePacket os svr w (Some (sshFxpFsetstatPacket i handle flags attrs)) oid =
     (case fsetstat_respond os svr w i handle flags attrs of (r, w) \<Rightarrow> (r, svr, w))"
| "handlePacket os svr w None oid = (HandlerError (ErrText ''unexpected packet type <nil>''), svr, w)"

text \<open>The read-only check in front of it: the interface \<^verbatim>\<open>notReadOnly\<close>, and the \<^verbatim>\<open>readonly\<close> methods of open and
  extended requests.\<close>

definition packet_readonly :: "requestPacket option \<Rightarrow> bool" where
  "packet_readonly p = (case p of None \<Rightarrow> True | Some q \<Rightarrow>
     (if notReadOnly q then False
      else case q of
             sshFxpOpenPacket _ _ pflags _ \<Rightarrow> open_readonly pflags
           | sshFxpExtendedPacket _ _ sp \<Rightarrow> extended_readonly sp
           | _ \<Rightarrow> True))"

definition sftpServerWorker :: "('w, 'f) os_api \<Rightarrow> 'f Server \<Rightarrow> 'w \<Rightarrow> orderedRequest \<Rightarrow> outcome \<times> 'f Server \<times> 'w" where
  "sftpServerWorker os svr w pkt =
     (if \<not> packet_readonly (oreq_packet pkt) \<and> readOnly svr
      then (case oreq_packet pkt of
              None \<Rightarrow> (HandlerPanic, svr, w)
            | Some p \<Rightarrow> (Responds (statusFromError (requestPacket_id p) (Some EPERM)), svr, w))
      else handlePacket os svr w (oreq_packet pkt) (oreq_orderid pkt))"

text \<open>
  One round of the receive loop of \<^verbatim>\<open>Serve\<close>. A decoding error other than an unknown extension
  closes the connection, but the \<^verbatim>\<open>break\<close> in that branch only leaves the \<^verbatim>\<open>switch\<close>: the packet is queued in
  both cases.
\<close>

datatype received = Queued "requestPacket option" bool | Stopped go_error | ReceivePanic

definition Serve_receive :: "reader \<Rightarrow> allocator option \<Rightarrow> u32 \<Rightarrow> received \<times> reader \<times> allocator option" where
  "Serve_receive r al oid =
     (case recvPacket r al oid of
        (RecvErr e, r, al) \<Rightarrow> (Stopped e, r, al)
      | (RecvPanic, r, al) \<Rightarrow> (ReceivePanic, r, al)
      | (RecvOk t b, r, al) \<Rightarrow>
          (case makePacket t b of
             (pkt, err) \<Rightarrow>
               (Queued pkt (case err of None \<Rightarrow> False | Some e \<Rightarrow> errors_Cause e \<noteq> ErrUnknownExtendedPacket), r, al)))"

text \<open>At the end of \<^verbatim>\<open>Serve\<close> the files still open are closed, in the order in which the map is traversed.\<close>

definition Serve_close_files :: "('w, 'f) os_api \<Rightarrow> 'f list \<Rightarrow> 'w \<Rightarrow> 'w" where
  "Serve_close_files os files w = foldl (\<lambda>w f. snd (file_Close os f w)) w files"

end
