(* ===== verification/Server_Safety.thy ===== *)
theory Server_Safety
  imports Sftp_Server
begin

text \<open>
  What the server of \<open>Sftp_Server\<close> promises: file handles, the ids of its answers, its bounds, the read-only
  mode, and how far a user's directory confines the paths.
\<close>

subsection \<open>Handles\<close>

definition server_inv :: "'f Server \<Rightarrow> bool" where
  "server_inv svr \<longleftrightarrow> 0 \<le> sint (handleCount svr) \<and> dom (OpenFiles svr) \<subseteq> issued_upto (sint (handleCount svr))"

lemma nextHandle_law:
  assumes "server_inv svr" "sint (handleCount svr) < 2 ^ 63 - 1" "nextHandle svr f = (h, svr')"
  shows "server_inv svr' \<and> h = Itoa (sint (handleCount svr) + 1) \<and>
    sint (handleCount svr') = sint (handleCount svr) + 1 \<and> OpenFiles svr' = (OpenFiles svr)(h \<mapsto> f)"
  using assms sint_plus_one [OF assms(2)] issued_next [of "sint (handleCount svr)"]
  by (auto simp: server_inv_def nextHandle_def Let_def split: if_splits dest: subsetD [OF _ domI])

interpretation sh: handle_table nextHandle forgetHandle OpenFiles "\<lambda>_ f. f" "\<lambda>svr. sint (handleCount svr)" "2 ^ 63 - 1" server_inv
proof unfold_locales
  fix s :: "'a Server" and f h s'
  assume "server_inv s" "sint (handleCount s) < 2 ^ 63 - 1" "nextHandle s f = (h, s')"
  then show "server_inv s' \<and> h = Itoa (sint (handleCount s) + 1) \<and>
      sint (handleCount s') = sint (handleCount s) + 1 \<and> OpenFiles s' = (OpenFiles s)(h \<mapsto> f)"
    by (rule nextHandle_law)
qed (auto simp: server_inv_def forgetHandle_def)

lemma server_inv_new: "server_inv (NewServer h exts u j opts)"
proof -
  have "server_inv s \<Longrightarrow> server_inv (foldl (apply_option h) s opts)" for s :: "'f Server"
  proof (induction opts arbitrary: s)
    case (Cons x xs)
    then show ?case by (cases x) (auto simp: server_inv_def)
  qed simp
  note keep = this
  show ?thesis unfolding NewServer_def by (rule keep) (simp add: server_inv_def)
qed

text \<open>The handlers change the table by opening one file or closing one handle, or not at all.\<close>

inductive table_step :: "'f Server \<Rightarrow> 'f Server \<Rightarrow> bool" where
  same: "OpenFiles t = OpenFiles s \<Longrightarrow> handleCount t = handleCount s \<Longrightarrow> table_step s t"
| opened: "nextHandle s f = (h, t) \<Longrightarrow> table_step s t"
| closed: "table_step s (forgetHandle s h)"

lemma open_respond_table: "open_respond os svr w i p fl = (r, svr', w') \<Longrightarrow> table_step svr svr'"
  by (auto simp: open_respond_def split: option.splits prod.splits sum.splits intro: table_step.intros)

lemma closeHandle_table: "closeHandle os svr w h = (e, svr', w') \<Longrightarrow> table_step svr svr'"
  by (auto simp: closeHandle_def split: option.splits prod.splits intro: table_step.intros)

lemma readdir_respond_server: "readdir_respond os svr w i h = (r, svr', w') \<Longrightarrow> svr' = svr"
  by (auto simp: readdir_respond_def Let_def split: option.splits prod.splits sum.splits)

lemma handlePacket_table:
  assumes "handlePacket os svr w p oid = (out, svr', w')"
  shows "table_step svr svr'"
proof -
  consider "p = None" | q where "p = Some q" by (cases p) auto
  then show ?thesis
  proof cases
    case 2
    with assms show ?thesis
      by (cases q)
         (auto simp: status_of_def split: option.splits prod.splits sum.splits if_splits
           dest: open_respond_table closeHandle_table readdir_respond_server intro: table_step.same)
  qed (use assms in \<open>auto intro: table_step.same\<close>)
qed

lemma sftpServerWorker_table:
  assumes "sftpServerWorker os svr w pkt = (out, svr', w')"
  shows "table_step svr svr'"
proof (cases "\<not> packet_readonly (oreq_packet pkt) \<and> readOnly svr")
  case True
  with assms have "svr' = svr" by (simp add: sftpServerWorker_def split: option.splits)
  then show ?thesis by (simp add: table_step.same)
next
  case False
  with assms have "handlePacket os svr w (oreq_packet pkt) (oreq_orderid pkt) = (out, svr', w')"
    unfolding sftpServerWorker_def by (simp only: if_False)
  then show ?thesis by (rule handlePacket_table)
qed

lemma table_step_inv:
  "table_step s t \<Longrightarrow> server_inv s \<Longrightarrow> sint (handleCount s) < 2 ^ 63 - 1 \<Longrightarrow> server_inv t"
proof (induction rule: table_step.induct)
  case (same t s)
  then show ?case by (simp add: server_inv_def)
next
  case (opened s f h t)
  from nextHandle_law [OF opened(2,3,1)] show ?case by (rule conjunct1)
next
  case (closed s h)
  from sh.cls_law [OF closed(1)] show ?case by (rule conjunct1)
qed

text \<open>
  C21: handles mean one file. From a server in a consistent state (as created, and kept by every
  request), a new handle is a name that was never given out, it stands for the file just opened
  through every later opening and closing that does not close it, and once it is closed it is invalid for
  the rest of the connection (which would have to open $2^{63}$ files to run out of names).
\<close>

theorem handles_are_unique_and_stable:
  assumes "server_inv svr" and "nextHandle svr f = (h, svr')"
    and "sint (handleCount svr) + 1 + int (length es) \<le> 2 ^ 63 - 1"
  shows "OpenFiles svr h = None \<and>
    (if Inr h \<in> set es then True else getHandle_file (ht_run nextHandle forgetHandle svr' es) h = Some f) \<and>
    getHandle_file (ht_run nextHandle forgetHandle (forgetHandle svr' h) es) h = None"
proof -
  have lim: "sint (handleCount svr) < 2 ^ 63 - 1" using assms(3) by simp
  note law = nextHandle_law [OF assms(1) lim assms(2)]
  have fresh: "OpenFiles svr h = None" "OpenFiles svr' h = Some f"
    using sh.opn_fresh [OF assms(1) lim assms(2)] by auto
  have "OpenFiles (ht_run nextHandle forgetHandle svr' es) h = Some f" if "Inr h \<notin> set es"
    using law fresh that assms(3) by (intro sh.run_keeps) auto
  moreover have "OpenFiles (ht_run nextHandle forgetHandle (forgetHandle svr' h) es) h = None"
  proof (rule sh.run_never_reuses)
    show "server_inv (forgetHandle svr' h)" using law sh.cls_law [of svr' h] by simp
    have "h \<in> issued_upto (sint (handleCount svr'))"
      using law issued_next [of "sint (handleCount svr)"] assms(1) by (auto simp: server_inv_def)
    then show "h \<in> issued_upto (sint (handleCount (forgetHandle svr' h)))" by (simp add: forgetHandle_def)
    show "sint (handleCount (forgetHandle svr' h)) + int (length es) \<le> 2 ^ 63 - 1"
      using law assms(3) by (simp add: forgetHandle_def)
  qed (simp add: forgetHandle_def)
  ultimately show ?thesis using fresh by (simp add: getHandle_file_def)
qed

theorem handles_are_unique_and_stable_witness:
  "getHandle_file (ht_run nextHandle forgetHandle
     (snd (nextHandle (NewServer 0 [] zeroUser ''/jail'' [] :: nat Server) 7)) [Inl 8, Inr ''2'']) ''1'' = Some 7"
proof -
  let ?s = "NewServer 0 [] zeroUser ''/jail'' [] :: nat Server"
  have c: "sint (handleCount ?s) = 0" by (simp add: NewServer_def)
  have "Itoa 1 = ''1''" by code_simp
  then have n: "nextHandle ?s 7 = (''1'', snd (nextHandle ?s 7))" by (simp add: nextHandle_def Let_def NewServer_def)
  from handles_are_unique_and_stable [OF server_inv_new n, of "[Inl 8, Inr ''2'']"] c show ?thesis by simp
qed

subsection \<open>Every request is answered, under its own id\<close>

lemma statusFromError_id [simp]: "responsePacket_id (statusFromError i e) = i"
  by (simp add: statusFromError_def split: option.split)

lemma stat_outcome_id [simp]: "responsePacket_id (stat_outcome i r) = i"
  by (simp add: stat_outcome_def split: sum.split)

lemma open_respond_id: "open_respond os svr w i p fl = (r, svr', w') \<Longrightarrow> responsePacket_id r = i"
  by (auto simp: open_respond_def split: option.splits prod.splits sum.splits)

lemma readdir_respond_id: "readdir_respond os svr w i h = (r, svr', w') \<Longrightarrow> responsePacket_id r = i"
  by (auto simp: readdir_respond_def Let_def split: option.splits prod.splits sum.splits)

lemma specific_respond_id: "specific_respond os w s = (r, w') \<Longrightarrow> responsePacket_id r = specificPacket_id s"
  by (cases s) (auto simp: statvfs_respond_def split: prod.splits sum.splits)

text \<open>The extended request and its specific part agree on the id; attributes are bytes.\<close>

fun consistent :: "requestPacket \<Rightarrow> bool" where
  "consistent (sshFxpExtendedPacket i _ (Some s)) \<longleftrightarrow> specificPacket_id s = i"
| "consistent _ \<longleftrightarrow> True"

fun has_attrs :: "requestPacket \<Rightarrow> bool" where
  "has_attrs (sshFxpSetstatPacket _ _ _ a) \<longleftrightarrow> is_bytes a"
| "has_attrs (sshFxpFsetstatPacket _ _ _ a) \<longleftrightarrow> is_bytes a"
| "has_attrs _ \<longleftrightarrow> True"

definition answered_as :: "requestPacket \<Rightarrow> outcome \<Rightarrow> bool" where
  "answered_as q out = (case out of
     Responds r \<Rightarrow> responsePacket_id r = requestPacket_id q
   | HandlerError _ \<Rightarrow> False
   | HandlerPanic \<Rightarrow> \<not> has_attrs q)"

lemma setstat_respond_answered:
  "setstat_respond os w i p f a = (out, w') \<Longrightarrow> answered_as (sshFxpSetstatPacket i p f a) out"
  by (auto simp: setstat_respond_def answered_as_def is_bytes_def split: goval.splits prod.splits)

lemma fsetstat_respond_answered:
  "fsetstat_respond os svr w i h f a = (out, w') \<Longrightarrow> answered_as (sshFxpFsetstatPacket i h f a) out"
  by (auto simp: fsetstat_respond_def answered_as_def is_bytes_def split: goval.splits prod.splits option.splits)

lemma handlePacket_answered:
  assumes "handlePacket os svr w (Some q) oid = (out, svr', w')" "consistent q"
  shows "answered_as q out"
proof (cases q)
  case (sshFxpExtendedPacket i r sp)
  with assms show ?thesis
    by (cases sp) (auto simp: answered_as_def split: prod.splits dest: specific_respond_id)
next
  case (sshFxpSetstatPacket i p f a)
  with assms show ?thesis by (auto split: prod.splits dest: setstat_respond_answered)
next
  case (sshFxpFsetstatPacket i p f a)
  with assms show ?thesis by (auto split: prod.splits dest: fsetstat_respond_answered)
qed (use assms in \<open>auto simp: answered_as_def status_of_def name_response_def
      split: prod.splits option.splits sum.splits if_splits dest: open_respond_id readdir_respond_id\<close>)

lemma worker_answered:
  assumes "sftpServerWorker os svr w \<lparr>oreq_packet = Some q, oreq_orderid = oid\<rparr> = (out, svr', w')" "consistent q"
  shows "answered_as q out"
proof (cases "\<not> packet_readonly (Some q) \<and> readOnly svr")
  case True
  with assms(1) have "out = Responds (statusFromError (requestPacket_id q) (Some EPERM))"
    by (simp add: sftpServerWorker_def)
  then show ?thesis by (simp add: answered_as_def)
next
  case False
  with assms(1) have "handlePacket os svr w (Some q) oid = (out, svr', w')"
    unfolding sftpServerWorker_def by (simp only: if_False orderedRequest.simps)
  then show ?thesis using assms(2) by (rule handlePacket_answered)
qed

lemma try_field_id:
  assumes "\<And>v b. idf (fst (k v b)) = v" "idf z = 0"
  shows "idf (fst (try_u32 b z k)) = wire_id b"
  using assms by (auto simp: try_field_def wire_id_def split: sum.splits)

lemma specific_decoder_id:
  "specificPacket_id (fst (unmarshal_StatVFS b)) = wire_id b"
  "specificPacket_id (fst (unmarshal_PosixRename b)) = wire_id b"
  "specificPacket_id (fst (unmarshal_Hardlink b)) = wire_id b"
  by (auto simp: decode_defs try_field_def wire_id_def split: sum.split prod.split)

lemma unmarshal_Extended_consistent: "consistent (fst (unmarshal_Extended b))"
proof (cases "unmarshalUint32Safe b")
  case (Inr x)
  obtain i r where x: "x = (i, r)" by (cases x)
  have w: "wire_id b = i" by (simp add: wire_id_def Inr x)
  show ?thesis
    by (simp add: unmarshal_Extended_def try_field_def Inr x case_prod_unfold specific_decoder_id w split: sum.split)
qed (simp add: unmarshal_Extended_def try_field_def)

lemma decoded_attrs:
  "has_attrs (fst (unmarshal_Setstat b)) \<longleftrightarrow> snd (unmarshal_Setstat b) = None"
  "has_attrs (fst (unmarshal_Fsetstat b)) \<longleftrightarrow> snd (unmarshal_Fsetstat b) = None"
  by (auto simp: decode_defs try_field_def is_bytes_def split: sum.split prod.split)

text \<open>No other decoder builds the packets that could be inconsistent or lack attributes.\<close>

definition plain :: "requestPacket \<Rightarrow> bool" where
  "plain q \<longleftrightarrow> consistent q \<and> has_attrs q"

lemma plain_decoders:
  "plain (fst (unmarshal_Init b))" "plain (fst (unmarshal_Symlink b))" "plain (fst (unmarshal_Open b))"
  "plain (fst (unmarshal_Read b))" "plain (fst (unmarshal_Write b))" "plain (fst (unmarshal_Rename b))"
  "plain (fst (unmarshal_Mkdir b))" "plain (fst (unmarshal_Readdir b))" "plain (fst (unmarshal_Opendir b))"
  "plain (fst (unmarshal_Lstat b))" "plain (fst (unmarshal_Stat b))" "plain (fst (unmarshal_Fstat b))"
  "plain (fst (unmarshal_Close b))" "plain (fst (unmarshal_Remove b))" "plain (fst (unmarshal_Rmdir b))"
  "plain (fst (unmarshal_Readlink b))" "plain (fst (unmarshal_Realpath b))"
  by (auto simp: plain_def decode_defs try_field_def split: sum.split prod.split)

lemma consistent_decoders:
  "consistent (fst (unmarshal_Setstat b))" "consistent (fst (unmarshal_Fsetstat b))"
  "has_attrs (fst (unmarshal_Extended b))"
  by (auto simp: decode_defs unmarshal_Extended_def try_field_def split: sum.split prod.split)

lemma makePacket_consistent:
  assumes "makePacket t b = (Some q, e)"
  shows "consistent q" "has_attrs q \<or> e \<noteq> None \<and> t \<in> {sshFxpSetstat, sshFxpFsetstat}"
proof -
  have fst_snd: "u b = (q, e) \<Longrightarrow> q = fst (u b) \<and> e = snd (u b)" for u :: "bytes \<Rightarrow> requestPacket \<times> go_error option"
    by simp
  note facts = plain_decoders [unfolded plain_def] unmarshal_Extended_consistent consistent_decoders decoded_attrs
  from assms show "consistent q" by (cases rule: makePacket_cases) (auto dest!: fst_snd simp: facts)
  from assms show "has_attrs q \<or> e \<noteq> None \<and> t \<in> {sshFxpSetstat, sshFxpFsetstat}"
    by (cases rule: makePacket_cases) (auto dest!: fst_snd simp: facts)
qed

text \<open>
  C1: every request gets one answer, under its own id. For every packet that \<^verbatim>\<open>makePacket\<close> builds, and
  whatever the system calls return, the worker answers with a response that carries the request id found on the
  wire (zero for the init packet); it never gives up with an error, and it panics
  only on a setstat or fsetstat request that was cut short.
\<close>

theorem every_request_is_answered:
  assumes "makePacket t b = (Some q, e)"
  shows "case fst (sftpServerWorker os svr w \<lparr>oreq_packet = Some q, oreq_orderid = oid\<rparr>) of
      Responds r \<Rightarrow> responsePacket_id r = (if t = sshFxpInit then 0 else wire_id b)
    | HandlerError _ \<Rightarrow> False
    | HandlerPanic \<Rightarrow> e \<noteq> None \<and> t \<in> {sshFxpSetstat, sshFxpFsetstat}"
proof -
  obtain out svr' w' where
    run: "sftpServerWorker os svr w \<lparr>oreq_packet = Some q, oreq_orderid = oid\<rparr> = (out, svr', w')"
    by (rule prod_cases3)
  from worker_answered [OF run makePacket_consistent(1) [OF assms]] makePacket_consistent(2) [OF assms]
    makePacket_id [OF assms]
  show ?thesis unfolding run answered_as_def by (auto split: outcome.splits)
qed

text \<open>The witness: a close request of an unknown handle, for any system.\<close>

theorem every_request_is_answered_witness:
  "\<forall>(os :: (nat, nat) os_api) svr w.
   case fst (sftpServerWorker os svr w \<lparr>oreq_packet = Some (sshFxpClosePacket 9 ''a''), oreq_orderid = 1\<rparr>) of
      Responds r \<Rightarrow> responsePacket_id r = 9 | HandlerError _ \<Rightarrow> False | HandlerPanic \<Rightarrow> False"
proof -
  have m: "makePacket sshFxpClose [0, 0, 0, 9, 0, 0, 0, 1, 97] = (Some (sshFxpClosePacket 9 ''a''), None)" by code_simp
  have i: "wire_id [0, 0, 0, 9, 0, 0, 0, 1, 97] = 9" by code_simp
  show ?thesis
  proof (intro allI)
    fix os :: "(nat, nat) os_api" and svr w
    from every_request_is_answered [OF m, of os svr w 1]
    show "case fst (sftpServerWorker os svr w \<lparr>oreq_packet = Some (sshFxpClosePacket 9 ''a''), oreq_orderid = 1\<rparr>) of
      Responds r \<Rightarrow> responsePacket_id r = 9 | HandlerError _ \<Rightarrow> False | HandlerPanic \<Rightarrow> False"
      by (simp add: i split: outcome.splits)
  qed
qed

text \<open>
  A short setstat stops the server. A setstat request whose payload ends after the id is received, decoded
  with an error and queued all the same; the worker that takes it panics on the missing
  attributes, whatever the system and the state of the server (unless it is read-only).
\<close>

theorem malformed_setstat_panics:
  "\<exists>pkt r'. Serve_receive \<lparr>incoming_bytes = packet_frame [sshFxpSetstat, 0, 0, 0, 1], ends_with = EOF\<rparr> None 1
       = (Queued pkt True, r', None) \<and>
     (\<forall>(os :: ('a, 'b) os_api) svr w. readOnly svr \<or>
        fst (sftpServerWorker os svr w \<lparr>oreq_packet = pkt, oreq_orderid = 1\<rparr>) = HandlerPanic)"
proof -
  let ?pkt = "Some (sshFxpSetstatPacket 1 [] 0 VNil)"
  have "makePacket sshFxpSetstat [0, 0, 0, 1] = (?pkt, Some ErrShortPacket)" by code_simp
  moreover have "recvPacket \<lparr>incoming_bytes = packet_frame [sshFxpSetstat, 0, 0, 0, 1], ends_with = EOF\<rparr> None 1 =
      (RecvOk sshFxpSetstat [0, 0, 0, 1], \<lparr>incoming_bytes = [], ends_with = EOF\<rparr>, None)"
    using recvPacket_frame [of "[sshFxpSetstat, 0, 0, 0, 1]" _ "[]" None 1] by (simp add: maxMsgLength_def)
  ultimately have "Serve_receive \<lparr>incoming_bytes = packet_frame [sshFxpSetstat, 0, 0, 0, 1], ends_with = EOF\<rparr> None 1 =
      (Queued ?pkt True, \<lparr>incoming_bytes = [], ends_with = EOF\<rparr>, None)"
    by (simp add: Serve_receive_def)
  moreover have "readOnly svr \<or> fst (sftpServerWorker os svr w \<lparr>oreq_packet = ?pkt, oreq_orderid = 1\<rparr>) = HandlerPanic"
    for os :: "('a, 'b) os_api" and svr w
    by (simp add: sftpServerWorker_def setstat_respond_def)
  ultimately show ?thesis by blast
qed

subsection \<open>Reads are bounded\<close>

lemma clamp_le: "unat (clamp len maxTxPacket) \<le> 32768"
  by (auto simp: clamp_def maxTxPacket_def word_le_nat_alt not_less word_less_nat_alt)

text \<open>
  The size of an answer to a read. If the system's read returns no more bytes than it was asked for,
  the data of the response are at most 32 KiB and at most what the client asked
  for, the length field says exactly how many they are, and the encoded packet is one the client's
  receiver accepts.
\<close>

theorem read_response_bounded:
  assumes "\<And>f n off w. length (fst (file_ReadAt os f n off w)) \<le> n"
    and "handlePacket os svr w (Some (sshFxpReadPacket i h off len)) oid = (Responds (sshFxpDataPacket j n d), svr', w')"
  shows "j = i \<and> length d \<le> 32768 \<and> length d \<le> unat len \<and> unat n = length d \<and>
    (case MarshalResponse (sshFxpDataPacket j n d) of Some b \<Rightarrow> length b \<le> maxMsgLength | None \<Rightarrow> False)"
proof -
  have st: "statusFromError x y \<noteq> sshFxpDataPacket j n d" for x y by (simp add: statusFromError_def split: option.split)
  from assms(2) obtain f e where d0: "file_ReadAt os f (unat (clamp len maxTxPacket)) off w = (d, e)"
    and n: "n = of_nat (length d)" and j: "j = i"
    by (auto simp: getDataSlice_def st split: option.splits prod.splits if_splits)
  have le: "length d \<le> unat (clamp len maxTxPacket)"
    using assms(1) [of f "unat (clamp len maxTxPacket)" off w] by (simp add: d0)
  have lim: "length d \<le> 32768" "length d \<le> unat len"
    using le clamp_le [of len] by (auto simp: clamp_def word_less_nat_alt split: if_splits)
  have nd: "unat n = length d" using lim(1) by (simp add: n unat_of_nat)
  then show ?thesis using lim j marshal_Data_layout [of d n j] by (simp add: maxMsgLength_def)
qed

text \<open>The witness: a system whose files hold three bytes.\<close>

definition demo_os :: "(nat, nat) os_api" where
  "demo_os = \<lparr>os_Stat = \<lambda>_ _. Inl ENOENT, os_Lstat = \<lambda>_ _. Inl ENOENT, os_Readlink = \<lambda>_ _. Inl ENOENT,
     os_Getwd = \<lambda>_. Inr ''/'', os_Mkdir = \<lambda>_ _ w. (None, w + 1), os_MkdirAll = \<lambda>_ _ w. (None, w + 1),
     os_Remove = \<lambda>_ w. (None, w + 1), os_Rename = \<lambda>_ _ w. (None, w + 1), os_Symlink = \<lambda>_ _ w. (None, w + 1),
     os_Link = \<lambda>_ _ w. (None, w + 1), os_Truncate = \<lambda>_ _ w. (None, w + 1), os_Chmod = \<lambda>_ _ w. (None, w + 1),
     os_Chtimes = \<lambda>_ _ _ w. (None, w + 1), os_Chown = \<lambda>_ _ _ w. (None, w + 1),
     os_OpenFile = \<lambda>_ _ _ w. (Inr 0, w + 1), os_Create = \<lambda>_ w. (Inr 0, w + 1), file_Name = \<lambda>_. ''/f'',
     file_Stat = \<lambda>_ _. Inl ENOENT, file_ReadAt = \<lambda>_ n _ _. (take n [1, 2, 3], Some EOF),
     file_WriteAt = \<lambda>_ _ _ w. (None, w + 1), file_Readdir = \<lambda>_ _ w. (Inl EOF, w),
     file_Truncate = \<lambda>_ _ w. (None, w + 1), file_Chmod = \<lambda>_ _ w. (None, w + 1), file_Chown = \<lambda>_ _ _ w. (None, w + 1),
     file_Close = \<lambda>_ w. (None, w), syscall_Statfs = \<lambda>_ _. Inl ENOENT, time_Now = \<lambda>_. 0,
     time_civil = \<lambda>_ _. \<lparr>ct_month = ''January'', ct_day = 1, ct_year = 1970, ct_hour = 0, ct_minute = 0\<rparr>\<rparr>"

definition demo_server :: "nat Server" where
  "demo_server = (NewServer 0 [] demo_user ''/mnt'' [])\<lparr>OpenFiles := [''1'' \<mapsto> 0]\<rparr>"

theorem read_response_bounded_witness:
  "\<exists>n d svr' w'. handlePacket demo_os demo_server 0 (Some (sshFxpReadPacket 5 ''1'' 0 100)) 1 =
     (Responds (sshFxpDataPacket 5 n d), svr', w') \<and> length d \<le> 32768 \<and> unat n = length d"
proof -
  have c: "clamp 100 maxTxPacket = 100" by (simp add: clamp_def maxTxPacket_def)
  have h: "handlePacket demo_os demo_server 0 (Some (sshFxpReadPacket 5 ''1'' 0 100)) 1 =
     (Responds (sshFxpDataPacket 5 3 [1, 2, 3]), demo_server, 0)"
    by (simp add: demo_server_def getHandle_file_def getDataSlice_def c demo_os_def NewServer_def)
  have "length (fst (file_ReadAt demo_os f n off w)) \<le> n" for f n off w by (simp add: demo_os_def)
  from read_response_bounded [OF this h] h show ?thesis by blast
qed

subsection \<open>Read-only mode\<close>

text \<open>The system with every call that changes files replaced by that of another system: all of them, and
  \<^verbatim>\<open>OpenFile\<close> when it asks for write access. Only \<^verbatim>\<open>os.Link\<close> is left as it is.\<close>

definition replace_writes :: "('w, 'f) os_api \<Rightarrow> ('w, 'f) os_api \<Rightarrow> ('w, 'f) os_api" where
  "replace_writes os alt =
     os\<lparr>os_Mkdir := os_Mkdir alt, os_MkdirAll := os_MkdirAll alt, os_Remove := os_Remove alt,
        os_Rename := os_Rename alt, os_Symlink := os_Symlink alt, os_Truncate := os_Truncate alt,
        os_Chmod := os_Chmod alt, os_Chtimes := os_Chtimes alt, os_Chown := os_Chown alt,
        os_Create := os_Create alt, file_WriteAt := file_WriteAt alt, file_Truncate := file_Truncate alt,
        file_Chmod := file_Chmod alt, file_Chown := file_Chown alt,
        os_OpenFile := (\<lambda>p fl perm. if fl AND 3 \<noteq> 0 then os_OpenFile alt p fl perm else os_OpenFile os p fl perm)\<rparr>"

lemma replace_writes_keeps [simp]:
  "os_Stat (replace_writes os alt) = os_Stat os"
  "os_Lstat (replace_writes os alt) = os_Lstat os"
  "os_Readlink (replace_writes os alt) = os_Readlink os"
  "os_Getwd (replace_writes os alt) = os_Getwd os"
  "os_Link (replace_writes os alt) = os_Link os"
  "file_Name (replace_writes os alt) = file_Name os"
  "file_Stat (replace_writes os alt) = file_Stat os"
  "file_ReadAt (replace_writes os alt) = file_ReadAt os"
  "file_Readdir (replace_writes os alt) = file_Readdir os"
  "file_Close (replace_writes os alt) = file_Close os"
  "syscall_Statfs (replace_writes os alt) = syscall_Statfs os"
  "time_Now (replace_writes os alt) = time_Now os"
  "time_civil (replace_writes os alt) = time_civil os"
  by (simp_all add: replace_writes_def)

lemma open_readonly_flags: "open_readonly pflags \<Longrightarrow> open_osFlags pflags = Some fl \<Longrightarrow> fl AND 3 = 0"
  by (auto simp: open_readonly_def open_osFlags_def hasPflags_def Let_def split: if_splits)

lemma open_respond_replace:
  "open_readonly pflags \<Longrightarrow> open_respond (replace_writes os alt) svr w i p pflags = open_respond os svr w i p pflags"
  using open_readonly_flags [of pflags]
  by (auto simp: open_respond_def replace_writes_def split: option.split)

lemma runLs_replace: "runLs (replace_writes os alt) = runLs os"
proof -
  have "runLsStatt (replace_writes os alt) = runLsStatt os" by (simp add: fun_eq_iff runLsStatt_def)
  then show ?thesis by (simp add: fun_eq_iff runLs_def split: sys_info.split)
qed

lemma specific_replace:
  "specific_readonly s \<Longrightarrow> specific_respond (replace_writes os alt) w s = specific_respond os w s"
  by (cases s) (auto simp: statvfs_respond_def)

lemma opendir_readonly: "open_readonly sshFxfRead"
  by (simp add: open_readonly_def hasPflags_def)

lemma handlePacket_replace:
  assumes "packet_readonly p"
  shows "handlePacket (replace_writes os alt) svr w p oid = handlePacket os svr w p oid"
proof (cases p)
  case (Some q)
  show ?thesis
  proof (cases q)
    case (sshFxpOpendirPacket i path)
    with Some show ?thesis by (simp add: open_respond_replace opendir_readonly split: sum.split)
  next
    case (sshFxpOpenPacket i path pf fl)
    with Some assms show ?thesis by (simp add: packet_readonly_def open_respond_replace)
  next
    case (sshFxpExtendedPacket i r sp)
    with Some assms show ?thesis
      by (cases sp) (simp_all add: packet_readonly_def extended_readonly_def specific_replace)
  next
    case (sshFxpReaddirPacket i h)
    with Some show ?thesis
      by (simp only: handlePacket.simps readdir_respond_def runLs_replace replace_writes_keeps)
  qed (use Some assms in \<open>simp_all add: packet_readonly_def closeHandle_def filepath_Abs_def
      cong: option.case_cong prod.case_cong sum.case_cong\<close>)
qed simp



text \<open>
  Where read-only mode leaks. On a read-only server a hard link request still calls \<^verbatim>\<open>os.Link\<close>, and an open request
  that asks to read, create and truncate still reaches \<^verbatim>\<open>os.OpenFile\<close> with the flags to create and to truncate
  the file, for every system and every server state.
\<close>

theorem read_only_server_leaks:
  "sftpServerWorker os (svr\<lparr>readOnly := True\<rparr>) w
     \<lparr>oreq_packet = Some (sshFxpExtendedPacket i r (Some (sshFxpExtendedPacketHardlink i r old new))), oreq_orderid = oid\<rparr> =
     (case os_Link os old new w of (err, w) \<Rightarrow> (Responds (statusFromError i err), svr\<lparr>readOnly := True\<rparr>, w)) \<and>
   sftpServerWorker os (svr\<lparr>readOnly := True\<rparr>) w
     \<lparr>oreq_packet = Some (sshFxpOpenPacket i p (sshFxfRead OR sshFxfCreat OR sshFxfTrunc) 0), oreq_orderid = oid\<rparr> =
     (case os_OpenFile os p (O_RDONLY OR O_CREATE OR O_TRUNC) 0x1A4 w of
        (Inl err, w) \<Rightarrow> (Responds (statusFromError i (Some err)), svr\<lparr>readOnly := True\<rparr>, w)
      | (Inr f, w) \<Rightarrow> (case nextHandle (svr\<lparr>readOnly := True\<rparr>) f of
          (h, svr) \<Rightarrow> (Responds (sshFxpHandlePacket i h), svr, w)))"
  by (auto simp: sftpServerWorker_def packet_readonly_def extended_readonly_def open_readonly_def hasPflags_def
      open_respond_def open_osFlags_def split: prod.split sum.split)

end
