(* ===== verification/Server_Jail.thy ===== *)
theory Server_Jail
  imports Server_Safety
begin

text \<open>
  How far \<^verbatim>\<open>getUserJailPath\<close> confines a user to the directory of the account: completely for absolute paths, up to sibling
  directories that share the name as a prefix; not at all for relative paths that climb; and which requests use
  it in the first place.
\<close>

lemma Join_elem:
  assumes "normal_elems True rs" "is_elem d" "d \<noteq> ''..''"
  shows "Join [render True rs, d] = render True (rs @ [d])" and "normal_elems True (rs @ [d])"
proof -
  have ne: "render True rs \<noteq> []" by (simp add: render_def)
  have abs: "IsAbs (render True rs @ slash # d)" using ne by (auto simp: IsAbs_def render_def)
  have nf: "list_all is_elem rs" "''..'' \<notin> set rs" using assms by (auto simp: normal_elems_def)
  have d: "split_on slash d = [d]" using assms(2) by (intro split_on_word) (simp add: is_elem_def)
  have "clean_elems True (split_on slash (render True rs) @ [d]) = rs @ [d]"
    unfolding split_render [OF assms(1)]
    using nf assms(2,3) by (auto simp: clean_elems_def clean_step_def clean_fold_elems is_elem_def)
  with abs ne d show "Join [render True rs, d] = render True (rs @ [d])"
    by (simp add: Join_def Clean_def split_on_slash_append)
  show "normal_elems True (rs @ [d])" using assms by (auto simp: normal_elems_def)
qed

text \<open>The root that applies to an account with a directory of its own.\<close>

lemma getUserJailPath_eq:
  assumes "jailPath svr \<noteq> []" "JailDirectory (svr_User svr) \<noteq> []"
    and "\<not> (IsCleanDirUser (svr_User svr) \<and> JailDirectory (svr_User svr) = ''*'')"
  shows "getUserJailPath svr p =
    (let chroot = Join [jailPath svr, JailDirectory (svr_User svr)]; c = Clean p
     in if IsAbs c \<and> HasPrefix c chroot then c else Join [chroot, c])"
  using assms by (auto simp: getUserJailPath_def Let_def)

lemma jail_absolute:
  assumes "jailPath svr = render True js" and "normal_elems True js"
    and "is_elem (JailDirectory (svr_User svr))" and "JailDirectory (svr_User svr) \<noteq> ''..''"
    and "\<not> (IsCleanDirUser (svr_User svr) \<and> JailDirectory (svr_User svr) = ''*'')"
    and "IsAbs p"
  shows "HasPrefix (getUserJailPath svr p) (render True (js @ [JailDirectory (svr_User svr)])) \<and>
    (getUserJailPath svr p = Clean p \<or>
     (\<exists>es. Clean p = render True es \<and> normal_elems True es \<and>
       getUserJailPath svr p = render True (js @ [JailDirectory (svr_User svr)] @ es)))"
proof -
  let ?d = "JailDirectory (svr_User svr)"
  have ne: "jailPath svr \<noteq> []" "?d \<noteq> []" using assms(1,3) by (auto simp: render_def is_elem_def)
  note chroot = Join_elem [OF assms(2-4)]
  obtain es where es: "Clean p = render True es" "normal_elems True es"
    using assms(6) by (auto intro: Clean_cases [of p])
  have below: "Join [render True (js @ [?d]), Clean p] = render True ((js @ [?d]) @ es)"
    unfolding es(1) using chroot(2) es(2) by (rule Join_abs)
  have pre: "prefix (render True (js @ [?d])) (render True ((js @ [?d]) @ es))" by (rule render_prefix) simp
  show ?thesis
    unfolding getUserJailPath_eq [OF ne assms(5)] Let_def assms(1) chroot(1)
    using below pre es assms(6) by (auto simp: HasPrefix_def)
qed

text \<open>
  C6: the jail and absolute paths. For an account whose directory is a plain name below an absolute, clean
  root, every absolute path is mapped to a path that starts with the account's directory: either the
  cleaned path itself, if it already does, or the cleaned path moved below that directory
  element by element.
\<close>

theorem jail_confines_absolute_paths:
  assumes "jailPath svr = render True js" and "normal_elems True js"
    and "is_elem (JailDirectory (svr_User svr))" and "JailDirectory (svr_User svr) \<noteq> ''..''"
    and "\<not> (IsCleanDirUser (svr_User svr) \<and> JailDirectory (svr_User svr) = ''*'')"
    and "IsAbs p"
  shows "HasPrefix (getUserJailPath svr p) (render True (js @ [JailDirectory (svr_User svr)])) \<and>
    (getUserJailPath svr p = Clean p \<or>
     (\<exists>es. Clean p = render True es \<and> normal_elems True es \<and>
       getUserJailPath svr p = render True (js @ [JailDirectory (svr_User svr)] @ es)))"
  using assms by (rule jail_absolute)

text \<open>The witness: the account \<open>bob\<close> below \<^verbatim>\<open>/mnt/ssftp\<close> asks for \<^verbatim>\<open>/etc/../up/a.txt\<close>.\<close>

definition bob_server :: "nat Server" where
  "bob_server = NewServer 0 [] demo_user ''/mnt/ssftp'' []"

lemma bob_server_simps:
  "jailPath bob_server = ''/mnt/ssftp''" "svr_User bob_server = demo_user"
  "JailDirectory demo_user = ''bob''" "IsCleanDirUser demo_user = False"
  by (simp_all add: bob_server_def NewServer_def demo_user_def zeroUser_def)

theorem jail_confines_absolute_paths_witness:
  "HasPrefix (getUserJailPath bob_server ''/etc/../up/a.txt'') ''/mnt/ssftp/bob'' \<and>
   getUserJailPath bob_server ''/etc/../up/a.txt'' = ''/mnt/ssftp/bob/up/a.txt''"
proof -
  have r: "''/mnt/ssftp'' = render True [''mnt'', ''ssftp'']" by (simp add: render_def)
  have n: "normal_elems True [''mnt'', ''ssftp'']" by (simp add: normal_elems_def is_elem_def)
  have p: "render True ([''mnt'', ''ssftp''] @ [''bob'']) = ''/mnt/ssftp/bob''" by (simp add: render_def)
  have j: "getUserJailPath bob_server ''/etc/../up/a.txt'' = ''/mnt/ssftp/bob/up/a.txt''"
    unfolding getUserJailPath_def bob_server_simps by code_simp
  have root: "jailPath bob_server = render True [''mnt'', ''ssftp'']" by (simp only: bob_server_simps r)
  have "HasPrefix (getUserJailPath bob_server ''/etc/../up/a.txt'') ''/mnt/ssftp/bob''"
    using jail_confines_absolute_paths [OF root n, of "''/etc/../up/a.txt''"] p
    by (simp add: bob_server_simps is_elem_def IsAbs_def)
  with j show ?thesis by blast
qed

text \<open>
  Two ways out of the jail. For the account \<open>bob\<close>, the relative path \<^verbatim>\<open>../../../etc/passwd\<close> is mapped to
  \<^verbatim>\<open>/etc/passwd\<close>, because a relative path is joined to the jail before the dots are resolved; and the absolute path of
  a file of the account \<open>bobby\<close> is returned unchanged, because the jail is compared as a string prefix.
\<close>

theorem jail_escapes:
  "getUserJailPath bob_server ''../../../etc/passwd'' = ''/etc/passwd'' \<and>
   getUserJailPath bob_server ''/mnt/ssftp/bobby/secret'' = ''/mnt/ssftp/bobby/secret''"
  unfolding getUserJailPath_def bob_server_simps by code_simp

subsection \<open>Requests that are not jailed\<close>

definition move_jail :: "User \<Rightarrow> string \<Rightarrow> 'f Server \<Rightarrow> 'f Server" where
  "move_jail u j svr = svr\<lparr>svr_User := u, jailPath := j\<rparr>"

fun ignores_jail :: "requestPacket \<Rightarrow> bool" where
  "ignores_jail (sshFxpLstatPacket _ _) \<longleftrightarrow> True"
| "ignores_jail (sshFxpOpenPacket _ _ _ _) \<longleftrightarrow> True"
| "ignores_jail (sshFxpRemovePacket _ _) \<longleftrightarrow> True"
| "ignores_jail (sshFxpRenamePacket _ _ _) \<longleftrightarrow> True"
| "ignores_jail (sshFxpSetstatPacket _ _ _ _) \<longleftrightarrow> True"
| "ignores_jail (sshFxpExtendedPacket _ _ _) \<longleftrightarrow> True"
| "ignores_jail _ \<longleftrightarrow> False"

lemma move_jail_simps [simp]:
  "OpenFiles (move_jail u j svr) = OpenFiles svr" "handleCount (move_jail u j svr) = handleCount svr"
  "readOnly (move_jail u j svr) = readOnly svr" "svr_alloc (move_jail u j svr) = svr_alloc svr"
  by (simp_all add: move_jail_def)

lemma nextHandle_move:
  "nextHandle (move_jail u j svr) f = (case nextHandle svr f of (h, svr') \<Rightarrow> (h, move_jail u j svr'))"
  by (simp add: nextHandle_def move_jail_def Let_def)

lemma open_respond_move:
  "open_respond os (move_jail u j svr) w i p fl =
     (case open_respond os svr w i p fl of (r, svr', w') \<Rightarrow> (r, move_jail u j svr', w'))"
  by (auto simp: open_respond_def nextHandle_move split: option.split prod.split sum.split)

text \<open>
  C40: requests the jail does not reach. Lstat, open, remove, rename, setstat and the extended requests (posix
  rename, hard link and statvfs) are answered, and act on the world, in the same way whatever the account's
  directory and the server's root are: they use the client's path as it is.
\<close>

theorem unjailed_requests:
  assumes "ignores_jail q"
  shows "handlePacket os (move_jail u j svr) w (Some q) oid =
    (case handlePacket os svr w (Some q) oid of (out, svr', w') \<Rightarrow> (out, move_jail u j svr', w'))"
proof (cases q)
  case (sshFxpOpenPacket i p pf fl)
  then show ?thesis by (simp add: open_respond_move split: prod.split)
next
  case (sshFxpExtendedPacket i r sp)
  then show ?thesis by (cases sp) (simp_all split: prod.split)
qed (use assms in \<open>simp_all add: status_of_def split: prod.split\<close>)

theorem unjailed_requests_witness:
  "handlePacket demo_os (move_jail zeroUser ''/other'' bob_server) 0 (Some (sshFxpRemovePacket 1 ''/etc/passwd'')) 1 =
    (case handlePacket demo_os bob_server 0 (Some (sshFxpRemovePacket 1 ''/etc/passwd'')) 1 of
       (out, svr', w') \<Rightarrow> (out, move_jail zeroUser ''/other'' svr', w'))"
  by (rule unjailed_requests) simp

end
