(* ===== verification/Sftp_Service.thy ===== *)
theory Sftp_Service
  imports Scan_Pipeline Server_Jail
begin

text \<open>
  The SSH front end of src/ssftp/sftpservice.go: the two login callbacks, the choice of the root directory for a new
  SFTP server, and the list of running servers that the file watcher consults. The SSH protocol itself
  (golang.org/x/crypto/ssh), the listener and the host key are not modelled. A running server is its address and its state.
\<close>

record 'f SFTPService =
  configsvc :: ConfigService
  usrgov :: UserGov
  loginUser :: User
  servers :: "(nat \<times> 'f Server) list"

definition NewSFTPService :: "ConfigService \<Rightarrow> UserGov \<Rightarrow> 'f SFTPService" where
  "NewSFTPService c u = \<lparr>configsvc = c, usrgov = u, loginUser = zeroUser, servers = []\<rparr>"

text \<open>What both callbacks do once the user is known.\<close>

definition login_as :: "('w, 'f, 'z) os_api_scheme \<Rightarrow> 'f SFTPService \<Rightarrow> User \<Rightarrow> 'w \<Rightarrow> 'f SFTPService \<times> 'w" where
  "login_as os ss usr w =
     (let ss = ss\<lparr>loginUser := usr\<rparr>
      in (ss,
          if IsCleanDirUser usr
          then if JailDirectory usr \<noteq> ''*'' then CreateUserDir os (CleanPath (cs_config (configsvc ss))) (JailDirectory usr) w else w
          else CreateUserDir os (StagingPath (cs_config (configsvc ss))) (JailDirectory usr) w))"

definition PasswordCallback :: "('w, 'f, 'z) os_api_scheme \<Rightarrow> 'f SFTPService \<Rightarrow> string \<Rightarrow> string \<Rightarrow> 'w \<Rightarrow> go_error option \<times> 'f SFTPService \<times> 'w" where
  "PasswordCallback os ss name pass w =
     (case AuthPass (usrgov ss) name pass of
        (usr, True) \<Rightarrow> (case login_as os ss usr w of (ss, w) \<Rightarrow> (None, ss, w))
      | (_, False) \<Rightarrow> (Some (ErrText (''password rejected for '' @ go_quote name)), ss, w))"

definition PublicKeyCallback ::
  "(string \<Rightarrow> go_error + bytes) \<Rightarrow> ('w, 'f, 'z) os_api_scheme \<Rightarrow> 'f SFTPService \<Rightarrow> string \<Rightarrow> bytes \<Rightarrow> 'w \<Rightarrow>
   go_error option \<times> 'f SFTPService \<times> 'w" where
  "PublicKeyCallback parse os ss name key w =
     (case AuthPublicKey parse (usrgov ss) name key of
        (_, _, Some err) \<Rightarrow> (Some err, ss, w)
      | (usr, True, None) \<Rightarrow> (case login_as os ss usr w of (ss, w) \<Rightarrow> (None, ss, w))
      | (_, False, None) \<Rightarrow> (Some (ErrText (''Public Key authentication is unsuccessful for '' @ name)), ss, w))"

text \<open>A new channel: the root directory follows the user who logged in last.\<close>

definition session_jailPath :: "'f SFTPService \<Rightarrow> string" where
  "session_jailPath ss =
     (if IsCleanDirUser (loginUser ss) then CleanPath (cs_config (configsvc ss)) else StagingPath (cs_config (configsvc ss)))"

definition start_session :: "page \<Rightarrow> extensionPair list \<Rightarrow> nat \<Rightarrow> 'f SFTPService \<Rightarrow> 'f Server \<times> 'f SFTPService" where
  "start_session h exts addr ss =
     (let server = NewServer h exts (loginUser ss) (session_jailPath ss) [WithDebug]
      in (server, ss\<lparr>servers := servers ss @ [(addr, server)]\<rparr>))"

text \<open>\<^verbatim>\<open>removeServer\<close>: the loop runs down from the last index and stops before index 0.\<close>

fun remove_loop :: "nat \<Rightarrow> (nat \<times> 'a) list \<Rightarrow> nat \<Rightarrow> (nat \<times> 'a) list" where
  "remove_loop 0 ss addr = ss"
| "remove_loop (Suc i) ss addr =
     remove_loop i (if fst (ss ! Suc i) = addr then take (Suc i) ss @ drop (Suc (Suc i)) ss else ss) addr"

definition removeServer :: "'f SFTPService \<Rightarrow> nat \<Rightarrow> 'f SFTPService" where
  "removeServer ss addr = ss\<lparr>servers := remove_loop (length (servers ss) - 1) (servers ss) addr\<rparr>"

text \<open>The files the file watcher takes to be uploading: all handles of all servers in the list, in some order
  of traversing the maps.\<close>

definition getSFTPOpenFiles :: "'f SFTPService \<Rightarrow> 'f set" where
  "getSFTPOpenFiles ss = (\<Union>(_, svr) \<in> set (servers ss). ran (OpenFiles svr))"

subsection \<open>Leaving\<close>

lemma remove_loop_law:
  "length xs = Suc i \<Longrightarrow> remove_loop i (xs @ ys) addr = hd xs # filter (\<lambda>s. fst s \<noteq> addr) (tl xs) @ ys"
proof (induction i arbitrary: xs ys)
  case 0
  then show ?case by (cases xs) auto
next
  case (Suc i)
  obtain zs z where xs: "xs = zs @ [z]" using Suc.prems by (cases xs rule: rev_cases) auto
  with Suc.prems have len: "length zs = Suc i" by simp
  obtain z0 zs' where zs: "zs = z0 # zs'" using len by (cases zs) auto
  have "remove_loop (Suc i) (xs @ ys) addr = remove_loop i (zs @ (if fst z = addr then ys else z # ys)) addr"
    using len by (simp add: xs nth_append)
  also have "\<dots> = hd zs # filter (\<lambda>s. fst s \<noteq> addr) (tl zs) @ (if fst z = addr then ys else z # ys)"
    by (rule Suc.IH [OF len])
  finally show ?case by (simp add: xs zs)
qed

text \<open>
  Who is removed when a client leaves. \<^verbatim>\<open>removeServer\<close> drops the server from the list, unless it is the first of the list: the
  server of the oldest connection is never removed, and its handles keep counting as uploads.
\<close>

theorem removeServer_keeps_first:
  "servers (removeServer ss addr) =
     (case servers ss of [] \<Rightarrow> [] | s # rest \<Rightarrow> s # filter (\<lambda>s. fst s \<noteq> addr) rest)"
proof (cases "servers ss")
  case (Cons s rest)
  then show ?thesis
    using remove_loop_law [of "servers ss" "length rest" "[]" addr] by (simp add: removeServer_def)
qed (simp add: removeServer_def)

subsection \<open>From the login to the jail\<close>

lemma PasswordCallback_ok:
  assumes "PasswordCallback os ss name pass w = (None, ss', w')"
  shows "loginUser ss' \<in> set (Users (usrgov ss)) \<and> Username (user_Auth (loginUser ss')) = name \<and>
    Password (user_Auth (loginUser ss')) = pass \<and> configsvc ss' = configsvc ss"
proof -
  obtain usr where a: "auth_pass_loop (Users (usrgov ss)) name pass = (usr, True)" and l: "login_as os ss usr w = (ss', w')"
    using assms by (auto simp: PasswordCallback_def AuthPass_def split: prod.splits bool.splits)
  from a have "usr \<in> set (Users (usrgov ss)) \<and> Username (user_Auth usr) = name \<and> Password (user_Auth usr) = pass"
    by (induction "Users (usrgov ss)" name pass rule: auth_pass_loop.induct)
       (auto simp: auth_pass_loop_find dest: find_Some_iff [THEN iffD1] split: option.splits)
  moreover have "loginUser ss' = usr \<and> configsvc ss' = configsvc ss" using l by (auto simp: login_as_def Let_def)
  ultimately show ?thesis by simp
qed

end
