(* ===== verification/Request_Server.thy ===== *)
theory Request_Server
  imports Sftp_Server "HOL-Library.Monad_Syntax"
begin

text \<open>
  The handler-based server of pkgsftp: request.go, request-attrs.go and request-server.go. It turns every packet into a
  \<open>Request\<close> and passes it to one of four handlers that the embedding program supplies (request-interfaces.go).

  The handlers are the record \<open>Handlers\<close>: functions over an abstract world \<open>'w\<close>, with abstract types for the readers,
  writers and listers they return. A handler may panic, which is \<open>None\<close>; a nil interface value is \<open>None\<close> as well, one level
  below. A request object is only reachable from the table of open requests and from the worker that handles it, and is
  modelled by its value, which a worker puts back into the table. Contexts are not modelled.
\<close>

subsection \<open>Requests and handlers\<close>

record ('rd, 'wr, 'ls) req_state =
  writerAt :: "'wr option"
  readerAt :: "'rd option"
  listerAt :: "'ls option"
  lsoffset :: u64

record ('rd, 'wr, 'ls) Request =
  Method :: string
  Filepath :: string
  Flags :: u32
  Attrs :: bytes
  Target :: string
  r_handle :: string
  r_state :: "('rd, 'wr, 'ls) req_state"

text \<open>
  The interfaces \<^verbatim>\<open>FileReader\<close>, \<^verbatim>\<open>FileWriter\<close>, \<^verbatim>\<open>FileCmder\<close> and \<^verbatim>\<open>FileLister\<close>, followed by the methods of the
  objects they return. Closing and the notice of a broken transfer are optional interfaces.
\<close>

record ('w, 'rd, 'wr, 'ls) Handlers =
  Fileread :: "('rd, 'wr, 'ls) Request \<Rightarrow> 'w \<Rightarrow> ('rd option \<times> go_error option \<times> 'w) option"
  Filewrite :: "('rd, 'wr, 'ls) Request \<Rightarrow> 'w \<Rightarrow> ('wr option \<times> go_error option \<times> 'w) option"
  Filecmd :: "('rd, 'wr, 'ls) Request \<Rightarrow> 'w \<Rightarrow> (go_error option \<times> 'w) option"
  Filelist :: "('rd, 'wr, 'ls) Request \<Rightarrow> 'w \<Rightarrow> ('ls option \<times> go_error option \<times> 'w) option"
  ReadAt :: "'rd \<Rightarrow> nat \<Rightarrow> u64 \<Rightarrow> 'w \<Rightarrow> (bytes \<times> go_error option \<times> 'w) option"
  WriteAt :: "'wr \<Rightarrow> bytes \<Rightarrow> u64 \<Rightarrow> 'w \<Rightarrow> (go_error option \<times> 'w) option"
  ListAt :: "'ls \<Rightarrow> nat \<Rightarrow> u64 \<Rightarrow> 'w \<Rightarrow> (fileInfo list \<times> go_error option \<times> 'w) option"
  rd_Close :: "'rd \<Rightarrow> ('w \<Rightarrow> go_error option \<times> 'w) option"
  wr_Close :: "'wr \<Rightarrow> ('w \<Rightarrow> go_error option \<times> 'w) option"
  rd_TransferError :: "'rd \<Rightarrow> (go_error \<Rightarrow> 'w \<Rightarrow> 'w) option"
  wr_TransferError :: "'wr \<Rightarrow> (go_error \<Rightarrow> 'w \<Rightarrow> 'w) option"

definition MaxFilelist :: nat where
  "MaxFilelist = 100"

record FileOpenFlags =
  ff_Read :: bool
  ff_Write :: bool
  ff_Append :: bool
  ff_Creat :: bool
  ff_Trunc :: bool
  ff_Excl :: bool

definition newFileOpenFlags :: "u32 \<Rightarrow> FileOpenFlags" where
  "newFileOpenFlags flags =
     \<lparr>ff_Read = (flags AND sshFxfRead \<noteq> 0), ff_Write = (flags AND sshFxfWrite \<noteq> 0),
      ff_Append = (flags AND sshFxfAppend \<noteq> 0), ff_Creat = (flags AND sshFxfCreat \<noteq> 0),
      ff_Trunc = (flags AND sshFxfTrunc \<noteq> 0), ff_Excl = (flags AND sshFxfExcl \<noteq> 0)\<rparr>"

definition Pflags :: "('rd, 'wr, 'ls) Request \<Rightarrow> FileOpenFlags" where
  "Pflags r = newFileOpenFlags (Flags r)"

record FileAttrFlags =
  fa_Size :: bool
  fa_UidGid :: bool
  fa_Permissions :: bool
  fa_Acmodtime :: bool

definition newFileAttrFlags :: "u32 \<Rightarrow> FileAttrFlags" where
  "newFileAttrFlags flags =
     \<lparr>fa_Size = (flags AND sshFileXferAttrSize \<noteq> 0), fa_UidGid = (flags AND sshFileXferAttrUIDGID \<noteq> 0),
      fa_Permissions = (flags AND sshFileXferAttrPermissions \<noteq> 0), fa_Acmodtime = (flags AND sshFileXferAttrACmodTime \<noteq> 0)\<rparr>"

definition AttrFlags :: "('rd, 'wr, 'ls) Request \<Rightarrow> FileAttrFlags" where
  "AttrFlags r = newFileAttrFlags (Flags r)"

definition Attributes :: "('rd, 'wr, 'ls) Request \<Rightarrow> FileStat" where
  "Attributes r = fst (getFileStat (Flags r) (Attrs r))"

subsection \<open>From packets to requests\<close>

text \<open>What a worker handles: a packet, or the specific packet inside an extended one.\<close>

datatype workPacket = Req requestPacket | Spec specificPacket

fun workPacket_id :: "workPacket \<Rightarrow> u32" where
  "workPacket_id (Req p) = requestPacket_id p"
| "workPacket_id (Spec s) = specificPacket_id s"

text \<open>The interface \<^verbatim>\<open>hasPath\<close> of packet-typing.go, and \<^verbatim>\<open>hasHandle\<close> below it.\<close>

fun getPath :: "workPacket \<Rightarrow> string option" where
  "getPath (Req (sshFxpLstatPacket _ p)) = Some p"
| "getPath (Req (sshFxpStatPacket _ p)) = Some p"
| "getPath (Req (sshFxpRmdirPacket _ p)) = Some p"
| "getPath (Req (sshFxpReadlinkPacket _ p)) = Some p"
| "getPath (Req (sshFxpRealpathPacket _ p)) = Some p"
| "getPath (Req (sshFxpMkdirPacket _ p _)) = Some p"
| "getPath (Req (sshFxpSetstatPacket _ p _ _)) = Some p"
| "getPath (Req (sshFxpRemovePacket _ p)) = Some p"
| "getPath (Req (sshFxpRenamePacket _ old _)) = Some old"
| "getPath (Req (sshFxpSymlinkPacket _ target _)) = Some target"
| "getPath (Req (sshFxpOpendirPacket _ p)) = Some p"
| "getPath (Req (sshFxpOpenPacket _ p _ _)) = Some p"
| "getPath (Spec (sshFxpExtendedPacketPosixRename _ _ old _)) = Some old"
| "getPath (Spec (sshFxpExtendedPacketHardlink _ _ old _)) = Some old"
| "getPath _ = None"

fun getHandle :: "workPacket \<Rightarrow> string option" where
  "getHandle (Req (sshFxpFstatPacket _ h)) = Some h"
| "getHandle (Req (sshFxpFsetstatPacket _ h _ _)) = Some h"
| "getHandle (Req (sshFxpReadPacket _ h _ _)) = Some h"
| "getHandle (Req (sshFxpWritePacket _ h _ _ _)) = Some h"
| "getHandle (Req (sshFxpReaddirPacket _ h)) = Some h"
| "getHandle (Req (sshFxpClosePacket _ h)) = Some h"
| "getHandle _ = None"

fun requestMethod :: "workPacket \<Rightarrow> string" where
  "requestMethod (Req (sshFxpSetstatPacket _ _ _ _)) = ''Setstat''"
| "requestMethod (Req (sshFxpFsetstatPacket _ _ _ _)) = ''Setstat''"
| "requestMethod (Req (sshFxpRenamePacket _ _ _)) = ''Rename''"
| "requestMethod (Req (sshFxpSymlinkPacket _ _ _)) = ''Symlink''"
| "requestMethod (Req (sshFxpRemovePacket _ _)) = ''Remove''"
| "requestMethod (Req (sshFxpStatPacket _ _)) = ''Stat''"
| "requestMethod (Req (sshFxpLstatPacket _ _)) = ''Stat''"
| "requestMethod (Req (sshFxpFstatPacket _ _)) = ''Stat''"
| "requestMethod (Req (sshFxpRmdirPacket _ _)) = ''Rmdir''"
| "requestMethod (Req (sshFxpReadlinkPacket _ _)) = ''Readlink''"
| "requestMethod (Req (sshFxpMkdirPacket _ _ _)) = ''Mkdir''"
| "requestMethod (Spec (sshFxpExtendedPacketHardlink _ _ _ _)) = ''Link''"
| "requestMethod _ = []"

definition NewRequest :: "string \<Rightarrow> string \<Rightarrow> ('rd, 'wr, 'ls) Request" where
  "NewRequest method path =
     \<lparr>Method = method, Filepath = cleanPath path, Flags = 0, Attrs = [], Target = [], r_handle = [],
      r_state = \<lparr>writerAt = None, readerAt = None, listerAt = None, lsoffset = 0\<rparr>\<rparr>"

text \<open>\<open>path\<close> is the packet's \<^verbatim>\<open>getPath()\<close>. The attributes of a setstat packet are asserted to be bytes.\<close>

definition requestFromPacket :: "workPacket \<Rightarrow> string \<Rightarrow> ('rd, 'wr, 'ls) Request option" where
  "requestFromPacket pkt path =
     (let request = NewRequest (requestMethod pkt) path
      in case pkt of
           Req (sshFxpOpenPacket _ _ pflags _) \<Rightarrow> Some (request\<lparr>Flags := pflags\<rparr>)
         | Req (sshFxpSetstatPacket _ _ flags attrs) \<Rightarrow>
             (case attrs of VBytes b \<Rightarrow> Some (request\<lparr>Flags := flags, Attrs := b\<rparr>) | _ \<Rightarrow> None)
         | Req (sshFxpRenamePacket _ _ new) \<Rightarrow> Some (request\<lparr>Target := cleanPath new\<rparr>)
         | Req (sshFxpSymlinkPacket _ _ link) \<Rightarrow> Some (request\<lparr>Target := cleanPath link\<rparr>)
         | Spec (sshFxpExtendedPacketHardlink _ _ _ new) \<Rightarrow> Some (request\<lparr>Target := cleanPath new\<rparr>)
         | _ \<Rightarrow> Some request)"

definition lsNext :: "('rd, 'wr, 'ls) Request \<Rightarrow> u64" where
  "lsNext r = lsoffset (r_state r)"

definition lsInc :: "('rd, 'wr, 'ls) Request \<Rightarrow> u64 \<Rightarrow> ('rd, 'wr, 'ls) Request" where
  "lsInc r offset = r\<lparr>r_state := (r_state r)\<lparr>lsoffset := lsoffset (r_state r) + offset\<rparr>\<rparr>"

definition setListerState :: "('rd, 'wr, 'ls) Request \<Rightarrow> 'ls option \<Rightarrow> ('rd, 'wr, 'ls) Request" where
  "setListerState r la = r\<lparr>r_state := (r_state r)\<lparr>listerAt := la\<rparr>\<rparr>"

definition getLister :: "('rd, 'wr, 'ls) Request \<Rightarrow> 'ls option" where
  "getLister r = listerAt (r_state r)"

subsection \<open>Operations on one request\<close>

text \<open>\<^verbatim>\<open>close\<close>: the writer is closed before the reader, and the first error is the result.\<close>

definition close_if :: "('w \<Rightarrow> go_error option \<times> 'w) option \<Rightarrow> go_error option \<times> 'w \<Rightarrow> go_error option \<times> 'w" where
  "close_if c st = (case st of (err, w) \<Rightarrow>
     (case c of
        None \<Rightarrow> (err, w)
      | Some cl \<Rightarrow> (case cl w of (err2, w) \<Rightarrow> (case err of None \<Rightarrow> err2 | Some e \<Rightarrow> Some e, w))))"

definition req_close :: "('w, 'rd, 'wr, 'ls) Handlers \<Rightarrow> ('rd, 'wr, 'ls) Request \<Rightarrow> 'w \<Rightarrow> go_error option \<times> 'w" where
  "req_close h r w =
     close_if (Option.bind (readerAt (r_state r)) (rd_Close h))
       (close_if (Option.bind (writerAt (r_state r)) (wr_Close h)) (None, w))"

definition notify_if :: "(go_error \<Rightarrow> 'w \<Rightarrow> 'w) option \<Rightarrow> go_error \<Rightarrow> 'w \<Rightarrow> 'w" where
  "notify_if t e w = (case t of None \<Rightarrow> w | Some f \<Rightarrow> f e w)"

definition transferError :: "('w, 'rd, 'wr, 'ls) Handlers \<Rightarrow> ('rd, 'wr, 'ls) Request \<Rightarrow> go_error option \<Rightarrow> 'w \<Rightarrow> 'w" where
  "transferError h r err w =
     (case err of
        None \<Rightarrow> w
      | Some e \<Rightarrow>
          notify_if (Option.bind (readerAt (r_state r)) (rd_TransferError h)) e
            (notify_if (Option.bind (writerAt (r_state r)) (wr_TransferError h)) e w))"

text \<open>\<^verbatim>\<open>open\<close>: any of the flags write, append, create and truncate makes the request a write request, read flag or not.\<close>

definition req_open :: "('w, 'rd, 'wr, 'ls) Handlers \<Rightarrow> ('rd, 'wr, 'ls) Request \<Rightarrow> u32 \<Rightarrow> 'w \<Rightarrow>
    (responsePacket \<times> ('rd, 'wr, 'ls) Request \<times> 'w) option" where
  "req_open h r i w =
     (let flags = Pflags r;
          answer = (\<lambda>err r. case err of Some e \<Rightarrow> statusFromError i (Some e) | None \<Rightarrow> sshFxpHandlePacket i (r_handle r))
      in if ff_Write flags \<or> ff_Append flags \<or> ff_Creat flags \<or> ff_Trunc flags
         then do {
           let r = r\<lparr>Method := ''Put''\<rparr>;
           (wr, err, w) \<leftarrow> Filewrite h r w;
           let r = r\<lparr>r_state := (r_state r)\<lparr>writerAt := wr\<rparr>\<rparr>;
           Some (answer err r, r, w) }
         else if ff_Read flags
         then do {
           let r = r\<lparr>Method := ''Get''\<rparr>;
           (rd, err, w) \<leftarrow> Fileread h r w;
           let r = r\<lparr>r_state := (r_state r)\<lparr>readerAt := rd\<rparr>\<rparr>;
           Some (answer err r, r, w) }
         else Some (statusFromError i (Some (ErrText ''bad file flags'')), r, w))"

definition req_opendir :: "('w, 'rd, 'wr, 'ls) Handlers \<Rightarrow> ('rd, 'wr, 'ls) Request \<Rightarrow> u32 \<Rightarrow> 'w \<Rightarrow>
    (responsePacket \<times> ('rd, 'wr, 'ls) Request \<times> 'w) option" where
  "req_opendir h r i w =
     do {
       let r = r\<lparr>Method := ''List''\<rparr>;
       (ls, err, w) \<leftarrow> Filelist h r w;
       let r = setListerState r ls;
       Some (case err of
               None \<Rightarrow> sshFxpHandlePacket i (r_handle r)
             | Some e \<Rightarrow> statusFromError i (Some (case e of Errno _ _ \<Rightarrow> PathError [] (Filepath r) e | _ \<Rightarrow> e)), r, w) }"

text \<open>
  \<^verbatim>\<open>packetData\<close>: the buffer, the offset and the pool. The buffer of a read packet has the contents of a page of the pool
  (\<open>mem\<close>) or is fresh and zero; a packet of another type has no buffer.
\<close>

fun packetData :: "(page \<Rightarrow> nat \<Rightarrow> byte) \<Rightarrow> workPacket \<Rightarrow> allocator option \<Rightarrow> u32 \<Rightarrow> bytes \<times> u64 \<times> allocator option" where
  "packetData mem (Req (sshFxpReadPacket _ _ offset len)) al oid =
     (case getDataSlice len al oid of
        (n, al') \<Rightarrow>
          (case al of
             None \<Rightarrow> replicate n 0
           | Some a \<Rightarrow> map (mem (fst (GetPage a oid))) [0..<n], offset, al'))"
| "packetData mem (Req (sshFxpWritePacket _ _ offset _ data)) al oid = (data, offset, al)"
| "packetData mem p al oid = ([], 0, al)"

type_synonym ('w, 'rd, 'wr, 'ls) call_result = "(responsePacket \<times> ('rd, 'wr, 'ls) Request \<times> allocator option \<times> 'w) option"

definition fileget :: "('w, 'rd, 'wr, 'ls) Handlers \<Rightarrow> (page \<Rightarrow> nat \<Rightarrow> byte) \<Rightarrow> ('rd, 'wr, 'ls) Request \<Rightarrow> workPacket \<Rightarrow>
    allocator option \<Rightarrow> u32 \<Rightarrow> 'w \<Rightarrow> ('w, 'rd, 'wr, 'ls) call_result" where
  "fileget h mem r pkt al oid w =
     (case readerAt (r_state r) of
        None \<Rightarrow> Some (statusFromError (workPacket_id pkt) (Some (ErrText ''unexpected read packet'')), r, al, w)
      | Some reader \<Rightarrow>
          do {
            let (data, offset, al) = packetData mem pkt al oid;
            (got, err, w) \<leftarrow> ReadAt h reader (length data) offset w;
            Some (case err of
                    Some e \<Rightarrow> if e \<noteq> EOF \<or> got = [] then statusFromError (workPacket_id pkt) (Some e)
                              else sshFxpDataPacket (workPacket_id pkt) (of_nat (length got)) got
                  | None \<Rightarrow> sshFxpDataPacket (workPacket_id pkt) (of_nat (length got)) got, r, al, w) })"

definition fileput :: "('w, 'rd, 'wr, 'ls) Handlers \<Rightarrow> (page \<Rightarrow> nat \<Rightarrow> byte) \<Rightarrow> ('rd, 'wr, 'ls) Request \<Rightarrow> workPacket \<Rightarrow>
    allocator option \<Rightarrow> u32 \<Rightarrow> 'w \<Rightarrow> ('w, 'rd, 'wr, 'ls) call_result" where
  "fileput h mem r pkt al oid w =
     (case writerAt (r_state r) of
        None \<Rightarrow> Some (statusFromError (workPacket_id pkt) (Some (ErrText ''unexpected write packet'')), r, al, w)
      | Some writer \<Rightarrow>
          do {
            let (data, offset, al) = packetData mem pkt al oid;
            (err, w) \<leftarrow> WriteAt h writer data offset w;
            Some (statusFromError (workPacket_id pkt) err, r, al, w) })"

text \<open>The attributes of an fsetstat packet replace those of the request; they too are asserted to be bytes.\<close>

definition filecmd :: "('w, 'rd, 'wr, 'ls) Handlers \<Rightarrow> ('rd, 'wr, 'ls) Request \<Rightarrow> workPacket \<Rightarrow>
    allocator option \<Rightarrow> 'w \<Rightarrow> ('w, 'rd, 'wr, 'ls) call_result" where
  "filecmd h r pkt al w =
     do {
       r \<leftarrow> (case pkt of
               Req (sshFxpFsetstatPacket _ _ flags attrs) \<Rightarrow>
                 (case attrs of VBytes b \<Rightarrow> Some (r\<lparr>Flags := flags, Attrs := b\<rparr>) | _ \<Rightarrow> None)
             | _ \<Rightarrow> Some r);
       (err, w) \<leftarrow> Filecmd h r w;
       Some (statusFromError (workPacket_id pkt) err, r, al, w) }"

definition unexpected_method :: "('rd, 'wr, 'ls) Request \<Rightarrow> go_error" where
  "unexpected_method r = ErrText (''unexpected method: '' @ Method r)"

definition filelist :: "('w, 'f) os_api \<Rightarrow> ('w, 'rd, 'wr, 'ls) Handlers \<Rightarrow> ('rd, 'wr, 'ls) Request \<Rightarrow> workPacket \<Rightarrow>
    allocator option \<Rightarrow> 'w \<Rightarrow> ('w, 'rd, 'wr, 'ls) call_result" where
  "filelist os h r pkt al w =
     (case getLister r of
        None \<Rightarrow> Some (statusFromError (workPacket_id pkt) (Some (ErrText ''unexpected dir packet'')), r, al, w)
      | Some lister \<Rightarrow>
          do {
            (finfo, err, w) \<leftarrow> ListAt h lister MaxFilelist (lsNext r) w;
            let r = lsInc r (of_nat (length finfo));
            Some (if Method r = ''List''
                  then if err \<noteq> None \<and> err \<noteq> Some EOF then statusFromError (workPacket_id pkt) err
                       else if err = Some EOF \<and> finfo = [] then statusFromError (workPacket_id pkt) (Some EOF)
                       else sshFxpNamePacket (workPacket_id pkt)
                              (map (\<lambda>fi. NameAttr (fi_name fi) (runLs os w (Base (Filepath r)) fi) [VFileInfo fi]) finfo)
                  else statusFromError (workPacket_id pkt) (Some (unexpected_method r)), r, al, w) })"

text \<open>\<^verbatim>\<open>filestat\<close> does not test the lister for nil: calling its method panics.\<close>

definition filestat :: "('w, 'rd, 'wr, 'ls) Handlers \<Rightarrow> ('rd, 'wr, 'ls) Request \<Rightarrow> workPacket \<Rightarrow>
    allocator option \<Rightarrow> 'w \<Rightarrow> ('w, 'rd, 'wr, 'ls) call_result" where
  "filestat h r pkt al w =
     do {
       (ls, err, w) \<leftarrow> Filelist h r w;
       if err \<noteq> None then Some (statusFromError (workPacket_id pkt) err, r, al, w)
       else do {
         lister \<leftarrow> ls;
         (finfo, err, w) \<leftarrow> ListAt h lister 1 0 w;
         Some (if Method r = ''Stat'' \<or> Method r = ''Readlink''
               then if err \<noteq> None \<and> err \<noteq> Some EOF then statusFromError (workPacket_id pkt) err
                    else (case finfo of
                            [] \<Rightarrow> statusFromError (workPacket_id pkt)
                                    (Some (PathError (if Method r = ''Stat'' then ''stat'' else ''readlink'') (Filepath r) ENOENT))
                          | fi # _ \<Rightarrow> if Method r = ''Stat'' then sshFxpStatResponse (workPacket_id pkt) fi
                                      else name_response (workPacket_id pkt) (fi_name fi))
               else statusFromError (workPacket_id pkt) (Some (unexpected_method r)), r, al, w) } }"

definition call :: "('w, 'f) os_api \<Rightarrow> ('w, 'rd, 'wr, 'ls) Handlers \<Rightarrow> (page \<Rightarrow> nat \<Rightarrow> byte) \<Rightarrow> ('rd, 'wr, 'ls) Request \<Rightarrow>
    workPacket \<Rightarrow> allocator option \<Rightarrow> u32 \<Rightarrow> 'w \<Rightarrow> ('w, 'rd, 'wr, 'ls) call_result" where
  "call os h mem r pkt al oid w =
     (if Method r = ''Get'' then fileget h mem r pkt al oid w
      else if Method r = ''Put'' then fileput h mem r pkt al oid w
      else if Method r \<in> {''Setstat'', ''Rename'', ''Rmdir'', ''Mkdir'', ''Link'', ''Symlink'', ''Remove''}
      then filecmd h r pkt al w
      else if Method r = ''List'' then filelist os h r pkt al w
      else if Method r \<in> {''Stat'', ''Readlink''} then filestat h r pkt al w
      else Some (statusFromError (workPacket_id pkt) (Some (unexpected_method r)), r, al, w))"

subsection \<open>The server\<close>

record ('rd, 'wr, 'ls) RequestServer =
  openRequests :: "string \<rightharpoonup> ('rd, 'wr, 'ls) Request"
  rs_handleCount :: "64 word"
  rs_alloc :: "allocator option"
  rs_sftpExtensions :: "extensionPair list"

text \<open>The only option is \<^verbatim>\<open>WithRSAllocator\<close>; a list of options is the number of times it is given.\<close>

definition NewRequestServer :: "page \<Rightarrow> extensionPair list \<Rightarrow> nat \<Rightarrow> ('rd, 'wr, 'ls) RequestServer" where
  "NewRequestServer hp exts withRSAllocator =
     ((\<lambda>rs. rs\<lparr>rs_alloc := Some (newAllocator hp)\<rparr>) ^^ withRSAllocator)
       \<lparr>openRequests = Map.empty, rs_handleCount = 0, rs_alloc = None, rs_sftpExtensions = exts\<rparr>"

definition nextRequest :: "('rd, 'wr, 'ls) RequestServer \<Rightarrow> ('rd, 'wr, 'ls) Request \<Rightarrow> string \<times> ('rd, 'wr, 'ls) RequestServer" where
  "nextRequest rs r =
     (let rs = rs\<lparr>rs_handleCount := rs_handleCount rs + 1\<rparr>;
          handle = Itoa (sint (rs_handleCount rs));
          r = r\<lparr>r_handle := handle\<rparr>
      in (handle, rs\<lparr>openRequests := (openRequests rs)(handle \<mapsto> r)\<rparr>))"

definition getRequest :: "('rd, 'wr, 'ls) RequestServer \<Rightarrow> string \<Rightarrow> ('rd, 'wr, 'ls) Request option" where
  "getRequest rs handle = openRequests rs handle"

definition deleteRequest :: "('rd, 'wr, 'ls) RequestServer \<Rightarrow> string \<Rightarrow> ('rd, 'wr, 'ls) RequestServer" where
  "deleteRequest rs handle = rs\<lparr>openRequests := (openRequests rs)(handle := None)\<rparr>"

definition closeRequest :: "('w, 'rd, 'wr, 'ls) Handlers \<Rightarrow> ('rd, 'wr, 'ls) RequestServer \<Rightarrow> string \<Rightarrow> 'w \<Rightarrow>
    go_error option \<times> ('rd, 'wr, 'ls) RequestServer \<times> 'w" where
  "closeRequest h rs handle w =
     (case openRequests rs handle of
        Some r \<Rightarrow> (case req_close h r w of (err, w) \<Rightarrow> (err, deleteRequest rs handle, w))
      | None \<Rightarrow> (Some EBADF, rs, w))"

definition cleanPacketPath :: "u32 \<Rightarrow> string \<Rightarrow> responsePacket" where
  "cleanPacketPath i path = name_response i (cleanPath path)"

text \<open>The value of a request that a worker has changed, seen through the table.\<close>

definition putRequest :: "('rd, 'wr, 'ls) RequestServer \<Rightarrow> string \<Rightarrow> ('rd, 'wr, 'ls) Request \<Rightarrow> ('rd, 'wr, 'ls) RequestServer" where
  "putRequest rs handle r = rs\<lparr>openRequests := (openRequests rs)(handle \<mapsto> r)\<rparr>"

type_synonym ('w, 'rd, 'wr, 'ls) work_result = "(responsePacket \<times> ('rd, 'wr, 'ls) RequestServer \<times> 'w) option"

text \<open>A new request is in the table before the handler is asked, and stays there if the handler refuses.\<close>

definition open_new :: "(('rd, 'wr, 'ls) Request \<Rightarrow> u32 \<Rightarrow> 'w \<Rightarrow> (responsePacket \<times> ('rd, 'wr, 'ls) Request \<times> 'w) option) \<Rightarrow>
    ('rd, 'wr, 'ls) RequestServer \<Rightarrow> workPacket \<Rightarrow> string \<Rightarrow> 'w \<Rightarrow> ('w, 'rd, 'wr, 'ls) work_result" where
  "open_new opener rs pkt path w =
     do {
       request \<leftarrow> requestFromPacket pkt path;
       let (handle, rs) = nextRequest rs request;
       (rpkt, request, w) \<leftarrow> opener (request\<lparr>r_handle := handle\<rparr>) (workPacket_id pkt) w;
       Some (rpkt, putRequest rs handle request, w) }"

text \<open>A call for a request that is not in the table.\<close>

definition call_fresh :: "('w, 'f) os_api \<Rightarrow> ('w, 'rd, 'wr, 'ls) Handlers \<Rightarrow> (page \<Rightarrow> nat \<Rightarrow> byte) \<Rightarrow>
    ('rd, 'wr, 'ls) RequestServer \<Rightarrow> ('rd, 'wr, 'ls) Request \<Rightarrow> workPacket \<Rightarrow> u32 \<Rightarrow> 'w \<Rightarrow>
    (responsePacket \<times> ('rd, 'wr, 'ls) Request \<times> ('rd, 'wr, 'ls) RequestServer \<times> 'w) option" where
  "call_fresh os h mem rs r pkt oid w =
     do {
       (rpkt, r, al, w) \<leftarrow> call os h mem r pkt (rs_alloc rs) oid w;
       Some (rpkt, r, rs\<lparr>rs_alloc := al\<rparr>, w) }"

text \<open>A handle packet: the method with which the handle was opened decides, not the packet.\<close>

definition call_handle :: "('w, 'f) os_api \<Rightarrow> ('w, 'rd, 'wr, 'ls) Handlers \<Rightarrow> (page \<Rightarrow> nat \<Rightarrow> byte) \<Rightarrow>
    ('rd, 'wr, 'ls) RequestServer \<Rightarrow> string \<Rightarrow> workPacket \<Rightarrow> u32 \<Rightarrow> 'w \<Rightarrow> ('w, 'rd, 'wr, 'ls) work_result" where
  "call_handle os h mem rs handle pkt oid w =
     (case getRequest rs handle of
        None \<Rightarrow> Some (statusFromError (workPacket_id pkt) (Some EBADF), rs, w)
      | Some request \<Rightarrow>
          do {
            (rpkt, request, rs, w) \<leftarrow> call_fresh os h mem rs request pkt oid w;
            Some (rpkt, putRequest rs handle request, w) })"

text \<open>Fstat and fsetstat: a new request for the path of the open one.\<close>

definition call_path_of :: "('w, 'f) os_api \<Rightarrow> ('w, 'rd, 'wr, 'ls) Handlers \<Rightarrow> (page \<Rightarrow> nat \<Rightarrow> byte) \<Rightarrow>
    ('rd, 'wr, 'ls) RequestServer \<Rightarrow> string \<Rightarrow> string \<Rightarrow> workPacket \<Rightarrow> u32 \<Rightarrow> 'w \<Rightarrow> ('w, 'rd, 'wr, 'ls) work_result" where
  "call_path_of os h mem rs handle method pkt oid w =
     (case getRequest rs handle of
        None \<Rightarrow> Some (statusFromError (workPacket_id pkt) (Some EBADF), rs, w)
      | Some request \<Rightarrow>
          do {
            (rpkt, _, rs, w) \<leftarrow> call_fresh os h mem rs (NewRequest method (Filepath request)) pkt oid w;
            Some (rpkt, rs, w) })"

definition unwrap :: "requestPacket \<Rightarrow> workPacket" where
  "unwrap p = (case p of sshFxpExtendedPacket _ _ (Some s) \<Rightarrow> Spec s | _ \<Rightarrow> Req p)"

definition handleWork :: "('w, 'f) os_api \<Rightarrow> ('w, 'rd, 'wr, 'ls) Handlers \<Rightarrow> (page \<Rightarrow> nat \<Rightarrow> byte) \<Rightarrow>
    ('rd, 'wr, 'ls) RequestServer \<Rightarrow> workPacket \<Rightarrow> u32 \<Rightarrow> 'w \<Rightarrow> ('w, 'rd, 'wr, 'ls) work_result" where
  "handleWork os h mem rs pkt oid w =
     (case pkt of
        Req (sshFxInitPacket _ _) \<Rightarrow> Some (sshFxVersionPacket sftpProtocolVersion (rs_sftpExtensions rs), rs, w)
      | Req (sshFxpClosePacket i handle) \<Rightarrow>
          (case closeRequest h rs handle w of (err, rs, w) \<Rightarrow> Some (statusFromError i err, rs, w))
      | Req (sshFxpRealpathPacket i path) \<Rightarrow> Some (cleanPacketPath i path, rs, w)
      | Req (sshFxpOpendirPacket i path) \<Rightarrow> open_new (req_opendir h) rs pkt path w
      | Req (sshFxpOpenPacket i path _ _) \<Rightarrow> open_new (req_open h) rs pkt path w
      | Req (sshFxpFstatPacket i handle) \<Rightarrow> call_path_of os h mem rs handle ''Stat'' pkt oid w
      | Req (sshFxpFsetstatPacket i handle _ _) \<Rightarrow> call_path_of os h mem rs handle ''Setstat'' pkt oid w
      | Spec (sshFxpExtendedPacketPosixRename i _ old new) \<Rightarrow>
          do {
            (rpkt, _, rs, w) \<leftarrow> call_fresh os h mem rs ((NewRequest ''Rename'' old)\<lparr>Target := new\<rparr>) pkt oid w;
            Some (rpkt, rs, w) }
      | _ \<Rightarrow>
          (case getHandle pkt of
             Some handle \<Rightarrow> call_handle os h mem rs handle pkt oid w
           | None \<Rightarrow>
               (case getPath pkt of
                  Some path \<Rightarrow>
                    do {
                      request \<leftarrow> requestFromPacket pkt path;
                      (rpkt, request, rs, w) \<leftarrow> call_fresh os h mem rs request pkt oid w;
                      let (_, w) = req_close h request w;
                      Some (rpkt, rs, w) }
                | None \<Rightarrow> Some (statusFromError (workPacket_id pkt) (Some ErrSSHFxOpUnsupported), rs, w))))"

text \<open>One round of \<^verbatim>\<open>packetWorker\<close>; a nil packet has no \<^verbatim>\<open>id\<close> and panics.\<close>

definition packetWorker :: "('w, 'f) os_api \<Rightarrow> ('w, 'rd, 'wr, 'ls) Handlers \<Rightarrow> (page \<Rightarrow> nat \<Rightarrow> byte) \<Rightarrow>
    ('rd, 'wr, 'ls) RequestServer \<Rightarrow> orderedRequest \<Rightarrow> 'w \<Rightarrow> ('w, 'rd, 'wr, 'ls) work_result" where
  "packetWorker os h mem rs pkt w =
     (case oreq_packet pkt of
        None \<Rightarrow> None
      | Some p \<Rightarrow> handleWork os h mem rs (unwrap p) (oreq_orderid pkt) w)"

text \<open>
  One round of \<^verbatim>\<open>serveLoop\<close>: unlike the server of server.go it returns on every decoding error but an unknown
  extension, so such a packet is not queued.
\<close>

datatype loop_result = LoopQueued "requestPacket option" | LoopReturned go_error | LoopPanic

definition serveLoop :: "reader \<Rightarrow> allocator option \<Rightarrow> u32 \<Rightarrow> loop_result \<times> reader \<times> allocator option" where
  "serveLoop r al oid =
     (case recvPacket r al oid of
        (RecvErr e, r, al) \<Rightarrow> (LoopReturned e, r, al)
      | (RecvPanic, r, al) \<Rightarrow> (LoopPanic, r, al)
      | (RecvOk t b, r, al) \<Rightarrow>
          (case makePacket t b of
             (pkt, err) \<Rightarrow>
               (case err of
                  None \<Rightarrow> (LoopQueued pkt, r, al)
                | Some e \<Rightarrow> if errors_Cause e = ErrUnknownExtendedPacket then (LoopQueued pkt, r, al)
                            else (LoopReturned e, r, al))))"

text \<open>The end of \<^verbatim>\<open>Serve\<close>: the open requests, in the order \<open>hs\<close> in which the map is traversed, are told the error and closed.\<close>

fun Serve_cleanup :: "('w, 'rd, 'wr, 'ls) Handlers \<Rightarrow> go_error option \<Rightarrow> string list \<Rightarrow> ('rd, 'wr, 'ls) RequestServer \<Rightarrow> 'w \<Rightarrow>
    ('rd, 'wr, 'ls) RequestServer \<times> 'w" where
  "Serve_cleanup h err [] rs w = (rs, w)"
| "Serve_cleanup h err (handle # hs) rs w =
     (case openRequests rs handle of
        None \<Rightarrow> Serve_cleanup h err hs rs w
      | Some req \<Rightarrow>
          (let w = transferError h req err w;
               rs = deleteRequest rs handle;
               (_, w) = req_close h req w
           in Serve_cleanup h err hs rs w))"

end
