(* ===== verification/Mem_Fs.thy ===== *)
theory Mem_Fs
  imports Request_Server "HOL-Library.List_Lexorder" "HOL-Library.Char_ord"
begin

text \<open>
  The in-memory backend of pkgsftp/request-example.go, the handlers that the package supplies for the server of
  \<open>Request_Server\<close>. Files are objects behind pointers, and two names may lead to one object (hard links); the contents of a file are a
  slice of a backing array, which a reader keeps sharing after it was opened. Both are explicit: a file is an index into \<open>objs\<close>
  and a backing array an index into \<open>arrays\<close>; nothing is ever removed from the two lists. The
  clock is the field \<open>root_now\<close>.

  Two choices of the Go runtime are parameters: \<open>iter\<close>, the order in which a range over a map yields its keys, and \<open>extra\<close>, the
  capacity that \<^verbatim>\<open>append\<close> reserves beyond the length it needs.
\<close>

subsection \<open>Slices and files\<close>

record slice =
  sl_array :: nat
  sl_len :: nat

record memFile =
  mf_name :: string
  mf_modtime :: u64
  mf_symlink :: string
  mf_isdir :: bool
  mf_content :: slice
  mf_transferError :: "go_error option"

record root =
  root_file :: nat
  root_files :: "string \<rightharpoonup> nat"
  root_mockErr :: "go_error option"
  objs :: "memFile list"
  arrays :: "bytes list"
  root_now :: u64

definition slice_bytes :: "root \<Rightarrow> slice \<Rightarrow> bytes" where
  "slice_bytes fs s = take (sl_len s) (arrays fs ! sl_array s)"

definition content :: "root \<Rightarrow> nat \<Rightarrow> bytes" where
  "content fs a = slice_bytes fs (mf_content (objs fs ! a))"

definition upd_obj :: "(memFile \<Rightarrow> memFile) \<Rightarrow> nat \<Rightarrow> root \<Rightarrow> root" where
  "upd_obj f a fs = fs\<lparr>objs := (objs fs)[a := f (objs fs ! a)]\<rparr>"

text \<open>The limit of \<^verbatim>\<open>make\<close> on a 64-bit system (48 bits of addresses); running out of memory below it is not modelled.\<close>

definition makeslice_ok :: "int \<Rightarrow> bool" where
  "makeslice_ok n \<longleftrightarrow> 0 \<le> n \<and> n \<le> 2 ^ 48"

text \<open>A new file has the nil slice for contents, an empty array of its own.\<close>

definition newMemFile :: "string \<Rightarrow> bool \<Rightarrow> root \<Rightarrow> nat \<times> root" where
  "newMemFile name isdir fs =
     (length (objs fs),
      fs\<lparr>objs := objs fs @ [\<lparr>mf_name = name, mf_modtime = root_now fs, mf_symlink = [], mf_isdir = isdir,
                            mf_content = \<lparr>sl_array = length (arrays fs), sl_len = 0\<rparr>, mf_transferError = None\<rparr>],
         arrays := arrays fs @ [[]]\<rparr>)"

definition memFile_Name :: "memFile \<Rightarrow> string" where
  "memFile_Name f = Base (mf_name f)"

definition memFile_Mode :: "memFile \<Rightarrow> u32" where
  "memFile_Mode f =
     (let ret = 0x1A4;
          ret = (if mf_isdir f then 0x1ED OR ModeDir else ret)
      in if mf_symlink f \<noteq> [] then 0x1FF OR ModeSymlink else ret)"

definition fakeFileInfoSys :: sys_info where
  "fakeFileInfoSys = SysStatT 0 65534 65534"

definition memFile_info :: "memFile \<Rightarrow> fileInfo" where
  "memFile_info f =
     \<lparr>fi_name = memFile_Name f, fi_size = of_nat (sl_len (mf_content f)), fi_mode = memFile_Mode f,
      fi_mtime = mf_modtime f, fi_sys = fakeFileInfoSys\<rparr>"

subsection \<open>Reading and writing\<close>

definition memFile_ReaderAt :: "memFile \<Rightarrow> slice option \<times> go_error option" where
  "memFile_ReaderAt f = (if mf_isdir f then (None, Some ErrInvalid) else (Some (mf_content f), None))"

definition memFile_WriterAt :: "root \<Rightarrow> nat \<Rightarrow> nat option \<times> go_error option" where
  "memFile_WriterAt fs a = (if mf_isdir (objs fs ! a) then (None, Some ErrInvalid) else (Some a, None))"

text \<open>\<^verbatim>\<open>ReadAt\<close> of \<^verbatim>\<open>bytes.Reader\<close>.\<close>

definition bytes_ReadAt :: "slice \<Rightarrow> nat \<Rightarrow> u64 \<Rightarrow> root \<Rightarrow> (bytes \<times> go_error option \<times> root) option" where
  "bytes_ReadAt s n off fs =
     Some (if sint off < 0 then ([], Some (ErrText ''bytes.Reader.ReadAt: negative offset''), fs)
           else if sint off \<ge> int (sl_len s) then ([], Some EOF, fs)
           else let got = take n (drop (nat (sint off)) (slice_bytes fs s))
                in (got, if length got < n then Some EOF else None, fs))"

text \<open>\<^verbatim>\<open>copy(s[off:], p)\<close> for a slice of length \<open>len\<close> of the array \<open>xs\<close>.\<close>

definition splice :: "bytes \<Rightarrow> nat \<Rightarrow> nat \<Rightarrow> bytes \<Rightarrow> bytes" where
  "splice xs len off p = (let q = take (len - off) p in take off xs @ q @ drop (off + length q) xs)"

definition memFile_WriteAt :: "nat \<Rightarrow> bytes \<Rightarrow> u64 \<Rightarrow> root \<Rightarrow> (go_error option \<times> root) option" where
  "memFile_WriteAt a p off fs =
     (let s = mf_content (objs fs ! a);
          plen = sint (of_nat (length p) + off)
      in do {
        fs \<leftarrow> (if plen \<ge> int (sl_len s)
               then if makeslice_ok plen
                    then Some (upd_obj (mf_content_update (\<lambda>_. \<lparr>sl_array = length (arrays fs), sl_len = nat plen\<rparr>)) a
                           (fs\<lparr>arrays := arrays fs @ [slice_bytes fs s @ replicate (nat plen - sl_len s) 0]\<rparr>))
                    else None
               else Some fs);
        let s = mf_content (objs fs ! a);
        if 0 \<le> sint off \<and> sint off \<le> int (sl_len s)
        then Some (None, fs\<lparr>arrays := (arrays fs)[sl_array s := splice (arrays fs ! sl_array s) (sl_len s) (nat (sint off)) p]\<rparr>)
        else None })"

definition memFile_Truncate :: "(nat \<Rightarrow> nat \<Rightarrow> nat) \<Rightarrow> nat \<Rightarrow> u64 \<Rightarrow> root \<Rightarrow> (go_error option \<times> root) option" where
  "memFile_Truncate extra a sz fs =
     (let s = mf_content (objs fs ! a);
          arr = arrays fs ! sl_array s;
          grow = sint (sz - of_nat (sl_len s))
      in if grow \<le> 0
         then if 0 \<le> sint sz \<and> sint sz \<le> int (length arr)
              then Some (None, upd_obj (mf_content_update (sl_len_update (\<lambda>_. nat (sint sz)))) a fs)
              else None
         else if \<not> makeslice_ok grow then None
         else let n = sl_len s + nat grow
              in if n \<le> length arr
                 then Some (None, upd_obj (mf_content_update (sl_len_update (\<lambda>_. n))) a
                        (fs\<lparr>arrays := (arrays fs)[sl_array s := splice arr n (sl_len s) (replicate (nat grow) 0)]\<rparr>))
                 else Some (None, upd_obj (mf_content_update (\<lambda>_. \<lparr>sl_array = length (arrays fs), sl_len = n\<rparr>)) a
                        (fs\<lparr>arrays := arrays fs @
                           [slice_bytes fs s @ replicate (nat grow) 0 @ replicate (extra (length arr) n) 0]\<rparr>)))"

definition memFile_TransferError :: "nat \<Rightarrow> go_error \<Rightarrow> root \<Rightarrow> root" where
  "memFile_TransferError a err fs = upd_obj (mf_transferError_update (\<lambda>_. Some err)) a fs"

subsection \<open>Handlers\<close>

definition fetch :: "root \<Rightarrow> string \<Rightarrow> go_error + nat" where
  "fetch fs path =
     (if path = ''/'' then Inr (root_file fs)
      else case root_files fs path of Some a \<Rightarrow> Inr a | None \<Rightarrow> Inl ErrNotExist)"

definition returnErr :: "go_error option \<Rightarrow> root \<Rightarrow> root" where
  "returnErr err fs = fs\<lparr>root_mockErr := err\<rparr>"

type_synonym mem_request = "(slice, nat, nat list) Request"

definition mem_Fileread :: "mem_request \<Rightarrow> root \<Rightarrow> (slice option \<times> go_error option \<times> root) option" where
  "mem_Fileread r fs =
     Some (case root_mockErr fs of
             Some e \<Rightarrow> (None, Some e, fs)
           | None \<Rightarrow>
               (case fetch fs (Filepath r) of
                  Inl e \<Rightarrow> (None, Some e, fs)
                | Inr a \<Rightarrow>
                    (case (if mf_symlink (objs fs ! a) \<noteq> [] then fetch fs (mf_symlink (objs fs ! a)) else Inr a) of
                       Inl e \<Rightarrow> (None, Some e, fs)
                     | Inr a \<Rightarrow> (case memFile_ReaderAt (objs fs ! a) of (rd, e) \<Rightarrow> (rd, e, fs)))))"

definition mem_Filewrite :: "mem_request \<Rightarrow> root \<Rightarrow> (nat option \<times> go_error option \<times> root) option" where
  "mem_Filewrite r fs =
     Some (case root_mockErr fs of
             Some e \<Rightarrow> (None, Some e, fs)
           | None \<Rightarrow>
               (case fetch fs (Filepath r) of
                  Inr a \<Rightarrow> (case memFile_WriterAt fs a of (wr, e) \<Rightarrow> (wr, e, fs))
                | Inl _ \<Rightarrow>
                    (case fetch fs (Dir (Filepath r)) of
                       Inl e \<Rightarrow> (None, Some e, fs)
                     | Inr d \<Rightarrow>
                         (if \<not> mf_isdir (objs fs ! d) then (None, Some ErrInvalid, fs)
                          else case newMemFile (Filepath r) False fs of
                                 (a, fs) \<Rightarrow>
                                   (let fs = fs\<lparr>root_files := (root_files fs)(Filepath r \<mapsto> a)\<rparr>
                                    in case memFile_WriterAt fs a of (wr, e) \<Rightarrow> (wr, e, fs))))))"

text \<open>The loop over the keys of the map that moves the files below a renamed directory.\<close>

fun rename_children :: "string \<Rightarrow> string \<Rightarrow> string list \<Rightarrow> root \<Rightarrow> root" where
  "rename_children old new [] fs = fs"
| "rename_children old new (path # paths) fs =
     (case root_files fs path of
        None \<Rightarrow> rename_children old new paths fs
      | Some a \<Rightarrow>
          (if HasPrefix path (old @ ''/'')
           then let path' = new @ drop (length old) path;
                    fs = upd_obj (mf_name_update (\<lambda>_. path')) a fs
                in rename_children old new paths (fs\<lparr>root_files := (root_files fs)(path' \<mapsto> a, path := None)\<rparr>)
           else rename_children old new paths fs))"

definition cmd_Rename :: "((string \<rightharpoonup> nat) \<Rightarrow> string list) \<Rightarrow> mem_request \<Rightarrow> root \<Rightarrow> go_error option \<times> root" where
  "cmd_Rename iter r fs =
     (case fetch fs (Filepath r) of
        Inl e \<Rightarrow> (Some e, fs)
      | Inr a \<Rightarrow>
          (if root_files fs (Target r) \<noteq> None
           then (Some (LinkError ''rename'' (Filepath r) (Target r) (ErrText ''dest file exists'')), fs)
           else let fs = upd_obj (mf_name_update (\<lambda>_. Target r)) a fs;
                    fs = fs\<lparr>root_files := (root_files fs)(Target r \<mapsto> a, Filepath r := None)\<rparr>
                in (None, if mf_isdir (objs fs ! a)
                          then rename_children (Filepath r) (Target r) (iter (root_files fs)) fs
                          else fs)))"

definition cmd_Remove :: "((string \<rightharpoonup> nat) \<Rightarrow> string list) \<Rightarrow> mem_request \<Rightarrow> root \<Rightarrow> go_error option \<times> root" where
  "cmd_Remove iter r fs =
     (case fetch fs (Dir (Filepath r)) of
        Inl e \<Rightarrow> (Some e, fs)
      | Inr d \<Rightarrow>
          (if mf_isdir (objs fs ! d) \<and> list_ex (\<lambda>path. HasPrefix path (Filepath r @ ''/'')) (iter (root_files fs))
           then (Some (PathError ''remove'' (Filepath r @ ''/'') (ErrText ''directory is not empty'')), fs)
           else (None, fs\<lparr>root_files := (root_files fs)(Filepath r := None)\<rparr>)))"

definition cmd_Mkdir :: "mem_request \<Rightarrow> root \<Rightarrow> go_error option \<times> root" where
  "cmd_Mkdir r fs =
     (case fetch fs (Dir (Filepath r)) of
        Inl e \<Rightarrow> (Some e, fs)
      | Inr _ \<Rightarrow> (case newMemFile (Filepath r) True fs of
                   (a, fs) \<Rightarrow> (None, fs\<lparr>root_files := (root_files fs)(Filepath r \<mapsto> a)\<rparr>)))"

definition cmd_Link :: "mem_request \<Rightarrow> root \<Rightarrow> go_error option \<times> root" where
  "cmd_Link r fs =
     (case fetch fs (Filepath r) of
        Inl e \<Rightarrow> (Some e, fs)
      | Inr a \<Rightarrow> (if mf_isdir (objs fs ! a) then (Some (ErrText ''hard link not allowed for directory''), fs)
                 else (None, fs\<lparr>root_files := (root_files fs)(Target r \<mapsto> a)\<rparr>)))"

definition cmd_Symlink :: "mem_request \<Rightarrow> root \<Rightarrow> go_error option \<times> root" where
  "cmd_Symlink r fs =
     (case fetch fs (Filepath r) of
        Inl e \<Rightarrow> (Some e, fs)
      | Inr _ \<Rightarrow> (case newMemFile (Target r) False fs of
                   (a, fs) \<Rightarrow> (let fs = upd_obj (mf_symlink_update (\<lambda>_. Filepath r)) a fs
                              in (None, fs\<lparr>root_files := (root_files fs)(Target r \<mapsto> a)\<rparr>))))"

definition mem_Filecmd :: "((string \<rightharpoonup> nat) \<Rightarrow> string list) \<Rightarrow> (nat \<Rightarrow> nat \<Rightarrow> nat) \<Rightarrow> mem_request \<Rightarrow> root \<Rightarrow>
    (go_error option \<times> root) option" where
  "mem_Filecmd iter extra r fs =
     (case root_mockErr fs of
        Some e \<Rightarrow> Some (Some e, fs)
      | None \<Rightarrow>
          (if Method r = ''Setstat''
           then (case fetch fs (Filepath r) of
                   Inl e \<Rightarrow> Some (Some e, fs)
                 | Inr a \<Rightarrow> (if fa_Size (AttrFlags r) then memFile_Truncate extra a (fs_Size (Attributes r)) fs
                            else Some (None, fs)))
           else if Method r = ''Rename'' then Some (cmd_Rename iter r fs)
           else if Method r = ''Rmdir'' \<or> Method r = ''Remove'' then Some (cmd_Remove iter r fs)
           else if Method r = ''Mkdir'' then Some (cmd_Mkdir r fs)
           else if Method r = ''Link'' then Some (cmd_Link r fs)
           else if Method r = ''Symlink'' then Some (cmd_Symlink r fs)
           else Some (None, fs)))"

text \<open>The lister holds pointers; what it lists is the state of the files at that moment.\<close>

definition listerat_ListAt :: "nat list \<Rightarrow> nat \<Rightarrow> u64 \<Rightarrow> root \<Rightarrow> (fileInfo list \<times> go_error option \<times> root) option" where
  "listerat_ListAt f n offset fs =
     (if sint offset \<ge> int (length f) then Some ([], Some EOF, fs)
      else if sint offset < 0 then None
      else let ls = take n (drop (nat (sint offset)) f)
           in Some (map (\<lambda>a. memFile_info (objs fs ! a)) ls, if length ls < n then Some EOF else None, fs))"

definition mem_Filelist :: "((string \<rightharpoonup> nat) \<Rightarrow> string list) \<Rightarrow> mem_request \<Rightarrow> root \<Rightarrow>
    (nat list option \<times> go_error option \<times> root) option" where
  "mem_Filelist iter r fs =
     Some (case root_mockErr fs of
             Some e \<Rightarrow> (None, Some e, fs)
           | None \<Rightarrow>
               (case fetch fs (Filepath r) of
                  Inl e \<Rightarrow> (None, Some e, fs)
                | Inr a \<Rightarrow>
                    (if Method r = ''List''
                     then if \<not> mf_isdir (objs fs ! a) then (None, Some ENOTDIR, fs)
                          else let orderedNames = sort (filter (\<lambda>fn. Dir fn = Filepath r) (iter (root_files fs)))
                               in (Some (map (\<lambda>fn. the (root_files fs fn)) orderedNames), None, fs)
                     else if Method r = ''Stat'' then (Some [a], None, fs)
                     else if Method r = ''Readlink''
                     then (case (if mf_symlink (objs fs ! a) \<noteq> [] then fetch fs (mf_symlink (objs fs ! a)) else Inr a) of
                             Inl e \<Rightarrow> (None, Some e, fs)
                           | Inr a \<Rightarrow> (Some [a], None, fs))
                     else (None, None, fs))))"

definition mem_Handlers :: "((string \<rightharpoonup> nat) \<Rightarrow> string list) \<Rightarrow> (nat \<Rightarrow> nat \<Rightarrow> nat) \<Rightarrow> (root, slice, nat, nat list) Handlers" where
  "mem_Handlers iter extra =
     \<lparr>Fileread = mem_Fileread, Filewrite = mem_Filewrite, Filecmd = mem_Filecmd iter extra, Filelist = mem_Filelist iter,
      ReadAt = bytes_ReadAt, WriteAt = memFile_WriteAt, ListAt = listerat_ListAt,
      rd_Close = (\<lambda>_. None), wr_Close = (\<lambda>_. None), rd_TransferError = (\<lambda>_. None),
      wr_TransferError = (\<lambda>a. Some (memFile_TransferError a))\<rparr>"

text \<open>\<^verbatim>\<open>InMemHandler\<close>: the empty file system.\<close>

definition InMemHandler :: "u64 \<Rightarrow> root" where
  "InMemHandler now =
     (case newMemFile ''/'' True
             \<lparr>root_file = 0, root_files = Map.empty, root_mockErr = None, objs = [], arrays = [], root_now = now\<rparr> of
        (a, fs) \<Rightarrow> fs\<lparr>root_file := a\<rparr>)"

end
