(* ===== verification/Request_Safety.thy ===== *)
theory Request_Safety
  imports Request_Server Server_Safety
begin

text \<open>
  What the handler-based server of \<open>Request_Server\<close> promises to its clients and to the handlers: handles, answers, and the paths
  that reach a handler.
\<close>

subsection \<open>Handles\<close>

definition rs_inv :: "('rd, 'wr, 'ls) RequestServer \<Rightarrow> bool" where
  "rs_inv rs \<longleftrightarrow> 0 \<le> sint (rs_handleCount rs) \<and> dom (openRequests rs) \<subseteq> issued_upto (sint (rs_handleCount rs))"

lemma nextRequest_law:
  assumes "rs_inv rs" "sint (rs_handleCount rs) < 2 ^ 63 - 1" "nextRequest rs r = (h, rs')"
  shows "rs_inv rs' \<and> h = Itoa (sint (rs_handleCount rs) + 1) \<and>
    sint (rs_handleCount rs') = sint (rs_handleCount rs) + 1 \<and> openRequests rs' = (openRequests rs)(h \<mapsto> r\<lparr>r_handle := h\<rparr>)"
  using assms sint_plus_one [OF assms(2)] issued_next [of "sint (rs_handleCount rs)"]
  by (auto simp: rs_inv_def nextRequest_def Let_def split: if_splits dest: subsetD [OF _ domI])

interpretation rh: handle_table nextRequest deleteRequest openRequests "\<lambda>h r. r\<lparr>r_handle := h\<rparr>"
  "\<lambda>rs. sint (rs_handleCount rs)" "2 ^ 63 - 1" rs_inv
proof unfold_locales
  fix s :: "('a, 'b, 'c) RequestServer" and f h s'
  assume "rs_inv s" "sint (rs_handleCount s) < 2 ^ 63 - 1" "nextRequest s f = (h, s')"
  then show "rs_inv s' \<and> h = Itoa (sint (rs_handleCount s) + 1) \<and>
      sint (rs_handleCount s') = sint (rs_handleCount s) + 1 \<and> openRequests s' = (openRequests s)(h \<mapsto> f\<lparr>r_handle := h\<rparr>)"
    by (rule nextRequest_law)
qed (auto simp: rs_inv_def deleteRequest_def)

lemma rs_inv_new: "rs_inv (NewRequestServer hp exts n)"
proof -
  have "rs_inv rs \<Longrightarrow> rs_inv (((\<lambda>rs. rs\<lparr>rs_alloc := Some (newAllocator hp)\<rparr>) ^^ n) rs)" for rs :: "('a, 'b, 'c) RequestServer"
    by (induction n) (auto simp: rs_inv_def)
  then show ?thesis by (simp add: NewRequestServer_def rs_inv_def)
qed

subsection \<open>What a call keeps of its request\<close>

text \<open>A call answers under the packet's id and changes nothing of the request but its list offset and, for fsetstat, its attributes.\<close>

definition same_request :: "('rd, 'wr, 'ls) Request \<Rightarrow> ('rd, 'wr, 'ls) Request \<Rightarrow> bool" where
  "same_request r r' \<longleftrightarrow> Method r' = Method r \<and> Filepath r' = Filepath r \<and> Target r' = Target r \<and> r_handle r' = r_handle r \<and>
     readerAt (r_state r') = readerAt (r_state r) \<and> writerAt (r_state r') = writerAt (r_state r) \<and>
     listerAt (r_state r') = listerAt (r_state r)"

lemma same_request_refl [simp]: "same_request r r"
  by (simp add: same_request_def)

text \<open>An answer under the id \<open>i\<close> that gives out no handle.\<close>

definition plain_answer :: "u32 \<Rightarrow> responsePacket \<Rightarrow> bool" where
  "plain_answer i rp \<longleftrightarrow> responsePacket_id rp = i \<and> (\<forall>j k. rp \<noteq> sshFxpHandlePacket j k)"

lemma plain_answers [simp]:
  "plain_answer i (statusFromError i e)" "plain_answer i (name_response i f)" "plain_answer i (sshFxpDataPacket i n d)"
  "plain_answer i (sshFxpNamePacket i ns)" "plain_answer i (sshFxpStatResponse i fi)" "plain_answer i (cleanPacketPath i f)"
  by (auto simp: plain_answer_def statusFromError_def name_response_def cleanPacketPath_def split: option.split)

lemma status_id [simp]: "responsePacket_id (statusFromError i e) = i"
  by (simp add: statusFromError_def split: option.split)

lemma fileget_keeps:
  "fileget h mem r pkt al oid w = Some (rp, r', al', w') \<Longrightarrow> plain_answer (workPacket_id pkt) rp \<and> same_request r r'"
  by (auto simp: fileget_def same_request_def split: option.splits Option.bind_splits prod.splits if_splits)

lemma fileput_keeps:
  "fileput h mem r pkt al oid w = Some (rp, r', al', w') \<Longrightarrow> plain_answer (workPacket_id pkt) rp \<and> same_request r r'"
  by (auto simp: fileput_def same_request_def split: option.splits Option.bind_splits prod.splits if_splits)

lemma filecmd_keeps:
  "filecmd h r pkt al w = Some (rp, r', al', w') \<Longrightarrow> plain_answer (workPacket_id pkt) rp \<and> same_request r r'"
  by (auto simp: filecmd_def same_request_def
      split: workPacket.splits requestPacket.splits goval.splits Option.bind_splits prod.splits)

lemma filelist_keeps:
  "filelist os h r pkt al w = Some (rp, r', al', w') \<Longrightarrow> plain_answer (workPacket_id pkt) rp \<and> same_request r r'"
  by (auto simp: filelist_def same_request_def lsInc_def Let_def split: option.splits Option.bind_splits prod.splits if_splits)

lemma filestat_keeps:
  "filestat h r pkt al w = Some (rp, r', al', w') \<Longrightarrow> plain_answer (workPacket_id pkt) rp \<and> same_request r r'"
  by (auto simp: filestat_def same_request_def split: Option.bind_splits prod.splits if_splits list.splits)

lemma call_keeps:
  "call os h mem r pkt al oid w = Some (rp, r', al', w') \<Longrightarrow> plain_answer (workPacket_id pkt) rp \<and> same_request r r'"
  unfolding call_def
  by (auto split: if_splits 
      dest: fileget_keeps fileput_keeps filecmd_keeps filelist_keeps filestat_keeps)

lemma req_open_keeps:
  "req_open h r i w = Some (rp, r', w') \<Longrightarrow>
   responsePacket_id rp = i \<and> (\<forall>j k. rp = sshFxpHandlePacket j k \<longrightarrow> k = r_handle r) \<and> Filepath r' = Filepath r \<and> Target r' = Target r \<and> r_handle r' = r_handle r"
  by (auto simp: req_open_def Let_def statusFromError_def split: Option.bind_splits prod.splits if_splits option.splits)

lemma req_opendir_keeps:
  "req_opendir h r i w = Some (rp, r', w') \<Longrightarrow>
   responsePacket_id rp = i \<and> (\<forall>j k. rp = sshFxpHandlePacket j k \<longrightarrow> k = r_handle r) \<and> Filepath r' = Filepath r \<and> Target r' = Target r \<and> r_handle r' = r_handle r"
  by (auto simp: req_opendir_def Let_def statusFromError_def setListerState_def split: Option.bind_splits prod.splits option.splits)

subsection \<open>The table after a request\<close>

text \<open>A request opens one handle, closes one, or puts a changed request back under its handle.\<close>

definition rs_grows :: "u32 \<Rightarrow> responsePacket \<Rightarrow> ('rd, 'wr, 'ls) RequestServer \<Rightarrow> ('rd, 'wr, 'ls) RequestServer \<Rightarrow> bool" where
  "rs_grows i rp rs rs' \<longleftrightarrow> rs_inv rs' \<and> responsePacket_id rp = i \<and>
     (plain_answer i rp \<and> rs_handleCount rs' = rs_handleCount rs \<and> dom (openRequests rs') \<subseteq> dom (openRequests rs) \<or>
      (\<exists>r. sint (rs_handleCount rs') = sint (rs_handleCount rs) + 1 \<and>
           openRequests rs' = (openRequests rs)(Itoa (sint (rs_handleCount rs) + 1) \<mapsto> r) \<and>
           (\<forall>j k. rp = sshFxpHandlePacket j k \<longrightarrow> k = Itoa (sint (rs_handleCount rs) + 1))))"

lemma rs_grows_same:
  "rs_inv rs \<Longrightarrow> plain_answer i rp \<Longrightarrow> rs_handleCount rs' = rs_handleCount rs \<Longrightarrow>
   dom (openRequests rs') \<subseteq> dom (openRequests rs) \<Longrightarrow> rs_grows i rp rs rs'"
  by (auto simp: rs_grows_def rs_inv_def plain_answer_def)

lemma open_new_grows:
  assumes "open_new op rs pkt path w = Some (rp, rs', w')" "rs_inv rs" "sint (rs_handleCount rs) < 2 ^ 63 - 1"
    and "\<And>r i w rp r' w'. op r i w = Some (rp, r', w') \<Longrightarrow>
        responsePacket_id rp = i \<and> (\<forall>j k. rp = sshFxpHandlePacket j k \<longrightarrow> k = r_handle r)"
  shows "rs_grows (workPacket_id pkt) rp rs rs'"
proof -
  from assms(1) obtain r h rs1 r' where
    n: "nextRequest rs r = (h, rs1)" and o: "op (r\<lparr>r_handle := h\<rparr>) (workPacket_id pkt) w = Some (rp, r', w')"
    and rs': "rs' = putRequest rs1 h r'"
    by (auto simp: open_new_def split: Option.bind_splits prod.splits)
  note law = nextRequest_law [OF assms(2,3) n]
  with rs' assms(4) [OF o] show ?thesis
    by (auto simp: rs_grows_def putRequest_def rs_inv_def dest: subsetD [OF _ domI])
qed

lemma call_fresh_keeps:
  "call_fresh os h mem rs r pkt oid w = Some (rp, r', rs', w') \<Longrightarrow>
   plain_answer (workPacket_id pkt) rp \<and> same_request r r' \<and> (\<exists>al. rs' = rs\<lparr>rs_alloc := al\<rparr>)"
  by (auto simp: call_fresh_def split: Option.bind_splits prod.splits dest: call_keeps)

lemma call_handle_grows:
  assumes "call_handle os h mem rs k pkt oid w = Some (rp, rs', w')" "rs_inv rs"
  shows "rs_grows (workPacket_id pkt) rp rs rs'"
proof (cases "openRequests rs k")
  case None
  with assms show ?thesis by (auto simp: call_handle_def getRequest_def intro: rs_grows_same)
next
  case (Some r)
  with assms(1) obtain r' rs1 where
    c: "call_fresh os h mem rs r pkt oid w = Some (rp, r', rs1, w')" and rs': "rs' = putRequest rs1 k r'"
    by (auto simp: call_handle_def getRequest_def split: Option.bind_splits prod.splits)
  from call_fresh_keeps [OF c] obtain al where "rs1 = rs\<lparr>rs_alloc := al\<rparr>" "plain_answer (workPacket_id pkt) rp" by auto
  with Some rs' assms(2) show ?thesis by (auto simp: putRequest_def intro!: rs_grows_same split: if_splits)
qed

lemma call_path_of_grows:
  "call_path_of os h mem rs k m pkt oid w = Some (rp, rs', w') \<Longrightarrow> rs_inv rs \<Longrightarrow>
   rs_grows (workPacket_id pkt) rp rs rs'"
  by (auto simp: call_path_of_def getRequest_def split: option.splits Option.bind_splits prod.splits
      dest!: call_fresh_keeps intro!: rs_grows_same)

lemma closeRequest_grows:
  "closeRequest h rs k w = (e, rs', w') \<Longrightarrow> rs_inv rs \<Longrightarrow> rs_grows i (statusFromError i e) rs rs'"
  by (auto simp: closeRequest_def deleteRequest_def split: option.splits prod.splits if_splits intro!: rs_grows_same)

lemma open_new_open_grows:
  assumes "open_new (req_open h) rs pkt path w = Some (rp, rs', w')" "rs_inv rs" "sint (rs_handleCount rs) < 2 ^ 63 - 1"
  shows "rs_grows (workPacket_id pkt) rp rs rs'"
  using assms by (rule open_new_grows) (auto dest: req_open_keeps)

lemma open_new_opendir_grows:
  assumes "open_new (req_opendir h) rs pkt path w = Some (rp, rs', w')" "rs_inv rs" "sint (rs_handleCount rs) < 2 ^ 63 - 1"
  shows "rs_grows (workPacket_id pkt) rp rs rs'"
  using assms by (rule open_new_grows) (auto dest: req_opendir_keeps)

text \<open>The packets that are requests for a path of their own.\<close>

definition path_call :: "('w, 'f) os_api \<Rightarrow> ('w, 'rd, 'wr, 'ls) Handlers \<Rightarrow> (page \<Rightarrow> nat \<Rightarrow> byte) \<Rightarrow>
    ('rd, 'wr, 'ls) RequestServer \<Rightarrow> workPacket \<Rightarrow> string \<Rightarrow> u32 \<Rightarrow> 'w \<Rightarrow> ('w, 'rd, 'wr, 'ls) work_result" where
  "path_call os h mem rs pkt path oid w =
     do {
       request \<leftarrow> requestFromPacket pkt path;
       (rpkt, request, rs, w) \<leftarrow> call_fresh os h mem rs request pkt oid w;
       let (_, w) = req_close h request w;
       Some (rpkt, rs, w) }"

lemma path_call_grows:
  "path_call os h mem rs pkt path oid w = Some (rp, rs', w') \<Longrightarrow> rs_inv rs \<Longrightarrow>
   rs_grows (workPacket_id pkt) rp rs rs'"
  by (auto simp: path_call_def Let_def split: Option.bind_splits prod.splits dest!: call_fresh_keeps intro!: rs_grows_same)

text \<open>The branches of the dispatch.\<close>

lemma handleWork_cases [consumes 1, case_names init close realpath opendir openfile path_of posix handle path unsupported]:
  assumes "handleWork os h mem rs pkt oid w = res"
  obtains v e where "pkt = Req (sshFxInitPacket v e)" "res = Some (sshFxVersionPacket sftpProtocolVersion (rs_sftpExtensions rs), rs, w)"
  | i k where "pkt = Req (sshFxpClosePacket i k)"
      "res = (case closeRequest h rs k w of (err, rs, w) \<Rightarrow> Some (statusFromError i err, rs, w))"
  | i p where "pkt = Req (sshFxpRealpathPacket i p)" "res = Some (cleanPacketPath i p, rs, w)"
  | i p where "pkt = Req (sshFxpOpendirPacket i p)" "res = open_new (req_opendir h) rs pkt p w"
  | i p f m where "pkt = Req (sshFxpOpenPacket i p f m)" "res = open_new (req_open h) rs pkt p w"
  | k m where "getHandle pkt = Some k" "m = requestMethod pkt" "m = ''Stat'' \<or> m = ''Setstat''" "res = call_path_of os h mem rs k m pkt oid w"
  | i q old new where "pkt = Spec (sshFxpExtendedPacketPosixRename i q old new)"
      "res = do { (rpkt, _, rs, w) \<leftarrow> call_fresh os h mem rs ((NewRequest ''Rename'' old)\<lparr>Target := new\<rparr>) pkt oid w; Some (rpkt, rs, w) }"
  | k where "getHandle pkt = Some k" "requestMethod pkt = []" "res = call_handle os h mem rs k pkt oid w"
  | p where "getPath pkt = Some p" "requestMethod pkt \<noteq> []" "res = path_call os h mem rs pkt p oid w"
  | "getPath pkt = None" "res = Some (statusFromError (workPacket_id pkt) (Some ErrSSHFxOpUnsupported), rs, w)"
proof (cases pkt)
  case (Req q)
  show thesis by (cases q) (use assms Req in \<open>auto simp: handleWork_def path_call_def intro: that\<close>)
next
  case (Spec s)
  show thesis by (cases s) (use assms Spec in \<open>auto simp: handleWork_def path_call_def intro: that\<close>)
qed

lemma handleWork_grows:
  assumes "handleWork os h mem rs pkt oid w = Some (rp, rs', w')" "rs_inv rs" "sint (rs_handleCount rs) < 2 ^ 63 - 1"
  shows "rs_grows (workPacket_id pkt) rp rs rs'"
  using assms(1)
proof (cases rule: handleWork_cases)
  case (close i k)
  with assms(2) show ?thesis by (auto split: prod.splits dest: closeRequest_grows)
next
  case (opendir i p)
  with assms(2,3) show ?thesis using open_new_opendir_grows by metis
next
  case (openfile i p f m)
  with assms(2,3) show ?thesis using open_new_open_grows by metis
next
  case (path_of k m)
  with assms(2) show ?thesis using call_path_of_grows by metis
next
  case (posix i q old new)
  with assms(2) show ?thesis by (auto split: Option.bind_splits prod.splits dest!: call_fresh_keeps intro!: rs_grows_same)
next
  case (handle k)
  with assms(2) show ?thesis using call_handle_grows by metis
next
  case (path p)
  with assms(2) show ?thesis using path_call_grows by metis
qed (use assms(2) in \<open>auto simp: plain_answer_def [of _ "sshFxVersionPacket _ _"] intro: rs_grows_same\<close>)

subsection \<open>Every queued request is answered\<close>

text \<open>Handlers that never panic, and give a lister when they report no error.\<close>

definition handlers_total :: "('w, 'rd, 'wr, 'ls) Handlers \<Rightarrow> bool" where
  "handlers_total h \<longleftrightarrow>
     (\<forall>r w. Fileread h r w \<noteq> None \<and> Filewrite h r w \<noteq> None \<and> Filecmd h r w \<noteq> None) \<and>
     (\<forall>r w. \<exists>ls err w'. Filelist h r w = Some (ls, err, w') \<and> (err = None \<longrightarrow> ls \<noteq> None)) \<and>
     (\<forall>rd n off w. ReadAt h rd n off w \<noteq> None) \<and> (\<forall>wr d off w. WriteAt h wr d off w \<noteq> None) \<and>
     (\<forall>ls n off w. ListAt h ls n off w \<noteq> None)"

lemma handlers_totalD:
  assumes "handlers_total h"
  shows "Fileread h r w = None \<longleftrightarrow> False" "Filewrite h r w = None \<longleftrightarrow> False" "Filecmd h r w = None \<longleftrightarrow> False"
    "ReadAt h rd n off w = None \<longleftrightarrow> False" "WriteAt h wr d off w = None \<longleftrightarrow> False" "ListAt h ls n off w = None \<longleftrightarrow> False"
    "Filelist h r w = None \<longleftrightarrow> False" "Filelist h r w = Some (None, None, w') \<longleftrightarrow> False"
proof -
  show "Filelist h r w = None \<longleftrightarrow> False" "Filelist h r w = Some (None, None, w') \<longleftrightarrow> False"
    using assms unfolding handlers_total_def by (metis option.distinct(1), metis option.inject prod.inject)
qed (use assms in \<open>auto simp: handlers_total_def\<close>)

definition work_attrs :: "workPacket \<Rightarrow> bool" where
  "work_attrs pkt \<longleftrightarrow> (case pkt of Req q \<Rightarrow> has_attrs q | Spec _ \<Rightarrow> True)"

lemma fileget_total: "handlers_total h \<Longrightarrow> fileget h mem r pkt al oid w \<noteq> None"
  by (auto simp: fileget_def handlers_totalD split: option.split prod.split Option.bind_split)

lemma fileput_total: "handlers_total h \<Longrightarrow> fileput h mem r pkt al oid w \<noteq> None"
  by (auto simp: fileput_def handlers_totalD split: option.split prod.split Option.bind_split)

lemma filecmd_total: "handlers_total h \<Longrightarrow> work_attrs pkt \<Longrightarrow> filecmd h r pkt al w \<noteq> None"
  by (auto simp: filecmd_def handlers_totalD work_attrs_def is_bytes_def
      split: workPacket.splits requestPacket.splits goval.splits prod.split Option.bind_split)

lemma filelist_total: "handlers_total h \<Longrightarrow> filelist os h r pkt al w \<noteq> None"
  by (auto simp: filelist_def Let_def handlers_totalD split: option.split prod.split Option.bind_split)

lemma filestat_total:
  assumes "handlers_total h"
  shows "filestat h r pkt al w \<noteq> None"
proof (cases "Filelist h r w")
  case None
  with assms show ?thesis by (simp add: handlers_totalD)
next
  case (Some x)
  obtain ls err w' where x: "x = (ls, err, w')" by (rule prod_cases3)
  have "ls \<noteq> None \<or> err \<noteq> None" using Some x handlers_totalD(8) [OF assms, of r w w'] by auto
  with Some x assms show ?thesis by (auto simp: filestat_def handlers_totalD split: prod.split Option.bind_split)
qed

lemma call_total: "handlers_total h \<Longrightarrow> work_attrs pkt \<Longrightarrow> call os h mem r pkt al oid w \<noteq> None"
  using fileget_total fileput_total filecmd_total filelist_total filestat_total unfolding call_def by (auto split: if_split)

lemma requestFromPacket_total: "work_attrs pkt \<Longrightarrow> requestFromPacket pkt p \<noteq> None"
  by (auto simp: requestFromPacket_def work_attrs_def is_bytes_def Let_def
      split: workPacket.splits requestPacket.splits specificPacket.splits goval.splits)

lemma call_fresh_total: "handlers_total h \<Longrightarrow> work_attrs pkt \<Longrightarrow> call_fresh os h mem rs r pkt oid w \<noteq> None"
  using call_total [of h pkt os mem r "rs_alloc rs" oid w] by (auto simp: call_fresh_def split: Option.bind_split)

lemma open_total: "handlers_total h \<Longrightarrow> req_open h r i w \<noteq> None" "handlers_total h \<Longrightarrow> req_opendir h r i w \<noteq> None"
  by (auto simp: req_open_def req_opendir_def Let_def handlers_totalD split: Option.bind_split prod.split)

lemma open_new_total:
  "work_attrs pkt \<Longrightarrow> (\<And>r i w. op r i w \<noteq> None) \<Longrightarrow> open_new op rs pkt p w \<noteq> None"
  using requestFromPacket_total [of pkt p]
  by (auto simp: open_new_def simp del: not_None_eq split: Option.bind_split prod.split)

lemma handleWork_total:
  fixes h :: "('w, 'rd, 'wr, 'ls) Handlers"
  assumes "handlers_total h" "work_attrs pkt"
  shows "handleWork os h mem rs pkt oid w \<noteq> None"
proof -
  have cf: "call_fresh os h mem rs r pkt oid w \<noteq> None" for rs r w using assms by (rule call_fresh_total)
  obtain res where res: "handleWork os h mem rs pkt oid w = res" by simp
  from this have "res \<noteq> None"
  proof (cases rule: handleWork_cases)
    case (opendir i p)
    with assms open_total(2) [of h] open_new_total [of pkt "req_opendir h"] show ?thesis by simp
  next
    case (openfile i p f m)
    with assms open_total(1) [of h] open_new_total [of pkt "req_open h"] show ?thesis by simp
  next
    case (path p)
    obtain r :: "('rd, 'wr, 'ls) Request" where r: "requestFromPacket pkt p = Some r"
      using requestFromPacket_total [OF assms(2), of p] by (auto simp: not_None_eq)
    obtain x where "call_fresh os h mem rs r pkt oid w = Some x" using cf by blast
    with r have "path_call os h mem rs pkt p oid w \<noteq> None"
      by (auto simp: path_call_def split: prod.split)
    with path show ?thesis by simp
  qed (use cf in \<open>auto simp: call_path_of_def call_handle_def simp del: not_None_eq
      split: option.split Option.bind_split prod.split\<close>)
  with res show ?thesis by simp
qed

lemma setstat_error_cause:
  "unmarshal_Setstat b = (q, Some e) \<Longrightarrow> errors_Cause e \<noteq> ErrUnknownExtendedPacket"
  "unmarshal_Fsetstat b = (q, Some e) \<Longrightarrow> errors_Cause e \<noteq> ErrUnknownExtendedPacket"
  by (auto simp: decode_defs try_field_def unmarshalUint32Safe_def unmarshalStringSafe_def
      split: sum.splits prod.splits if_splits option.splits)

lemma serveLoop_queued:
  assumes "serveLoop rd al oid = (LoopQueued pkt, rd', al')"
  obtains q where "pkt = Some q" "consistent q" "has_attrs q"
proof -
  from assms obtain t b e where m: "makePacket t b = (pkt, e)" and e: "e \<noteq> None \<Longrightarrow> errors_Cause (the e) = ErrUnknownExtendedPacket"
    by (auto simp: serveLoop_def split: prod.splits recv_result.splits option.splits if_splits)
  show thesis
  proof (cases pkt)
    case None
    with m e show ?thesis by (auto simp: makePacket_def split: if_splits prod.splits)
  next
    case (Some q)
    with m have mq: "makePacket t b = (Some q, e)" by simp
    have "has_attrs q"
    proof (rule ccontr)
      assume "\<not> has_attrs q"
      with makePacket_consistent(2) [OF mq] have "e \<noteq> None" "t \<in> {sshFxpSetstat, sshFxpFsetstat}" by auto
      with mq e setstat_error_cause [of b q] show False by (auto simp: makePacket_simps split: prod.splits)
    qed
    with that Some makePacket_consistent(1) [OF mq] show ?thesis by blast
  qed
qed

lemma unwrap_id: "consistent q \<Longrightarrow> workPacket_id (unwrap q) = requestPacket_id q"
  by (cases q) (auto simp: unwrap_def split: option.split)

lemma unwrap_attrs: "has_attrs q \<Longrightarrow> work_attrs (unwrap q)"
  by (auto simp: unwrap_def work_attrs_def split: requestPacket.splits option.splits)

text \<open>
  C23: the handler-based server answers every request it queues. If the handlers do not panic and give a lister
  whenever they report no error, then for every packet that the receive loop queues the worker returns with an answer that carries the
  packet's id, and the table of open requests stays well formed. In contrast to the server of
  server.go no packet that was cut short reaches a worker.
\<close>

theorem queued_requests_are_answered:
  assumes "handlers_total h" and "serveLoop rd al oid = (LoopQueued pkt, rd', al')"
    and "rs_inv rs" and "sint (rs_handleCount rs) < 2 ^ 63 - 1"
  shows "\<exists>q rp rs' w'. pkt = Some q \<and>
    packetWorker os h mem rs \<lparr>oreq_packet = pkt, oreq_orderid = oid\<rparr> w = Some (rp, rs', w') \<and>
    responsePacket_id rp = requestPacket_id q \<and> rs_inv rs'"
proof -
  from assms(2) obtain q where q: "pkt = Some q" "consistent q" "has_attrs q" by (rule serveLoop_queued)
  from handleWork_total [OF assms(1) unwrap_attrs [OF q(3)]] obtain rp rs' w' where
    run: "handleWork os h mem rs (unwrap q) oid w = Some (rp, rs', w')" by (metis not_Some_eq prod_cases3)
  from handleWork_grows [OF run assms(3,4)] unwrap_id [OF q(2)] have "responsePacket_id rp = requestPacket_id q \<and> rs_inv rs'"
    by (simp add: rs_grows_def)
  with q(1) run show ?thesis by (simp add: packetWorker_def)
qed

text \<open>Handlers for the witnesses: a disk with one file that reads as three bytes.\<close>

definition demo_handlers :: "(nat, unit, unit, unit) Handlers" where
  "demo_handlers =
     \<lparr>Fileread = \<lambda>_ w. Some (Some (), None, w), Filewrite = \<lambda>_ w. Some (Some (), None, w), Filecmd = \<lambda>_ w. Some (None, w + 1),
      Filelist = \<lambda>_ w. Some (Some (), None, w), ReadAt = \<lambda>_ n _ w. Some (take n [1, 2, 3], Some EOF, w),
      WriteAt = \<lambda>_ _ _ w. Some (None, w + 1), ListAt = \<lambda>_ _ _ w. Some ([], Some EOF, w),
      rd_Close = \<lambda>_. None, wr_Close = \<lambda>_. None, rd_TransferError = \<lambda>_. None, wr_TransferError = \<lambda>_. None\<rparr>"

theorem queued_requests_are_answered_witness:
  "\<exists>q rp rs' w'. fst (serveLoop \<lparr>incoming_bytes = packet_frame [sshFxpStat, 0, 0, 0, 9, 0, 0, 0, 1, 97], ends_with = EOF\<rparr> None 1) =
       LoopQueued (Some q) \<and>
     packetWorker demo_os demo_handlers (\<lambda>_ _. 0) (NewRequestServer 0 [] 0) \<lparr>oreq_packet = Some q, oreq_orderid = 1\<rparr> 0 =
       Some (rp, rs', w') \<and> responsePacket_id rp = 9"
proof -
  let ?b = "[sshFxpStat, 0, 0, 0, 9, 0, 0, 0, 1, 97]"
  have m: "makePacket sshFxpStat [0, 0, 0, 9, 0, 0, 0, 1, 97] = (Some (sshFxpStatPacket 9 ''a''), None)" by code_simp
  have "recvPacket \<lparr>incoming_bytes = packet_frame ?b, ends_with = EOF\<rparr> None 1 =
      (RecvOk sshFxpStat [0, 0, 0, 9, 0, 0, 0, 1, 97], \<lparr>incoming_bytes = [], ends_with = EOF\<rparr>, None)"
    using recvPacket_frame [of ?b _ "[]" None 1] by (simp add: maxMsgLength_def)
  with m have s: "serveLoop \<lparr>incoming_bytes = packet_frame ?b, ends_with = EOF\<rparr> None 1 =
      (LoopQueued (Some (sshFxpStatPacket 9 ''a'')), \<lparr>incoming_bytes = [], ends_with = EOF\<rparr>, None)"
    by (simp add: serveLoop_def)
  have t: "handlers_total demo_handlers" by (simp add: handlers_total_def demo_handlers_def)
  have c: "sint (rs_handleCount (NewRequestServer 0 [] 0 :: (unit, unit, unit) RequestServer)) < 2 ^ 63 - 1"
    by (simp add: NewRequestServer_def)
  from queued_requests_are_answered [OF t s rs_inv_new c, of demo_os "\<lambda>_ _. 0" 0] s show ?thesis by auto
qed

subsection \<open>Handles over a whole run\<close>

text \<open>The worker on a sequence of requests.\<close>

fun worker_run :: "('w, 'f) os_api \<Rightarrow> ('w, 'rd, 'wr, 'ls) Handlers \<Rightarrow> (page \<Rightarrow> nat \<Rightarrow> byte) \<Rightarrow>
    ('rd, 'wr, 'ls) RequestServer \<Rightarrow> orderedRequest list \<Rightarrow> 'w \<Rightarrow>
    (responsePacket list \<times> ('rd, 'wr, 'ls) RequestServer \<times> 'w) option" where
  "worker_run os h mem rs [] w = Some ([], rs, w)"
| "worker_run os h mem rs (pkt # pkts) w =
     do {
       (rp, rs, w) \<leftarrow> packetWorker os h mem rs pkt w;
       (rps, rs, w) \<leftarrow> worker_run os h mem rs pkts w;
       Some (rp # rps, rs, w) }"

fun handles_given :: "responsePacket list \<Rightarrow> string list" where
  "handles_given [] = []"
| "handles_given (sshFxpHandlePacket i k # rps) = k # handles_given rps"
| "handles_given (_ # rps) = handles_given rps"

lemma handles_given_plain: "plain_answer i rp \<Longrightarrow> handles_given (rp # rps) = handles_given rps"
  by (cases rp) (auto simp: plain_answer_def)

lemma packetWorker_grows:
  assumes "packetWorker os h mem rs pkt w = Some (rp, rs', w')" "rs_inv rs" "sint (rs_handleCount rs) < 2 ^ 63 - 1"
  shows "\<exists>i. rs_grows i rp rs rs'"
proof -
  from assms(1) obtain q where "handleWork os h mem rs (unwrap q) (oreq_orderid pkt) w = Some (rp, rs', w')"
    by (auto simp: packetWorker_def split: option.splits)
  from handleWork_grows [OF this assms(2,3)] show ?thesis ..
qed

lemma worker_run_handles:
  assumes "worker_run os h mem rs pkts w = Some (rps, rs', w')" "rs_inv rs"
    and "sint (rs_handleCount rs) + int (length pkts) \<le> 2 ^ 63 - 1"
  shows "rs_inv rs' \<and> distinct (handles_given rps) \<and> set (handles_given rps) \<inter> issued_upto (sint (rs_handleCount rs)) = {} \<and>
    (\<forall>k \<in> issued_upto (sint (rs_handleCount rs)). openRequests rs k = None \<longrightarrow> openRequests rs' k = None)"
  using assms
proof (induction pkts arbitrary: rs w rps)
  case (Cons pkt pkts)
  let ?n = "sint (rs_handleCount rs)"
  from Cons.prems(1) obtain rp rs1 w1 rps1 where
    p: "packetWorker os h mem rs pkt w = Some (rp, rs1, w1)" and
    r: "worker_run os h mem rs1 pkts w1 = Some (rps1, rs', w')" and rps: "rps = rp # rps1"
    by (auto split: Option.bind_splits prod.splits)
  have lim: "?n < 2 ^ 63 - 1" using Cons.prems(3) by simp
  have n0: "0 \<le> ?n" using Cons.prems(2) by (simp add: rs_inv_def)
  obtain i where "rs_grows i rp rs rs1" using packetWorker_grows [OF p Cons.prems(2) lim] ..
  then consider (same) "rs_inv rs1" "plain_answer i rp" "rs_handleCount rs1 = rs_handleCount rs"
      "dom (openRequests rs1) \<subseteq> dom (openRequests rs)"
    | (new) q where "rs_inv rs1" "sint (rs_handleCount rs1) = ?n + 1" "openRequests rs1 = (openRequests rs)(Itoa (?n + 1) \<mapsto> q)"
      "\<And>j k. rp = sshFxpHandlePacket j k \<Longrightarrow> k = Itoa (?n + 1)"
    by (auto simp: rs_grows_def)
  then show ?case
  proof cases
    case same
    from Cons.IH [OF r same(1)] Cons.prems(3) same show ?thesis
      unfolding rps by (auto simp: handles_given_plain dest: subsetD [OF _ domI])
  next
    case new
    note ih = Cons.IH [OF r new(1)]
    have fresh: "Itoa (?n + 1) \<notin> issued_upto ?n" using n0 issued_fresh by simp
    have up: "issued_upto (?n + 1) = insert (Itoa (?n + 1)) (issued_upto ?n)" using n0 by (rule issued_next)
    have "set (handles_given rps) \<subseteq> insert (Itoa (?n + 1)) (set (handles_given rps1)) \<and>
        (distinct (handles_given rps1) \<and> Itoa (?n + 1) \<notin> set (handles_given rps1) \<longrightarrow> distinct (handles_given rps))"
      using new(4) unfolding rps by (cases rp) auto
    moreover have "openRequests rs' k = None" if "k \<in> issued_upto ?n" "openRequests rs k = None" for k
    proof -
      have "k \<noteq> Itoa (?n + 1)" using that(1) fresh by auto
      with that ih Cons.prems(3) new(2,3) up show ?thesis by simp
    qed
    ultimately show ?thesis using ih Cons.prems(3) new(2) up fresh by auto
  qed
qed simp

text \<open>
  Handles are never given out twice. Over any sequence of requests, whatever the handlers do, the handles in
  the answers are pairwise distinct and were not given out before, and a handle given out earlier that is closed stays closed.
\<close>

theorem request_handles_never_reused:
  assumes "worker_run os h mem rs pkts w = Some (rps, rs', w')" and "rs_inv rs"
    and "sint (rs_handleCount rs) + int (length pkts) \<le> 2 ^ 63 - 1"
  shows "distinct (handles_given rps) \<and> set (handles_given rps) \<inter> issued_upto (sint (rs_handleCount rs)) = {} \<and>
    (\<forall>k \<in> issued_upto (sint (rs_handleCount rs)). openRequests rs k = None \<longrightarrow> openRequests rs' k = None)"
  using worker_run_handles [OF assms] by blast

theorem request_handles_never_reused_witness:
  "\<exists>rps rs' w'. worker_run demo_os demo_handlers (\<lambda>_ _. 0) (NewRequestServer 0 [] 0)
      [\<lparr>oreq_packet = Some (sshFxpOpenPacket 1 ''a'' sshFxfRead 0), oreq_orderid = 1\<rparr>,
       \<lparr>oreq_packet = Some (sshFxpClosePacket 2 ''1''), oreq_orderid = 2\<rparr>,
       \<lparr>oreq_packet = Some (sshFxpOpenPacket 3 ''a'' sshFxfRead 0), oreq_orderid = 3\<rparr>] 0 = Some (rps, rs', w') \<and>
     handles_given rps = [''1'', ''2''] \<and> distinct (handles_given rps)"
proof -
  let ?pkts = "[\<lparr>oreq_packet = Some (sshFxpOpenPacket 1 ''a'' sshFxfRead 0), oreq_orderid = 1\<rparr>,
       \<lparr>oreq_packet = Some (sshFxpClosePacket 2 ''1''), oreq_orderid = 2\<rparr>,
       \<lparr>oreq_packet = Some (sshFxpOpenPacket 3 ''a'' sshFxfRead 0), oreq_orderid = 3\<rparr>]"
  let ?rs = "NewRequestServer 0 [] 0 :: (unit, unit, unit) RequestServer"
  have c: "rs_handleCount ?rs = 0" by (simp add: NewRequestServer_def)
  have "map_option (\<lambda>(rps, _, _). handles_given rps) (worker_run demo_os demo_handlers (\<lambda>_ _. 0) ?rs ?pkts 0) = Some [''1'', ''2'']"
    by code_simp
  then obtain rps rs' w' where r: "worker_run demo_os demo_handlers (\<lambda>_ _. 0) ?rs ?pkts 0 = Some (rps, rs', w')"
    and g: "handles_given rps = [''1'', ''2'']" by auto
  have "distinct (handles_given rps)"
    using request_handles_never_reused [OF r rs_inv_new] by (simp add: c)
  with r g show ?thesis by blast
qed

subsection \<open>The paths a handler sees\<close>

text \<open>An absolute path in normal form, which has no \<open>..\<close> left in it.\<close>

definition confined_path :: "string \<Rightarrow> bool" where
  "confined_path p \<longleftrightarrow> IsAbs p \<and> Clean p = p \<and> ''..'' \<notin> set (split_on slash p)"

definition clean_request :: "('rd, 'wr, 'ls) Request \<Rightarrow> bool" where
  "clean_request r \<longleftrightarrow> confined_path (Filepath r) \<and> (Target r = [] \<or> confined_path (Target r))"

definition rs_clean :: "('rd, 'wr, 'ls) RequestServer \<Rightarrow> bool" where
  "rs_clean rs \<longleftrightarrow> (\<forall>k r. openRequests rs k = Some r \<longrightarrow> clean_request r)"

text \<open>The handlers \<open>h\<close> for clean requests and other handlers for the rest.\<close>

definition guarded :: "('w, 'rd, 'wr, 'ls) Handlers \<Rightarrow> ('w, 'rd, 'wr, 'ls) Handlers \<Rightarrow> ('w, 'rd, 'wr, 'ls) Handlers" where
  "guarded h alt =
     h\<lparr>Fileread := (\<lambda>r. if clean_request r then Fileread h r else Fileread alt r),
       Filewrite := (\<lambda>r. if clean_request r then Filewrite h r else Filewrite alt r),
       Filecmd := (\<lambda>r. if clean_request r then Filecmd h r else Filecmd alt r),
       Filelist := (\<lambda>r. if clean_request r then Filelist h r else Filelist alt r)\<rparr>"

lemma confined_cleanPath [simp]: "confined_path (cleanPath p)"
proof -
  let ?q = "if IsAbs p then p else slash # p"
  have abs: "IsAbs ?q" by (simp add: IsAbs_def)
  obtain es where es: "Clean ?q = render True es" "normal_elems True es" using Clean_cases [of ?q] abs by metis
  then show ?thesis
    using abs split_render [OF es(2)] by (auto simp: confined_path_def cleanPath_def normal_elems_def IsAbs_render Clean_render)
qed

lemma clean_NewRequest [simp]: "clean_request (NewRequest m p)"
  by (simp add: clean_request_def NewRequest_def)

lemma clean_request_update [simp]:
  "clean_request (r\<lparr>Method := m\<rparr>) = clean_request r" "clean_request (r\<lparr>Flags := f\<rparr>) = clean_request r"
  "clean_request (r\<lparr>Attrs := a\<rparr>) = clean_request r" "clean_request (r\<lparr>r_handle := k\<rparr>) = clean_request r"
  "clean_request (r\<lparr>r_state := s\<rparr>) = clean_request r"
  "confined_path t \<Longrightarrow> clean_request (r\<lparr>Target := t\<rparr>) = confined_path (Filepath r)"
  by (simp_all add: clean_request_def)

lemma clean_requestFromPacket: "requestFromPacket pkt p = Some r \<Longrightarrow> clean_request r"
  by (auto simp: requestFromPacket_def NewRequest_def clean_request_def Let_def
      split: workPacket.splits requestPacket.splits specificPacket.splits goval.splits)

lemma same_request_clean: "same_request r r' \<Longrightarrow> clean_request r' = clean_request r"
  by (simp add: same_request_def clean_request_def)

lemma guarded_simps [simp]:
  "ReadAt (guarded h alt) = ReadAt h" "WriteAt (guarded h alt) = WriteAt h" "ListAt (guarded h alt) = ListAt h"
  "rd_Close (guarded h alt) = rd_Close h" "wr_Close (guarded h alt) = wr_Close h"
  "clean_request r \<Longrightarrow> Fileread (guarded h alt) r = Fileread h r"
  "clean_request r \<Longrightarrow> Filewrite (guarded h alt) r = Filewrite h r"
  "clean_request r \<Longrightarrow> Filecmd (guarded h alt) r = Filecmd h r"
  "clean_request r \<Longrightarrow> Filelist (guarded h alt) r = Filelist h r"
  by (simp_all add: guarded_def)

lemma filecmd_guarded: "clean_request r \<Longrightarrow> filecmd (guarded h alt) r pkt al w = filecmd h r pkt al w"
  by (auto simp: filecmd_def split: workPacket.split requestPacket.split goval.split)

lemma filestat_guarded: "clean_request r \<Longrightarrow> filestat (guarded h alt) r pkt al w = filestat h r pkt al w"
  unfolding filestat_def guarded_simps(3) by simp

lemma call_guarded: "clean_request r \<Longrightarrow> call os (guarded h alt) mem r pkt al oid w = call os h mem r pkt al oid w"
  by (simp add: call_def fileget_def fileput_def filelist_def filestat_guarded filecmd_guarded split: option.split)

lemma call_fresh_guarded:
  "clean_request r \<Longrightarrow> call_fresh os (guarded h alt) mem rs r pkt oid w = call_fresh os h mem rs r pkt oid w"
  by (simp add: call_fresh_def call_guarded)

lemma open_guarded:
  "clean_request r \<Longrightarrow> req_open (guarded h alt) r i w = req_open h r i w"
  "clean_request r \<Longrightarrow> req_opendir (guarded h alt) r i w = req_opendir h r i w"
  by (simp_all add: req_open_def req_opendir_def Let_def cong: if_cong)

lemma open_new_guarded:
  "(\<And>r i w. clean_request r \<Longrightarrow> op' r i w = op r i w) \<Longrightarrow> open_new op' rs pkt p w = open_new op rs pkt p w"
  by (auto simp: open_new_def clean_requestFromPacket intro!: Option.bind_cong split: prod.split)

lemma req_close_guarded [simp]: "req_close (guarded h alt) = req_close h"
  by (simp add: req_close_def fun_eq_iff)

lemma path_call_guarded: "path_call os (guarded h alt) mem rs pkt p oid w = path_call os h mem rs pkt p oid w"
  by (auto simp: path_call_def clean_requestFromPacket call_fresh_guarded intro!: Option.bind_cong)

lemma handleWork_guarded:
  assumes "rs_clean rs" "\<And>i q old new. pkt \<noteq> Spec (sshFxpExtendedPacketPosixRename i q old new)"
  shows "handleWork os (guarded h alt) mem rs pkt oid w = handleWork os h mem rs pkt oid w"
proof -
  have handle: "call_handle os (guarded h alt) mem rs k pkt oid w = call_handle os h mem rs k pkt oid w" for k
    using assms(1) by (auto simp: call_handle_def getRequest_def rs_clean_def call_fresh_guarded split: option.split)
  have path_of: "call_path_of os (guarded h alt) mem rs k m pkt oid w = call_path_of os h mem rs k m pkt oid w" for k m
    by (auto simp: call_path_of_def call_fresh_guarded split: option.split)
  have opens: "open_new (req_open (guarded h alt)) rs pkt p w = open_new (req_open h) rs pkt p w"
      "open_new (req_opendir (guarded h alt)) rs pkt p w = open_new (req_opendir h) rs pkt p w" for p
    by (rule open_new_guarded, simp add: open_guarded)+
  have close: "closeRequest (guarded h alt) rs k w = closeRequest h rs k w" for k
    by (simp add: closeRequest_def split: option.split)
  show ?thesis
    unfolding handleWork_def handle path_of opens close path_call_def [symmetric] path_call_guarded
    using assms(2) by (auto split: workPacket.split specificPacket.split)
qed

lemma handleWork_clean:
  assumes "handleWork os h mem rs pkt oid w = Some (rp, rs', w')" "rs_clean rs"
  shows "rs_clean rs'"
  using assms(1)
proof (cases rule: handleWork_cases)
  case (close i k)
  with assms(2) show ?thesis
    by (auto simp: closeRequest_def deleteRequest_def rs_clean_def split: prod.splits option.splits if_splits)
next
  case (opendir i p)
  with assms(2) show ?thesis
    by (auto simp: open_new_def putRequest_def nextRequest_def rs_clean_def Let_def clean_request_def
        split: Option.bind_splits prod.splits if_splits dest!: req_opendir_keeps clean_requestFromPacket)
next
  case (openfile i p f m)
  with assms(2) show ?thesis
    by (auto simp: open_new_def putRequest_def nextRequest_def rs_clean_def Let_def clean_request_def
        split: Option.bind_splits prod.splits if_splits dest!: req_open_keeps clean_requestFromPacket)
next
  case (handle k)
  with assms(2) show ?thesis
    by (auto simp: call_handle_def getRequest_def putRequest_def rs_clean_def
        split: option.splits Option.bind_splits prod.splits if_splits dest!: call_fresh_keeps dest: same_request_clean)
next
  case (path p)
  with assms(2) show ?thesis
    by (auto simp: path_call_def rs_clean_def Let_def split: Option.bind_splits prod.splits dest!: call_fresh_keeps)
qed (use assms(2) in \<open>auto simp: call_path_of_def rs_clean_def split: option.splits Option.bind_splits prod.splits
      dest!: call_fresh_keeps\<close>)

text \<open>
  C25: handlers only see confined paths. As long as the client sends no posix-rename request, every request that
  reaches a handler has an absolute path in normal form, without \<open>..\<close>, and so has its target if it has one: handlers that do
  something else on all other requests cannot be told apart. The requests in the table keep this property.
\<close>

theorem handlers_see_confined_paths:
  assumes "rs_clean rs" and "\<forall>i e j q old new. p \<noteq> sshFxpExtendedPacket i e (Some (sshFxpExtendedPacketPosixRename j q old new))"
  shows "packetWorker os (guarded h alt) mem rs \<lparr>oreq_packet = Some p, oreq_orderid = oid\<rparr> w =
       packetWorker os h mem rs \<lparr>oreq_packet = Some p, oreq_orderid = oid\<rparr> w \<and>
     (\<forall>rp rs' w'. packetWorker os h mem rs \<lparr>oreq_packet = Some p, oreq_orderid = oid\<rparr> w = Some (rp, rs', w') \<longrightarrow> rs_clean rs')"
proof
  have "unwrap p \<noteq> Spec (sshFxpExtendedPacketPosixRename i q old new)" for i q old new
    using assms(2) by (auto simp: unwrap_def split: requestPacket.splits option.splits)
  then show "packetWorker os (guarded h alt) mem rs \<lparr>oreq_packet = Some p, oreq_orderid = oid\<rparr> w =
      packetWorker os h mem rs \<lparr>oreq_packet = Some p, oreq_orderid = oid\<rparr> w"
    using assms(1) by (simp add: packetWorker_def handleWork_guarded)
  show "\<forall>rp rs' w'. packetWorker os h mem rs \<lparr>oreq_packet = Some p, oreq_orderid = oid\<rparr> w = Some (rp, rs', w') \<longrightarrow> rs_clean rs'"
    using assms(1) handleWork_clean by (fastforce simp: packetWorker_def)
qed

theorem handlers_see_confined_paths_witness:
  "\<forall>alt. packetWorker demo_os (guarded demo_handlers alt) (\<lambda>_ _. 0) (NewRequestServer 0 [] 0)
       \<lparr>oreq_packet = Some (sshFxpRemovePacket 3 ''../../etc/passwd''), oreq_orderid = 1\<rparr> 0 =
     packetWorker demo_os demo_handlers (\<lambda>_ _. 0) (NewRequestServer 0 [] 0)
       \<lparr>oreq_packet = Some (sshFxpRemovePacket 3 ''../../etc/passwd''), oreq_orderid = 1\<rparr> 0"
proof -
  have c: "rs_clean (NewRequestServer 0 [] 0 :: (unit, unit, unit) RequestServer)" by (simp add: rs_clean_def NewRequestServer_def)
  show ?thesis
    by (intro allI handlers_see_confined_paths [OF c, THEN conjunct1]) simp_all
qed

text \<open>
  A posix-rename request is the exception. Its target goes to the handler as the client sent it, for every target
  and all handlers.
\<close>

theorem posix_rename_target_is_raw:
  "packetWorker os h mem rs \<lparr>oreq_packet = Some (sshFxpExtendedPacket i e (Some (sshFxpExtendedPacketPosixRename i e old new))), oreq_orderid = oid\<rparr> w =
     (case Filecmd h ((NewRequest ''Rename'' old)\<lparr>Target := new\<rparr>) w of
        None \<Rightarrow> None
      | Some (err, w) \<Rightarrow> Some (statusFromError i err, rs, w))"
  by (simp add: packetWorker_def unwrap_def handleWork_def call_fresh_def call_def filecmd_def NewRequest_def
      split: option.split prod.split)

text \<open>
  Reading from a handle that was opened for writing destroys data. On a handle opened with the write, append, create or
  truncate flag, a read request is not refused: the server writes zeros to the file, as many as the client asked to
  read (at most 32 KiB), at the offset of the read, and reports the status of that write.
\<close>

theorem read_of_write_handle_writes:
  assumes "openRequests rs k = Some r" and "Method r = ''Put''" and "writerAt (r_state r) = Some wr" and "rs_alloc rs = None"
  shows "packetWorker os h mem rs \<lparr>oreq_packet = Some (sshFxpReadPacket i k off len), oreq_orderid = oid\<rparr> w =
    (case WriteAt h wr (replicate (unat (clamp len maxTxPacket)) 0) off w of
       None \<Rightarrow> None
     | Some (err, w) \<Rightarrow> Some (statusFromError i err, putRequest rs k r, w))"
  using assms by (simp add: packetWorker_def unwrap_def handleWork_def call_handle_def getRequest_def call_fresh_def call_def
      fileput_def getDataSlice_def putRequest_def split: option.split prod.split)

definition demo_put :: "(unit, unit, unit) RequestServer" where
  "demo_put = (NewRequestServer 0 [] 0)\<lparr>openRequests :=
     [''1'' \<mapsto> (NewRequest ''Put'' ''/a'')\<lparr>r_handle := ''1'', r_state := \<lparr>writerAt = Some (), readerAt = None, listerAt = None, lsoffset = 0\<rparr>\<rparr>]\<rparr>"

theorem read_of_write_handle_writes_witness:
  "\<exists>rs'. packetWorker demo_os (demo_handlers\<lparr>WriteAt := \<lambda>_ d _ w. Some (None, w + length d)\<rparr>) (\<lambda>_ _. 0) demo_put
     \<lparr>oreq_packet = Some (sshFxpReadPacket 4 ''1'' 0 10), oreq_orderid = 1\<rparr> 0 = Some (statusFromError 4 None, rs', 10)"
proof -
  have c: "clamp 10 maxTxPacket = 10" by (simp add: clamp_def maxTxPacket_def)
  obtain r where r: "openRequests demo_put ''1'' = Some r" "Method r = ''Put''" "writerAt (r_state r) = Some ()" "rs_alloc demo_put = None"
    by (simp add: demo_put_def NewRequest_def NewRequestServer_def)
  show ?thesis unfolding read_of_write_handle_writes [OF r] by (simp add: c)
qed

end
