(* ===== verification/Request_Backend.thy ===== *)
theory Request_Backend
  imports Request_Safety
begin

text \<open>
  The contract between the server of \<open>Request_Server\<close> and the handlers behind it, as a locale: what the handlers have to
  keep so that no request makes the server panic. Readers, writers and listers are only good in a world that knows them; worlds grow
  (\<open>le\<close>), so that what was good stays good. The server's side of the contract is proved once, here; \<open>Mem_Fs_Correct\<close> shows that
  the in-memory backend fulfils the handlers' side.
\<close>

definition cmd_methods :: "string set" where
  "cmd_methods = {''Setstat'', ''Rename'', ''Rmdir'', ''Mkdir'', ''Link'', ''Symlink'', ''Remove''}"

definition open_methods :: "string set" where
  "open_methods = {[], ''Put'', ''Get'', ''List''}"

locale backend =
  fixes h :: "('w, 'rd, 'wr, 'ls) Handlers"
    and wf :: "'w \<Rightarrow> bool"
    and le :: "'w \<Rightarrow> 'w \<Rightarrow> bool"
    and rd_ok :: "'w \<Rightarrow> 'rd \<Rightarrow> bool"
    and wr_ok :: "'w \<Rightarrow> 'wr \<Rightarrow> bool"
    and ls_ok :: "'w \<Rightarrow> 'ls \<Rightarrow> u64 \<Rightarrow> bool"
    and write_fits :: "nat \<Rightarrow> u64 \<Rightarrow> bool"
    and attrs_fit :: "u32 \<Rightarrow> bytes \<Rightarrow> bool"
  assumes le_refl: "le w w"
    and rd_mono: "le w w' \<Longrightarrow> rd_ok w rd \<Longrightarrow> rd_ok w' rd"
    and wr_mono: "le w w' \<Longrightarrow> wr_ok w wr \<Longrightarrow> wr_ok w' wr"
    and ls_mono: "le w w' \<Longrightarrow> ls_ok w ls off \<Longrightarrow> ls_ok w' ls off"
    and nothing_fits: "write_fits 0 0" "attrs_fit 0 []"
    and Fileread_law: "wf w \<Longrightarrow> \<exists>rd err w'. Fileread h r w = Some (rd, err, w') \<and> wf w' \<and> le w w' \<and> (\<forall>x. rd = Some x \<longrightarrow> rd_ok w' x)"
    and Filewrite_law: "wf w \<Longrightarrow> \<exists>wr err w'. Filewrite h r w = Some (wr, err, w') \<and> wf w' \<and> le w w' \<and> (\<forall>x. wr = Some x \<longrightarrow> wr_ok w' x)"
    and Filecmd_law: "wf w \<Longrightarrow> attrs_fit (Flags r) (Attrs r) \<Longrightarrow> \<exists>err w'. Filecmd h r w = Some (err, w') \<and> wf w' \<and> le w w'"
    and Filelist_law: "wf w \<Longrightarrow> \<exists>ls err w'. Filelist h r w = Some (ls, err, w') \<and> wf w' \<and> le w w' \<and>
        (\<forall>x. ls = Some x \<longrightarrow> ls_ok w' x 0) \<and> (ls = None \<longrightarrow> err \<noteq> None \<or> Method r \<notin> {''Stat'', ''Readlink''})"
    and ReadAt_law: "wf w \<Longrightarrow> rd_ok w rd \<Longrightarrow> \<exists>d err w'. ReadAt h rd n off w = Some (d, err, w') \<and> wf w' \<and> le w w'"
    and WriteAt_law: "wf w \<Longrightarrow> wr_ok w wr \<Longrightarrow> write_fits (length d) off \<Longrightarrow> \<exists>err w'. WriteAt h wr d off w = Some (err, w') \<and> wf w' \<and> le w w'"
    and ListAt_law: "wf w \<Longrightarrow> ls_ok w ls off \<Longrightarrow> \<exists>fi err w'. ListAt h ls n off w = Some (fi, err, w') \<and> wf w' \<and> le w w' \<and>
        ls_ok w' ls (off + of_nat (length fi))"
    and rd_Close_law: "wf w \<Longrightarrow> rd_Close h rd = Some c \<Longrightarrow> wf (snd (c w)) \<and> le w (snd (c w))"
    and wr_Close_law: "wf w \<Longrightarrow> wr_Close h wr = Some c \<Longrightarrow> wf (snd (c w)) \<and> le w (snd (c w))"
    and le_trans: "le w w' \<Longrightarrow> le w' w'' \<Longrightarrow> le w w''"
begin

text \<open>A request in the table: its objects are good, and its method is one that opening sets.\<close>

definition req_ok :: "'w \<Rightarrow> ('rd, 'wr, 'ls) Request \<Rightarrow> bool" where
  "req_ok w r \<longleftrightarrow>
     (\<forall>x. readerAt (r_state r) = Some x \<longrightarrow> rd_ok w x) \<and> (\<forall>x. writerAt (r_state r) = Some x \<longrightarrow> wr_ok w x) \<and>
     (\<forall>x. listerAt (r_state r) = Some x \<longrightarrow> ls_ok w x (lsoffset (r_state r)))"

definition rs_ok :: "'w \<Rightarrow> ('rd, 'wr, 'ls) RequestServer \<Rightarrow> bool" where
  "rs_ok w rs \<longleftrightarrow> (\<forall>k r. openRequests rs k = Some r \<longrightarrow> req_ok w r \<and> Method r \<in> open_methods)"

definition packet_fits :: "workPacket \<Rightarrow> bool" where
  "packet_fits pkt \<longleftrightarrow> (case pkt of
     Req (sshFxpReadPacket _ _ off len) \<Rightarrow> write_fits (unat (clamp len maxTxPacket)) off
   | Req (sshFxpWritePacket _ _ off _ d) \<Rightarrow> write_fits (length d) off
   | Req (sshFxpSetstatPacket _ _ flags (VBytes b)) \<Rightarrow> attrs_fit flags b
   | Req (sshFxpFsetstatPacket _ _ flags (VBytes b)) \<Rightarrow> attrs_fit flags b
   | _ \<Rightarrow> True)"

lemma req_ok_mono: "le w w' \<Longrightarrow> req_ok w r \<Longrightarrow> req_ok w' r"
  by (auto simp: req_ok_def intro: rd_mono wr_mono ls_mono)

lemma rs_ok_mono: "le w w' \<Longrightarrow> rs_ok w rs \<Longrightarrow> rs_ok w' rs"
  by (auto simp: rs_ok_def intro: req_ok_mono)

lemma packetData_fits:
  "packet_fits pkt \<Longrightarrow> packetData mem pkt al oid = (d, off, al') \<Longrightarrow> write_fits (length d) off"
  by (induction mem pkt al oid rule: packetData.induct)
     (auto simp: packet_fits_def nothing_fits getDataSlice_def split: option.splits)

text \<open>What every handler operation of the server leaves behind.\<close>

definition leaves :: "'w \<Rightarrow> (('x \<times> ('rd, 'wr, 'ls) Request \<times> 'y \<times> 'w) option) \<Rightarrow> bool" where
  "leaves w res \<longleftrightarrow> (\<exists>x r y w'. res = Some (x, r, y, w') \<and> wf w' \<and> le w w' \<and> req_ok w' r)"

lemma leavesI: "res = Some (x, r, y, w') \<Longrightarrow> wf w' \<Longrightarrow> le w w' \<Longrightarrow> req_ok w' r \<Longrightarrow> leaves w res"
  by (auto simp: leaves_def)

lemma fileget_leaves:
  assumes "wf w" "req_ok w r"
  shows "leaves w (fileget h mem r pkt al oid w)"
proof (cases "readerAt (r_state r)")
  case None
  with assms show ?thesis by (auto simp: fileget_def leaves_def le_refl)
next
  case (Some rd)
  obtain d off al' where p: "packetData mem pkt al oid = (d, off, al')" by (rule prod_cases3)
  from ReadAt_law [OF assms(1), of rd "length d" off] Some assms(2) obtain g e w' where
    "ReadAt h rd (length d) off w = Some (g, e, w')" "wf w'" "le w w'" by (auto simp: req_ok_def)
  with Some p assms show ?thesis by (auto simp: fileget_def intro!: leavesI intro: req_ok_mono)
qed

lemma fileput_leaves:
  assumes "wf w" "req_ok w r" "packet_fits pkt"
  shows "leaves w (fileput h mem r pkt al oid w)"
proof (cases "writerAt (r_state r)")
  case None
  with assms show ?thesis by (auto simp: fileput_def leaves_def le_refl)
next
  case (Some wr)
  obtain d off al' where p: "packetData mem pkt al oid = (d, off, al')" by (rule prod_cases3)
  from WriteAt_law [OF assms(1), of wr d off] Some assms(2) packetData_fits [OF assms(3) p] obtain e w' where
    "WriteAt h wr d off w = Some (e, w')" "wf w'" "le w w'" by (auto simp: req_ok_def)
  with Some p assms show ?thesis by (auto simp: fileput_def intro!: leavesI intro: req_ok_mono)
qed

lemma filelist_leaves:
  assumes "wf w" "req_ok w r"
  shows "leaves w (filelist os h r pkt al w)"
proof (cases "getLister r")
  case None
  with assms show ?thesis by (auto simp: filelist_def leaves_def le_refl)
next
  case (Some ls)
  from ListAt_law [OF assms(1), of ls "lsNext r" MaxFilelist] Some assms(2) obtain fi e w' where
    l: "ListAt h ls MaxFilelist (lsNext r) w = Some (fi, e, w')" "wf w'" "le w w'" "ls_ok w' ls (lsNext r + of_nat (length fi))"
    by (auto simp: req_ok_def getLister_def lsNext_def)
  have "req_ok w' (lsInc r (of_nat (length fi)))"
    using req_ok_mono [OF l(3) assms(2)] l(4) Some by (auto simp: req_ok_def lsInc_def getLister_def lsNext_def)
  with Some l show ?thesis by (auto simp: filelist_def Let_def intro!: leavesI)
qed

lemma filestat_leaves:
  assumes "wf w" "req_ok w r" "Method r \<in> {''Stat'', ''Readlink''}"
  shows "leaves w (filestat h r pkt al w)"
proof -
  from Filelist_law [OF assms(1), of r] obtain ls e w1 where
    f: "Filelist h r w = Some (ls, e, w1)" "wf w1" "le w w1" "\<And>x. ls = Some x \<Longrightarrow> ls_ok w1 x 0" "ls = None \<Longrightarrow> e \<noteq> None"
    using assms(3) by auto
  show ?thesis
  proof (cases "e = None")
    case True
    with f obtain x where x: "ls = Some x" by (cases ls) auto
    from ListAt_law [OF f(2) f(4) [OF x], of 1] obtain fi e2 w' where
      "ListAt h x 1 0 w1 = Some (fi, e2, w')" "wf w'" "le w1 w'" by auto
    with True f(1,3) x assms(2) show ?thesis
      by (auto simp: filestat_def intro!: leavesI intro: req_ok_mono le_trans)
  qed (use f assms(2) in \<open>auto simp: filestat_def intro!: leavesI intro: req_ok_mono\<close>)
qed

lemma filecmd_leaves:
  assumes "wf w" "req_ok w r" "attrs_fit (Flags r) (Attrs r)" "packet_fits pkt" "work_attrs pkt"
  shows "leaves w (filecmd h r pkt al w)"
proof -
  obtain r1 where r1: "(case pkt of Req (sshFxpFsetstatPacket _ _ flags attrs) \<Rightarrow>
        (case attrs of VBytes b \<Rightarrow> Some (r\<lparr>Flags := flags, Attrs := b\<rparr>) | _ \<Rightarrow> None) | _ \<Rightarrow> Some r) = Some r1"
      "attrs_fit (Flags r1) (Attrs r1)" "req_ok w r1"
  proof (cases "\<exists>i k f a. pkt = Req (sshFxpFsetstatPacket i k f a)")
    case True
    then obtain i k f b where "pkt = Req (sshFxpFsetstatPacket i k f (VBytes b))"
      using assms(5) by (auto simp: work_attrs_def is_bytes_def split: goval.splits)
    with assms that [of "r\<lparr>Flags := f, Attrs := b\<rparr>"] show ?thesis by (auto simp: packet_fits_def req_ok_def)
  next
    case False
    with assms that [of r] show ?thesis by (auto split: workPacket.split requestPacket.split)
  qed
  from Filecmd_law [OF assms(1) r1(2)] obtain e w' where
    "Filecmd h r1 w = Some (e, w')" "wf w'" "le w w'" by auto
  with r1 show ?thesis by (auto simp: filecmd_def intro!: leavesI intro: req_ok_mono)
qed

lemma call_leaves:
  assumes "wf w" "req_ok w r" "packet_fits pkt" "work_attrs pkt" "Method r \<in> cmd_methods \<Longrightarrow> attrs_fit (Flags r) (Attrs r)"
  shows "leaves w (call os h mem r pkt al oid w)"
  using fileget_leaves [OF assms(1,2)] fileput_leaves [OF assms(1,2,3)] filecmd_leaves [OF assms(1,2) _ assms(3,4)]
    filelist_leaves [OF assms(1,2)] filestat_leaves [OF assms(1,2)] assms
  by (auto simp: call_def cmd_methods_def leaves_def le_refl)

lemma call_fresh_leaves:
  assumes "wf w" "req_ok w r" "rs_ok w rs" "packet_fits pkt" "work_attrs pkt" "Method r \<in> cmd_methods \<Longrightarrow> attrs_fit (Flags r) (Attrs r)"
  shows "\<exists>rp r' rs' w'. call_fresh os h mem rs r pkt oid w = Some (rp, r', rs', w') \<and>
    wf w' \<and> le w w' \<and> req_ok w' r' \<and> rs_ok w' rs'"
proof -
  from call_leaves [OF assms(1,2,4,5,6), of os mem "rs_alloc rs" oid] obtain rp r' al w' where
    c: "call os h mem r pkt (rs_alloc rs) oid w = Some (rp, r', al, w')" "wf w'" "le w w'" "req_ok w' r'"
    by (auto simp: leaves_def)
  moreover have "rs_ok w' (rs\<lparr>rs_alloc := al\<rparr>)" using rs_ok_mono [OF c(3) assms(3)] by (simp add: rs_ok_def)
  ultimately show ?thesis by (auto simp: call_fresh_def)
qed

lemma NewRequest_ok [simp]: "req_ok w (NewRequest m p)" "req_ok w (NewRequest m p\<lparr>Target := t\<rparr>)"
  "attrs_fit (Flags (NewRequest m p :: ('rd, 'wr, 'ls) Request)) (Attrs (NewRequest m p :: ('rd, 'wr, 'ls) Request))"
  by (simp_all add: req_ok_def NewRequest_def nothing_fits)

lemma requestFromPacket_ok:
  assumes "requestFromPacket pkt p = Some r" "packet_fits pkt" "\<And>i q f m. pkt \<noteq> Req (sshFxpOpenPacket i q f m)"
  shows "req_ok w r \<and> attrs_fit (Flags r) (Attrs r)"
  using assms
  by (auto simp: requestFromPacket_def packet_fits_def req_ok_def NewRequest_def nothing_fits Let_def
      split: workPacket.splits requestPacket.splits specificPacket.splits goval.splits)

lemma req_open_leaves:
  assumes "wf w" "r_state r = r_state (NewRequest m p)" "Method r = []"
  shows "\<exists>rp r' w'. req_open h r i w = Some (rp, r', w') \<and> wf w' \<and> le w w' \<and> req_ok w' r' \<and>
    Method r' \<in> open_methods"
proof -
  let ?f = "Pflags r"
  consider (put) "ff_Write ?f \<or> ff_Append ?f \<or> ff_Creat ?f \<or> ff_Trunc ?f"
    | (get) "\<not> (ff_Write ?f \<or> ff_Append ?f \<or> ff_Creat ?f \<or> ff_Trunc ?f)" "ff_Read ?f"
    | (bad) "\<not> (ff_Write ?f \<or> ff_Append ?f \<or> ff_Creat ?f \<or> ff_Trunc ?f)" "\<not> ff_Read ?f" by blast
  then show ?thesis
  proof cases
    case put
    from Filewrite_law [OF assms(1), of "r\<lparr>Method := ''Put''\<rparr>"] assms(2) put show ?thesis
      by (auto simp: req_open_def Let_def req_ok_def NewRequest_def open_methods_def)
  next
    case get
    from Fileread_law [OF assms(1), of "r\<lparr>Method := ''Get''\<rparr>"] assms(2) get show ?thesis
      by (auto simp: req_open_def Let_def req_ok_def NewRequest_def open_methods_def)
  next
    case bad
    with assms show ?thesis by (auto simp: req_open_def Let_def req_ok_def NewRequest_def le_refl open_methods_def)
  qed
qed

lemma req_opendir_leaves:
  assumes "wf w" "r_state r = r_state (NewRequest m p)"
  shows "\<exists>rp r' w'. req_opendir h r i w = Some (rp, r', w') \<and> wf w' \<and> le w w' \<and> req_ok w' r' \<and>
    Method r' \<in> open_methods"
  using Filelist_law [OF assms(1), of "r\<lparr>Method := ''List''\<rparr>"] assms(2)
  by (auto simp: req_opendir_def Let_def req_ok_def NewRequest_def setListerState_def open_methods_def)

text \<open>What a worker leaves behind: an answer, a good world and a good table.\<close>

definition survives :: "'w \<Rightarrow> ('w, 'rd, 'wr, 'ls) work_result \<Rightarrow> bool" where
  "survives w res \<longleftrightarrow> (\<exists>rp rs' w'. res = Some (rp, rs', w') \<and> wf w' \<and> le w w' \<and> rs_ok w' rs')"

lemma survivesI: "res = Some (rp, rs', w') \<Longrightarrow> wf w' \<Longrightarrow> le w w' \<Longrightarrow> rs_ok w' rs' \<Longrightarrow> survives w res"
  by (auto simp: survives_def)

lemma put_ok: "rs_ok w rs \<Longrightarrow> req_ok w r \<Longrightarrow> Method r \<in> open_methods \<Longrightarrow> rs_ok w (putRequest rs k r)"
  by (auto simp: rs_ok_def putRequest_def)

lemma open_new_survives:
  assumes "wf w" "rs_ok w rs" "requestFromPacket pkt p = Some r"
    and "\<And>k i. \<exists>rp r' w'. op (r\<lparr>r_handle := k\<rparr>) i w = Some (rp, r', w') \<and> wf w' \<and> le w w' \<and> req_ok w' r' \<and>
      Method r' \<in> open_methods"
  shows "survives w (open_new op rs pkt p w)"
proof -
  obtain k rs1 where n: "nextRequest rs r = (k, rs1)" by (cases "nextRequest rs r")
  from assms(4) [of k "workPacket_id pkt"] obtain rp r' w' where
    o: "op (r\<lparr>r_handle := k\<rparr>) (workPacket_id pkt) w = Some (rp, r', w')" "wf w'" "le w w'" "req_ok w' r'"
      "Method r' \<in> open_methods" by blast
  have "rs_ok w' (putRequest rs1 k r')"
    using rs_ok_mono [OF o(3) assms(2)] o(4,5) n
    by (auto simp: rs_ok_def putRequest_def nextRequest_def Let_def split: if_splits)
  with o assms(3) n show ?thesis by (auto simp: open_new_def intro!: survivesI)
qed

lemma req_close_world:
  assumes "wf w" "req_close h r w = (e, w')"
  shows "wf w' \<and> le w w'"
proof -
  have step: "wf v \<Longrightarrow> (\<And>f. c = Some f \<Longrightarrow> wf (snd (f v)) \<and> le v (snd (f v))) \<Longrightarrow> close_if c (err, v) = (err', v') \<Longrightarrow> wf v' \<and> le v v'"
    for c :: "('w \<Rightarrow> go_error option \<times> 'w) option" and err err' v v'
    by (auto simp: close_if_def le_refl split: option.splits prod.splits)
  obtain e1 w1 where c1: "close_if (Option.bind (writerAt (r_state r)) (wr_Close h)) (None, w) = (e1, w1)"
    by (cases "close_if (Option.bind (writerAt (r_state r)) (wr_Close h)) (None, w)")
  have w1: "wf w1 \<and> le w w1"
    by (rule step [OF assms(1) _ c1]) (auto simp: bind_eq_Some_conv dest: wr_Close_law [OF assms(1)])
  from assms(2) c1 have c2: "close_if (Option.bind (readerAt (r_state r)) (rd_Close h)) (e1, w1) = (e, w')"
    by (simp add: req_close_def)
  have "wf w' \<and> le w1 w'"
    by (rule step [OF _ _ c2]) (use w1 rd_Close_law in \<open>auto simp: bind_eq_Some_conv\<close>)
  with w1 show ?thesis by (blast intro: le_trans)
qed

lemma handleWork_survives:
  assumes "wf w" "rs_ok w rs" "packet_fits pkt" "work_attrs pkt"
  shows "survives w (handleWork os h mem rs pkt oid w)"
proof -
  obtain res where res: "handleWork os h mem rs pkt oid w = res" by simp
  from this have "survives w res"
  proof (cases rule: handleWork_cases)
    case (close i k)
    show ?thesis
    proof (cases "openRequests rs k")
      case (Some r)
      obtain e w' where c: "req_close h r w = (e, w')" by (cases "req_close h r w")
      from req_close_world [OF assms(1) c] have "wf w'" "le w w'" by auto
      with close Some c rs_ok_mono [of w w', OF _ assms(2)] show ?thesis
        by (auto simp: closeRequest_def deleteRequest_def rs_ok_def intro!: survivesI)
    qed (use close assms in \<open>auto simp: closeRequest_def le_refl intro!: survivesI\<close>)
  next
    case (opendir i p)
    then have r: "requestFromPacket pkt p = Some (NewRequest [] p :: ('rd, 'wr, 'ls) Request)"
      by (simp add: requestFromPacket_def Let_def)
    have "survives w (open_new (req_opendir h) rs pkt p w)"
      by (rule open_new_survives [OF assms(1,2) r]) (rule req_opendir_leaves [OF assms(1)], simp)
    with opendir show ?thesis by simp
  next
    case (openfile i p f m)
    then have r: "requestFromPacket pkt p = Some (NewRequest [] p\<lparr>Flags := f\<rparr> :: ('rd, 'wr, 'ls) Request)"
      by (simp add: requestFromPacket_def Let_def)
    have "survives w (open_new (req_open h) rs pkt p w)"
      by (rule open_new_survives [OF assms(1,2) r], rule req_open_leaves [OF assms(1)]) (simp_all add: NewRequest_def)
    with openfile show ?thesis by simp
  next
    case (path_of k m)
    show ?thesis
    proof (cases "openRequests rs k")
      case (Some r)
      from call_fresh_leaves [OF assms(1) NewRequest_ok(1) assms(2,3,4) NewRequest_ok(3), of os mem m "Filepath r" oid]
      show ?thesis using path_of Some by (auto simp: call_path_of_def getRequest_def intro!: survivesI)
    qed (use path_of assms in \<open>auto simp: call_path_of_def getRequest_def le_refl intro!: survivesI\<close>)
  next
    case (posix i q old new)
    have "attrs_fit (Flags (NewRequest ''Rename'' old\<lparr>Target := new\<rparr> :: ('rd, 'wr, 'ls) Request))
        (Attrs (NewRequest ''Rename'' old\<lparr>Target := new\<rparr> :: ('rd, 'wr, 'ls) Request))" by (simp add: NewRequest_def nothing_fits)
    from call_fresh_leaves [OF assms(1) NewRequest_ok(2) assms(2,3,4) this, of os mem oid]
    show ?thesis using posix by (auto intro!: survivesI)
  next
    case (handle k)
    show ?thesis
    proof (cases "openRequests rs k")
      case (Some r)
      with assms(2) have r: "req_ok w r" "Method r \<in> open_methods" by (auto simp: rs_ok_def)
      then have "Method r \<notin> cmd_methods" by (auto simp: cmd_methods_def open_methods_def)
      with call_fresh_leaves [OF assms(1) r(1) assms(2,3,4), of os mem oid] obtain rp r' rs' w' where
        c: "call_fresh os h mem rs r pkt oid w = Some (rp, r', rs', w')" "wf w'" "le w w'" "req_ok w' r'" "rs_ok w' rs'" by auto
      from call_fresh_keeps [OF c(1)] r(2) have "Method r' \<in> open_methods" by (simp add: same_request_def)
      with handle Some c put_ok show ?thesis by (auto simp: call_handle_def getRequest_def intro!: survivesI)
    qed (use handle assms in \<open>auto simp: call_handle_def getRequest_def le_refl intro!: survivesI\<close>)
  next
    case (path p)
    have no_open: "pkt \<noteq> Req (sshFxpOpenPacket i q f m)" for i q f m using path(2) by auto
    obtain r :: "('rd, 'wr, 'ls) Request" where r: "requestFromPacket pkt p = Some r"
      using requestFromPacket_total [OF assms(4), of p] by auto
    from requestFromPacket_ok [OF r assms(3) no_open, of w] call_fresh_leaves [OF assms(1) _ assms(2,3,4), of r os mem oid]
    obtain rp r' rs' w' where c: "call_fresh os h mem rs r pkt oid w = Some (rp, r', rs', w')" "wf w'" "le w w'" "rs_ok w' rs'"
      by auto
    obtain e w2 where cl: "req_close h r' w' = (e, w2)" by (cases "req_close h r' w'")
    from req_close_world [OF c(2) cl] c cl r path show ?thesis
      by (auto simp: path_call_def intro!: survivesI intro: le_trans rs_ok_mono)
  qed (use assms in \<open>auto simp: le_refl intro!: survivesI\<close>)
  with res show ?thesis by simp
qed

lemma NewRequestServer_ok: "rs_ok w (NewRequestServer hp exts n)"
proof -
  have "openRequests (((\<lambda>rs. rs\<lparr>rs_alloc := Some (newAllocator hp)\<rparr>) ^^ n) rs) = openRequests rs"
    for rs :: "('rd, 'wr, 'ls) RequestServer"
    by (induction n) simp_all
  then show ?thesis by (simp add: NewRequestServer_def rs_ok_def)
qed

text \<open>So a run over packets that fit never panics.\<close>

lemma worker_run_survives:
  assumes "wf w" "rs_ok w rs"
    and "\<forall>pkt \<in> set pkts. \<exists>q. oreq_packet pkt = Some q \<and> has_attrs q \<and> packet_fits (unwrap q)"
  shows "\<exists>rps rs' w'. worker_run os h mem rs pkts w = Some (rps, rs', w') \<and> wf w' \<and> rs_ok w' rs' \<and> length rps = length pkts"
  using assms
proof (induction pkts arbitrary: w rs)
  case (Cons pkt pkts)
  then obtain q where q: "oreq_packet pkt = Some q" "has_attrs q" "packet_fits (unwrap q)" by auto
  from handleWork_survives [OF Cons.prems(1,2) q(3) unwrap_attrs [OF q(2)], of os mem "oreq_orderid pkt"]
  obtain rp rs1 w1 where s: "packetWorker os h mem rs pkt w = Some (rp, rs1, w1)" "wf w1" "rs_ok w1 rs1"
    using q(1) by (auto simp: survives_def packetWorker_def)
  from Cons.IH [OF s(2,3)] Cons.prems(3) s(1) show ?case by auto
qed simp

end

end
