(* ===== verification/Mem_Fs_Correct.thy ===== *)
theory Mem_Fs_Correct
  imports Mem_Fs Request_Backend
begin

text \<open>
  The in-memory backend: its invariant, what writing, truncating and renaming do to the files, and that the handler-based
  server on top of it never panics on packets of reasonable size.
\<close>

subsection \<open>Numbers\<close>

lemma uint_less_63: "uint (w :: u64) < 2 ^ 63 \<longleftrightarrow> unat w < 2 ^ 63"
proof -
  have "uint w < 2 ^ 63 \<longleftrightarrow> int (unat w) < int (2 ^ 63)" by (simp only: uint_nat of_nat_power of_nat_numeral)
  then show ?thesis by (simp only: of_nat_less_iff)
qed

lemma sint_uint64:
  fixes w :: u64
  shows "sint w = (if uint w < 2 ^ 63 then uint w else uint w - 2 ^ 64)"
proof -
  have b: "0 \<le> uint w" "uint w < 2 ^ 64" using unsigned_less [of w] by auto
  have s: "sint w = (uint w + 2 ^ 63) mod 2 ^ 64 - 2 ^ 63"
    by (simp add: sint_uint signed_take_bit_eq_take_bit_shift take_bit_eq_mod)
  have "(uint w + 2 ^ 63) mod 2 ^ 64 = (if uint w < 2 ^ 63 then uint w + 2 ^ 63 else uint w - 2 ^ 63)"
  proof (cases "uint w < 2 ^ 63")
    case False
    have "(uint w + 2 ^ 63) mod 2 ^ 64 = (uint w - 2 ^ 63 + 2 ^ 64) mod 2 ^ 64"
      by (rule arg_cong [where f = "\<lambda>x. x mod 2 ^ 64"]) simp
    also have "\<dots> = uint w - 2 ^ 63" using False b by (simp only: mod_add_self2) (rule mod_pos_pos_trivial, auto)
    finally show ?thesis using False by simp
  qed (use b in simp)
  with s show ?thesis by simp
qed

lemma sint_small:
  assumes "unat (w :: u64) < 2 ^ 63"
  shows "sint w = int (unat w)"
proof -
  have "uint w < 2 ^ 63" using assms by (simp only: uint_less_63)
  then show ?thesis by (simp add: sint_uint64)
qed

lemma sint_nonneg: "0 \<le> sint (w :: u64) \<Longrightarrow> unat w < 2 ^ 63 \<and> sint w = int (unat w)"
proof -
  assume "0 \<le> sint w"
  moreover have "uint w < 2 ^ 64" using unsigned_less [of w] by simp
  ultimately have "uint w < 2 ^ 63" by (simp add: sint_uint64 split: if_splits)
  then have "unat w < 2 ^ 63" by (simp only: uint_less_63)
  with sint_small show ?thesis by blast
qed

lemma sint_of_nat_plus:
  assumes "n + unat off < 2 ^ 63"
  shows "sint (of_nat n + off :: u64) = int (n + unat off)"
proof -
  have "unat (of_nat n + off) = n + unat off"
    using assms by (simp add: unat_word_ariths unat_of_nat)
  with assms show ?thesis by (simp add: sint_small)
qed

lemma sint_minus_of_nat:
  assumes "0 \<le> sint (z :: u64)" "n < 2 ^ 63"
  shows "sint (z - of_nat n) = sint z - int n"
proof -
  have z: "unat z < 2 ^ 63" "sint z = int (unat z)" using sint_nonneg [OF assms(1)] by auto
  have bnd: "int n < 2 ^ 63" "int (unat z) < 2 ^ 63"
    using of_nat_less_iff [where 'a = int, THEN iffD2, OF assms(2)] of_nat_less_iff [where 'a = int, THEN iffD2, OF z(1)] by simp_all
  have "sint (z - of_nat n) = signed_take_bit 63 (sint z - sint (of_nat n :: u64))"
    by (simp add: sint_word_ariths(2))
  also have "sint (of_nat n :: u64) = int n" using assms(2) sint_of_nat_plus [of n 0] by simp
  also have "signed_take_bit 63 (sint z - int n) = sint z - int n"
    using z(2) bnd by (intro signed_take_bit_int_eq_self) linarith+
  finally show ?thesis .
qed

declare of_nat_unat [simp del]

subsection \<open>The invariant\<close>

text \<open>Every file that is named exists, its slice lies within its array, and no two files share an array.\<close>

definition slice_ok :: "root \<Rightarrow> slice \<Rightarrow> bool" where
  "slice_ok fs s \<longleftrightarrow> sl_array s < length (arrays fs) \<and> sl_len s \<le> length (arrays fs ! sl_array s) \<and> sl_len s < 2 ^ 63"

definition mem_wf :: "root \<Rightarrow> bool" where
  "mem_wf fs \<longleftrightarrow> root_file fs < length (objs fs) \<and> (\<forall>p a. root_files fs p = Some a \<longrightarrow> a < length (objs fs)) \<and>
     (\<forall>a < length (objs fs). slice_ok fs (mf_content (objs fs ! a))) \<and>
     (\<forall>a < length (objs fs). \<forall>b < length (objs fs).
        sl_array (mf_content (objs fs ! a)) = sl_array (mf_content (objs fs ! b)) \<longrightarrow> a = b)"

text \<open>What later states keep: no file and no array disappears, and arrays keep their length.\<close>

definition mem_le :: "root \<Rightarrow> root \<Rightarrow> bool" where
  "mem_le fs fs' \<longleftrightarrow> length (objs fs) \<le> length (objs fs') \<and> length (arrays fs) \<le> length (arrays fs') \<and>
     (\<forall>i < length (arrays fs). length (arrays fs' ! i) = length (arrays fs ! i))"

lemma mem_le_refl [simp]: "mem_le fs fs"
  by (simp add: mem_le_def)

lemma mem_le_trans: "mem_le a b \<Longrightarrow> mem_le b c \<Longrightarrow> mem_le a c"
  by (simp add: mem_le_def)

lemma slice_ok_mono: "mem_le fs fs' \<Longrightarrow> slice_ok fs s \<Longrightarrow> slice_ok fs' s"
  by (simp add: mem_le_def slice_ok_def)

lemma length_splice: "off \<le> len \<Longrightarrow> len \<le> length xs \<Longrightarrow> length (splice xs len off p) = length xs"
  by (simp add: splice_def Let_def)

text \<open>A change of the names alone, of fields other than the contents, or of the map to files that exist.\<close>

lemma mem_wf_update:
  assumes "mem_wf fs" "root_file fs' < length (objs fs)" "\<And>p a. root_files fs' p = Some a \<Longrightarrow> a < length (objs fs)"
    and "arrays fs' = arrays fs" "map mf_content (objs fs') = map mf_content (objs fs)"
  shows "mem_wf fs' \<and> mem_le fs fs'"
proof -
  have l: "length (objs fs') = length (objs fs)" using assms(5) by (metis length_map)
  have c: "mf_content (objs fs' ! a) = mf_content (objs fs ! a)" if "a < length (objs fs)" for a
    using assms(5) l that by (metis nth_map)
  show ?thesis using assms(1-4) l c by (auto simp: mem_wf_def mem_le_def slice_ok_def)
qed

lemma map_content_upd:
  assumes "\<And>f. mf_content (g f) = mf_content f"
  shows "map mf_content (objs (upd_obj g a fs)) = map mf_content (objs fs)"
proof (rule nth_equalityI)
  fix i assume "i < length (map mf_content (objs (upd_obj g a fs)))"
  then show "map mf_content (objs (upd_obj g a fs)) ! i = map mf_content (objs fs) ! i"
    by (cases "i = a") (simp_all add: upd_obj_def assms)
qed (simp add: upd_obj_def)

lemma upd_obj_simps [simp]:
  "root_file (upd_obj g a fs) = root_file fs" "root_files (upd_obj g a fs) = root_files fs" "arrays (upd_obj g a fs) = arrays fs"
  "length (objs (upd_obj g a fs)) = length (objs fs)" "root_mockErr (upd_obj g a fs) = root_mockErr fs"
  by (simp_all add: upd_obj_def)

lemma newMemFile_wf:
  assumes "mem_wf fs" "newMemFile name d fs = (a, fs')"
  shows "mem_wf fs' \<and> mem_le fs fs' \<and> a = length (objs fs) \<and> length (objs fs') = Suc (length (objs fs)) \<and>
    root_files fs' = root_files fs \<and> root_file fs' = root_file fs"
proof -
  let ?n = "length (objs fs)" and ?m = "length (arrays fs)"
  from assms(2) have a: "a = ?n" and fs': "root_files fs' = root_files fs" "root_file fs' = root_file fs"
      "length (objs fs') = Suc ?n" "arrays fs' = arrays fs @ [[]]"
    and new: "mf_content (objs fs' ! ?n) = \<lparr>sl_array = ?m, sl_len = 0\<rparr>"
    and old: "\<And>b. b < ?n \<Longrightarrow> objs fs' ! b = objs fs ! b"
    by (auto simp: newMemFile_def nth_append)
  have le: "mem_le fs fs'" using fs' by (simp add: mem_le_def nth_append)
  have arr: "sl_array (mf_content (objs fs ! b)) < ?m" if "b < ?n" for b using assms(1) that by (simp add: mem_wf_def slice_ok_def)
  have "slice_ok fs' (mf_content (objs fs' ! b))" if "b < Suc ?n" for b
  proof (cases "b < ?n")
    case True
    with assms(1) have "slice_ok fs (mf_content (objs fs ! b))" by (simp add: mem_wf_def)
    with slice_ok_mono [OF le] old [OF True] show ?thesis by simp
  next
    case False
    with that have "b = ?n" by simp
    with new fs' show ?thesis by (simp add: slice_ok_def)
  qed
  moreover have "b = c" if "b < Suc ?n" "c < Suc ?n" "sl_array (mf_content (objs fs' ! b)) = sl_array (mf_content (objs fs' ! c))" for b c
  proof (cases "b = ?n \<or> c = ?n")
    case True
    with that new old arr show ?thesis by (metis less_Suc_eq nat_neq_iff slice.select_convs(1))
  next
    case False
    with that old assms(1) show ?thesis by (simp add: mem_wf_def less_Suc_eq)
  qed
  ultimately show ?thesis using assms(1) fs' a le by (auto simp: mem_wf_def less_Suc_eq)
qed

subsection \<open>Writing and truncating\<close>

text \<open>What a write does to the contents of a file: the gap before the offset is filled with zeros.\<close>

definition write_bytes :: "bytes \<Rightarrow> nat \<Rightarrow> bytes \<Rightarrow> bytes" where
  "write_bytes c off p = take off (c @ replicate (off - length c) 0) @ p @ drop (off + length p) c"

definition truncate_bytes :: "bytes \<Rightarrow> nat \<Rightarrow> bytes" where
  "truncate_bytes c n = take n (c @ replicate (n - length c) 0)"

text \<open>The new state differs in the contents of one file only.\<close>

definition only_content :: "nat \<Rightarrow> bytes \<Rightarrow> root \<Rightarrow> root \<Rightarrow> bool" where
  "only_content a c fs fs' \<longleftrightarrow> mem_wf fs' \<and> mem_le fs fs' \<and> length (objs fs') = length (objs fs) \<and>
     content fs' a = c \<and> (\<forall>b < length (objs fs). b \<noteq> a \<longrightarrow> content fs' b = content fs b) \<and>
     root_files fs' = root_files fs \<and> root_file fs' = root_file fs \<and> root_mockErr fs' = root_mockErr fs \<and>
     (\<forall>b < length (objs fs). \<forall>s. (objs fs' ! b)\<lparr>mf_content := s\<rparr> = (objs fs ! b)\<lparr>mf_content := s\<rparr>)"

lemma only_content_trans:
  "only_content a c fs fs1 \<Longrightarrow> only_content a d fs1 fs2 \<Longrightarrow> only_content a d fs fs2"
  by (auto simp: only_content_def intro: mem_le_trans)

lemma own_array:
  assumes "mem_wf fs" "a < length (objs fs)" "b < length (objs fs)" "b \<noteq> a"
  shows "sl_array (mf_content (objs fs ! b)) \<noteq> sl_array (mf_content (objs fs ! a))"
  using assms unfolding mem_wf_def by blast

text \<open>Move a file to a new array.\<close>

lemma fresh_array:
  assumes "mem_wf fs" "a < length (objs fs)" "n \<le> length xs" "n < 2 ^ 63"
  shows "only_content a (take n xs) fs
    (upd_obj (mf_content_update (\<lambda>_. \<lparr>sl_array = length (arrays fs), sl_len = n\<rparr>)) a (fs\<lparr>arrays := arrays fs @ [xs]\<rparr>))"
    (is "only_content a _ fs ?fs'")
proof -
  have ok: "slice_ok fs (mf_content (objs fs ! b))" if "b < length (objs fs)" for b using assms(1) that by (simp add: mem_wf_def)
  have le: "mem_le fs ?fs'" by (simp add: mem_le_def nth_append)
  have nth: "objs ?fs' ! b = (if b = a then (objs fs ! a)\<lparr>mf_content := \<lparr>sl_array = length (arrays fs), sl_len = n\<rparr>\<rparr> else objs fs ! b)"
    if "b < length (objs fs)" for b using that by (simp add: upd_obj_def)
  have "slice_ok ?fs' (mf_content (objs ?fs' ! b))" if "b < length (objs fs)" for b
    using slice_ok_mono [OF le ok [OF that]] nth [OF that] assms(3,4) by (simp add: slice_ok_def)
  moreover have "b = c" if "b < length (objs fs)" "c < length (objs fs)"
      "sl_array (mf_content (objs ?fs' ! b)) = sl_array (mf_content (objs ?fs' ! c))" for b c
    using that nth ok [of b] ok [of c] own_array [OF assms(1), of b c] by (auto simp: slice_ok_def split: if_splits)
  ultimately have wf: "mem_wf ?fs'" using assms(1) by (simp add: mem_wf_def)
  moreover have "content ?fs' b = content fs b" if "b < length (objs fs)" "b \<noteq> a" for b
    using ok [OF that(1)] that nth by (simp add: content_def slice_bytes_def slice_ok_def nth_append)
  ultimately show ?thesis using le nth assms(2)
    by (simp add: only_content_def content_def slice_bytes_def nth_append)
qed

text \<open>Overwrite the array of a file, and change the length of its slice.\<close>

lemma own_array_update:
  assumes "mem_wf fs" "a < length (objs fs)" "s = mf_content (objs fs ! a)" "length xs = length (arrays fs ! sl_array s)"
    and "n \<le> length xs" "n < 2 ^ 63"
  shows "only_content a (take n xs) fs
    (upd_obj (mf_content_update (sl_len_update (\<lambda>_. n))) a (fs\<lparr>arrays := (arrays fs)[sl_array s := xs]\<rparr>))"
    (is "only_content a _ fs ?fs'")
proof -
  have ok: "slice_ok fs (mf_content (objs fs ! b))" if "b < length (objs fs)" for b using assms(1) that by (simp add: mem_wf_def)
  have le: "mem_le fs ?fs'" using assms(4) by (auto simp: mem_le_def) (metis nth_list_update_eq nth_list_update_neq)
  have nth: "objs ?fs' ! b = (if b = a then (objs fs ! a)\<lparr>mf_content := s\<lparr>sl_len := n\<rparr>\<rparr> else objs fs ! b)"
    if "b < length (objs fs)" for b using that assms(3) by (simp add: upd_obj_def)
  have arr: "sl_array (mf_content (objs ?fs' ! b)) = sl_array (mf_content (objs fs ! b))" if "b < length (objs fs)" for b
    using nth [OF that] assms(3) by simp
  have "slice_ok ?fs' (mf_content (objs ?fs' ! b))" if "b < length (objs fs)" for b
    using slice_ok_mono [OF le ok [OF that]] nth [OF that] assms ok [OF assms(2)] by (simp add: slice_ok_def)
  then have wf: "mem_wf ?fs'" using assms(1) arr by (simp add: mem_wf_def)
  moreover have "content ?fs' b = content fs b" if "b < length (objs fs)" "b \<noteq> a" for b
    using own_array [OF assms(1,2) that] nth [OF that(1)] that(2) assms(3) by (simp add: content_def slice_bytes_def)
  ultimately show ?thesis using le nth assms(2) ok [OF assms(2)] assms(3)
    by (simp add: only_content_def content_def slice_bytes_def slice_ok_def)
qed

lemma same_len: "upd_obj (mf_content_update (sl_len_update (\<lambda>_. sl_len (mf_content (objs fs ! a))))) a fs = fs"
proof -
  have "mf_content_update (sl_len_update (\<lambda>_. sl_len (mf_content x))) x = x" for x :: memFile
    by (intro memFile.equality slice.equality) simp_all
  then show ?thesis by (simp only: upd_obj_def list_update_id) simp
qed

lemma take_splice:
  assumes "off + length p \<le> len" "len \<le> length xs"
  shows "take len (splice xs len off p) = write_bytes (take len xs) off p"
proof -
  have q: "take (len - off) p = p" using assms(1) by simp
  have m: "min off len = off" using assms(1) by simp
  show ?thesis using assms by (simp add: splice_def write_bytes_def Let_def q m drop_take)
qed

lemma write_bytes_pad:
  assumes "length c + k \<le> off + length p"
  shows "write_bytes (c @ replicate k 0) off p = write_bytes c off p"
proof -
  have "take off (c @ replicate k 0 @ replicate (off - (length c + k)) 0) = take off (c @ replicate (off - length c) (0::byte))"
    by (simp flip: replicate_add)
  with assms show ?thesis by (simp add: write_bytes_def)
qed

lemma WriteAt_correct:
  assumes "mem_wf fs" "a < length (objs fs)" "unat off + length p \<le> 2 ^ 48"
  shows "\<exists>fs'. memFile_WriteAt a p off fs = Some (None, fs') \<and> only_content a (write_bytes (content fs a) (unat off) p) fs fs'"
proof -
  let ?s = "mf_content (objs fs ! a)" and ?n = "length p + unat off"
  have ok: "slice_ok fs ?s" using assms by (simp add: mem_wf_def)
  have small: "?n < 2 ^ 63" "unat off < 2 ^ 63" using assms(3) by simp_all
  have plen: "sint (of_nat (length p) + off) = int ?n" using small by (simp add: sint_of_nat_plus)
  have off: "sint off = int (unat off)" using small by (simp add: sint_small)
  have "int ?n \<le> int (2 ^ 48)" using assms(3) by (simp only: of_nat_le_iff)
  then have mk: "makeslice_ok (int ?n)" by (simp add: makeslice_ok_def)
  show ?thesis
  proof (cases "sl_len ?s \<le> ?n")
    case True
    let ?xs = "slice_bytes fs ?s @ replicate (?n - sl_len ?s) 0"
    let ?fs1 = "upd_obj (mf_content_update (\<lambda>_. \<lparr>sl_array = length (arrays fs), sl_len = ?n\<rparr>)) a (fs\<lparr>arrays := arrays fs @ [?xs]\<rparr>)"
    have len: "length ?xs = ?n" using ok True by (simp add: slice_bytes_def slice_ok_def)
    have o1: "only_content a (take ?n ?xs) fs ?fs1" using fresh_array [OF assms(1,2), of ?n ?xs] len small by simp
    let ?t = "\<lparr>sl_array = length (arrays fs), sl_len = ?n\<rparr>"
    have t: "?t = mf_content (objs ?fs1 ! a)" using assms(2) by (simp add: upd_obj_def)
    let ?ys = "splice ?xs ?n (unat off) p"
    have ys: "length ?ys = length (arrays ?fs1 ! sl_array ?t)" "?n \<le> length ?ys" using len by (simp_all add: length_splice nth_append)
    have "mem_wf ?fs1" "a < length (objs ?fs1)" using o1 assms(2) by (simp_all add: only_content_def)
    from own_array_update [OF this t ys small(1)] same_len [of "?fs1\<lparr>arrays := (arrays ?fs1)[sl_array ?t := ?ys]\<rparr>" a] t
    have "only_content a (take ?n ?ys) ?fs1 (?fs1\<lparr>arrays := (arrays ?fs1)[sl_array ?t := ?ys]\<rparr>)" by simp
    note o2 = only_content_trans [OF o1 this]
    have "length (slice_bytes fs ?s) = sl_len ?s" using ok by (simp add: slice_bytes_def slice_ok_def)
    then have "take ?n ?ys = write_bytes (content fs a) (unat off) p"
      using take_splice [of "unat off" p ?n ?xs] write_bytes_pad [of "slice_bytes fs ?s" "?n - sl_len ?s" "unat off" p] len
      by (simp add: content_def)
    note o2 [unfolded this]
    moreover have "memFile_WriteAt a p off fs = Some (None, ?fs1\<lparr>arrays := (arrays ?fs1)[sl_array ?t := ?ys]\<rparr>)"
      using True by (simp add: memFile_WriteAt_def Let_def plen off mk nth_append t [symmetric] del: of_nat_add)
    ultimately show ?thesis by blast
  next
    case False
    let ?ys = "splice (arrays fs ! sl_array ?s) (sl_len ?s) (unat off) p"
    have ys: "length ?ys = length (arrays fs ! sl_array ?s)" "sl_len ?s \<le> length ?ys"
      using False ok by (simp_all add: length_splice slice_ok_def)
    have "sl_len ?s < 2 ^ 63" using ok by (simp add: slice_ok_def)
    from own_array_update [OF assms(1,2) refl ys this] same_len [of "fs\<lparr>arrays := (arrays fs)[sl_array ?s := ?ys]\<rparr>" a]
    have "only_content a (take (sl_len ?s) ?ys) fs (fs\<lparr>arrays := (arrays fs)[sl_array ?s := ?ys]\<rparr>)" by simp
    moreover have "take (sl_len ?s) ?ys = write_bytes (content fs a) (unat off) p"
      using take_splice [of "unat off" p "sl_len ?s" "arrays fs ! sl_array ?s"] False ok
      by (simp add: content_def slice_bytes_def slice_ok_def)
    moreover have "memFile_WriteAt a p off fs = Some (None, fs\<lparr>arrays := (arrays fs)[sl_array ?s := ?ys]\<rparr>)"
      using False by (simp add: memFile_WriteAt_def Let_def plen off)
    ultimately show ?thesis by auto
  qed
qed

lemma Truncate_correct:
  assumes "mem_wf fs" "a < length (objs fs)" "unat sz \<le> 2 ^ 48"
  shows "\<exists>fs'. memFile_Truncate extra a sz fs = Some (None, fs') \<and> only_content a (truncate_bytes (content fs a) (unat sz)) fs fs'"
proof -
  let ?s = "mf_content (objs fs ! a)" and ?n = "unat sz"
  let ?arr = "arrays fs ! sl_array ?s"
  have ok: "slice_ok fs ?s" using assms by (simp add: mem_wf_def)
  then have len: "sl_len ?s \<le> length ?arr" "sl_len ?s < 2 ^ 63" "length (content fs a) = sl_len ?s" "content fs a = take (sl_len ?s) ?arr"
    by (simp_all add: slice_ok_def content_def slice_bytes_def)
  have small: "?n < 2 ^ 63" using assms(3) by simp
  then have sz: "sint sz = int ?n" by (rule sint_small)
  have grow: "sint (sz - of_nat (sl_len ?s)) = int ?n - int (sl_len ?s)" using sint_minus_of_nat [OF _ len(2), of sz] sz by simp
  have "int ?n \<le> int (2 ^ 48)" using assms(3) by (simp only: of_nat_le_iff)
  then have mk: "makeslice_ok (int ?n - int (sl_len ?s)) \<longleftrightarrow> sl_len ?s \<le> ?n" by (auto simp: makeslice_ok_def)
  consider (shrink) "?n \<le> sl_len ?s" | (inplace) "sl_len ?s < ?n" "?n \<le> length ?arr" | (move) "length ?arr < ?n" by linarith
  then show ?thesis
  proof cases
    case shrink
    from own_array_update [OF assms(1,2) refl, of ?arr ?n] shrink len(1) small
    have "only_content a (take ?n ?arr) fs (upd_obj (mf_content_update (sl_len_update (\<lambda>_. ?n))) a fs)" by simp
    moreover have "take ?n ?arr = truncate_bytes (content fs a) ?n" using shrink len by (simp add: truncate_bytes_def min_def)
    moreover have "memFile_Truncate extra a sz fs = Some (None, upd_obj (mf_content_update (sl_len_update (\<lambda>_. ?n))) a fs)"
      using shrink len(1) by (simp add: memFile_Truncate_def Let_def grow sz)
    ultimately show ?thesis by auto
  next
    case inplace
    let ?z = "replicate (?n - sl_len ?s) 0 :: bytes"
    let ?ys = "splice ?arr ?n (sl_len ?s) ?z"
    have "length ?ys = length ?arr" using inplace by (simp add: length_splice)
    from own_array_update [OF assms(1,2) refl this _ small] inplace(2) this
    have "only_content a (take ?n ?ys) fs
        (upd_obj (mf_content_update (sl_len_update (\<lambda>_. ?n))) a (fs\<lparr>arrays := (arrays fs)[sl_array ?s := ?ys]\<rparr>))" by simp
    moreover have "take ?n ?ys = truncate_bytes (content fs a) ?n"
      using take_splice [of "sl_len ?s" ?z ?n ?arr] inplace len
      by (simp add: truncate_bytes_def write_bytes_def min_def take_all_iff)
    moreover have "memFile_Truncate extra a sz fs = Some (None, upd_obj (mf_content_update (sl_len_update (\<lambda>_. ?n))) a
        (fs\<lparr>arrays := (arrays fs)[sl_array ?s := ?ys]\<rparr>))"
      using inplace by (simp add: memFile_Truncate_def Let_def grow sz mk nat_diff_distrib)
    ultimately show ?thesis by auto
  next
    case move
    let ?xs = "slice_bytes fs ?s @ replicate (?n - sl_len ?s) 0 @ replicate (extra (length ?arr) ?n) 0"
    from fresh_array [OF assms(1,2), of ?n ?xs] small len move
    have "only_content a (take ?n ?xs) fs
        (upd_obj (mf_content_update (\<lambda>_. \<lparr>sl_array = length (arrays fs), sl_len = ?n\<rparr>)) a (fs\<lparr>arrays := arrays fs @ [?xs]\<rparr>))"
      by (simp add: content_def)
    moreover have "take ?n ?xs = truncate_bytes (content fs a) ?n"
      using len move by (simp add: truncate_bytes_def content_def)
    moreover have "memFile_Truncate extra a sz fs = Some (None,
        upd_obj (mf_content_update (\<lambda>_. \<lparr>sl_array = length (arrays fs), sl_len = ?n\<rparr>)) a (fs\<lparr>arrays := arrays fs @ [?xs]\<rparr>))"
      using move len(1) by (simp add: memFile_Truncate_def Let_def grow sz mk nat_diff_distrib)
    ultimately show ?thesis by auto
  qed
qed

subsection \<open>The handlers keep the invariant\<close>

lemma fetch_file: "mem_wf fs \<Longrightarrow> fetch fs p = Inr a \<Longrightarrow> a < length (objs fs)"
  by (auto simp: fetch_def mem_wf_def split: if_splits option.splits)

lemma mem_Fileread_law:
  assumes "mem_wf fs"
  shows "\<exists>rd err. mem_Fileread r fs = Some (rd, err, fs) \<and> (\<forall>x. rd = Some x \<longrightarrow> slice_ok fs x)"
  using fetch_file [OF assms] assms
  by (auto simp: mem_Fileread_def memFile_ReaderAt_def mem_wf_def split: option.split sum.split)

lemma mem_wf_files:
  assumes "mem_wf fs" "\<And>p a. m p = Some a \<Longrightarrow> a < length (objs fs)"
  shows "mem_wf (fs\<lparr>root_files := m\<rparr>) \<and> mem_le fs (fs\<lparr>root_files := m\<rparr>)"
  by (rule mem_wf_update [OF assms(1)]) (use assms in \<open>auto simp: mem_wf_def\<close>)

lemma mem_wf_put:
  assumes "mem_wf fs" "a < length (objs fs)"
  shows "mem_wf (fs\<lparr>root_files := (root_files fs)(p \<mapsto> a)\<rparr>) \<and> mem_le fs (fs\<lparr>root_files := (root_files fs)(p \<mapsto> a)\<rparr>)"
  by (rule mem_wf_files [OF assms(1)]) (use assms in \<open>auto simp: mem_wf_def split: if_splits\<close>)

lemma mem_wf_drop:
  assumes "mem_wf fs"
  shows "mem_wf (fs\<lparr>root_files := (root_files fs)(p := None)\<rparr>) \<and> mem_le fs (fs\<lparr>root_files := (root_files fs)(p := None)\<rparr>)"
  by (rule mem_wf_files [OF assms]) (use assms in \<open>auto simp: mem_wf_def split: if_splits\<close>)

lemma mem_wf_upd:
  assumes "mem_wf fs" "\<And>f. mf_content (g f) = mf_content f"
  shows "mem_wf (upd_obj g a fs) \<and> mem_le fs (upd_obj g a fs)"
  by (rule mem_wf_update [OF assms(1)]) (use assms in \<open>auto simp: mem_wf_def map_content_upd\<close>)

lemma mem_Filewrite_law:
  assumes "mem_wf fs"
  shows "\<exists>wr err fs'. mem_Filewrite r fs = Some (wr, err, fs') \<and> mem_wf fs' \<and> mem_le fs fs' \<and> (\<forall>a. wr = Some a \<longrightarrow> a < length (objs fs'))"
proof (cases "root_mockErr fs = None \<and> (\<exists>e d. fetch fs (Filepath r) = Inl e \<and> fetch fs (Dir (Filepath r)) = Inr d \<and> mf_isdir (objs fs ! d))")
  case True
  obtain a fs1 where n: "newMemFile (Filepath r) False fs = (a, fs1)" by (cases "newMemFile (Filepath r) False fs")
  note new = newMemFile_wf [OF assms n]
  let ?fs2 = "fs1\<lparr>root_files := (root_files fs1)(Filepath r \<mapsto> a)\<rparr>"
  have "mem_wf ?fs2 \<and> mem_le fs1 ?fs2" by (rule mem_wf_put) (use new in auto)
  with new mem_le_trans [of fs fs1 ?fs2] True n show ?thesis
    by (auto simp: mem_Filewrite_def memFile_WriterAt_def Let_def)
next
  case False
  with assms fetch_file [OF assms] show ?thesis
    by (auto simp: mem_Filewrite_def memFile_WriterAt_def split: option.split sum.split)
qed

text \<open>One step of renaming: a file gets a new name, in the file and in the map.\<close>

lemma rename_step_wf:
  assumes "mem_wf fs" "a < length (objs fs)"
  shows "mem_wf ((upd_obj (mf_name_update (\<lambda>_. q)) a fs)\<lparr>root_files := (root_files fs)(q \<mapsto> a, p := None)\<rparr>) \<and>
    mem_le fs ((upd_obj (mf_name_update (\<lambda>_. q)) a fs)\<lparr>root_files := (root_files fs)(q \<mapsto> a, p := None)\<rparr>)"
proof -
  let ?u = "upd_obj (mf_name_update (\<lambda>_. q)) a fs"
  have u: "mem_wf ?u" "mem_le fs ?u" using mem_wf_upd [OF assms(1), of "mf_name_update (\<lambda>_. q)" a] by auto
  have "mem_wf (?u\<lparr>root_files := (root_files fs)(q \<mapsto> a, p := None)\<rparr>) \<and> mem_le ?u (?u\<lparr>root_files := (root_files fs)(q \<mapsto> a, p := None)\<rparr>)"
    by (rule mem_wf_files [OF u(1)]) (use assms in \<open>auto simp: mem_wf_def split: if_splits\<close>)
  with u mem_le_trans show ?thesis by blast
qed

lemma rename_children_wf:
  "mem_wf fs \<Longrightarrow> mem_wf (rename_children old new ks fs) \<and> mem_le fs (rename_children old new ks fs)"
proof (induction ks arbitrary: fs)
  case (Cons k ks)
  show ?case
  proof (cases "root_files fs k")
    case (Some a)
    with Cons.prems have "a < length (objs fs)" by (auto simp: mem_wf_def)
    note step = rename_step_wf [OF Cons.prems this, of "new @ drop (length old) k" k]
    with Cons.IH [OF Cons.prems] Cons.IH [OF conjunct1 [OF step]] mem_le_trans Some show ?thesis
      by (auto simp: Let_def)
  qed (use Cons in auto)
qed simp

lemma cmd_wf:
  assumes "mem_wf fs"
  shows "cmd_Rename iter r fs = (e, fs') \<Longrightarrow> mem_wf fs' \<and> mem_le fs fs'"
    and "cmd_Remove iter r fs = (e, fs') \<Longrightarrow> mem_wf fs' \<and> mem_le fs fs'"
    and "cmd_Mkdir r fs = (e, fs') \<Longrightarrow> mem_wf fs' \<and> mem_le fs fs'"
    and "cmd_Link r fs = (e, fs') \<Longrightarrow> mem_wf fs' \<and> mem_le fs fs'"
    and "cmd_Symlink r fs = (e, fs') \<Longrightarrow> mem_wf fs' \<and> mem_le fs fs'"
proof -
  note fetch = fetch_file [OF assms]
  {
    assume c: "cmd_Rename iter r fs = (e, fs')"
    show "mem_wf fs' \<and> mem_le fs fs'"
    proof (cases "\<exists>a. fetch fs (Filepath r) = Inr a \<and> root_files fs (Target r) = None")
      case True
      then obtain a where a: "fetch fs (Filepath r) = Inr a" "root_files fs (Target r) = None" by blast
      note step = rename_step_wf [OF assms fetch [OF a(1)], of "Target r" "Filepath r"]
      note kids = rename_children_wf [OF conjunct1 [OF step]]
      from c a step kids show ?thesis by (auto simp: cmd_Rename_def Let_def split: if_splits intro: mem_le_trans)
    qed (use c assms in \<open>auto simp: cmd_Rename_def split: sum.splits if_splits\<close>)
  next
    assume "cmd_Remove iter r fs = (e, fs')"
    with assms mem_wf_drop [OF assms] show "mem_wf fs' \<and> mem_le fs fs'"
      by (auto simp: cmd_Remove_def split: sum.splits if_splits)
  next
    assume c: "cmd_Mkdir r fs = (e, fs')"
    obtain a fs1 where n: "newMemFile (Filepath r) True fs = (a, fs1)" by (cases "newMemFile (Filepath r) True fs")
    note new = newMemFile_wf [OF assms n]
    have "mem_wf (fs1\<lparr>root_files := (root_files fs1)(Filepath r \<mapsto> a)\<rparr>) \<and> mem_le fs1 (fs1\<lparr>root_files := (root_files fs1)(Filepath r \<mapsto> a)\<rparr>)"
      by (rule mem_wf_put) (use new in auto)
    with c n new assms show "mem_wf fs' \<and> mem_le fs fs'"
      by (auto simp: cmd_Mkdir_def split: sum.splits intro: mem_le_trans)
  next
    assume "cmd_Link r fs = (e, fs')"
    with assms mem_wf_put [OF assms fetch] show "mem_wf fs' \<and> mem_le fs fs'"
      by (auto simp: cmd_Link_def split: sum.splits if_splits)
  next
    assume c: "cmd_Symlink r fs = (e, fs')"
    obtain a fs1 where n: "newMemFile (Target r) False fs = (a, fs1)" by (cases "newMemFile (Target r) False fs")
    note new = newMemFile_wf [OF assms n]
    let ?u = "upd_obj (mf_symlink_update (\<lambda>_. Filepath r)) a fs1"
    have u: "mem_wf ?u" "mem_le fs1 ?u" using mem_wf_upd [of fs1 "mf_symlink_update (\<lambda>_. Filepath r)" a] new by auto
    have "mem_wf (?u\<lparr>root_files := (root_files fs1)(Target r \<mapsto> a)\<rparr>) \<and> mem_le ?u (?u\<lparr>root_files := (root_files fs1)(Target r \<mapsto> a)\<rparr>)"
      using mem_wf_put [OF u(1), of a "Target r"] new by simp
    with c n new u assms show "mem_wf fs' \<and> mem_le fs fs'"
      by (auto simp: cmd_Symlink_def Let_def split: sum.splits intro: mem_le_trans)
  }
qed

text \<open>The sizes that fit: a file of at most \<open>2 ^ 48\<close> bytes, what \<^verbatim>\<open>make\<close> can allocate.\<close>

definition mem_write_fits :: "nat \<Rightarrow> u64 \<Rightarrow> bool" where
  "mem_write_fits n off \<longleftrightarrow> unat off + n \<le> 2 ^ 48"

definition mem_attrs_fit :: "u32 \<Rightarrow> bytes \<Rightarrow> bool" where
  "mem_attrs_fit flags b \<longleftrightarrow> (fa_Size (newFileAttrFlags flags) \<longrightarrow> unat (fs_Size (fst (getFileStat flags b))) \<le> 2 ^ 48)"

lemma mem_Filecmd_law:
  assumes "mem_wf fs" "mem_attrs_fit (Flags r) (Attrs r)"
  shows "\<exists>err fs'. mem_Filecmd iter extra r fs = Some (err, fs') \<and> mem_wf fs' \<and> mem_le fs fs'"
proof -
  have setstat: "\<exists>err fs'. (case fetch fs (Filepath r) of
        Inl e \<Rightarrow> Some (Some e, fs)
      | Inr a \<Rightarrow> if fa_Size (AttrFlags r) then memFile_Truncate extra a (fs_Size (Attributes r)) fs else Some (None, fs)) = Some (err, fs') \<and>
      mem_wf fs' \<and> mem_le fs fs'"
  proof (cases "\<exists>a. fetch fs (Filepath r) = Inr a \<and> fa_Size (AttrFlags r)")
    case True
    then obtain a where a: "fetch fs (Filepath r) = Inr a" "fa_Size (AttrFlags r)" by blast
    with assms(2) have "unat (fs_Size (Attributes r)) \<le> 2 ^ 48" by (simp add: mem_attrs_fit_def AttrFlags_def Attributes_def)
    from Truncate_correct [OF assms(1) fetch_file [OF assms(1) a(1)] this, of extra] a show ?thesis
      by (auto simp: only_content_def)
  qed (use assms in \<open>auto split: sum.split\<close>)
  have cmd: "\<exists>err fs'. Some (f fs) = Some (err, fs') \<and> mem_wf fs' \<and> mem_le fs fs'"
    if "\<And>e fs'. f fs = (e, fs') \<Longrightarrow> mem_wf fs' \<and> mem_le fs fs'" for f :: "root \<Rightarrow> go_error option \<times> root"
    using that by (cases "f fs") auto
  show ?thesis
    using setstat cmd [OF cmd_wf(1) [OF assms(1)]] cmd [OF cmd_wf(2) [OF assms(1)]] cmd [OF cmd_wf(3) [OF assms(1)]]
      cmd [OF cmd_wf(4) [OF assms(1)]] cmd [OF cmd_wf(5) [OF assms(1)]] assms(1)
    unfolding mem_Filecmd_def by (simp split: option.split)
qed

text \<open>A lister: its files exist, and the offset has not gone past the end.\<close>

definition lister_ok :: "root \<Rightarrow> nat list \<Rightarrow> u64 \<Rightarrow> bool" where
  "lister_ok fs ls off \<longleftrightarrow> (\<forall>a \<in> set ls. a < length (objs fs)) \<and> length ls < 2 ^ 63 \<and> unat off \<le> length ls"

lemma ListAt_correct:
  assumes "lister_ok fs ls off"
  shows "\<exists>err. listerat_ListAt ls n off fs = Some (map (\<lambda>a. memFile_info (objs fs ! a)) (take n (drop (unat off) ls)), err, fs) \<and>
    lister_ok fs ls (off + of_nat (length (take n (drop (unat off) ls)))) \<and>
    (err = (if length (take n (drop (unat off) ls)) < n \<or> unat off = length ls then Some EOF else None))"
proof -
  have off: "sint off = int (unat off)" using assms by (intro sint_small) (simp add: lister_ok_def)
  let ?k = "length (take n (drop (unat off) ls))"
  have k: "?k + unat off \<le> length ls" using assms by (auto simp: lister_ok_def)
  with assms have "unat (of_nat ?k + off) = ?k + unat off" by (simp add: lister_ok_def unat_word_ariths unat_of_nat)
  with k assms have ok: "lister_ok fs ls (off + of_nat ?k)" by (simp add: lister_ok_def add.commute)
  show ?thesis
  proof (cases "unat off = length ls")
    case True
    with off ok show ?thesis by (simp add: listerat_ListAt_def)
  next
    case False
    with off assms ok show ?thesis by (auto simp: listerat_ListAt_def lister_ok_def Let_def)
  qed
qed

declare of_nat_unat [simp]

text \<open>The Go runtime: a range over a map yields keys of the map, and fewer of them than an \<^verbatim>\<open>int\<close> can count.\<close>

locale go_runtime =
  fixes iter :: "(string \<rightharpoonup> nat) \<Rightarrow> string list"
    and extra :: "nat \<Rightarrow> nat \<Rightarrow> nat"
  assumes iter_keys: "set (iter m) \<subseteq> dom m"
    and iter_length: "length (iter m) < 2 ^ 63"
begin

lemma mem_Filelist_law:
  assumes "mem_wf fs"
  shows "\<exists>ls err. mem_Filelist iter r fs = Some (ls, err, fs) \<and> (\<forall>x. ls = Some x \<longrightarrow> lister_ok fs x 0) \<and>
    (ls = None \<longrightarrow> err \<noteq> None \<or> Method r \<notin> {''Stat'', ''Readlink''})"
proof -
  let ?names = "sort (filter (\<lambda>fn. Dir fn = Filepath r) (iter (root_files fs)))"
  have "lister_ok fs (map (\<lambda>fn. the (root_files fs fn)) ?names) 0"
  proof -
    have "the (root_files fs fn) < length (objs fs)" if "fn \<in> set (iter (root_files fs))" for fn
      using iter_keys [of "root_files fs"] that assms by (auto simp: mem_wf_def)
    moreover have "length (filter (\<lambda>fn. Dir fn = Filepath r) (iter (root_files fs))) < 2 ^ 63"
      using iter_length [of "root_files fs"] length_filter_le [of "\<lambda>fn. Dir fn = Filepath r" "iter (root_files fs)"] by linarith
    ultimately show ?thesis by (simp add: lister_ok_def)
  qed
  with fetch_file [OF assms] show ?thesis
    by (auto simp: mem_Filelist_def Let_def lister_ok_def split: option.split sum.split)
qed

end

sublocale go_runtime \<subseteq> mb: backend "mem_Handlers iter extra" mem_wf mem_le slice_ok "\<lambda>fs a. a < length (objs fs)" lister_ok
  mem_write_fits mem_attrs_fit
proof unfold_locales
  fix fs r
  assume "mem_wf fs"
  then show "\<exists>rd err w'. Fileread (mem_Handlers iter extra) r fs = Some (rd, err, w') \<and> mem_wf w' \<and> mem_le fs w' \<and> (\<forall>x. rd = Some x \<longrightarrow> slice_ok w' x)"
    using mem_Fileread_law [of fs r] by (auto simp: mem_Handlers_def)
next
  fix fs r
  assume "mem_wf fs"
  then show "\<exists>ls err w'. Filelist (mem_Handlers iter extra) r fs = Some (ls, err, w') \<and> mem_wf w' \<and> mem_le fs w' \<and>
      (\<forall>x. ls = Some x \<longrightarrow> lister_ok w' x 0) \<and> (ls = None \<longrightarrow> err \<noteq> None \<or> Method r \<notin> {''Stat'', ''Readlink''})"
    using mem_Filelist_law [of fs r] by (auto simp: mem_Handlers_def)
next
  fix fs a off and d :: bytes
  assume "mem_wf fs" "a < length (objs fs)" "mem_write_fits (length d) off"
  then show "\<exists>err w'. WriteAt (mem_Handlers iter extra) a d off fs = Some (err, w') \<and> mem_wf w' \<and> mem_le fs w'"
    using WriteAt_correct [of fs a off d] by (auto simp: mem_Handlers_def mem_write_fits_def only_content_def)
next
  fix fs ls off n
  assume "mem_wf fs" "lister_ok fs ls off"
  then show "\<exists>fi err w'. ListAt (mem_Handlers iter extra) ls n off fs = Some (fi, err, w') \<and> mem_wf w' \<and> mem_le fs w' \<and>
      lister_ok w' ls (off + of_nat (length fi))"
    using ListAt_correct [of fs ls off n] by (auto simp: mem_Handlers_def)
next
  fix fs r
  assume "mem_wf fs"
  then show "\<exists>wr err w'. Filewrite (mem_Handlers iter extra) r fs = Some (wr, err, w') \<and> mem_wf w' \<and> mem_le fs w' \<and>
      (\<forall>x. wr = Some x \<longrightarrow> x < length (objs w'))"
    using mem_Filewrite_law [of fs r] by (auto simp: mem_Handlers_def)
next
  fix fs and r :: mem_request
  assume "mem_wf fs" "mem_attrs_fit (Flags r) (Attrs r)"
  then show "\<exists>err w'. Filecmd (mem_Handlers iter extra) r fs = Some (err, w') \<and> mem_wf w' \<and> mem_le fs w'"
    using mem_Filecmd_law [of fs r iter extra] by (simp add: mem_Handlers_def)
qed (auto simp: mem_Handlers_def bytes_ReadAt_def mem_write_fits_def mem_attrs_fit_def newFileAttrFlags_def lister_ok_def
    intro: slice_ok_mono mem_le_trans simp: mem_le_def [of _ "_"])

end
