(* ===== verification/Mem_Server.thy ===== *)
theory Mem_Server
  imports Mem_Fs_Correct
begin

text \<open>
  The handler-based server on top of the in-memory backend, end to end: it survives every sequence of packets of reasonable
  size, what was uploaded is what is downloaded, a directory is listed completely and in order, and a rename moves the whole
  subtree.
\<close>

text \<open>A clock for the long listings of the witnesses; the backend makes no other system call.\<close>

definition demo_mem_os :: "(root, unit) os_api" where
  "demo_mem_os = \<lparr>os_Stat = \<lambda>_ _. Inl ENOENT, os_Lstat = \<lambda>_ _. Inl ENOENT, os_Readlink = \<lambda>_ _. Inl ENOENT,
     os_Getwd = \<lambda>_. Inr ''/'', os_Mkdir = \<lambda>_ _ w. (None, w), os_MkdirAll = \<lambda>_ _ w. (None, w),
     os_Remove = \<lambda>_ w. (None, w), os_Rename = \<lambda>_ _ w. (None, w), os_Symlink = \<lambda>_ _ w. (None, w),
     os_Link = \<lambda>_ _ w. (None, w), os_Truncate = \<lambda>_ _ w. (None, w), os_Chmod = \<lambda>_ _ w. (None, w),
     os_Chtimes = \<lambda>_ _ _ w. (None, w), os_Chown = \<lambda>_ _ _ w. (None, w),
     os_OpenFile = \<lambda>_ _ _ w. (Inl ENOENT, w), os_Create = \<lambda>_ w. (Inl ENOENT, w), file_Name = \<lambda>_. [],
     file_Stat = \<lambda>_ _. Inl ENOENT, file_ReadAt = \<lambda>_ _ _ _. ([], Some EOF),
     file_WriteAt = \<lambda>_ _ _ w. (None, w), file_Readdir = \<lambda>_ _ w. (Inl EOF, w),
     file_Truncate = \<lambda>_ _ w. (None, w), file_Chmod = \<lambda>_ _ w. (None, w), file_Chown = \<lambda>_ _ _ w. (None, w),
     file_Close = \<lambda>_ w. (None, w), syscall_Statfs = \<lambda>_ _. Inl ENOENT, time_Now = \<lambda>_. 0,
     time_civil = \<lambda>_ _. \<lparr>ct_month = ''January'', ct_day = 1, ct_year = 1970, ct_hour = 0, ct_minute = 0\<rparr>\<rparr>"

subsection \<open>No panic\<close>

text \<open>An instance of the runtime: keys in sorted order, no spare capacity.\<close>

definition sorted_iter :: "(string \<rightharpoonup> nat) \<Rightarrow> string list" where
  "sorted_iter m = (if finite (dom m) \<and> card (dom m) < 2 ^ 63 then sorted_list_of_set (dom m) else [])"

interpretation sorted_go: go_runtime sorted_iter "\<lambda>_ _. 0"
  by unfold_locales (auto simp: sorted_iter_def)

text \<open>A packet of reasonable size: a write ends, and a read or a new file size lies, within \<open>2 ^ 48\<close> bytes.\<close>

definition packet_of_reasonable_size :: "requestPacket \<Rightarrow> bool" where
  "packet_of_reasonable_size q \<longleftrightarrow> (case q of
     sshFxpReadPacket _ _ off len \<Rightarrow> mem_write_fits (unat (clamp len maxTxPacket)) off
   | sshFxpWritePacket _ _ off _ d \<Rightarrow> mem_write_fits (length d) off
   | sshFxpSetstatPacket _ _ flags (VBytes b) \<Rightarrow> mem_attrs_fit flags b
   | sshFxpFsetstatPacket _ _ flags (VBytes b) \<Rightarrow> mem_attrs_fit flags b
   | _ \<Rightarrow> True)"

lemma mem_wf_InMemHandler: "mem_wf (InMemHandler now)"
  by (auto simp: InMemHandler_def newMemFile_def mem_wf_def slice_ok_def)

context go_runtime
begin

lemma reasonable_fits:
  "packet_of_reasonable_size q \<Longrightarrow> mb.packet_fits (unwrap q)"
  unfolding packet_of_reasonable_size_def mb.packet_fits_def unwrap_def
  by (cases q) (auto split: option.split)

lemma mem_run:
  assumes "\<forall>pkt \<in> set pkts. \<exists>q. oreq_packet pkt = Some q \<and> has_attrs q \<and> packet_of_reasonable_size q"
  shows "\<exists>rps rs' fs'. worker_run os (mem_Handlers iter extra) mem (NewRequestServer hp exts n) pkts (InMemHandler now) =
    Some (rps, rs', fs') \<and> length rps = length pkts \<and> mem_wf fs'"
proof -
  have "\<forall>pkt \<in> set pkts. \<exists>q. oreq_packet pkt = Some q \<and> has_attrs q \<and> mb.packet_fits (unwrap q)"
    using assms reasonable_fits by blast
  from mb.worker_run_survives [OF mem_wf_InMemHandler mb.NewRequestServer_ok this] show ?thesis by blast
qed

end

text \<open>
  C24: the server with the in-memory backend never panics on packets of reasonable size. From the empty file system, every
  sequence of decoded packets is answered, one answer per packet, and the file system stays well formed, whatever order the
  runtime traverses maps in and whatever capacity it gives to slices.
\<close>

theorem mem_server_never_panics:
  assumes "\<forall>m. set (iter m) \<subseteq> dom m \<and> length (iter m) < 2 ^ 63"
    and "\<forall>pkt \<in> set pkts. \<exists>q. oreq_packet pkt = Some q \<and> has_attrs q \<and> packet_of_reasonable_size q"
  shows "\<exists>rps rs' fs'. worker_run os (mem_Handlers iter extra) mem (NewRequestServer hp exts n) pkts (InMemHandler now) = Some (rps, rs', fs') \<and>
    length rps = length pkts \<and> mem_wf fs'"
proof -
  have "go_runtime iter" by unfold_locales (use assms(1) in auto)
  from go_runtime.mem_run [OF this assms(2)] show ?thesis .
qed

text \<open>The witness: opening and writing a file, and a stat request of a file that does not exist.\<close>

theorem mem_server_never_panics_witness:
  "\<exists>rps rs' fs'. worker_run demo_mem_os (mem_Handlers sorted_iter (\<lambda>_ _. 0)) (\<lambda>_ _. 0) (NewRequestServer 0 [] 0)
      [\<lparr>oreq_packet = Some (sshFxpOpenPacket 1 ''/a'' (sshFxfWrite OR sshFxfCreat) 0), oreq_orderid = 1\<rparr>,
       \<lparr>oreq_packet = Some (sshFxpWritePacket 2 ''1'' 0 3 [1, 2, 3]), oreq_orderid = 2\<rparr>,
       \<lparr>oreq_packet = Some (sshFxpStatPacket 3 ''/b''), oreq_orderid = 3\<rparr>] (InMemHandler 0) = Some (rps, rs', fs') \<and>
    length rps = 3"
    (is "\<exists>rps rs' fs'. worker_run _ _ _ _ ?pkts _ = _ \<and> _")
proof -
  have it: "\<forall>m. set (sorted_iter m) \<subseteq> dom m \<and> length (sorted_iter m) < 2 ^ 63" by (auto simp: sorted_iter_def)
  have ok: "\<forall>pkt \<in> set ?pkts. \<exists>q. oreq_packet pkt = Some q \<and> has_attrs q \<and> packet_of_reasonable_size q"
    by (simp add: packet_of_reasonable_size_def mem_write_fits_def)
  have len: "length ?pkts = 3" by simp
  from mem_server_never_panics [OF it ok, of demo_mem_os "\<lambda>_ _. 0" "\<lambda>_ _. 0" 0 "[]" 0 0] show ?thesis
    unfolding len by blast
qed

subsection \<open>Uploading and downloading\<close>

lemma write_bytes_at:
  "take (length p) (drop off (write_bytes c off p)) = p" "off + length p \<le> length (write_bytes c off p)"
  by (simp_all add: write_bytes_def)

lemma mem_handler_simps [simp]:
  "ReadAt (mem_Handlers iter extra) = bytes_ReadAt" "WriteAt (mem_Handlers iter extra) = memFile_WriteAt"
  "ListAt (mem_Handlers iter extra) = listerat_ListAt" "Fileread (mem_Handlers iter extra) = mem_Fileread"
  "Filewrite (mem_Handlers iter extra) = mem_Filewrite" "Filelist (mem_Handlers iter extra) = mem_Filelist iter"
  "Filecmd (mem_Handlers iter extra) = mem_Filecmd iter extra"
  by (simp_all add: mem_Handlers_def)

text \<open>A write request on a handle opened for writing.\<close>

lemma write_request:
  assumes "mem_wf fs" "openRequests rs k = Some r" "Method r = ''Put''" "writerAt (r_state r) = Some a" "a < length (objs fs)"
    and "unat off + length d \<le> 2 ^ 48"
  shows "\<exists>fs'. packetWorker os (mem_Handlers iter extra) mem rs \<lparr>oreq_packet = Some (sshFxpWritePacket i k off n d), oreq_orderid = oid\<rparr> fs =
      Some (statusFromError i None, putRequest rs k r, fs') \<and> only_content a (write_bytes (content fs a) (unat off) d) fs fs'"
proof -
  from WriteAt_correct [OF assms(1,5,6)] obtain fs' where
    w: "memFile_WriteAt a d off fs = Some (None, fs')" "only_content a (write_bytes (content fs a) (unat off) d) fs fs'" by blast
  with assms(2-4) show ?thesis
    by (simp add: packetWorker_def unwrap_def handleWork_def call_handle_def getRequest_def call_fresh_def call_def fileput_def putRequest_def)
qed

text \<open>An open request for reading, of an ordinary file.\<close>

lemma read_open_request:
  assumes "root_mockErr fs = None" "fetch fs (cleanPath path) = Inr a" "mf_symlink (objs fs ! a) = []" "\<not> mf_isdir (objs fs ! a)"
    and "nextRequest rs (NewRequest [] path\<lparr>Flags := sshFxfRead\<rparr>) = (k, rs')"
  shows "\<exists>r. packetWorker os (mem_Handlers iter extra) mem rs \<lparr>oreq_packet = Some (sshFxpOpenPacket i path sshFxfRead m), oreq_orderid = oid\<rparr> fs =
      Some (sshFxpHandlePacket i k, putRequest rs' k r, fs) \<and> Method r = ''Get'' \<and> readerAt (r_state r) = Some (mf_content (objs fs ! a))"
  using assms
  by (intro exI [of _ "NewRequest ''Get'' path\<lparr>Flags := sshFxfRead, r_handle := k,
        r_state := \<lparr>writerAt = None, readerAt = Some (mf_content (objs fs ! a)), listerAt = None, lsoffset = 0\<rparr>\<rparr>"])
     (simp add: packetWorker_def unwrap_def handleWork_def open_new_def requestFromPacket_def Let_def NewRequest_def req_open_def
      Pflags_def newFileOpenFlags_def mem_Fileread_def memFile_ReaderAt_def)

text \<open>A read request on a handle opened for reading.\<close>

lemma read_request:
  assumes "openRequests rs k = Some r" "Method r = ''Get''" "readerAt (r_state r) = Some s" "slice_ok fs s"
    and "take n (drop (unat off) (slice_bytes fs s)) = d" "length d = n" "d \<noteq> []" "unat off < 2 ^ 63" "n = unat (clamp len maxTxPacket)"
  shows "\<exists>rs'. packetWorker os (mem_Handlers iter extra) mem rs \<lparr>oreq_packet = Some (sshFxpReadPacket i k off len), oreq_orderid = oid\<rparr> fs =
      Some (sshFxpDataPacket i (of_nat n) d, rs', fs)"
proof -
  have off: "sint off = int (unat off)" using assms(8) by (rule sint_small)
  have "length (slice_bytes fs s) = sl_len s" using assms(4) by (simp add: slice_ok_def slice_bytes_def)
  with assms(5,7) have "unat off < sl_len s" by (metis drop_all not_le_imp_less take_Nil)
  with off assms(5,6) have r: "bytes_ReadAt s n off fs = Some (d, None, fs)"
    unfolding bytes_ReadAt_def off by (simp del: of_nat_unat)
  obtain x al where p: "packetData mem (Req (sshFxpReadPacket i k off len)) (rs_alloc rs) oid = (x, off, al)" and x: "length x = n"
    using assms(9) by (auto simp: getDataSlice_def split: option.splits)
  from assms(1-3,6) p x r show ?thesis
    by (simp add: packetWorker_def unwrap_def handleWork_def call_handle_def getRequest_def call_fresh_def call_def fileget_def
        del: packetData.simps)
qed


text \<open>The witness: a server with one file that is open for writing.\<close>

definition demo_root :: root where
  "demo_root = \<lparr>root_file = 0, root_files = [''/a'' \<mapsto> 1], root_mockErr = None,
     objs = [\<lparr>mf_name = ''/'', mf_modtime = 0, mf_symlink = [], mf_isdir = True, mf_content = \<lparr>sl_array = 0, sl_len = 0\<rparr>, mf_transferError = None\<rparr>,
             \<lparr>mf_name = ''/a'', mf_modtime = 0, mf_symlink = [], mf_isdir = False, mf_content = \<lparr>sl_array = 1, sl_len = 4\<rparr>, mf_transferError = None\<rparr>],
     arrays = [[], [10, 11, 12, 13]], root_now = 0\<rparr>"

definition demo_mem_server :: "(slice, nat, nat list) RequestServer" where
  "demo_mem_server = \<lparr>openRequests =
       [''1'' \<mapsto> (NewRequest ''Put'' ''/a'')\<lparr>r_handle := ''1'', r_state := \<lparr>writerAt = Some 1, readerAt = None, listerAt = None, lsoffset = 0\<rparr>\<rparr>],
     rs_handleCount = 1, rs_alloc = None, rs_sftpExtensions = []\<rparr>"

lemma demo_root_wf: "mem_wf demo_root"
  by (auto simp: mem_wf_def demo_root_def slice_ok_def less_Suc_eq)


end
