(* ===== verification/Mem_Dirs.thy ===== *)
theory Mem_Dirs
  imports Mem_Server
begin

text \<open>Directories of the in-memory backend: listing them in batches, and renaming them.\<close>

subsection \<open>Listing\<close>

text \<open>
  A listing is sorted and complete. For every order in which the runtime may traverse the map of files, listing a
  directory gives the files whose parent it is, once each, in lexicographic order of their paths.
\<close>

theorem listing_is_sorted_and_complete:
  assumes "set (iter (root_files fs)) = dom (root_files fs)" and "distinct (iter (root_files fs))"
    and "root_mockErr fs = None" and "Method r = ''List''" and "fetch fs (Filepath r) = Inr a" and "mf_isdir (objs fs ! a)"
  shows "mem_Filelist iter r fs =
    Some (Some (map (\<lambda>fn. the (root_files fs fn)) (sorted_list_of_set {fn \<in> dom (root_files fs). Dir fn = Filepath r})), None, fs)"
proof -
  let ?ns = "filter (\<lambda>fn. Dir fn = Filepath r) (iter (root_files fs))"
  have "set ?ns = {fn \<in> dom (root_files fs). Dir fn = Filepath r}" using assms(1) by auto
  moreover have "sort ?ns = sorted_list_of_set (set ?ns)" 
    by (metis sorted_list_of_set_sort_remdups distinct_remdups_id distinct_filter assms(2))
  ultimately show ?thesis using assms(3-6) by (simp add: mem_Filelist_def Let_def)
qed

theorem listing_is_sorted_and_complete_witness:
  "mem_Filelist (\<lambda>_. [''/a'']) (NewRequest ''List'' ''/'') demo_root = Some (Some [1], None, demo_root)"
proof -
  have d: "Dir ''/a'' = ''/''" "cleanPath ''/'' = ''/''" by code_simp+
  have *: "{fn \<in> dom (root_files demo_root). Dir fn = Filepath (NewRequest ''List'' ''/'' :: mem_request)} = {''/a''}"
    by (auto simp: demo_root_def NewRequest_def d split: if_splits)
  have "set [''/a''] = dom (root_files demo_root)" "distinct [''/a'']" "root_mockErr demo_root = None"
      "Method (NewRequest ''List'' ''/'' :: mem_request) = ''List''"
      "fetch demo_root (Filepath (NewRequest ''List'' ''/'' :: mem_request)) = Inr 0" "mf_isdir (objs demo_root ! 0)"
    by (auto simp: demo_root_def NewRequest_def fetch_def d split: if_splits)
  from listing_is_sorted_and_complete [OF this, unfolded *] show ?thesis by (simp add: demo_root_def)
qed

text \<open>The answer to the readdir request number \<open>j\<close> (from zero) on a handle that lists \<open>ls\<close>.\<close>

definition batch :: "nat list \<Rightarrow> nat \<Rightarrow> nat list" where
  "batch ls j = take MaxFilelist (drop (MaxFilelist * j) ls)"

definition readdir_answer :: "(root, 'f) os_api \<Rightarrow> root \<Rightarrow> u32 \<Rightarrow> string \<Rightarrow> nat list \<Rightarrow> nat \<Rightarrow> responsePacket" where
  "readdir_answer os fs i dir ls j =
     (if batch ls j = [] then statusFromError i (Some EOF)
      else sshFxpNamePacket i (map (\<lambda>a. let fi = memFile_info (objs fs ! a) in NameAttr (fi_name fi) (runLs os fs dir fi) [VFileInfo fi]) (batch ls j)))"

lemma concat_batches: "length ls \<le> MaxFilelist * m \<Longrightarrow> concat (map (batch ls) [0..<m]) = ls"
proof (induction m arbitrary: ls)
  case (Suc m)
  have eq: "map (batch ls) [0..<Suc m] = batch ls 0 # map (batch (drop MaxFilelist ls)) [0..<m]"
    by (simp add: map_upt_Suc batch_def add.commute del: upt_Suc)
  have "concat (map (batch (drop MaxFilelist ls)) [0..<m]) = drop MaxFilelist ls" using Suc.prems by (intro Suc.IH) simp
  then show ?case unfolding eq by (simp add: batch_def [of _ 0])
qed simp

lemma readdir_request:
  assumes "openRequests rs k = Some r" "Method r = ''List''" "listerAt (r_state r) = Some ls" "lister_ok fs ls (lsoffset (r_state r))"
    and "unat (lsoffset (r_state r)) = min (MaxFilelist * j) (length ls)"
  shows "\<exists>r'. packetWorker os (mem_Handlers iter extra) mem rs \<lparr>oreq_packet = Some (sshFxpReaddirPacket i k), oreq_orderid = oid\<rparr> fs =
      Some (readdir_answer os fs i (Base (Filepath r)) ls j, putRequest rs k r', fs) \<and>
    Method r' = ''List'' \<and> Filepath r' = Filepath r \<and> listerAt (r_state r') = Some ls \<and> lister_ok fs ls (lsoffset (r_state r')) \<and>
    unat (lsoffset (r_state r')) = min (MaxFilelist * Suc j) (length ls)"
proof -
  let ?off = "lsoffset (r_state r)"
  let ?b = "take MaxFilelist (drop (unat ?off) ls)"
  have b: "?b = batch ls j"
  proof (cases "MaxFilelist * j \<le> length ls")
    case True
    then show ?thesis using assms(5) by (simp add: batch_def)
  qed (use assms(5) in \<open>simp add: batch_def\<close>)
  from ListAt_correct [OF assms(4), of MaxFilelist] obtain err where
    l: "listerat_ListAt ls MaxFilelist ?off fs = Some (map (\<lambda>a. memFile_info (objs fs ! a)) ?b, err, fs)"
      "lister_ok fs ls (?off + of_nat (length ?b))"
      "err = (if length ?b < MaxFilelist \<or> unat ?off = length ls then Some EOF else None)" by blast
  let ?r' = "lsInc r (of_nat (length ?b))"
  have e: "err = None \<or> err = Some EOF" "?b = [] \<Longrightarrow> err = Some EOF" using l(3) by (auto simp: MaxFilelist_def)
  have "packetWorker os (mem_Handlers iter extra) mem rs \<lparr>oreq_packet = Some (sshFxpReaddirPacket i k), oreq_orderid = oid\<rparr> fs =
      Some (readdir_answer os fs i (Base (Filepath r)) ls j, putRequest rs k ?r', fs)"
    using assms(1-3) l(1) e
    by (auto simp: packetWorker_def unwrap_def handleWork_def call_handle_def getRequest_def call_fresh_def call_def filelist_def getLister_def
        lsNext_def readdir_answer_def b [symmetric] Let_def lsInc_def putRequest_def comp_def)
  moreover have "unat (?off + of_nat (length ?b)) = min (MaxFilelist * Suc j) (length ls)"
  proof -
    have "unat ?off + length ?b \<le> length ls" using assms(4) by (auto simp: lister_ok_def)
    with assms(4) have "unat (?off + of_nat (length ?b)) = unat ?off + length ?b"
      by (simp add: lister_ok_def unat_word_ariths unat_of_nat)
    with assms(5) show ?thesis by (auto simp: min_def)
  qed
  ultimately show ?thesis using assms(2,3) l(2) by (intro exI [of _ ?r']) (simp add: lsInc_def)
qed

lemma readdir_run:
  assumes "openRequests rs k = Some r" "Method r = ''List''" "listerAt (r_state r) = Some ls" "lister_ok fs ls (lsoffset (r_state r))"
    and "unat (lsoffset (r_state r)) = min (MaxFilelist * j) (length ls)"
  shows "\<exists>rs'. worker_run os (mem_Handlers iter extra) mem rs (replicate m \<lparr>oreq_packet = Some (sshFxpReaddirPacket i k), oreq_orderid = oid\<rparr>) fs =
    Some (map (readdir_answer os fs i (Base (Filepath r)) ls) [j..<j + m], rs', fs)"
  using assms
proof (induction m arbitrary: rs r j)
  case (Suc m)
  from readdir_request [OF Suc.prems, of os iter extra mem i oid] obtain r' where
    p: "packetWorker os (mem_Handlers iter extra) mem rs \<lparr>oreq_packet = Some (sshFxpReaddirPacket i k), oreq_orderid = oid\<rparr> fs =
      Some (readdir_answer os fs i (Base (Filepath r)) ls j, putRequest rs k r', fs)"
    and r': "Method r' = ''List''" "Filepath r' = Filepath r" "listerAt (r_state r') = Some ls" "lister_ok fs ls (lsoffset (r_state r'))"
      "unat (lsoffset (r_state r')) = min (MaxFilelist * Suc j) (length ls)" by blast
  have "openRequests (putRequest rs k r') k = Some r'" by (simp add: putRequest_def)
  from Suc.IH [OF this r'(1,3,4,5)] r'(2) p show ?case by (auto simp: upt_rec [of j])
qed simp

text \<open>
  Reading a directory to its end. On a freshly opened directory handle, repeated readdir requests are answered with
  consecutive batches of at most a hundred entries, and from the point on where everything was listed with EOF;
  with enough requests the batches together are exactly the listing, in its order.
\<close>

theorem readdir_lists_everything:
  assumes "openRequests rs k = Some r" and "Method r = ''List''" and "listerAt (r_state r) = Some ls" and "lsoffset (r_state r) = 0"
    and "lister_ok fs ls 0"
  shows "(\<exists>rs'. worker_run os (mem_Handlers iter extra) mem rs (replicate m \<lparr>oreq_packet = Some (sshFxpReaddirPacket i k), oreq_orderid = oid\<rparr>) fs =
      Some (map (readdir_answer os fs i (Base (Filepath r)) ls) [0..<m], rs', fs)) \<and>
    (length ls \<le> 100 * m \<longrightarrow> concat (map (batch ls) [0..<m]) = ls)"
  using readdir_run [OF assms(1-3), of fs 0 os iter extra mem m i oid] concat_batches [of ls m] assms(4,5)
  by (auto simp: MaxFilelist_def)

text \<open>The witness: the root directory of the demonstration file system, which has one file.\<close>

theorem readdir_lists_everything_witness:
  "\<exists>rs'. worker_run demo_mem_os (mem_Handlers (\<lambda>_. [''/a'']) (\<lambda>_ _. 0)) (\<lambda>_ _. 0)
      (demo_mem_server\<lparr>openRequests := [''1'' \<mapsto> setListerState (NewRequest ''List'' ''/'') (Some [1])]\<rparr>)
      (replicate 2 \<lparr>oreq_packet = Some (sshFxpReaddirPacket 5 ''1''), oreq_orderid = 1\<rparr>) demo_root =
    Some ([readdir_answer demo_mem_os demo_root 5 ''/'' [1] 0, statusFromError 5 (Some EOF)], rs', demo_root)"
proof -
  let ?r = "setListerState (NewRequest ''List'' ''/'') (Some [1]) :: mem_request"
  let ?rs = "demo_mem_server\<lparr>openRequests := [''1'' \<mapsto> ?r]\<rparr>"
  have b: "Base (Filepath ?r) = ''/''" by code_simp
  have "openRequests ?rs ''1'' = Some ?r" "Method ?r = ''List''" "listerAt (r_state ?r) = Some [1]" "lsoffset (r_state ?r) = 0"
      "lister_ok demo_root [1] 0"
    by (simp_all add: setListerState_def NewRequest_def lister_ok_def demo_root_def)
  from readdir_lists_everything [OF this, of demo_mem_os "\<lambda>_. [''/a'']" "\<lambda>_ _. 0" "\<lambda>_ _. 0" 2 5 1, unfolded b]
  obtain rs' where "worker_run demo_mem_os (mem_Handlers (\<lambda>_. [''/a'']) (\<lambda>_ _. 0)) (\<lambda>_ _. 0) ?rs
      (replicate 2 \<lparr>oreq_packet = Some (sshFxpReaddirPacket 5 ''1''), oreq_orderid = 1\<rparr>) demo_root =
    Some (map (readdir_answer demo_mem_os demo_root 5 ''/'' [1]) [0..<2], rs', demo_root)" by blast
  moreover have "[0..<2] = [0, 1::nat]" by code_simp
  moreover have "readdir_answer demo_mem_os demo_root 5 ''/'' [1] 1 = statusFromError 5 (Some EOF)"
    by (simp add: readdir_answer_def batch_def MaxFilelist_def)
  ultimately show ?thesis by auto
qed

subsection \<open>Renaming\<close>

text \<open>Neither path lies at or below the other.\<close>

definition unrelated :: "string \<Rightarrow> string \<Rightarrow> bool" where
  "unrelated p q \<longleftrightarrow> \<not> prefix (p @ ''/'') (q @ ''/'') \<and> \<not> prefix (q @ ''/'') (p @ ''/'')"

text \<open>The map after the files below \<open>old\<close> were moved below \<open>new\<close>.\<close>

definition moved :: "string \<Rightarrow> string \<Rightarrow> (string \<rightharpoonup> nat) \<Rightarrow> string \<rightharpoonup> nat" where
  "moved old new m q =
     (if prefix (old @ ''/'') q then None
      else if prefix (new @ ''/'') q \<and> m (old @ drop (length new) q) \<noteq> None then m (old @ drop (length new) q)
      else m q)"

lemma unrelated_sub:
  assumes "unrelated old new" "prefix (new @ ''/'') q"
  shows "\<not> prefix (old @ ''/'') q"
  using assms prefix_same_cases [of "new @ ''/''" q "old @ ''/''"] by (auto simp: unrelated_def)

lemma rename_children_map:
  assumes "unrelated old new" "distinct ks"
  shows "root_files (rename_children old new ks fs) q =
    (if prefix (old @ ''/'') q \<and> q \<in> set ks then None
     else if prefix (new @ ''/'') q \<and> old @ drop (length new) q \<in> set ks \<and> root_files fs (old @ drop (length new) q) \<noteq> None
     then root_files fs (old @ drop (length new) q)
     else root_files fs q)"
  using assms(2)
proof (induction ks arbitrary: fs)
  case (Cons k ks)
  show ?case
  proof (cases "\<exists>a. root_files fs k = Some a \<and> prefix (old @ ''/'') k")
    case False
    have "rename_children old new (k # ks) fs = rename_children old new ks fs"
      using False by (auto simp: HasPrefix_def split: option.split)
    moreover have "old @ drop (length new) q \<noteq> k \<or> root_files fs (old @ drop (length new) q) = None" if "prefix (new @ ''/'') q"
      using False that by (auto simp: prefix_def)
    moreover have "q = k \<Longrightarrow> prefix (old @ ''/'') q \<Longrightarrow> root_files fs q = None" using False by auto
    ultimately show ?thesis using Cons by (auto simp: unrelated_sub [OF assms(1)])
  next
    case True
    then obtain a t where a: "root_files fs k = Some a" and k: "k = old @ ''/'' @ t" by (auto simp: prefix_def)
    let ?k' = "new @ ''/'' @ t"
    let ?fs1 = "(upd_obj (mf_name_update (\<lambda>_. ?k')) a fs)\<lparr>root_files := (root_files fs)(?k' \<mapsto> a, k := None)\<rparr>"
    have step: "rename_children old new (k # ks) fs = rename_children old new ks ?fs1"
      using a k by (simp add: HasPrefix_def Let_def)
    have ne: "?k' \<noteq> k" "\<not> prefix (old @ ''/'') ?k'" using unrelated_sub [OF assms(1), of ?k'] k by auto
    have old_ne: "old @ drop (length new) q \<noteq> ?k'" if "prefix (new @ ''/'') q"
    proof
      assume eq: "old @ drop (length new) q = ?k'"
      from that obtain zs where "q = new @ ''/'' @ zs" by (auto simp: prefix_def)
      with eq have "?k' = (old @ ''/'') @ zs" by simp
      with ne(2) show False by (metis prefixI)
    qed
    have inv: "old @ drop (length new) q = k \<longleftrightarrow> q = ?k'" if "prefix (new @ ''/'') q" using that k by (auto simp: prefix_def)
    have pre: "prefix (new @ ''/'') ?k'" "prefix (old @ ''/'') k" using k by auto
    have ih: "root_files (rename_children old new ks ?fs1) q =
      (if prefix (old @ ''/'') q \<and> q \<in> set ks then None
       else if prefix (new @ ''/'') q \<and> old @ drop (length new) q \<in> set ks \<and> root_files ?fs1 (old @ drop (length new) q) \<noteq> None
       then root_files ?fs1 (old @ drop (length new) q) else root_files ?fs1 q)"
      by (rule Cons.IH) (use Cons.prems in simp)
    have fresh: "k \<notin> set ks" using Cons.prems by simp
    consider (k) "q = k" | (k') "q = ?k'" | (old) "q \<noteq> k" "prefix (old @ ''/'') q" "\<not> prefix (new @ ''/'') q" "q \<noteq> ?k'"
      | (new) "prefix (new @ ''/'') q" "\<not> prefix (old @ ''/'') q" "q \<noteq> ?k'" "q \<noteq> k"
      | (none) "\<not> prefix (old @ ''/'') q" "\<not> prefix (new @ ''/'') q" "q \<noteq> k" "q \<noteq> ?k'"
      using unrelated_sub [OF assms(1), of q] by blast
    then show ?thesis
    proof cases
      case k
      then show ?thesis unfolding step ih using pre fresh unrelated_sub [OF assms(1), of k] by auto
    next
      case k'
      then show ?thesis unfolding step ih using pre fresh ne inv a by auto
    next
      case new
      with old_ne inv show ?thesis unfolding step ih by auto
    qed (unfold step ih, auto)
  qed
qed simp

text \<open>
  Renaming a directory moves its whole subtree, in every order of traversal. If the target does not exist and neither path lies
  below the other, the request succeeds, the directory is found under the new path, everything that was below the old path is
  below the new one, nothing is left below the old one, and all other paths are as before.
\<close>

theorem rename_moves_subtree:
  assumes "root_mockErr fs = None" and "Method r = ''Rename''" and "fetch fs (Filepath r) = Inr a" and "mf_isdir (objs fs ! a)"
    and "a < length (objs fs)" and "root_files fs (Target r) = None" and "unrelated (Filepath r) (Target r)"
    and "finite (dom (root_files fs))" and "\<forall>m. finite (dom m) \<longrightarrow> set (iter m) = dom m \<and> distinct (iter m)"
  shows "\<exists>fs'. mem_Filecmd iter extra r fs = Some (None, fs') \<and>
    root_files fs' = moved (Filepath r) (Target r) ((root_files fs)(Target r \<mapsto> a, Filepath r := None))"
proof -
  define m where "m = (root_files fs)(Target r \<mapsto> a, Filepath r := None)"
  let ?fs1 = "(upd_obj (mf_name_update (\<lambda>_. Target r)) a fs)\<lparr>root_files := m\<rparr>"
  let ?fs' = "rename_children (Filepath r) (Target r) (iter m) ?fs1"
  have d: "mf_isdir (objs ?fs1 ! a)" using assms(4,5) by (simp add: upd_obj_def)
  have it: "set (iter m) = dom m" "distinct (iter m)" using assms(8,9) by (simp_all add: m_def)
  have "root_files ?fs' q = moved (Filepath r) (Target r) m q" for q
    using rename_children_map [OF assms(7) it(2), of ?fs1 q] unrelated_sub [OF assms(7), of q]
    by (auto simp: moved_def it(1))
  then have "root_files ?fs' = moved (Filepath r) (Target r) m" by blast
  moreover have "mem_Filecmd iter extra r fs = Some (None, ?fs')"
    using assms(1-3,6) d by (simp add: mem_Filecmd_def cmd_Rename_def Let_def m_def)
  ultimately show ?thesis unfolding m_def by blast
qed

text \<open>The witness: a directory with one file in it.\<close>

definition demo_tree :: root where
  "demo_tree = demo_root\<lparr>root_files := [''/d'' \<mapsto> 2, ''/d/a'' \<mapsto> 1],
     objs := objs demo_root @ [\<lparr>mf_name = ''/d'', mf_modtime = 0, mf_symlink = [], mf_isdir = True,
       mf_content = \<lparr>sl_array = 2, sl_len = 0\<rparr>, mf_transferError = None\<rparr>], arrays := arrays demo_root @ [[]]\<rparr>"

theorem rename_moves_subtree_witness:
  "\<exists>fs'. mem_Filecmd (\<lambda>m. sorted_list_of_set (dom m)) (\<lambda>_ _. 0) (NewRequest ''Rename'' ''/d''\<lparr>Target := ''/e''\<rparr>) demo_tree = Some (None, fs') \<and>
     root_files fs' ''/e'' = Some 2 \<and> root_files fs' ''/e/a'' = Some 1 \<and> root_files fs' ''/d/a'' = None \<and> root_files fs' ''/d'' = None"
proof -
  let ?r = "NewRequest ''Rename'' ''/d''\<lparr>Target := ''/e''\<rparr> :: mem_request"
  have c: "cleanPath ''/d'' = ''/d''" by code_simp
  have r: "Filepath ?r = ''/d''" "Target ?r = ''/e''" by (simp_all add: NewRequest_def c)
  have "root_mockErr demo_tree = None" "Method ?r = ''Rename''" "fetch demo_tree (Filepath ?r) = Inr 2" "mf_isdir (objs demo_tree ! 2)"
      "2 < length (objs demo_tree)" "root_files demo_tree (Target ?r) = None" "unrelated (Filepath ?r) (Target ?r)"
      "finite (dom (root_files demo_tree))"
    unfolding r by (simp_all add: demo_tree_def demo_root_def NewRequest_def fetch_def unrelated_def)
  moreover have "\<forall>m. finite (dom m) \<longrightarrow> set (sorted_list_of_set (dom m)) = dom m \<and> distinct (sorted_list_of_set (dom m))"
    for m :: "string \<rightharpoonup> nat" by simp
  ultimately obtain fs' where c1: "mem_Filecmd (\<lambda>m. sorted_list_of_set (dom m)) (\<lambda>_ _. 0) ?r demo_tree = Some (None, fs')"
    and f: "root_files fs' = moved (Filepath ?r) (Target ?r) ((root_files demo_tree)(Target ?r \<mapsto> 2, Filepath ?r := None))"
    using rename_moves_subtree [of demo_tree ?r 2 "\<lambda>m. sorted_list_of_set (dom m)" "\<lambda>_ _. 0"] by blast
  have t: "root_files demo_tree = [''/d'' \<mapsto> 2, ''/d/a'' \<mapsto> 1]" by (simp add: demo_tree_def)
  have "root_files fs' ''/e'' = Some 2" "root_files fs' ''/e/a'' = Some 1" "root_files fs' ''/d/a'' = None" "root_files fs' ''/d'' = None"
    unfolding f r t by (simp_all add: moved_def)
  with c1 show ?thesis by blast
qed

end
