(* ===== verification/Client_Ops.thy ===== *)
theory Client_Ops
  imports Packet_Roundtrip Go_Path Os_Api "HOL-Library.Monad_Syntax"
begin

text \<open>
  The client of pkgsftp/client.go as one goroutine sees it: every operation sends one request and waits for the result
  that \<^verbatim>\<open>clientConn\<close> (conn.go) delivers for it. The connection is a parameter: what a write returns, which
  bytes wait to be read after it and what closing does. The interleaving of several requests is the
  subject of \<open>Client_Conn\<close>, the file transfers of \<open>Client_File\<close>.

  A Go result \<^verbatim>\<open>(v, err)\<close> is the pair of both, since the client does return nil values without an error. \<open>None\<close>
  is a run-time panic: the unsafe readers of \<open>Wire_Codec\<close> panic on replies that are too short.
\<close>

subsection \<open>The client and its connection\<close>

record 's conn =
  conn_Write :: "bytes \<Rightarrow> 's \<Rightarrow> go_error option \<times> 's"
  conn_Reader :: "'s \<Rightarrow> reader"
  conn_consumed :: "reader \<Rightarrow> 's \<Rightarrow> 's"
  conn_Close :: "'s \<Rightarrow> 's"
  conn_closed_err :: go_error

text \<open>\<open>cl_closed\<close>: the receiving goroutine has ended and closed the connection. \<open>cl_link\<close> is the state of the
  connection and of what lies behind it.\<close>

record 's Client =
  maxPacket :: nat
  nextid :: u32
  maxConcurrentRequests :: nat
  useFstat :: bool
  cl_closed :: bool
  cl_link :: 's

text \<open>The options of \<^verbatim>\<open>NewClient\<close>, and \<^verbatim>\<open>applyOptions\<close>, which stops at the first error.\<close>

definition MaxPacketChecked :: "int \<Rightarrow> 's Client \<Rightarrow> go_error option \<times> 's Client" where
  "MaxPacketChecked n c =
     (if n < 1 then (Some (ErrText ''size must be greater or equal to 1''), c)
      else if n > 32768 then (Some (ErrText ''sizes larger than 32KB might not work with all servers''), c)
      else (None, c\<lparr>maxPacket := nat n\<rparr>))"

definition UseFstat :: "bool \<Rightarrow> 's Client \<Rightarrow> go_error option \<times> 's Client" where
  "UseFstat v c = (None, c\<lparr>useFstat := v\<rparr>)"

definition MaxPacketUnchecked :: "int \<Rightarrow> 's Client \<Rightarrow> go_error option \<times> 's Client" where
  "MaxPacketUnchecked n c =
     (if n < 1 then (Some (ErrText ''size must be greater or equal to 1''), c) else (None, c\<lparr>maxPacket := nat n\<rparr>))"

definition MaxPacket :: "int \<Rightarrow> 's Client \<Rightarrow> go_error option \<times> 's Client" where
  "MaxPacket n = MaxPacketChecked n"

definition MaxConcurrentRequestsPerFile :: "int \<Rightarrow> 's Client \<Rightarrow> go_error option \<times> 's Client" where
  "MaxConcurrentRequestsPerFile n c =
     (if n < 1 then (Some (ErrText ''n must be greater or equal to 1''), c) else (None, c\<lparr>maxConcurrentRequests := nat n\<rparr>))"

fun applyOptions :: "('s Client \<Rightarrow> go_error option \<times> 's Client) list \<Rightarrow> 's Client \<Rightarrow> go_error option \<times> 's Client" where
  "applyOptions [] c = (None, c)"
| "applyOptions (f # opts) c = (case f c of (Some e, c) \<Rightarrow> (Some e, c) | (None, c) \<Rightarrow> applyOptions opts c)"

subsection \<open>One request and its result\<close>

definition nextID :: "'s Client \<Rightarrow> u32 \<times> 's Client" where
  "nextID c = (let n = nextid c + 1 in (n, c\<lparr>nextid := n\<rparr>))"

text \<open>Writing a packet to the connection (\<^verbatim>\<open>sendPacket\<close> of packet.go); a connection that was closed refuses it.\<close>

definition send_frame :: "'s conn \<Rightarrow> bytes \<Rightarrow> 's Client \<Rightarrow> go_error option \<times> 's Client" where
  "send_frame cn bb c =
     (if cl_closed c then (Some (ErrText (''failed to send packet: '' @ err_Error (conn_closed_err cn))), c)
      else case conn_Write cn (packet_frame bb) (cl_link c) of
             (Some e, s) \<Rightarrow> (Some (ErrText (''failed to send packet: '' @ err_Error e)), c\<lparr>cl_link := s\<rparr>)
           | (None, s) \<Rightarrow> (None, c\<lparr>cl_link := s\<rparr>))"

definition recv_frame :: "'s conn \<Rightarrow> 's Client \<Rightarrow> recv_result \<times> 's Client" where
  "recv_frame cn c =
     (case recvPacket (conn_Reader cn (cl_link c)) None 0 of
        (res, r, _) \<Rightarrow> (res, c\<lparr>cl_link := conn_consumed cn r (cl_link c)\<rparr>))"

definition shut :: "'s conn \<Rightarrow> 's Client \<Rightarrow> 's Client" where
  "shut cn c = c\<lparr>cl_closed := True, cl_link := conn_Close cn (cl_link c)\<rparr>"

text \<open>
  \<^verbatim>\<open>clientConn.sendPacket\<close> with nothing else in flight: the request is written, and the receiving goroutine takes the
  next packet. If its id is not that of the request there is no channel for it: the goroutine ends, closes the
  connection and tells the waiting request, as it does on every receive error.
\<close>

definition sendPacket :: "'s conn \<Rightarrow> requestPacket \<Rightarrow> 's Client \<Rightarrow> ((go_error + byte \<times> bytes) \<times> 's Client) option" where
  "sendPacket cn p c = do {
     bb \<leftarrow> MarshalBinary p;
     case send_frame cn bb c of
       (Some e, c) \<Rightarrow> Some (Inl e, c)
     | (None, c) \<Rightarrow>
         (case recv_frame cn c of
            (RecvPanic, c) \<Rightarrow> None
          | (RecvErr e, c) \<Rightarrow> Some (Inl e, shut cn c)
          | (RecvOk typ data, c) \<Rightarrow> do {
              (sid, _) \<leftarrow> unmarshalUint32 data;
              if sid = requestPacket_id p then Some (Inr (typ, data), c)
              else Some (Inl (ErrText (''sid: '' @ decimal sid @ '' not fond'')), shut cn c) }) }"

text \<open>The common beginning of the operations: a new id, and the packet made with it.\<close>

definition exchange :: "'s conn \<Rightarrow> (u32 \<Rightarrow> requestPacket) \<Rightarrow> 's Client \<Rightarrow> (u32 \<times> (go_error + byte \<times> bytes) \<times> 's Client) option" where
  "exchange cn mk c =
     (case nextID c of (i, c) \<Rightarrow> do { (r, c) \<leftarrow> sendPacket cn (mk i) c; Some (i, r, c) })"

subsection \<open>Replies\<close>

definition unmarshalStatus :: "u32 \<Rightarrow> bytes \<Rightarrow> go_error option" where
  "unmarshalStatus i data = do {
     (sid, data) \<leftarrow> unmarshalUint32 data;
     if sid \<noteq> i then Some (UnexpectedIDErr i sid)
     else do {
       (code, data) \<leftarrow> unmarshalUint32 data;
       let (msg, data) = or_zero (unmarshalStringSafe data) [];
       let (lang, _) = or_zero (unmarshalStringSafe data) [];
       Some (StatusErr code msg lang) } }"

fun normaliseError :: "go_error \<Rightarrow> go_error option" where
  "normaliseError (StatusErr code msg lang) =
     (if code = sshFxEOF then Some EOF
      else if code = sshFxNoSuchFile then Some ErrNotExist
      else if code = sshFxOk then None
      else Some (StatusErr code msg lang))"
| "normaliseError e = Some e"

text \<open>The status branch of every operation.\<close>

definition status_reply :: "u32 \<Rightarrow> bytes \<Rightarrow> go_error option option" where
  "status_reply i data = do { e \<leftarrow> unmarshalStatus i data; Some (normaliseError e) }"

text \<open>An operation that expects a status, and one that expects a reply of type \<open>want\<close> with a value; in the other cases
  the value is the zero value \<open>z\<close>, also after a status that reports success.\<close>

definition status_call :: "'s conn \<Rightarrow> (u32 \<Rightarrow> requestPacket) \<Rightarrow> 's Client \<Rightarrow> (go_error option \<times> 's Client) option" where
  "status_call cn mk c = do {
     (i, r, c) \<leftarrow> exchange cn mk c;
     case r of
       Inl e \<Rightarrow> Some (Some e, c)
     | Inr (typ, data) \<Rightarrow>
         if typ = sshFxpStatus then do { err \<leftarrow> status_reply i data; Some (err, c) }
         else Some (Some (UnimplementedPacketErr typ), c) }"

definition value_call :: "'s conn \<Rightarrow> byte \<Rightarrow> 'a \<Rightarrow> (bytes \<Rightarrow> ('a \<times> go_error option) option) \<Rightarrow> (u32 \<Rightarrow> requestPacket) \<Rightarrow> 's Client \<Rightarrow>
    (('a \<times> go_error option) \<times> 's Client) option" where
  "value_call cn want z dec mk c = do {
     (i, r, c) \<leftarrow> exchange cn mk c;
     case r of
       Inl e \<Rightarrow> Some ((z, Some e), c)
     | Inr (typ, data) \<Rightarrow>
         if typ = want then do {
           (sid, data) \<leftarrow> unmarshalUint32 data;
           if sid \<noteq> i then Some ((z, Some (UnexpectedIDErr i sid)), c)
           else do { v \<leftarrow> dec data; Some (v, c) } }
         else if typ = sshFxpStatus then do { err \<leftarrow> status_reply i data; Some ((z, err), c) }
         else Some ((z, Some (UnimplementedPacketErr typ)), c) }"

subsection \<open>Operations answered by a status\<close>

definition Client_Link :: "'s conn \<Rightarrow> string \<Rightarrow> string \<Rightarrow> 's Client \<Rightarrow> (go_error option \<times> 's Client) option" where
  "Client_Link cn oldname newname = status_call cn (\<lambda>i. sshFxpExtendedPacket i ''hardlink@openssh.com''
     (Some (sshFxpExtendedPacketHardlink i ''hardlink@openssh.com'' oldname newname)))"

definition Client_Symlink :: "'s conn \<Rightarrow> string \<Rightarrow> string \<Rightarrow> 's Client \<Rightarrow> (go_error option \<times> 's Client) option" where
  "Client_Symlink cn oldname newname = status_call cn (\<lambda>i. sshFxpSymlinkPacket i oldname newname)"

definition Client_setfstat :: "'s conn \<Rightarrow> string \<Rightarrow> u32 \<Rightarrow> goval \<Rightarrow> 's Client \<Rightarrow> (go_error option \<times> 's Client) option" where
  "Client_setfstat cn handle flags attrs = status_call cn (\<lambda>i. sshFxpFsetstatPacket i handle flags attrs)"

definition Client_setstat :: "'s conn \<Rightarrow> string \<Rightarrow> u32 \<Rightarrow> goval \<Rightarrow> 's Client \<Rightarrow> (go_error option \<times> 's Client) option" where
  "Client_setstat cn path flags attrs = status_call cn (\<lambda>i. sshFxpSetstatPacket i path flags attrs)"

text \<open>Times are given in Unix seconds (\<^verbatim>\<open>int64\<close>); the protocol has 32 bits for them, and for owner and group.\<close>

definition Client_Chtimes :: "'s conn \<Rightarrow> string \<Rightarrow> u64 \<Rightarrow> u64 \<Rightarrow> 's Client \<Rightarrow> (go_error option \<times> 's Client) option" where
  "Client_Chtimes cn path atime mtime =
     Client_setstat cn path sshFileXferAttrACmodTime (VStruct [VU32 (ucast atime), VU32 (ucast mtime)])"

definition Client_Chown :: "'s conn \<Rightarrow> string \<Rightarrow> int \<Rightarrow> int \<Rightarrow> 's Client \<Rightarrow> (go_error option \<times> 's Client) option" where
  "Client_Chown cn path uid gid = Client_setstat cn path sshFileXferAttrUIDGID (VStruct [VU32 (of_int uid), VU32 (of_int gid)])"

definition Client_Chmod :: "'s conn \<Rightarrow> string \<Rightarrow> u32 \<Rightarrow> 's Client \<Rightarrow> (go_error option \<times> 's Client) option" where
  "Client_Chmod cn path mode = Client_setstat cn path sshFileXferAttrPermissions (VU32 mode)"

definition Client_Truncate :: "'s conn \<Rightarrow> string \<Rightarrow> u64 \<Rightarrow> 's Client \<Rightarrow> (go_error option \<times> 's Client) option" where
  "Client_Truncate cn path n = Client_setstat cn path sshFileXferAttrSize (VU64 n)"

definition Client_close :: "'s conn \<Rightarrow> string \<Rightarrow> 's Client \<Rightarrow> (go_error option \<times> 's Client) option" where
  "Client_close cn handle = status_call cn (\<lambda>i. sshFxpClosePacket i handle)"

definition Client_removeFile :: "'s conn \<Rightarrow> string \<Rightarrow> 's Client \<Rightarrow> (go_error option \<times> 's Client) option" where
  "Client_removeFile cn path = status_call cn (\<lambda>i. sshFxpRemovePacket i path)"

definition Client_RemoveDirectory :: "'s conn \<Rightarrow> string \<Rightarrow> 's Client \<Rightarrow> (go_error option \<times> 's Client) option" where
  "Client_RemoveDirectory cn path = status_call cn (\<lambda>i. sshFxpRmdirPacket i path)"

definition Client_Remove :: "'s conn \<Rightarrow> string \<Rightarrow> 's Client \<Rightarrow> (go_error option \<times> 's Client) option" where
  "Client_Remove cn path c = do {
     (err, c) \<leftarrow> Client_removeFile cn path c;
     case err of
       Some (StatusErr code _ _) \<Rightarrow>
         if code = sshFxPermissionDenied \<or> code = sshFxFailure \<or> code = sshFxFileIsADirectory
         then Client_RemoveDirectory cn path c else Some (err, c)
     | _ \<Rightarrow> Some (err, c) }"

definition Client_Rename :: "'s conn \<Rightarrow> string \<Rightarrow> string \<Rightarrow> 's Client \<Rightarrow> (go_error option \<times> 's Client) option" where
  "Client_Rename cn oldname newname = status_call cn (\<lambda>i. sshFxpRenamePacket i oldname newname)"

definition Client_PosixRename :: "'s conn \<Rightarrow> string \<Rightarrow> string \<Rightarrow> 's Client \<Rightarrow> (go_error option \<times> 's Client) option" where
  "Client_PosixRename cn oldname newname = status_call cn (\<lambda>i. sshFxpExtendedPacket i ''posix-rename@openssh.com''
     (Some (sshFxpExtendedPacketPosixRename i ''posix-rename@openssh.com'' oldname newname)))"

definition Client_Mkdir :: "'s conn \<Rightarrow> string \<Rightarrow> 's Client \<Rightarrow> (go_error option \<times> 's Client) option" where
  "Client_Mkdir cn path = status_call cn (\<lambda>i. sshFxpMkdirPacket i path 0)"

subsection \<open>Operations answered by a value\<close>

definition dec_attrs :: "string \<Rightarrow> bytes \<Rightarrow> (fileInfo option \<times> go_error option) option" where
  "dec_attrs p data = do { (attr, _) \<leftarrow> unmarshalAttrs data; Some (Some (fileInfoFromStat attr (Base p)), None) }"

definition Client_Stat :: "'s conn \<Rightarrow> string \<Rightarrow> 's Client \<Rightarrow> ((fileInfo option \<times> go_error option) \<times> 's Client) option" where
  "Client_Stat cn p = value_call cn sshFxpAttrs None (dec_attrs p) (\<lambda>i. sshFxpStatPacket i p)"

definition Client_Lstat :: "'s conn \<Rightarrow> string \<Rightarrow> 's Client \<Rightarrow> ((fileInfo option \<times> go_error option) \<times> 's Client) option" where
  "Client_Lstat cn p = value_call cn sshFxpAttrs None (dec_attrs p) (\<lambda>i. sshFxpLstatPacket i p)"

definition Client_fstat :: "'s conn \<Rightarrow> string \<Rightarrow> 's Client \<Rightarrow> ((FileStat option \<times> go_error option) \<times> 's Client) option" where
  "Client_fstat cn handle =
     value_call cn sshFxpAttrs None (\<lambda>data. do { (attr, _) \<leftarrow> unmarshalAttrs data; Some (Some attr, None) })
       (\<lambda>i. sshFxpFstatPacket i handle)"

text \<open>A name reply with exactly one entry.\<close>

definition dec_one_name :: "bytes \<Rightarrow> (string \<times> go_error option) option" where
  "dec_one_name data = do {
     (count, data) \<leftarrow> unmarshalUint32 data;
     if count \<noteq> 1 then Some ([], Some (unexpectedCount 1 count))
     else do { (filename, _) \<leftarrow> unmarshalString data; Some (filename, None) } }"

definition Client_ReadLink :: "'s conn \<Rightarrow> string \<Rightarrow> 's Client \<Rightarrow> ((string \<times> go_error option) \<times> 's Client) option" where
  "Client_ReadLink cn p = value_call cn sshFxpName [] dec_one_name (\<lambda>i. sshFxpReadlinkPacket i p)"

definition Client_realpath :: "'s conn \<Rightarrow> string \<Rightarrow> 's Client \<Rightarrow> ((string \<times> go_error option) \<times> 's Client) option" where
  "Client_realpath cn path = value_call cn sshFxpName [] dec_one_name (\<lambda>i. sshFxpRealpathPacket i path)"

definition Client_Getwd :: "'s conn \<Rightarrow> 's Client \<Rightarrow> ((string \<times> go_error option) \<times> 's Client) option" where
  "Client_Getwd cn = Client_realpath cn ''.''"

definition dec_handle :: "bytes \<Rightarrow> (string \<times> go_error option) option" where
  "dec_handle data = do { (handle, _) \<leftarrow> unmarshalString data; Some (handle, None) }"

definition Client_opendir :: "'s conn \<Rightarrow> string \<Rightarrow> 's Client \<Rightarrow> ((string \<times> go_error option) \<times> 's Client) option" where
  "Client_opendir cn path = value_call cn sshFxpHandle [] dec_handle (\<lambda>i. sshFxpOpendirPacket i path)"

text \<open>The remote file: its path and handle, and the offset of the next read or write. The flags of \<^verbatim>\<open>OpenFile\<close> are those of
  linux; the switch on \<^verbatim>\<open>f & O_WRONLY\<close> has only these two cases.\<close>

record File =
  f_path :: string
  f_handle :: string
  f_offset :: u64

abbreviation O_APPEND :: u32 where "O_APPEND \<equiv> 0x400"

definition flags :: "u32 \<Rightarrow> u32" where
  "flags f =
     (let out = 0;
          out = (if f AND O_WRONLY = O_WRONLY then out OR sshFxfWrite else out OR sshFxfRead);
          out = (if f AND O_RDWR = O_RDWR then out OR (sshFxfRead OR sshFxfWrite) else out);
          out = (if f AND O_APPEND = O_APPEND then out OR sshFxfAppend else out);
          out = (if f AND O_CREATE = O_CREATE then out OR sshFxfCreat else out);
          out = (if f AND O_TRUNC = O_TRUNC then out OR sshFxfTrunc else out)
      in if f AND O_EXCL = O_EXCL then out OR sshFxfExcl else out)"

definition Client_open :: "'s conn \<Rightarrow> string \<Rightarrow> u32 \<Rightarrow> 's Client \<Rightarrow> ((File option \<times> go_error option) \<times> 's Client) option" where
  "Client_open cn path pflags =
     value_call cn sshFxpHandle None
       (\<lambda>data. do { (handle, _) \<leftarrow> unmarshalString data; Some (Some \<lparr>f_path = path, f_handle = handle, f_offset = 0\<rparr>, None) })
       (\<lambda>i. sshFxpOpenPacket i path pflags 0)"

definition Client_Create :: "'s conn \<Rightarrow> string \<Rightarrow> 's Client \<Rightarrow> ((File option \<times> go_error option) \<times> 's Client) option" where
  "Client_Create cn path = Client_open cn path (flags (O_RDWR OR O_CREATE OR O_TRUNC))"

definition Client_Open :: "'s conn \<Rightarrow> string \<Rightarrow> 's Client \<Rightarrow> ((File option \<times> go_error option) \<times> 's Client) option" where
  "Client_Open cn path = Client_open cn path (flags O_RDONLY)"

definition Client_OpenFile :: "'s conn \<Rightarrow> string \<Rightarrow> u32 \<Rightarrow> 's Client \<Rightarrow> ((File option \<times> go_error option) \<times> 's Client) option" where
  "Client_OpenFile cn path f = Client_open cn path (flags f)"

text \<open>\<^verbatim>\<open>StatVFS\<close> reads the reply, id included, as a structure of one 32-bit and eleven 64-bit fields; it does not look at the id.\<close>

fun read_u64s :: "nat \<Rightarrow> bytes \<Rightarrow> u64 list option" where
  "read_u64s 0 b = Some []"
| "read_u64s (Suc n) b = do { (v, b) \<leftarrow> unmarshalUint64 b; vs \<leftarrow> read_u64s n b; Some (v # vs) }"

definition read_StatVFS :: "bytes \<Rightarrow> StatVFS option" where
  "read_StatVFS data =
     (case unmarshalUint32 data of
        None \<Rightarrow> None
      | Some (i, b) \<Rightarrow>
          (case read_u64s 11 b of
             Some [bs, fr, bl, bf, ba, fi, ff, fa, fs, fl, nm] \<Rightarrow>
               Some \<lparr>sv_ID = i, sv_Bsize = bs, sv_Frsize = fr, sv_Blocks = bl, sv_Bfree = bf, sv_Bavail = ba, sv_Files = fi,
                     sv_Ffree = ff, sv_Favail = fa, sv_Fsid = fs, sv_Flag = fl, sv_Namemax = nm\<rparr>
           | _ \<Rightarrow> None))"

definition Client_StatVFS :: "'s conn \<Rightarrow> string \<Rightarrow> 's Client \<Rightarrow> ((StatVFS option \<times> go_error option) \<times> 's Client) option" where
  "Client_StatVFS cn path c = do {
     (_, r, c) \<leftarrow> exchange cn (\<lambda>i. sshFxpExtendedPacket i ''statvfs@openssh.com''
        (Some (sshFxpExtendedPacketStatVFS i ''statvfs@openssh.com'' path))) c;
     case r of
       Inl e \<Rightarrow> Some ((None, Some e), c)
     | Inr (typ, data) \<Rightarrow>
         if typ = sshFxpExtendedReply then
           (case read_StatVFS data of
              None \<Rightarrow> Some ((None, Some (ErrText ''can not parse reply'')), c)
            | Some response \<Rightarrow> Some ((Some response, None), c))
         else if typ = sshFxpStatus then Some ((None, Some (ErrText (fxp_String sshFxpStatus))), c)
         else Some ((None, Some (UnimplementedPacketErr typ)), c) }"

subsection \<open>Connecting\<close>

text \<open>\<^verbatim>\<open>sendInit\<close> and \<^verbatim>\<open>recvVersion\<close>, and the rest of \<^verbatim>\<open>NewClientPipe\<close>: a failure closes the connection.\<close>

definition sendInit :: "'s conn \<Rightarrow> 's Client \<Rightarrow> go_error option \<times> 's Client" where
  "sendInit cn c = send_frame cn (marshal_Init sftpProtocolVersion []) c"

definition recvVersion :: "'s conn \<Rightarrow> 's Client \<Rightarrow> (go_error option \<times> 's Client) option" where
  "recvVersion cn c =
     (case recv_frame cn c of
        (RecvPanic, c) \<Rightarrow> None
      | (RecvErr e, c) \<Rightarrow> Some (Some e, c)
      | (RecvOk typ data, c) \<Rightarrow>
          if typ \<noteq> sshFxpVersion then Some (Some (UnexpectedPacketErr sshFxpVersion typ), c)
          else do {
            (version, _) \<leftarrow> unmarshalUint32 data;
            if version \<noteq> sftpProtocolVersion then Some (Some (UnexpectedVersionErr sftpProtocolVersion version), c)
            else Some (None, c) })"

definition NewClientPipe :: "'s conn \<Rightarrow> ('s Client \<Rightarrow> go_error option \<times> 's Client) list \<Rightarrow> 's \<Rightarrow> ((go_error + 's Client) \<times> 's) option" where
  "NewClientPipe cn opts s =
     (let fail = (\<lambda>e c. (Inl e, conn_Close cn (cl_link c)));
          sftp = \<lparr>maxPacket = 32768, nextid = 0, maxConcurrentRequests = 64, useFstat = False, cl_closed = False, cl_link = s\<rparr>
      in case applyOptions opts sftp of
           (Some e, c) \<Rightarrow> Some (fail e c)
         | (None, c) \<Rightarrow>
             (case sendInit cn c of
                (Some e, c) \<Rightarrow> Some (fail e c)
              | (None, c) \<Rightarrow> do {
                  (err, c) \<leftarrow> recvVersion cn c;
                  Some (case err of Some e \<Rightarrow> fail e c | None \<Rightarrow> (Inr c, cl_link c)) }))"

subsection \<open>Reading directories\<close>

fun read_names :: "nat \<Rightarrow> bytes \<Rightarrow> fileInfo list \<Rightarrow> fileInfo list option" where
  "read_names 0 data attrs = Some attrs"
| "read_names (Suc n) data attrs = do {
     (filename, data) \<leftarrow> unmarshalString data;
     (_, data) \<leftarrow> unmarshalString data;
     (attr, data) \<leftarrow> unmarshalAttrs data;
     read_names n data (if filename = ''.'' \<or> filename = ''..'' then attrs else attrs @ [fileInfoFromStat attr (Base filename)]) }"

text \<open>
  One round of the loop of \<^verbatim>\<open>ReadDir\<close>: \<open>Inl\<close> leaves it with the result so far and the error, \<open>Inr\<close> goes on. The early
  returns give no entries; the others leave with those read before.
\<close>

definition readdir_round :: "'s conn \<Rightarrow> string \<Rightarrow> fileInfo list \<Rightarrow> 's Client \<Rightarrow>
    ((((fileInfo list \<times> go_error option) + fileInfo list)) \<times> 's Client) option" where
  "readdir_round cn handle attrs c = do {
     (i, r, c) \<leftarrow> exchange cn (\<lambda>i. sshFxpReaddirPacket i handle) c;
     case r of
       Inl e \<Rightarrow> Some (Inl (attrs, if e = EOF then None else Some e), c)
     | Inr (typ, data) \<Rightarrow>
         if typ = sshFxpName then do {
           (sid, data) \<leftarrow> unmarshalUint32 data;
           if sid \<noteq> i then Some (Inl ([], Some (UnexpectedIDErr i sid)), c)
           else do {
             (count, data) \<leftarrow> unmarshalUint32 data;
             attrs \<leftarrow> read_names (unat count) data attrs;
             Some (Inr attrs, c) } }
         else if typ = sshFxpStatus then do {
           err \<leftarrow> status_reply i data;
           Some (Inl (attrs, if err = Some EOF then None else err), c) }
         else Some (Inl ([], Some (UnimplementedPacketErr typ)), c) }"

text \<open>The loop may go on for ever, if the server never ends the listing: then it has no value (the outer \<open>None\<close>); the
  inner one is a panic.\<close>

partial_function (option) readdir_loop :: "'s conn \<Rightarrow> string \<Rightarrow> fileInfo list \<Rightarrow> 's Client \<Rightarrow>
    ((fileInfo list \<times> go_error option) \<times> 's Client) option option" where
  "readdir_loop cn handle attrs c =
     (case readdir_round cn handle attrs c of
        None \<Rightarrow> Some None
      | Some (Inl r, c) \<Rightarrow> Some (Some (r, c))
      | Some (Inr attrs, c) \<Rightarrow> readdir_loop cn handle attrs c)"

declare readdir_loop.simps [code]

definition Client_ReadDir :: "'s conn \<Rightarrow> string \<Rightarrow> 's Client \<Rightarrow>
    ((fileInfo list \<times> go_error option) \<times> 's Client) option option" where
  "Client_ReadDir cn p c =
     (case Client_opendir cn p c of
        None \<Rightarrow> Some None
      | Some ((handle, Some e), c) \<Rightarrow> Some (Some (([], Some e), c))
      | Some ((handle, None), c) \<Rightarrow> do {
          res \<leftarrow> readdir_loop cn handle [] c;
          Some (do {
            (r, c) \<leftarrow> res;
            (_, c) \<leftarrow> Client_close cn handle c;
            Some (r, c) }) })"

subsection \<open>Making directories\<close>

text \<open>The end of the parent path: trailing separators are skipped, then the last element; \<open>Some\<close> of the parent if there is one.\<close>

definition skip_seps :: "string \<Rightarrow> string" where
  "skip_seps path = rev (dropWhile (\<lambda>ch. ch = CHR ''/'') (rev path))"

definition skip_elem :: "string \<Rightarrow> string" where
  "skip_elem path = rev (dropWhile (\<lambda>ch. ch \<noteq> CHR ''/'') (rev path))"

definition mkdir_parent :: "string \<Rightarrow> string option" where
  "mkdir_parent path =
     (let j = length (skip_elem (skip_seps path)) in if j > 1 then Some (take (j - 1) path) else None)"

lemma mkdir_parent_shorter: "mkdir_parent path = Some q \<Longrightarrow> length q < length path"
proof -
  assume a: "mkdir_parent path = Some q"
  have "length (dropWhile P xs) \<le> length xs" for P :: "char \<Rightarrow> bool" and xs by (rule length_dropWhile_le)
  then have "length (skip_elem (skip_seps path)) \<le> length path"
    unfolding skip_elem_def skip_seps_def by (metis length_rev le_trans)
  with a show ?thesis by (auto simp: mkdir_parent_def Let_def split: if_splits)
qed

text \<open>The last part of \<^verbatim>\<open>MkdirAll\<close>, once the parent exists.\<close>

definition mkdir_last :: "'s conn \<Rightarrow> string \<Rightarrow> 's Client \<Rightarrow> (go_error option \<times> 's Client) option" where
  "mkdir_last cn path c = do {
     (err, c) \<leftarrow> Client_Mkdir cn path c;
     case err of
       None \<Rightarrow> Some (None, c)
     | Some e \<Rightarrow> do {
         ((dir, err1), c) \<leftarrow> Client_Lstat cn path c;
         case (err1, dir) of
           (None, None) \<Rightarrow> None
         | (None, Some d) \<Rightarrow> Some (if IsDir d then None else Some e, c)
         | (Some _, _) \<Rightarrow> Some (Some e, c) } }"

function Client_MkdirAll :: "'s conn \<Rightarrow> string \<Rightarrow> 's Client \<Rightarrow> (go_error option \<times> 's Client) option" where
  "Client_MkdirAll cn path c =
     (case Client_Stat cn path c of
        None \<Rightarrow> None
      | Some ((dir, None), c) \<Rightarrow>
          (case dir of
             None \<Rightarrow> None
           | Some d \<Rightarrow> Some (if IsDir d then None else Some (PathError ''mkdir'' path ENOTDIR), c))
      | Some ((_, Some _), c) \<Rightarrow>
          (case mkdir_parent path of
             None \<Rightarrow> mkdir_last cn path c
           | Some parent \<Rightarrow>
               (case Client_MkdirAll cn parent c of
                  None \<Rightarrow> None
                | Some (Some e, c) \<Rightarrow> Some (Some e, c)
                | Some (None, c) \<Rightarrow> mkdir_last cn path c)))"
  by pat_completeness auto
termination
  by (relation "measure (\<lambda>(_, path, _). length path)") (auto simp: mkdir_parent_shorter)

declare Client_MkdirAll.simps [simp del]

subsection \<open>Methods of an open file that are not transfers\<close>

definition File_Close :: "'s conn \<Rightarrow> File \<Rightarrow> 's Client \<Rightarrow> (go_error option \<times> 's Client) option" where
  "File_Close cn f = Client_close cn (f_handle f)"

definition File_Name :: "File \<Rightarrow> string" where
  "File_Name f = f_path f"

definition File_Stat :: "'s conn \<Rightarrow> File \<Rightarrow> 's Client \<Rightarrow> ((fileInfo option \<times> go_error option) \<times> 's Client) option" where
  "File_Stat cn f c = do {
     ((fs, err), c) \<leftarrow> Client_fstat cn (f_handle f) c;
     case err of
       Some e \<Rightarrow> Some ((None, Some e), c)
     | None \<Rightarrow> (case fs of None \<Rightarrow> None | Some st \<Rightarrow> Some ((Some (fileInfoFromStat st (Base (f_path f))), None), c)) }"

text \<open>\<^verbatim>\<open>Seek\<close>; the constants \<^verbatim>\<open>io.SeekStart\<close>, \<^verbatim>\<open>SeekCurrent\<close> and \<^verbatim>\<open>SeekEnd\<close> are 0, 1 and 2. Offsets are added at 64 bits.\<close>

definition File_Seek :: "'s conn \<Rightarrow> File \<Rightarrow> u64 \<Rightarrow> int \<Rightarrow> 's Client \<Rightarrow> ((u64 \<times> go_error option) \<times> File \<times> 's Client) option" where
  "File_Seek cn f offset whence c =
     (let to = (\<lambda>off c. Some ((off, None), f\<lparr>f_offset := off\<rparr>, c))
      in if whence = 0 then to offset c
         else if whence = 1 then to (f_offset f + offset) c
         else if whence = 2 then do {
           ((fi, err), c) \<leftarrow> File_Stat cn f c;
           case err of
             Some e \<Rightarrow> Some ((f_offset f, Some e), f, c)
           | None \<Rightarrow> (case fi of None \<Rightarrow> None | Some i \<Rightarrow> to (fi_size i + offset) c) }
         else Some ((f_offset f, Some (unimplementedSeekWhence whence)), f, c))"

definition File_Chown :: "'s conn \<Rightarrow> File \<Rightarrow> int \<Rightarrow> int \<Rightarrow> 's Client \<Rightarrow> (go_error option \<times> 's Client) option" where
  "File_Chown cn f uid gid = Client_Chown cn (f_path f) uid gid"

definition File_Chmod :: "'s conn \<Rightarrow> File \<Rightarrow> u32 \<Rightarrow> 's Client \<Rightarrow> (go_error option \<times> 's Client) option" where
  "File_Chmod cn f mode = Client_Chmod cn (f_path f) mode"

definition File_Truncate :: "'s conn \<Rightarrow> File \<Rightarrow> u64 \<Rightarrow> 's Client \<Rightarrow> (go_error option \<times> 's Client) option" where
  "File_Truncate cn f n = Client_setfstat cn (f_handle f) sshFileXferAttrSize (VU64 n)"

end
