(* ===== verification/Client_Wire.thy ===== *)
theory Client_Wire
  imports Client_Ops
begin

text \<open>
  A client of \<open>Client_Ops\<close> connected to a server: the frames the client writes are read, decoded, handled and answered by the
  server's own code, and the answers wait on the connection. The locale \<open>peer\<close> states what the client relies on (every request is
  answered under its id); inside it the operations of the client are shown to be calls of the server, with the wire in between
  gone. \<open>Client_Server\<close> interprets it on the two servers of the program.
\<close>

subsection \<open>A server at the other end\<close>

record 'w link =
  lk_world :: 'w
  lk_out :: bytes

definition answer :: "(requestPacket \<Rightarrow> 'w \<Rightarrow> (responsePacket \<times> 'w) option) \<Rightarrow> bytes \<Rightarrow> 'w link \<Rightarrow> 'w link" where
  "answer serve frame s =
     (case recvPacket \<lparr>incoming_bytes = frame, ends_with = EOF\<rparr> None 0 of
        (RecvOk t b, _, _) \<Rightarrow>
          (case makePacket t b of
             (Some q, _) \<Rightarrow>
               (case serve q (lk_world s) of
                  Some (rp, w) \<Rightarrow>
                    (case MarshalResponse rp of
                       Some bb \<Rightarrow> s\<lparr>lk_world := w, lk_out := lk_out s @ packet_frame bb\<rparr>
                     | None \<Rightarrow> s)
                | None \<Rightarrow> s)
           | (None, _) \<Rightarrow> s)
      | _ \<Rightarrow> s)"

definition server_conn :: "(requestPacket \<Rightarrow> 'w \<Rightarrow> (responsePacket \<times> 'w) option) \<Rightarrow> 'w link conn" where
  "server_conn serve =
     \<lparr>conn_Write = \<lambda>frame s. (None, answer serve frame s),
      conn_Reader = \<lambda>s. \<lparr>incoming_bytes = lk_out s, ends_with = EOF\<rparr>,
      conn_consumed = \<lambda>r s. s\<lparr>lk_out := incoming_bytes r\<rparr>,
      conn_Close = \<lambda>s. s, conn_closed_err = EOF\<rparr>"

text \<open>A client between two operations: the connection is open and nothing waits on it.\<close>

definition idle :: "'w link Client \<Rightarrow> bool" where
  "idle c \<longleftrightarrow> \<not> cl_closed c \<and> lk_out (cl_link c) = []"

definition stepped :: "'w link Client \<Rightarrow> 'w \<Rightarrow> 'w link Client" where
  "stepped c w = c\<lparr>nextid := nextid c + 1, cl_link := \<lparr>lk_world = w, lk_out = []\<rparr>\<rparr>"

lemma idle_stepped [simp]: "idle c \<Longrightarrow> idle (stepped c w)" "lk_world (cl_link (stepped c w)) = w" "nextid (stepped c w) = nextid c + 1"
  by (auto simp: idle_def stepped_def)

subsection \<open>Requests as they arrive\<close>

text \<open>The client builds the attributes of a setstat request from values; the server keeps the bytes.\<close>

fun as_received :: "requestPacket \<Rightarrow> requestPacket" where
  "as_received (sshFxpSetstatPacket i s f a) = sshFxpSetstatPacket i s f (VBytes (the (marshal [] a)))"
| "as_received (sshFxpFsetstatPacket i s f a) = sshFxpFsetstatPacket i s f (VBytes (the (marshal [] a)))"
| "as_received p = p"

fun attrs_encode :: "requestPacket \<Rightarrow> bool" where
  "attrs_encode (sshFxpSetstatPacket _ _ _ a) \<longleftrightarrow> marshal [] a \<noteq> None"
| "attrs_encode (sshFxpFsetstatPacket _ _ _ a) \<longleftrightarrow> marshal [] a \<noteq> None"
| "attrs_encode _ \<longleftrightarrow> True"

definition sendable :: "requestPacket \<Rightarrow> bool" where
  "sendable p \<longleftrightarrow> wire_packet (as_received p) \<and> attrs_encode p \<and> (\<forall>bb. MarshalBinary p = Some bb \<longrightarrow> length bb \<le> maxMsgLength)"

lemma marshalFileInfo_buffer: "marshalFileInfo b fi = b @ marshalFileInfo [] fi"
  by (simp add: marshalFileInfo_def Let_def marshalUint32_def marshalUint64_def split: prod.split)

lemma marshal_each_buffer:
  assumes "\<And>v b. v \<in> set vs \<Longrightarrow> marshal b v = map_option ((@) b) (marshal [] v)"
  shows "marshal_each b vs = map_option ((@) b) (marshal_each [] vs)"
  using assms
proof (induction vs arbitrary: b)
  case (Cons v vs)
  have IH: "marshal_each b vs = map_option ((@) b) (marshal_each [] vs)" for b
    by (rule Cons.IH, rule Cons.prems) simp
  show ?case
  proof (cases "marshal [] v")
    case (Some x)
    with Cons.prems [of v b] have "marshal b v = Some (b @ x)" by simp
    with Some IH [of "b @ x"] IH [of x] show ?thesis by (cases "marshal_each [] vs") simp_all
  qed (use Cons.prems [of v b] in simp)
qed simp

lemma marshal_buffer: "marshal b v = map_option ((@) b) (marshal [] v)"
proof (induction v arbitrary: b)
  case (VFileInfo fi)
  show ?case by (simp add: marshalFileInfo_buffer [of b])
next
  case (VStruct vs)
  show ?case using marshal_each_buffer [of vs b, OF VStruct] by simp
next
  case (VSlice vs)
  show ?case using marshal_each_buffer [of vs b, OF VSlice] by simp
qed (simp_all add: marshalUint32_def marshalUint64_def marshalString_def)

lemma MarshalBinary_as_received: "attrs_encode p \<Longrightarrow> MarshalBinary (as_received p) = MarshalBinary p"
  by (cases p rule: as_received.cases)
     (auto simp: marshal_Setstat_def marshal_Fsetstat_def marshal_buffer [of "marshalUint32 _ _"])

lemma requestPacket_id_as_received [simp]: "requestPacket_id (as_received p) = requestPacket_id p"
  by (cases p rule: as_received.cases) auto

text \<open>What a sendable request becomes on the wire, and what the server makes of it.\<close>

lemma sendable_wire:
  assumes "sendable p"
  obtains t b where "MarshalBinary p = Some (t # b)" "makePacket t b = (Some (as_received p), None)" "length (t # b) \<le> maxMsgLength"
  using assms makePacket_MarshalBinary [of "as_received p"] MarshalBinary_as_received [of p] by (auto simp: sendable_def)

subsection \<open>A request and its answer\<close>

definition fits :: "responsePacket \<Rightarrow> bool" where
  "fits rp \<longleftrightarrow> (\<exists>t b. MarshalResponse rp = Some (t # b) \<and> length (t # b) \<le> maxMsgLength)"

lemma recv_alone:
  "length (t # b) \<le> maxMsgLength \<Longrightarrow>
   recvPacket \<lparr>incoming_bytes = packet_frame (t # b), ends_with = EOF\<rparr> None 0 = (RecvOk t b, \<lparr>incoming_bytes = [], ends_with = EOF\<rparr>, None)"
  using recvPacket_frame [of "t # b" "\<lparr>incoming_bytes = packet_frame (t # b), ends_with = EOF\<rparr>" "[]" None 0] by simp

lemma sendPacket_served:
  assumes "sendable p" "idle c" "serve (as_received p) (lk_world (cl_link c)) = Some (rp, w)"
    and "MarshalResponse rp = Some (t # b)" "length (t # b) \<le> maxMsgLength"
    and "unmarshalUint32 b = Some (requestPacket_id p, rest)"
  shows "sendPacket (server_conn serve) p c = Some (Inr (t, b), c\<lparr>cl_link := \<lparr>lk_world = w, lk_out = []\<rparr>\<rparr>)"
proof -
  from assms(1) obtain pt pb where p: "MarshalBinary p = Some (pt # pb)" "makePacket pt pb = (Some (as_received p), None)"
    "length (pt # pb) \<le> maxMsgLength" by (rule sendable_wire)
  have a: "answer serve (packet_frame (pt # pb)) (cl_link c) = (cl_link c)\<lparr>lk_world := w, lk_out := packet_frame (t # b)\<rparr>"
    using assms(2-4) p(2) by (simp add: answer_def recv_alone [OF p(3)] idle_def)
  show ?thesis
    using assms(2,6) p(1) a recv_alone [OF assms(5)]
    by (simp add: sendPacket_def send_frame_def recv_frame_def server_conn_def idle_def)
qed

subsection \<open>Responses as the client sees them\<close>

fun is_version :: "responsePacket \<Rightarrow> bool" where
  "is_version (sshFxVersionPacket _ _) \<longleftrightarrow> True"
| "is_version _ \<longleftrightarrow> False"

fun reply_type :: "responsePacket \<Rightarrow> byte" where
  "reply_type (sshFxVersionPacket _ _) = sshFxpVersion"
| "reply_type (sshFxpNamePacket _ _) = sshFxpName"
| "reply_type (sshFxpHandlePacket _ _) = sshFxpHandle"
| "reply_type (sshFxpStatusPacket _ _ _ _) = sshFxpStatus"
| "reply_type (sshFxpDataPacket _ _ _) = sshFxpData"
| "reply_type (sshFxpStatResponse _ _) = sshFxpAttrs"
| "reply_type (sshFxpExtendedReplyPacket _) = sshFxpExtendedReply"

text \<open>What follows the type and the id of a response.\<close>

fun name_body :: "sshFxpNameAttr list \<Rightarrow> bytes option" where
  "name_body [] = Some []"
| "name_body (na # nas) = do { ab \<leftarrow> marshal_NameAttr na; rest \<leftarrow> name_body nas; Some (ab @ rest) }"

fun reply_body :: "responsePacket \<Rightarrow> bytes option" where
  "reply_body (sshFxpNamePacket _ nas) = map_option ((@) (marshalUint32 [] (of_nat (length nas)))) (name_body nas)"
| "reply_body (sshFxpHandlePacket _ h) = Some (marshalString [] h)"
| "reply_body (sshFxpStatusPacket _ code msg lang) = Some (marshalUint32 [] code @ marshalString [] msg @ marshalString [] lang)"
| "reply_body (sshFxpDataPacket i n d) = map_option (drop 5) (marshal_Data i n d)"
| "reply_body (sshFxpStatResponse _ info) = Some (marshalFileInfo [] info)"
| "reply_body (sshFxpExtendedReplyPacket s) = Some (drop 5 (marshal_StatVFS s))"
| "reply_body (sshFxVersionPacket v e) = None"

lemma append_NameAttrs_body: "append_NameAttrs b nas = map_option ((@) b) (name_body nas)"
proof (induction nas arbitrary: b)
  case (Cons na nas)
  show ?case
  proof (cases "marshal_NameAttr na")
    case (Some ab)
    with Cons [of "b @ ab"] show ?thesis by (cases "name_body nas") simp_all
  qed simp
qed simp

lemma nine_bytes: "9 \<le> length xs \<Longrightarrow> \<exists>a b c d e f g h i ys. xs = [a, b, c, d, e, f, g, h, i] @ ys"
proof -
  assume "9 \<le> length xs"
  then have "length (take 9 xs) = 9" by simp
  from list_of_nine [OF this] obtain a b c d e f g h i where "take 9 xs = [a, b, c, d, e, f, g, h, i]" by blast
  then have "xs = [a, b, c, d, e, f, g, h, i] @ drop 9 xs" by (metis append_take_drop_id)
  then show ?thesis by blast
qed

lemma go_copy_in:
  "length mid = length src \<Longrightarrow> n = length pre \<Longrightarrow> go_copy (pre @ mid @ post) n src = pre @ src @ post"
  using go_copy_onto [of mid src pre n post] by simp

lemma marshal_Data_header:
  assumes "marshal_Data i n d = Some bb"
  shows "\<exists>ys. bb = sshFxpData # marshalUint32 [] i @ ys"
proof -
  from assms have d: "unat n \<le> length d" by (auto simp: marshal_Data_def split: if_splits)
  let ?b = "go_copy (d @ replicate 9 0) 9 (take (unat n) d)"
  have "9 \<le> length ?b" using d by (simp add: go_copy_fits)
  from nine_bytes [OF this] obtain a b c e f g h i' j ys where b: "?b = [a, b, c, e, f, g, h, i', j] @ ys" by blast
  have 1: "go_copy (sshFxpData # [b, c, e, f, g, h, i', j] @ ys) 1 (marshalUint32 [] i) =
      sshFxpData # marshalUint32 [] i @ [g, h, i', j] @ ys"
    using go_copy_in [of "[b, c, e, f]" "marshalUint32 [] i" 1 "[sshFxpData]" "[g, h, i', j] @ ys"] by simp
  have 2: "go_copy (sshFxpData # marshalUint32 [] i @ [g, h, i', j] @ ys) 5 (marshalUint32 [] n) =
      sshFxpData # marshalUint32 [] i @ marshalUint32 [] n @ ys"
    using go_copy_in [of "[g, h, i', j]" "marshalUint32 [] n" 5 "sshFxpData # marshalUint32 [] i" ys] by simp
  from assms d b 1 2 have "bb = sshFxpData # marshalUint32 [] i @ marshalUint32 [] n @ ys" by (simp add: marshal_Data_def Let_def)
  then show ?thesis by blast
qed

lemma MarshalResponse_body:
  assumes "MarshalResponse rp = Some bb" "\<not> is_version rp"
  obtains body where "reply_body rp = Some body" "bb = reply_type rp # marshalUint32 [] (responsePacket_id rp) @ body"
proof (cases rp)
  case (sshFxpNamePacket i nas)
  with assms that show ?thesis
    by (auto simp: marshal_Name_def append_NameAttrs_body marshal_append)
next
  case (sshFxpDataPacket i n d)
  with assms marshal_Data_header [of i n d bb] that show ?thesis by auto
next
  case (sshFxpStatResponse i info)
  with assms that show ?thesis by (simp add: marshal_StatResponse_def marshalFileInfo_buffer [of "sshFxpAttrs # _"] marshal_append)
next
  case (sshFxpExtendedReplyPacket st)
  with assms show ?thesis by (intro that [of "drop 5 bb"]) (auto simp: marshal_StatVFS_def codec_simps)
next
  case (sshFxpHandlePacket i h)
  with assms show ?thesis by (intro that [of "marshalString [] h"]) (auto simp: marshal_Handle_def marshal_append)
next
  case (sshFxpStatusPacket i code msg lang)
  with assms show ?thesis
    by (intro that [of "marshalUint32 [] code @ marshalString [] msg @ marshalString [] lang"])
       (auto simp: marshal_Status_def marshalStatus_def marshal_append)
qed (use assms(2) in simp)

text \<open>The value of each kind of call, given the server's response.\<close>

fun status_view :: "responsePacket \<Rightarrow> go_error option" where
  "status_view (sshFxpStatusPacket _ code msg lang) = normaliseError (StatusErr code msg lang)"
| "status_view rp = Some (UnimplementedPacketErr (reply_type rp))"

fun attrs_view :: "string \<Rightarrow> responsePacket \<Rightarrow> fileInfo option \<times> go_error option" where
  "attrs_view p (sshFxpStatResponse _ fi) = (Some (fileInfoFromStat (snd (fileStatFromInfo fi)) (Base p)), None)"
| "attrs_view p rp = (None, status_view rp)"

fun handle_view :: "responsePacket \<Rightarrow> string \<times> go_error option" where
  "handle_view (sshFxpHandlePacket _ h) = (h, None)"
| "handle_view rp = ([], status_view rp)"

fun one_name_view :: "responsePacket \<Rightarrow> string \<times> go_error option" where
  "one_name_view (sshFxpNamePacket _ nas) =
     (if (of_nat (length nas) :: u32) \<noteq> 1 then ([], Some (unexpectedCount 1 (of_nat (length nas)))) else (na_Name (hd nas), None))"
| "one_name_view rp = ([], status_view rp)"

text \<open>Strings that the length fields can announce.\<close>

fun wire_reply :: "responsePacket \<Rightarrow> bool" where
  "wire_reply (sshFxpNamePacket _ nas) \<longleftrightarrow> length nas < 2 ^ 32 \<and> list_all (\<lambda>na. wire_string (na_Name na) \<and> wire_string (na_LongName na)) nas"
| "wire_reply (sshFxpHandlePacket _ h) \<longleftrightarrow> wire_string h"
| "wire_reply (sshFxpStatusPacket _ _ msg lang) \<longleftrightarrow> wire_string msg \<and> wire_string lang"
| "wire_reply (sshFxVersionPacket _ _) \<longleftrightarrow> False"
| "wire_reply _ \<longleftrightarrow> True"

lemma wire_reply_not_version: "wire_reply rp \<Longrightarrow> \<not> is_version rp"
  by (cases rp) auto

lemma status_reply_of:
  assumes "wire_string msg" "wire_string lang"
  shows "status_reply i (marshalUint32 [] i @ marshalUint32 [] code @ marshalString [] msg @ marshalString [] lang) =
    Some (normaliseError (StatusErr code msg lang))"
  using assms by (simp add: status_reply_def unmarshalStatus_def or_zero_def codec_simps)

subsection \<open>Directory entries on the wire\<close>

text \<open>The entry both servers send for a file, with a long name; and what the client makes of it.\<close>

definition name_of_info :: "(fileInfo \<Rightarrow> string) \<Rightarrow> fileInfo \<Rightarrow> sshFxpNameAttr" where
  "name_of_info ln d = NameAttr (fi_name d) (ln d) [VFileInfo d]"

definition entries :: "fileInfo list \<Rightarrow> fileInfo list" where
  "entries ds = map (\<lambda>d. fileInfoFromStat (snd (fileStatFromInfo d)) (Base (fi_name d)))
     (filter (\<lambda>d. fi_name d \<noteq> ''.'' \<and> fi_name d \<noteq> ''..'') ds)"

definition entry_bytes :: "(fileInfo \<Rightarrow> string) \<Rightarrow> fileInfo \<Rightarrow> bytes" where
  "entry_bytes ln d = marshalString [] (fi_name d) @ marshalString [] (ln d) @ marshalFileInfo [] d"

lemma marshal_name_of_info: "marshal_NameAttr (name_of_info ln d) = Some (entry_bytes ln d)"
  by (simp add: marshal_NameAttr_def name_of_info_def entry_bytes_def marshal_append marshalFileInfo_buffer [of "_ @ _"])

lemma name_body_of: "name_body (map (name_of_info ln) ds) = Some (concat (map (entry_bytes ln) ds))"
  by (induction ds) (simp_all add: marshal_name_of_info)

lemma read_names_of:
  assumes "list_all (\<lambda>d. wire_string (fi_name d) \<and> wire_string (ln d)) ds"
  shows "read_names (length ds) (concat (map (entry_bytes ln) ds)) attrs = Some (attrs @ entries ds)"
  using assms
proof (induction ds arbitrary: attrs)
  case (Cons d ds)
  then show ?case by (simp add: entry_bytes_def codec_simps entries_def)
qed (simp add: entries_def)

subsection \<open>The contract of a server and the calls of the client\<close>

locale peer =
  fixes serve :: "requestPacket \<Rightarrow> 'w \<Rightarrow> (responsePacket \<times> 'w) option"
    and ok :: "'w \<Rightarrow> requestPacket \<Rightarrow> bool"
  assumes answers: "ok w q \<Longrightarrow> wire_packet q \<Longrightarrow>
    \<exists>rp w'. serve q w = Some (rp, w') \<and> responsePacket_id rp = requestPacket_id q"
begin

text \<open>A request the client can make in its present state, and the server's answer to it.\<close>

definition calls :: "(u32 \<Rightarrow> requestPacket) \<Rightarrow> 'w link Client \<Rightarrow> responsePacket \<Rightarrow> 'w \<Rightarrow> bool" where
  "calls mk c rp w \<longleftrightarrow> (let p = mk (nextid c + 1) in
     idle c \<and> ok (lk_world (cl_link c)) (as_received p) \<and> sendable p \<and> requestPacket_id p = nextid c + 1 \<and>
     serve (as_received p) (lk_world (cl_link c)) = Some (rp, w) \<and> fits rp \<and> wire_reply rp)"

lemma exchange_served:
  assumes "calls mk c rp w"
  obtains body where "reply_body rp = Some body"
    "exchange (server_conn serve) mk c =
       Some (nextid c + 1, Inr (reply_type rp, marshalUint32 [] (nextid c + 1) @ body), stepped c w)"
proof -
  let ?p = "mk (nextid c + 1)"
  let ?c = "c\<lparr>nextid := nextid c + 1\<rparr>"
  from assms have c: "idle c" "ok (lk_world (cl_link c)) (as_received ?p)" "sendable ?p" "requestPacket_id ?p = nextid c + 1"
    "serve (as_received ?p) (lk_world (cl_link c)) = Some (rp, w)" "fits rp" "wire_reply rp"
    by (auto simp: calls_def Let_def)
  have "wire_packet (as_received ?p)" using c(3) by (simp add: sendable_def)
  from answers [OF c(2) this] c(4,5) have rid: "responsePacket_id rp = nextid c + 1" by auto
  from c(6) obtain t b where rp: "MarshalResponse rp = Some (t # b)" "length (t # b) \<le> maxMsgLength" by (auto simp: fits_def)
  from MarshalResponse_body [OF rp(1) wire_reply_not_version [OF c(7)]] obtain body where
    b: "reply_body rp = Some body" "t # b = reply_type rp # marshalUint32 [] (nextid c + 1) @ body" using rid by metis
  have "sendPacket (server_conn serve) ?p ?c = Some (Inr (t, b), ?c\<lparr>cl_link := \<lparr>lk_world = w, lk_out = []\<rparr>\<rparr>)"
    by (rule sendPacket_served [where rp = rp and rest = body]) (use c b rp in \<open>auto simp: idle_def\<close>)
  with b that show thesis by (simp add: exchange_def nextID_def Let_def stepped_def)
qed

text \<open>A call answered by a status.\<close>

lemma status_call_served:
  assumes "calls mk c rp w"
  shows "status_call (server_conn serve) mk c = Some (status_view rp, stepped c w)"
proof -
  from assms have w: "wire_reply rp" by (simp add: calls_def Let_def)
  from assms obtain body where b: "reply_body rp = Some body"
    and e: "exchange (server_conn serve) mk c =
       Some (nextid c + 1, Inr (reply_type rp, marshalUint32 [] (nextid c + 1) @ body), stepped c w)"
    by (rule exchange_served)
  from w b show ?thesis by (cases rp) (auto simp: status_call_def e status_reply_of)
qed

text \<open>A call answered by a value: \<open>view\<close> is what the decoder makes of the expected response.\<close>

lemma value_call_served:
  assumes "calls mk c rp w" and "want \<noteq> sshFxpStatus"
    and "\<And>body. reply_type rp = want \<Longrightarrow> reply_body rp = Some body \<Longrightarrow> dec body = Some v"
    and "reply_type rp \<noteq> want \<Longrightarrow> v = (z, status_view rp)"
  shows "value_call (server_conn serve) want z dec mk c = Some (v, stepped c w)"
proof -
  from assms have w: "wire_reply rp" by (simp add: calls_def Let_def)
  from assms(1) obtain body where b: "reply_body rp = Some body"
    and e: "exchange (server_conn serve) mk c =
       Some (nextid c + 1, Inr (reply_type rp, marshalUint32 [] (nextid c + 1) @ body), stepped c w)"
    by (rule exchange_served)
  show ?thesis
  proof (cases "reply_type rp = want")
    case True
    with assms(3) b show ?thesis by (simp add: value_call_def e)
  next
    case False
    with assms(4) w b show ?thesis by (cases rp) (auto simp: value_call_def e status_reply_of)
  qed
qed

lemma Stat_served:
  "calls (\<lambda>i. sshFxpStatPacket i p) c rp w \<Longrightarrow> Client_Stat (server_conn serve) p c = Some (attrs_view p rp, stepped c w)"
  unfolding Client_Stat_def
  by (rule value_call_served [where rp = rp]; (assumption | cases rp))
     (auto simp: dec_attrs_def unmarshalAttrs_marshal [where rest = "[]", simplified])

lemma Lstat_served:
  "calls (\<lambda>i. sshFxpLstatPacket i p) c rp w \<Longrightarrow> Client_Lstat (server_conn serve) p c = Some (attrs_view p rp, stepped c w)"
  unfolding Client_Lstat_def
  by (rule value_call_served [where rp = rp]; (assumption | cases rp))
     (auto simp: dec_attrs_def unmarshalAttrs_marshal [where rest = "[]", simplified])

lemma opendir_served:
  assumes "calls (\<lambda>i. sshFxpOpendirPacket i p) c rp w"
  shows "Client_opendir (server_conn serve) p c = Some (handle_view rp, stepped c w)"
proof -
  from assms have "wire_reply rp" by (simp add: calls_def Let_def)
  with assms show ?thesis unfolding Client_opendir_def
    by (intro value_call_served [where rp = rp]; (assumption | cases rp))
       (auto simp: dec_handle_def unmarshalString_marshal [where r = "[]", simplified])
qed

text \<open>
  A listing as the server gives it: name responses, ended by a status. An entry is what the client makes of a file
  information the server sent; the entries for the directory itself and its parent are left out.
\<close>

inductive lists :: "string \<Rightarrow> 'w link Client \<Rightarrow> fileInfo list \<Rightarrow> go_error option \<Rightarrow> 'w link Client \<Rightarrow> bool" for h where
  last: "calls (\<lambda>i. sshFxpReaddirPacket i h) c (sshFxpStatusPacket j code msg lang) w \<Longrightarrow>
    e = normaliseError (StatusErr code msg lang) \<Longrightarrow>
    lists h c [] (if e = Some EOF then None else e) (stepped c w)"
| more: "calls (\<lambda>i. sshFxpReaddirPacket i h) c (sshFxpNamePacket j (map (name_of_info ln) ds)) w \<Longrightarrow>
    lists h (stepped c w) es e c' \<Longrightarrow> lists h c (entries ds @ es) e c'"

lemma readdir_round_status:
  assumes "calls (\<lambda>i. sshFxpReaddirPacket i h) c (sshFxpStatusPacket j code msg lang) w"
  shows "readdir_round (server_conn serve) h attrs c =
    Some (Inl (attrs, (let e = normaliseError (StatusErr code msg lang) in if e = Some EOF then None else e)), stepped c w)"
proof -
  from assms have w: "wire_string msg" "wire_string lang" by (auto simp: calls_def Let_def)
  from assms obtain body where b: "reply_body (sshFxpStatusPacket j code msg lang) = Some body"
    and e: "exchange (server_conn serve) (\<lambda>i. sshFxpReaddirPacket i h) c =
       Some (nextid c + 1, Inr (reply_type (sshFxpStatusPacket j code msg lang), marshalUint32 [] (nextid c + 1) @ body), stepped c w)"
    by (rule exchange_served)
  from b w show ?thesis by (auto simp: readdir_round_def e status_reply_of Let_def)
qed

lemma readdir_round_names:
  assumes "calls (\<lambda>i. sshFxpReaddirPacket i h) c (sshFxpNamePacket j (map (name_of_info ln) ds)) w"
  shows "readdir_round (server_conn serve) h attrs c = Some (Inr (attrs @ entries ds), stepped c w)"
proof -
  let ?rp = "sshFxpNamePacket j (map (name_of_info ln) ds)"
  from assms have w: "wire_reply ?rp" by (simp add: calls_def Let_def)
  from assms obtain body where b: "reply_body ?rp = Some body"
    and e: "exchange (server_conn serve) (\<lambda>i. sshFxpReaddirPacket i h) c =
       Some (nextid c + 1, Inr (reply_type ?rp, marshalUint32 [] (nextid c + 1) @ body), stepped c w)"
    by (rule exchange_served)
  from w have n: "unat (of_nat (length ds) :: u32) = length ds" and ws: "list_all (\<lambda>d. wire_string (fi_name d) \<and> wire_string (ln d)) ds"
    by (auto simp: unat_of_nat list.pred_map comp_def name_of_info_def)
  from b read_names_of [OF ws] n show ?thesis by (auto simp: readdir_round_def e name_body_of)
qed

lemma readdir_loop_lists:
  "lists h c es e c' \<Longrightarrow> readdir_loop (server_conn serve) h attrs c = Some (Some ((attrs @ es, e), c'))"
proof (induction arbitrary: attrs rule: lists.induct)
  case (last c j code msg lang w e)
  then show ?case by (subst readdir_loop.simps) (simp add: readdir_round_status Let_def)
next
  case (more c j ln ds w es e c')
  from more.hyps(1) more.IH show ?case by (subst readdir_loop.simps) (simp add: readdir_round_names)
qed

text \<open>\<^verbatim>\<open>ReadDir\<close>: the handle is opened, the listing read to its end, and the handle closed.\<close>

lemma ReadDir_served:
  assumes "calls (\<lambda>i. sshFxpOpendirPacket i p) c (sshFxpHandlePacket j h) w" "lists h (stepped c w) es e c'"
    and "calls (\<lambda>i. sshFxpClosePacket i h) c' rp w'"
  shows "Client_ReadDir (server_conn serve) p c = Some (Some ((es, e), stepped c' w'))"
  using opendir_served [OF assms(1)] readdir_loop_lists [OF assms(2), of "[]"] status_call_served [OF assms(3)]
  by (simp add: Client_ReadDir_def Client_close_def)

end

end
