(* ===== verification/Client_Server.thy ===== *)
theory Client_Server
  imports Client_Wire Server_Safety
begin

text \<open>
  The client of client.go talking to the server of server.go: the contract \<open>peer\<close> holds of the server's worker, so each operation of the client
  is the system call the server makes for it, and its result is the error of that call as the status codes can express it.
\<close>

subsection \<open>The server as a peer\<close>

definition serve_os :: "('w, 'f) os_api \<Rightarrow> requestPacket \<Rightarrow> 'f Server \<times> 'w \<times> u32 \<Rightarrow> (responsePacket \<times> 'f Server \<times> 'w \<times> u32) option" where
  "serve_os os q s = (case s of (svr, w, oid) \<Rightarrow>
     (case sftpServerWorker os svr w \<lparr>oreq_packet = Some q, oreq_orderid = oid\<rparr> of
        (Responds rp, svr, w) \<Rightarrow> Some (rp, svr, w, oid + 1)
      | _ \<Rightarrow> None))"

lemma wire_packet_consistent: "wire_packet q \<Longrightarrow> consistent q \<and> has_attrs q"
proof (cases q)
  case (sshFxpExtendedPacket i r sp)
  assume "wire_packet q"
  with sshFxpExtendedPacket show ?thesis
  proof (cases sp)
    case (Some s)
    with \<open>wire_packet q\<close> sshFxpExtendedPacket show ?thesis by (cases s) auto
  qed simp
qed auto

interpretation os_peer: peer "serve_os os" "\<lambda>_ _. True" for os :: "('w, 'f) os_api"
proof
  fix s :: "'f Server \<times> 'w \<times> u32" and q
  assume "wire_packet q"
  then have q: "consistent q" "has_attrs q" using wire_packet_consistent by auto
  obtain svr w oid where s: "s = (svr, w, oid)" by (rule prod_cases3)
  obtain out svr' w' where run: "sftpServerWorker os svr w \<lparr>oreq_packet = Some q, oreq_orderid = oid\<rparr> = (out, svr', w')"
    by (rule prod_cases3)
  from worker_answered [OF run q(1)] q(2) show "\<exists>rp w'. serve_os os q s = Some (rp, w') \<and> responsePacket_id rp = requestPacket_id q"
    by (auto simp: serve_os_def s run answered_as_def split: outcome.splits)
qed

text \<open>An error of a system call as the client gets to see it.\<close>

definition client_view :: "go_error option \<Rightarrow> go_error option" where
  "client_view err = (case err of None \<Rightarrow> None | Some e \<Rightarrow> normaliseError (StatusErr (status_code e) (err_Error e) []))"

lemma status_view_statusFromError [simp]: "status_view (statusFromError i err) = client_view err"
  by (simp add: statusFromError_def client_view_def split: option.split)

text \<open>Paths and texts for which all packets stay below 256 KiB.\<close>

abbreviation short :: "string \<Rightarrow> bool" where "short s \<equiv> length s \<le> 2 ^ 16"

definition short_err :: "go_error option \<Rightarrow> bool" where
  "short_err err = (case err of None \<Rightarrow> True | Some e \<Rightarrow> short (err_Error e))"

lemma short_wire [simp]: "short s \<Longrightarrow> wire_string s"
  by (simp add: wire_string_def)

lemma status_fits:
  assumes "short_err err"
  shows "fits (statusFromError i err)" "wire_reply (statusFromError i err)"
  using assms
  by (auto simp: fits_def statusFromError_def short_err_def marshal_Status_def marshalStatus_def marshal_append maxMsgLength_def wire_string_def
      split: option.splits)

lemma os_calls:
  assumes "idle c" "lk_world (cl_link c) = (svr, w, oid)" "\<not> readOnly svr"
    and "sendable (mk (nextid c + 1))" "requestPacket_id (mk (nextid c + 1)) = nextid c + 1"
    and "handlePacket os svr w (Some (as_received (mk (nextid c + 1)))) oid = (Responds rp, svr', w')"
    and "fits rp" "wire_reply rp"
  shows "os_peer.calls os mk c rp (svr', w', oid + 1)"
  using assms by (simp add: os_peer.calls_def Let_def serve_os_def sftpServerWorker_def)

lemma status_call_os:
  assumes "idle c" "lk_world (cl_link c) = (svr, w, oid)" "\<not> readOnly svr"
    and "sendable (mk (nextid c + 1))" "requestPacket_id (mk (nextid c + 1)) = nextid c + 1"
    and "handlePacket os svr w (Some (as_received (mk (nextid c + 1)))) oid = (Responds (statusFromError i err), svr', w')"
    and "short_err err"
  shows "status_call (server_conn (serve_os os)) mk c = Some (client_view err, stepped c (svr', w', oid + 1))"
  using os_peer.status_call_served [OF os_calls [where mk = mk, OF assms(1-6) status_fits [OF assms(7)]]] by simp

subsection \<open>Calls of the client are system calls of the server\<close>

text \<open>The operations answered by a status, each with the system call the server is to make for it.\<close>

definition status_ops :: "('w, 'f) os_api \<Rightarrow> 'f Server \<Rightarrow> string \<Rightarrow> string \<Rightarrow> u32 \<Rightarrow> u64 \<Rightarrow>
    ((('f Server \<times> 'w \<times> u32) link conn \<Rightarrow> ('f Server \<times> 'w \<times> u32) link Client \<Rightarrow>
        (go_error option \<times> ('f Server \<times> 'w \<times> u32) link Client) option) \<times> ('w \<Rightarrow> go_error option \<times> 'w)) list" where
  "status_ops os svr p q m n =
     [(\<lambda>cn. Client_Mkdir cn p, os_Mkdir os (getUserJailPath svr p) 0x1ED),
      (\<lambda>cn. Client_RemoveDirectory cn p, os_Remove os (getUserJailPath svr p)),
      (\<lambda>cn. Client_Symlink cn p q, os_Symlink os (getUserJailPath svr p) (getUserJailPath svr q)),
      (\<lambda>cn. Client_removeFile cn p, os_Remove os p),
      (\<lambda>cn. Client_Rename cn p q, os_Rename os p q),
      (\<lambda>cn. Client_PosixRename cn p q, os_Rename os p q),
      (\<lambda>cn. Client_Link cn p q, os_Link os p q),
      (\<lambda>cn. Client_Chmod cn p m, os_Chmod os p m),
      (\<lambda>cn. Client_Chown cn p (uint m) (uint m), os_Chown os p m m),
      (\<lambda>cn. Client_Truncate cn p n, os_Truncate os p n)]"

lemmas client_status_defs =
  Client_Mkdir_def Client_RemoveDirectory_def Client_Symlink_def Client_removeFile_def Client_Rename_def Client_PosixRename_def
  Client_Link_def Client_Chmod_def Client_Chown_def Client_Truncate_def Client_setstat_def

lemmas sendable_defs =
  sendable_def encode_defs marshal_append maxMsgLength_def is_bytes_def

lemma apply_one_attr:
  "apply_attrs sshFileXferAttrPermissions tr ch ti ow (marshalUint32 [] m) w = ch m w"
  "apply_attrs sshFileXferAttrSize tr ch ti ow (marshalUint64 [] n) w = tr n w"
  "apply_attrs sshFileXferAttrUIDGID tr ch ti ow (marshalUint32 [] m @ marshalUint32 [] m) w = ow m m w"
  by (simp_all add: apply_attrs_def Let_def set_mode_def set_size_def set_pair_def codec_simps split: prod.split)

lemma setstat_respond_one:
  "setstat_respond os w i p sshFileXferAttrPermissions (VBytes (marshalUint32 [] m)) =
     (case os_Chmod os p m w of (err, w) \<Rightarrow> (Responds (statusFromError i err), w))"
  "setstat_respond os w i p sshFileXferAttrSize (VBytes (marshalUint64 [] n)) =
     (case os_Truncate os p n w of (err, w) \<Rightarrow> (Responds (statusFromError i err), w))"
  "setstat_respond os w i p sshFileXferAttrUIDGID (VBytes (marshalUint32 [] m @ marshalUint32 [] m)) =
     (case os_Chown os p m m w of (err, w) \<Rightarrow> (Responds (statusFromError i err), w))"
  by (simp_all add: setstat_respond_def apply_one_attr)


text \<open>The witness: making a directory on the demonstration system, whose calls count.\<close>

definition demo_linked :: "(nat Server \<times> nat \<times> u32) link Client" where
  "demo_linked = \<lparr>maxPacket = 32768, nextid = 0, maxConcurrentRequests = 64, useFstat = False, cl_closed = False,
     cl_link = \<lparr>lk_world = (demo_server, 0, 1), lk_out = []\<rparr>\<rparr>"

lemma demo_linked_idle: "idle demo_linked" "lk_world (cl_link demo_linked) = (demo_server, 0, 1)" "\<not> readOnly demo_server"
  by (simp_all add: demo_linked_def idle_def demo_server_def NewServer_def)


subsection \<open>File information\<close>

lemma stat_fits: "fits (sshFxpStatResponse i fi)"
proof -
  have "length (marshalFileInfo [] fi) \<le> 100"
    by (simp add: marshalFileInfo_def Let_def split: prod.split)
  then show ?thesis by (simp add: fits_def marshal_StatResponse_def marshalFileInfo_buffer [of "_ # _"] marshal_append maxMsgLength_def)
qed

lemma sendable_path:
  "short p \<Longrightarrow> sendable (sshFxpStatPacket i p)" "short p \<Longrightarrow> sendable (sshFxpLstatPacket i p)"
  "short p \<Longrightarrow> sendable (sshFxpOpenPacket i p f 0)" "short p \<Longrightarrow> sendable (sshFxpOpendirPacket i p)"
  "short p \<Longrightarrow> sendable (sshFxpReaddirPacket i p)" "short p \<Longrightarrow> sendable (sshFxpClosePacket i p)"
  by (simp_all add: sendable_defs)

lemma stat_reads: "packet_readonly (Some (sshFxpStatPacket i p))"
  by (simp add: packet_readonly_def)

text \<open>
  \<^verbatim>\<open>Stat\<close> tells what the system tells. The client's \<^verbatim>\<open>Stat\<close> of a path gives the size, mode and modification time that
  \<^verbatim>\<open>os.Stat\<close> gives for it on the server, below the account's directory, under the last element of the client's path as name; if the system reports an error the client
  returns that error and no information. Read-only servers answer too.
\<close>

theorem client_stat_is_system_stat:
  assumes "idle c" and "lk_world (cl_link c) = (svr, w, oid)" and "short p"
    and "os_Stat os (getUserJailPath svr p) w = r" and "case r of Inl e \<Rightarrow> short_err (Some e) | Inr fi \<Rightarrow> go_mode (fi_mode fi) \<and> unat (fi_mtime fi) < 2 ^ 32"
  shows "\<exists>info err. Client_Stat (server_conn (serve_os os)) p c = Some ((info, err), stepped c (svr, w, oid + 1)) \<and>
    (case r of
       Inl e \<Rightarrow> info = None \<and> err = client_view (Some e)
     | Inr fi \<Rightarrow> err = None \<and> (\<exists>i. info = Some i \<and> fi_name i = Base p \<and> fi_size i = fi_size fi \<and> fi_mode i = fi_mode fi \<and> fi_mtime i = fi_mtime fi))"
proof -
  let ?rp = "stat_outcome (nextid c + 1) r"
  have rp: "fits ?rp" "wire_reply ?rp"
    using assms(5) status_fits stat_fits by (auto simp: stat_outcome_def split: sum.splits)
  have "os_peer.calls os (\<lambda>i. sshFxpStatPacket i p) c ?rp (svr, w, oid + 1)"
    using assms(1-4) rp sendable_path(1) by (simp add: os_peer.calls_def Let_def serve_os_def sftpServerWorker_def stat_reads)
  from os_peer.Stat_served [OF this] have s: "Client_Stat (server_conn (serve_os os)) p c = Some (attrs_view p ?rp, stepped c (svr, w, oid + 1))" .
  show ?thesis
  proof (cases r)
    case (Inl e)
    have "attrs_view p (statusFromError i x) = (None, client_view x)" for i x
      by (cases x) (simp_all add: statusFromError_def client_view_def)
    with s Inl show ?thesis by (simp add: stat_outcome_def)
  next
    case (Inr fi)
    with assms(5) have g: "go_mode (fi_mode fi)" "unat (fi_mtime fi) < 2 ^ 32" by auto
    have "ucast (ucast (fi_mtime fi) :: u32) = fi_mtime fi"
      using g(2) by (intro word_unat_eq_iff [THEN iffD2]) (simp add: unsigned_ucast_eq unsigned_take_bit_eq take_bit_nat_eq_self)
    with s Inr g show ?thesis
      by (simp add: stat_outcome_def fileInfoFromStat_def fileStatFromInfo_fields toFileMode_fromFileMode)
  qed
qed

text \<open>The witness: a path that the demonstration system does not have.\<close>

theorem client_stat_is_system_stat_witness:
  "Client_Stat (server_conn (serve_os demo_os)) ''/a'' demo_linked = Some ((None, Some ErrNotExist), stepped demo_linked (demo_server, 0, 2))"
proof -
  have r: "os_Stat demo_os (getUserJailPath demo_server ''/a'') 0 = Inl ENOENT" by (simp add: demo_os_def)
  have s: "short ''/a''" "case Inl ENOENT of Inl e \<Rightarrow> short_err (Some e) | Inr fi \<Rightarrow> go_mode (fi_mode fi) \<and> unat (fi_mtime fi) < 2 ^ 32"
    by (simp_all add: short_err_def)
  from client_stat_is_system_stat [OF demo_linked_idle(1,2) s(1) r s(2)] show ?thesis
    by (simp add: client_view_def status_code_def translateErrno_def)
qed

subsection \<open>Opening\<close>

lemma and_zero_or_bit:
  fixes f :: u32
  shows "f AND 1 = 0 \<or> f AND 1 = 1" "f AND 2 = 0 \<or> f AND 2 = 2" "f AND 0x40 = 0 \<or> f AND 0x40 = 0x40" "f AND 0x80 = 0 \<or> f AND 0x80 = 0x80"
    "f AND 0x200 = 0 \<or> f AND 0x200 = 0x200" "f AND 0x400 = 0 \<or> f AND 0x400 = 0x400"
  using and_single_bit [of f 0] and_single_bit [of f 1] and_single_bit [of f 6] and_single_bit [of f 7]
    and_single_bit [of f 9] and_single_bit [of f 10] by simp_all

lemma split_open_flags:
  fixes f :: u32
  shows "f AND 0x2C3 = (f AND 1) OR (f AND 2) OR (f AND 0x40) OR (f AND 0x80) OR (f AND 0x200)" "f AND 3 = (f AND 1) OR (f AND 2)"
  by (simp_all flip: bit.conj_disj_distrib)

text \<open>
  The flags of \<^verbatim>\<open>OpenFile\<close> reach the system. Whatever flags the client is called with, as long as they name one of the
  three ways of access, the request it sends makes the server call \<^verbatim>\<open>os.OpenFile\<close> with the same access mode and the same create,
  truncate and exclusive flags; the append flag, and no other, is dropped on purpose.
\<close>

theorem open_flags_reach_the_system:
  assumes "f AND 3 \<noteq> 3"
  shows "open_osFlags (flags f) = Some (f AND 0x2C3)"
  using and_zero_or_bit [of f] assms unfolding split_open_flags
  by (elim disjE) (simp_all add: flags_def Let_def open_osFlags_def hasPflags_def)

theorem open_flags_reach_the_system_witness: "open_osFlags (flags (O_RDWR OR O_CREATE OR O_TRUNC)) = Some (O_RDWR OR O_CREATE OR O_TRUNC)"
  by (subst open_flags_reach_the_system) simp_all

end
