(* ===== verification/Client_Laws.thy ===== *)
theory Client_Laws
  imports Client_Ops
begin

text \<open>
  Laws of the client's operations that hold over every connection: what the options leave of the limits, how many requests the
  recursive operations send, that answers are matched to requests by id, and what a lost connection looks like.
\<close>

subsection \<open>Limits\<close>

definition client_wf :: "'s Client \<Rightarrow> bool" where
  "client_wf c \<longleftrightarrow> 1 \<le> maxPacket c \<and> 1 \<le> maxConcurrentRequests c"

text \<open>The options the package offers.\<close>

inductive client_option :: "('s Client \<Rightarrow> go_error option \<times> 's Client) \<Rightarrow> bool" where
  "client_option (MaxPacketChecked n)"
| "client_option (MaxPacketUnchecked n)"
| "client_option (MaxPacket n)"
| "client_option (UseFstat v)"
| "client_option (MaxConcurrentRequestsPerFile n)"

lemmas option_defs = MaxPacketChecked_def MaxPacketUnchecked_def MaxPacket_def UseFstat_def MaxConcurrentRequestsPerFile_def

lemma client_option_keeps:
  assumes "client_option f" "f c = (e, c')"
  shows "client_wf c \<Longrightarrow> client_wf c'" "cl_link c' = cl_link c" "cl_closed c' = cl_closed c" "nextid c' = nextid c"
    "e \<noteq> None \<Longrightarrow> c' = c"
  using assms by (cases rule: client_option.cases; auto simp: option_defs client_wf_def split: if_splits)+

lemma applyOptions_keeps:
  assumes "list_all client_option opts" "applyOptions opts c = (e, c')" "client_wf c"
  shows "client_wf c' \<and> cl_link c' = cl_link c \<and> cl_closed c' = cl_closed c \<and> nextid c' = nextid c"
  using assms
proof (induction opts arbitrary: c)
  case (Cons f opts)
  obtain e1 c1 where f: "f c = (e1, c1)" by (cases "f c")
  from Cons.prems(1) have o: "client_option f" by simp
  note k = client_option_keeps [OF o f]
  show ?case
  proof (cases e1)
    case None
    with Cons f k show ?thesis by auto
  next
    case (Some x)
    with Cons.prems f k show ?thesis by auto
  qed
qed simp

lemma send_frame_keeps: "send_frame cn bb c = (e, c') \<Longrightarrow> nextid c' = nextid c \<and> maxPacket c' = maxPacket c \<and>
    maxConcurrentRequests c' = maxConcurrentRequests c \<and> cl_closed c' = cl_closed c"
  by (auto simp: send_frame_def split: if_splits prod.splits option.splits)

lemma recv_frame_keeps: "recv_frame cn c = (r, c') \<Longrightarrow> nextid c' = nextid c \<and> maxPacket c' = maxPacket c \<and>
    maxConcurrentRequests c' = maxConcurrentRequests c \<and> cl_closed c' = cl_closed c"
  by (auto simp: recv_frame_def split: prod.splits)

text \<open>
  C37: what a new client is. If \<^verbatim>\<open>NewClientPipe\<close> returns a client, made with any of the options the package offers, the other
  side has announced protocol version 3 in a version packet, packets and pipelines are at least one element
  long, no id has been used and the connection is open.
\<close>

theorem NewClientPipe_type:
  assumes "list_all client_option opts" and "NewClientPipe cn opts s = Some (Inr c, s')"
  shows "client_wf c \<and> nextid c = 0 \<and> \<not> cl_closed c \<and>
    (\<exists>s1 data rest. fst (recvPacket (conn_Reader cn s1) None 0) = RecvOk sshFxpVersion data \<and> unmarshalUint32 data = Some (3, rest))"
proof -
  let ?c = "\<lparr>maxPacket = 32768, nextid = 0, maxConcurrentRequests = 64, useFstat = False, cl_closed = False, cl_link = s\<rparr>"
  obtain e c1 where a: "applyOptions opts ?c = (e, c1)" by (cases "applyOptions opts ?c")
  have wf: "client_wf ?c" by (simp add: client_wf_def)
  from assms(2) a have e: "e = None" by (auto simp: NewClientPipe_def split: option.splits)
  obtain e2 c2 where i: "sendInit cn c1 = (e2, c2)" by (cases "sendInit cn c1")
  from assms(2) a e i have e2: "e2 = None" by (auto simp: NewClientPipe_def split: option.splits)
  from assms(2) a e i e2 have v: "recvVersion cn c2 = Some (None, c)"
    by (auto simp: NewClientPipe_def split: option.splits Option.bind_splits)
  obtain r c3 where f: "recv_frame cn c2 = (r, c3)" by (cases "recv_frame cn c2")
  from v f obtain data rest where d: "r = RecvOk sshFxpVersion data" "unmarshalUint32 data = Some (3, rest)" "c3 = c"
    by (auto simp: recvVersion_def sftpProtocolVersion_def split: recv_result.splits if_splits Option.bind_splits)
  have "fst (recvPacket (conn_Reader cn (cl_link c2)) None 0) = r" using f by (auto simp: recv_frame_def split: prod.splits)
  moreover from i have "nextid c2 = nextid c1 \<and> maxPacket c2 = maxPacket c1 \<and> maxConcurrentRequests c2 = maxConcurrentRequests c1 \<and>
      cl_closed c2 = cl_closed c1" unfolding sendInit_def by (rule send_frame_keeps)
  moreover note recv_frame_keeps [OF f] applyOptions_keeps [OF assms(1) a wf]
  ultimately show ?thesis using d by (auto simp: client_wf_def)
qed

subsection \<open>Ids\<close>

lemma sendPacket_keeps:
  assumes "sendPacket cn p c = Some (r, c')"
  shows "nextid c' = nextid c \<and> maxPacket c' = maxPacket c \<and> maxConcurrentRequests c' = maxConcurrentRequests c"
  using assms
  by (auto simp: sendPacket_def shut_def split: Option.bind_splits prod.splits option.splits recv_result.splits if_splits
      dest!: send_frame_keeps recv_frame_keeps)

text \<open>The receiving goroutine hands a packet only to the request with its id.\<close>

lemma sendPacket_id:
  assumes "sendPacket cn p c = Some (Inr (typ, data), c')"
  shows "\<exists>rest. unmarshalUint32 data = Some (requestPacket_id p, rest)"
  using assms
  by (auto simp: sendPacket_def split: Option.bind_splits prod.splits option.splits recv_result.splits if_splits)

lemma exchange_next: "exchange cn mk c = Some (i, r, c') \<Longrightarrow> i = nextid c + 1 \<and> nextid c' = nextid c + 1"
  by (auto simp: exchange_def nextID_def Let_def split: Option.bind_splits dest!: sendPacket_keeps)

lemma status_call_next: "status_call cn mk c = Some (r, c') \<Longrightarrow> nextid c' = nextid c + 1"
  by (auto simp: status_call_def split: Option.bind_splits prod.splits sum.splits if_splits dest!: exchange_next)

lemma value_call_next: "value_call cn want z dec mk c = Some (r, c') \<Longrightarrow> nextid c' = nextid c + 1"
  by (auto simp: value_call_def split: Option.bind_splits prod.splits sum.splits if_splits dest!: exchange_next)

lemmas op_next =
  status_call_next [of cn "\<lambda>i. sshFxpMkdirPacket i p 0" for cn p, folded Client_Mkdir_def]
  value_call_next [of cn sshFxpAttrs None "dec_attrs p" "\<lambda>i. sshFxpStatPacket i p" for cn p, folded Client_Stat_def]
  value_call_next [of cn sshFxpAttrs None "dec_attrs p" "\<lambda>i. sshFxpLstatPacket i p" for cn p, folded Client_Lstat_def]

subsection \<open>Making directories\<close>

definition separators :: "string \<Rightarrow> nat" where
  "separators path = length (filter (\<lambda>ch. ch = CHR ''/'') path)"

lemma skip_seps_prefix: "\<exists>t. path = skip_seps path @ t"
proof
  have "rev path = takeWhile (\<lambda>ch. ch = CHR ''/'') (rev path) @ dropWhile (\<lambda>ch. ch = CHR ''/'') (rev path)" by simp
  then show "path = skip_seps path @ rev (takeWhile (\<lambda>ch. ch = CHR ''/'') (rev path))"
    unfolding skip_seps_def by (metis rev_append rev_rev_ident)
qed

lemma skip_elem_prefix: "\<exists>t. path = skip_elem path @ t"
proof
  have "rev path = takeWhile (\<lambda>ch. ch \<noteq> CHR ''/'') (rev path) @ dropWhile (\<lambda>ch. ch \<noteq> CHR ''/'') (rev path)" by simp
  then show "path = skip_elem path @ rev (takeWhile (\<lambda>ch. ch \<noteq> CHR ''/'') (rev path))"
    unfolding skip_elem_def by (metis rev_append rev_rev_ident)
qed

lemma skip_elem_last: "skip_elem path \<noteq> [] \<Longrightarrow> last (skip_elem path) = CHR ''/''"
  unfolding skip_elem_def using hd_dropWhile [of "\<lambda>ch. ch \<noteq> CHR ''/''" "rev path"]
  by (auto simp: last_rev)

lemma mkdir_parent_separators:
  assumes "mkdir_parent path = Some q"
  shows "separators q < separators path"
proof -
  let ?e = "skip_elem (skip_seps path)"
  from assms have j: "1 < length ?e" and q: "q = take (length ?e - 1) path"
    by (auto simp: mkdir_parent_def Let_def split: if_splits)
  from skip_seps_prefix [of path] skip_elem_prefix [of "skip_seps path"] obtain t where p: "path = ?e @ t"
    by (metis append_assoc)
  from j have "?e \<noteq> []" by auto
  with skip_elem_last have "?e = butlast ?e @ ''/''" by (metis append_butlast_last_id)
  then have "path = butlast ?e @ ''/'' @ t" using p by (metis append_assoc)
  moreover have "q = butlast ?e" using q p j by (metis butlast_append butlast_conv_take length_append append_Nil2 take_append
        diff_is_0_eq' le_add1 less_imp_le_nat take_0 diff_le_self append.right_neutral diff_le_self)
  moreover have "separators (b @ ''/'' @ t) = separators b + 1 + separators t" for b by (simp add: separators_def)
  ultimately show ?thesis by (metis add.commute less_add_Suc1 plus_1_eq_Suc add.assoc)
qed

lemma mkdir_last_next:
  assumes "mkdir_last cn path c = Some (e, c')"
  shows "\<exists>n \<le> 2. nextid c' = nextid c + of_nat n"
  using assms
  by (auto simp: mkdir_last_def split: Option.bind_splits prod.splits option.splits if_splits dest!: op_next
      intro: exI [of _ 1] exI [of _ 2])

text \<open>
  C36: making a path takes a bounded number of requests. \<^verbatim>\<open>MkdirAll\<close>, which calls itself on the parent path, ends after
  at most three requests for each separator of the path and three more, whatever the server answers.
\<close>

theorem MkdirAll_bounded:
  assumes "Client_MkdirAll cn path c = Some (err, c')"
  shows "\<exists>n. n \<le> 3 * Suc (separators path) \<and> nextid c' = nextid c + of_nat n"
  using assms
proof (induction cn path c arbitrary: err c' rule: Client_MkdirAll.induct)
  case (1 cn path c)
  from "1.prems" obtain dir serr c1 where st: "Client_Stat cn path c = Some ((dir, serr), c1)"
    by (subst (asm) Client_MkdirAll.simps) (auto split: option.splits prod.splits)
  with op_next(2) have n1: "nextid c1 = nextid c + 1" by blast
  show ?case
  proof (cases serr)
    case None
    with "1.prems" st have "c' = c1" by (subst (asm) Client_MkdirAll.simps) (auto split: option.splits)
    with n1 show ?thesis by (intro exI [of _ 1]) simp
  next
    case (Some e)
    show ?thesis
    proof (cases "mkdir_parent path")
      case None
      with "1.prems" st Some have "mkdir_last cn path c1 = Some (err, c')" by (subst (asm) Client_MkdirAll.simps) simp
      with mkdir_last_next n1 obtain n where "n \<le> 2" "nextid c' = nextid c + 1 + of_nat n" by metis
      then show ?thesis by (intro exI [of _ "Suc n"]) (simp add: algebra_simps)
    next
      case par: (Some q)
      with "1.prems" st Some obtain perr c2 where m: "Client_MkdirAll cn q c1 = Some (perr, c2)"
        by (subst (asm) Client_MkdirAll.simps) (auto split: option.splits prod.splits)
      from "1.IH" [OF st refl refl Some par m] obtain k where k: "k \<le> 3 * Suc (separators q)" "nextid c2 = nextid c1 + of_nat k" by blast
      have "\<exists>n \<le> 2. nextid c' = nextid c2 + of_nat n"
      proof (cases perr)
        case None
        with "1.prems" st Some par m have "mkdir_last cn path c2 = Some (err, c')" by (subst (asm) Client_MkdirAll.simps) simp
        then show ?thesis by (rule mkdir_last_next)
      next
        case (Some x)
        with "1.prems" st \<open>serr = Some e\<close> par m have "c' = c2" by (subst (asm) Client_MkdirAll.simps) simp
        then show ?thesis by (intro exI [of _ 0]) simp
      qed
      then obtain n where "n \<le> 2" "nextid c' = nextid c2 + of_nat n" by blast
      with k n1 mkdir_parent_separators [OF par] show ?thesis
        by (intro exI [of _ "Suc (k + n)"]) (simp add: algebra_simps)
    qed
  qed
qed

text \<open>The witness: a connection that refuses every write; four requests are tried.\<close>

definition demo_client :: "unit Client" where
  "demo_client = \<lparr>maxPacket = 32768, nextid = 0, maxConcurrentRequests = 64, useFstat = False, cl_closed = False, cl_link = ()\<rparr>"

definition demo_conn :: "go_error option \<Rightarrow> bytes \<Rightarrow> unit conn" where
  "demo_conn e bs = \<lparr>conn_Write = \<lambda>_ s. (e, s), conn_Reader = \<lambda>_. \<lparr>incoming_bytes = bs, ends_with = EOF\<rparr>, conn_consumed = \<lambda>_ s. s,
     conn_Close = \<lambda>s. s, conn_closed_err = EOF\<rparr>"

theorem MkdirAll_bounded_witness:
  "\<exists>err c' n. Client_MkdirAll (demo_conn (Some EOF) []) ''/a/b'' demo_client = Some (err, c') \<and> n \<le> (9 :: nat) \<and> nextid c' = of_nat n"
proof -
  let ?cn = "demo_conn (Some EOF) []"
  have x: "exchange ?cn mk c = Some (nextid c + 1, Inl (ErrText ''failed to send packet: EOF''), c\<lparr>nextid := nextid c + 1\<rparr>)"
    if "MarshalBinary (mk (nextid c + 1)) = Some bb" "\<not> cl_closed c" for mk c bb
    using that by (simp add: exchange_def nextID_def Let_def sendPacket_def send_frame_def demo_conn_def)
  have ops: "Client_Stat ?cn p c = Some ((None, Some (ErrText ''failed to send packet: EOF'')), c\<lparr>nextid := nextid c + 1\<rparr>)"
    "Client_Lstat ?cn p c = Some ((None, Some (ErrText ''failed to send packet: EOF'')), c\<lparr>nextid := nextid c + 1\<rparr>)"
    "Client_Mkdir ?cn p c = Some (Some (ErrText ''failed to send packet: EOF''), c\<lparr>nextid := nextid c + 1\<rparr>)"
    if "\<not> cl_closed c" for p c
    using that by (simp_all add: Client_Stat_def Client_Lstat_def Client_Mkdir_def value_call_def status_call_def x)
  have par: "mkdir_parent ''/a/b'' = Some ''/a''" "mkdir_parent ''/a'' = None" by code_simp+
  have "Client_MkdirAll ?cn ''/a/b'' demo_client =
      Some (Some (ErrText ''failed to send packet: EOF''), demo_client\<lparr>nextid := 4\<rparr>)"
    by (subst Client_MkdirAll.simps, subst Client_MkdirAll.simps) (simp add: ops par mkdir_last_def demo_client_def)
  with MkdirAll_bounded [OF this] show ?thesis by (auto simp: separators_def demo_client_def)
qed

subsection \<open>A lost connection\<close>

text \<open>
  A lost connection looks like the end of a directory. If the connection ends, at a packet boundary, while \<^verbatim>\<open>ReadDir\<close>
  waits for the next part of a listing, the end-of-file error of the connection is taken for that of the directory: the entries read so far
  are returned without an error.
\<close>

theorem lost_connection_ends_listing:
  assumes "\<not> cl_closed c" and "\<forall>i. conn_Write cn (packet_frame (marshal_Readdir i h)) (cl_link c) = (None, s)"
    and "conn_Reader cn s = \<lparr>incoming_bytes = [], ends_with = EOF\<rparr>"
  shows "\<exists>c'. readdir_loop cn h attrs c = Some (Some ((attrs, None), c'))"
proof -
  have r: "recvPacket \<lparr>incoming_bytes = [], ends_with = EOF\<rparr> None 0 = (RecvErr EOF, \<lparr>incoming_bytes = [], ends_with = EOF\<rparr>, None)"
    by (simp add: recvPacket_def ReadFull_def)
  have "\<exists>c'. readdir_round cn h attrs c = Some (Inl (attrs, None), c')"
    using assms r
    by (auto simp: readdir_round_def exchange_def nextID_def Let_def sendPacket_def send_frame_def recv_frame_def)
  then show ?thesis by (subst readdir_loop.simps) auto
qed

text \<open>The witness: a connection that takes every write and has nothing to read.\<close>

theorem lost_connection_ends_listing_witness:
  "\<exists>c'. readdir_loop (demo_conn None []) ''1'' [fileInfoFromStat zeroFileStat ''a''] demo_client =
     Some (Some (([fileInfoFromStat zeroFileStat ''a''], None), c'))"
  by (rule lost_connection_ends_listing [where s = "()"]) (simp_all add: demo_conn_def demo_client_def)

text \<open>The witness of the constructor: a server that announces version 3, and a packet size of 1 KiB.\<close>

theorem NewClientPipe_type_witness:
  "\<exists>c s'. NewClientPipe (demo_conn None (packet_frame [sshFxpVersion, 0, 0, 0, 3])) [MaxPacket 1024] () = Some (Inr c, s') \<and> client_wf c \<and>
     maxPacket c = 1024"
proof -
  let ?cn = "demo_conn None (packet_frame [sshFxpVersion, 0, 0, 0, 3])"
  have n: "NewClientPipe ?cn [MaxPacket 1024] () = Some (Inr (demo_client\<lparr>maxPacket := 1024\<rparr>), ())"
    using recvPacket_frame [of "[sshFxpVersion, 0, 0, 0, 3]" "\<lparr>incoming_bytes = packet_frame [sshFxpVersion, 0, 0, 0, 3], ends_with = EOF\<rparr>" "[]" None 0]
    by (simp add: NewClientPipe_def Let_def MaxPacket_def MaxPacketChecked_def sendInit_def send_frame_def recvVersion_def recv_frame_def
        demo_conn_def demo_client_def maxMsgLength_def sftpProtocolVersion_def)
  have o: "list_all client_option [MaxPacket 1024 :: unit Client \<Rightarrow> _]" by (simp add: client_option.intros)
  from NewClientPipe_type [OF o n] n show ?thesis by auto
qed

end
