(* ===== verification/Client_File.thy ===== *)
theory Client_File
  imports Client_Ops
begin

text \<open>
  The file transfers of pkgsftp/client.go: \<^verbatim>\<open>ReadAt\<close>, \<^verbatim>\<open>WriteTo\<close>, \<^verbatim>\<open>Write\<close> and \<^verbatim>\<open>ReadFrom\<close> keep several requests in flight and take
  the results in whatever order they arrive on a channel. Each is a state of its local variables, the inner loop that
  sends requests (\<open>_fill\<close>), what is done with one result (\<open>_receive\<close>, where \<open>None\<close> is a run-time panic), and the
  outer loop over the results that arrive.

  A slice of the caller's buffer is its first index and its length. The ids are those the client gives out while no other
  goroutine uses it.
\<close>

text \<open>The \<^verbatim>\<open>result\<close> of conn.go, and how a loop over results ends: it returns, it panics, or it still waits for a result.\<close>

datatype result = ResErr go_error | ResPkt byte bytes

datatype 'a run = Returned 'a | Panicked | Waiting 'a

definition cut :: "bytes \<Rightarrow> nat \<Rightarrow> bytes \<Rightarrow> bytes" where
  "cut buf at src = take at buf @ src @ drop (at + length src) buf"

subsection \<open>Reading into a buffer\<close>

record read_state =
  ra_buf :: bytes
  ra_pos :: nat
  ra_offset :: u64
  ra_inFlight :: nat
  ra_desired :: nat
  ra_reqs :: "u32 \<rightharpoonup> nat \<times> nat \<times> u64"
  ra_err :: "u64 \<times> go_error option"
  ra_read :: nat
  ra_nextid :: u32
  ra_sent :: "requestPacket list"

definition ReadAt_init :: "bytes \<Rightarrow> u64 \<Rightarrow> u32 \<Rightarrow> read_state" where
  "ReadAt_init b off n =
     \<lparr>ra_buf = b, ra_pos = 0, ra_offset = off, ra_inFlight = 0, ra_desired = 1, ra_reqs = Map.empty, ra_err = (0, None), ra_read = 0,
      ra_nextid = n, ra_sent = []\<rparr>"

text \<open>The closure \<^verbatim>\<open>sendReq\<close>: a slice of the buffer and the offset to read it from.\<close>

definition ReadAt_sendReq :: "string \<Rightarrow> nat \<Rightarrow> nat \<Rightarrow> u64 \<Rightarrow> read_state \<Rightarrow> read_state" where
  "ReadAt_sendReq handle from len off st =
     (let reqID = ra_nextid st + 1
      in st\<lparr>ra_nextid := reqID, ra_sent := ra_sent st @ [sshFxpReadPacket reqID handle off (of_nat len)],
            ra_inFlight := ra_inFlight st + 1, ra_reqs := (ra_reqs st)(reqID \<mapsto> (from, len, off))\<rparr>)"

function ReadAt_fill :: "nat \<Rightarrow> string \<Rightarrow> read_state \<Rightarrow> read_state" where
  "ReadAt_fill mp handle st =
     (if ra_inFlight st < ra_desired st \<and> ra_pos st < length (ra_buf st) \<and> snd (ra_err st) = None
      then let l = min (length (ra_buf st) - ra_pos st) mp;
               st = ReadAt_sendReq handle (ra_pos st) l (ra_offset st) st
           in ReadAt_fill mp handle (st\<lparr>ra_offset := ra_offset st + of_nat l, ra_pos := ra_pos st + l\<rparr>)
      else st)"
  by pat_completeness auto
termination
  by (relation "measure (\<lambda>(_, _, st). ra_desired st - ra_inFlight st)") (auto simp: ReadAt_sendReq_def Let_def)

declare ReadAt_fill.simps [simp del]

definition ReadAt_data :: "nat \<Rightarrow> string \<Rightarrow> nat \<times> nat \<times> u64 \<Rightarrow> bytes \<Rightarrow> read_state \<Rightarrow> read_state option" where
  "ReadAt_data mc handle req data st =
     (case req of (from, len, off) \<Rightarrow> do {
        (l, data) \<leftarrow> unmarshalUint32 data;
        if unat l > length data then None
        else
          let n = min len (unat l);
              st = st\<lparr>ra_buf := cut (ra_buf st) from (take n data), ra_read := ra_read st + n\<rparr>;
              st = (if n < len then ReadAt_sendReq handle (from + unat l) (len - unat l) (off + ucast l) st else st)
          in Some (if ra_desired st < mc then st\<lparr>ra_desired := ra_desired st + 1\<rparr> else st) })"

definition ReadAt_receive :: "nat \<Rightarrow> string \<Rightarrow> result \<Rightarrow> read_state \<Rightarrow> read_state option" where
  "ReadAt_receive mc handle res st =
     (let st = st\<lparr>ra_inFlight := ra_inFlight st - 1\<rparr>
      in case res of
           ResErr e \<Rightarrow> Some (st\<lparr>ra_err := (0, Some e)\<rparr>)
         | ResPkt typ res_data \<Rightarrow> do {
             (reqID, data) \<leftarrow> unmarshalUint32 res_data;
             case ra_reqs st reqID of
               None \<Rightarrow> Some (st\<lparr>ra_err := (0, Some (ErrText (''sid: '' @ decimal reqID @ '' not found'')))\<rparr>)
             | Some req \<Rightarrow>
                 let st = st\<lparr>ra_reqs := (ra_reqs st)(reqID := None)\<rparr>; off = snd (snd req)
                 in if typ = sshFxpStatus then
                      (if snd (ra_err st) = None \<or> off < fst (ra_err st)
                       then do { err \<leftarrow> status_reply reqID res_data; Some (st\<lparr>ra_err := (off, err)\<rparr>) }
                       else Some st)
                    else if typ = sshFxpData then ReadAt_data mc handle req data st
                    else Some (st\<lparr>ra_err := (0, Some (UnimplementedPacketErr typ))\<rparr>) })"

fun ReadAt_loop :: "nat \<Rightarrow> nat \<Rightarrow> string \<Rightarrow> read_state \<Rightarrow> result list \<Rightarrow> read_state run" where
  "ReadAt_loop mp mc handle st rs =
     (if ra_pos st = length (ra_buf st) \<and> ra_inFlight st = 0 then Returned st
      else let st = ReadAt_fill mp handle st
           in if ra_inFlight st = 0 then Returned st
              else case rs of
                     [] \<Rightarrow> Waiting st
                   | r # rs \<Rightarrow> (case ReadAt_receive mc handle r st of None \<Rightarrow> Panicked | Some st \<Rightarrow> ReadAt_loop mp mc handle st rs))"

declare ReadAt_loop.simps [simp del]

text \<open>Any error but the end of the file makes the count zero.\<close>

definition ReadAt_result :: "read_state \<Rightarrow> nat \<times> go_error option" where
  "ReadAt_result st =
     (if snd (ra_err st) \<noteq> None \<and> snd (ra_err st) \<noteq> Some EOF then 0 else ra_read st, snd (ra_err st))"

definition File_ReadAt :: "nat \<Rightarrow> nat \<Rightarrow> u32 \<Rightarrow> File \<Rightarrow> bytes \<Rightarrow> u64 \<Rightarrow> result list \<Rightarrow> read_state run" where
  "File_ReadAt mp mc n f b off rs = ReadAt_loop mp mc (f_handle f) (ReadAt_init b off n) rs"

text \<open>\<^verbatim>\<open>Read\<close> reads at the offset of the file and moves it.\<close>

definition File_Read :: "nat \<Rightarrow> nat \<Rightarrow> u32 \<Rightarrow> File \<Rightarrow> bytes \<Rightarrow> result list \<Rightarrow> (read_state \<times> File) run" where
  "File_Read mp mc n f b rs =
     (case File_ReadAt mp mc n f b (f_offset f) rs of
        Returned st \<Rightarrow> Returned (st, f\<lparr>f_offset := f_offset f + of_nat (fst (ReadAt_result st))\<rparr>)
      | Waiting st \<Rightarrow> Waiting (st, f)
      | Panicked \<Rightarrow> Panicked)"

subsection \<open>Writing a buffer\<close>

record write_state =
  wr_rest :: bytes
  wr_offset :: u64
  wr_inFlight :: nat
  wr_desired :: nat
  wr_err :: "go_error option"
  wr_nextid :: u32
  wr_sent :: "requestPacket list"

definition Write_init :: "bytes \<Rightarrow> u64 \<Rightarrow> u32 \<Rightarrow> write_state" where
  "Write_init b off n = \<lparr>wr_rest = b, wr_offset = off, wr_inFlight = 0, wr_desired = 1, wr_err = None, wr_nextid = n, wr_sent = []\<rparr>"

definition dispatch_write :: "string \<Rightarrow> bytes \<Rightarrow> write_state \<Rightarrow> write_state" where
  "dispatch_write handle d st =
     st\<lparr>wr_nextid := wr_nextid st + 1,
        wr_sent := wr_sent st @ [sshFxpWritePacket (wr_nextid st + 1) handle (wr_offset st) (of_nat (length d)) d],
        wr_inFlight := wr_inFlight st + 1, wr_offset := wr_offset st + of_nat (length d)\<rparr>"

function Write_fill :: "nat \<Rightarrow> string \<Rightarrow> write_state \<Rightarrow> write_state" where
  "Write_fill mp handle st =
     (if wr_inFlight st < wr_desired st \<and> wr_rest st \<noteq> [] \<and> wr_err st = None
      then let l = min (length (wr_rest st)) mp;
               st' = dispatch_write handle (take l (wr_rest st)) st
           in Write_fill mp handle (st'\<lparr>wr_rest := drop l (wr_rest st)\<rparr>)
      else st)"
  by pat_completeness auto
termination
  by (relation "measure (\<lambda>(_, _, st). wr_desired st - wr_inFlight st)") (auto simp: dispatch_write_def)

declare Write_fill.simps [simp del]

text \<open>What \<^verbatim>\<open>Write\<close> and \<^verbatim>\<open>ReadFrom\<close> do with a result: the same code. A status error counts only while there is no error yet; after a
  status that does not count the pipeline is widened.\<close>

definition Write_receive :: "nat \<Rightarrow> result \<Rightarrow> 'z write_state_scheme \<Rightarrow> 'z write_state_scheme option" where
  "Write_receive mc res st =
     (let st = st\<lparr>wr_inFlight := wr_inFlight st - 1\<rparr>
      in case res of
           ResErr e \<Rightarrow> Some (st\<lparr>wr_err := Some e\<rparr>)
         | ResPkt typ data \<Rightarrow>
             if typ = sshFxpStatus then do {
               (i, _) \<leftarrow> unmarshalUint32 data;
               err \<leftarrow> status_reply i data;
               Some (if err \<noteq> None \<and> wr_err st = None then st\<lparr>wr_err := err\<rparr>
                     else if wr_desired st < mc then st\<lparr>wr_desired := wr_desired st + 1\<rparr> else st) }
             else Some (st\<lparr>wr_err := Some (UnimplementedPacketErr typ)\<rparr>))"

fun Write_loop :: "nat \<Rightarrow> nat \<Rightarrow> string \<Rightarrow> write_state \<Rightarrow> result list \<Rightarrow> write_state run" where
  "Write_loop mp mc handle st rs =
     (if wr_rest st = [] \<and> wr_inFlight st = 0 then Returned st
      else let st = Write_fill mp handle st
           in if wr_inFlight st = 0 then Returned st
              else case rs of
                     [] \<Rightarrow> Waiting st
                   | r # rs \<Rightarrow> (case Write_receive mc r st of None \<Rightarrow> Panicked | Some st \<Rightarrow> Write_loop mp mc handle st rs))"

declare Write_loop.simps [simp del]

definition File_Write :: "nat \<Rightarrow> nat \<Rightarrow> u32 \<Rightarrow> File \<Rightarrow> bytes \<Rightarrow> result list \<Rightarrow> ((nat \<times> go_error option) \<times> File \<times> write_state) run" where
  "File_Write mp mc n f b rs =
     (let result = (\<lambda>st. let written = (if wr_err st \<noteq> None then 0 else length b)
                         in ((written, wr_err st), f\<lparr>f_offset := f_offset f + of_nat written\<rparr>, st))
      in case Write_loop mp mc (f_handle f) (Write_init b (f_offset f) n) rs of
           Returned st \<Rightarrow> Returned (result st)
         | Waiting st \<Rightarrow> Waiting (result st)
         | Panicked \<Rightarrow> Panicked)"

subsection \<open>Uploading from a reader\<close>

text \<open>An \<^verbatim>\<open>io.Reader\<close> as the results its calls will give: at most a packet of bytes, and an error. A reader that has no more to say is at its end.\<close>

record from_state = write_state +
  rf_reader :: "(bytes \<times> go_error option) list"
  rf_read :: nat

fun reader_Read :: "(bytes \<times> go_error option) list \<Rightarrow> (bytes \<times> go_error option) \<times> (bytes \<times> go_error option) list" where
  "reader_Read [] = (([], Some EOF), [])"
| "reader_Read (x # xs) = (x, xs)"

text \<open>One round of the inner loop: what was read is sent, even if nothing was read.\<close>

definition ReadFrom_send :: "string \<Rightarrow> from_state \<Rightarrow> from_state" where
  "ReadFrom_send handle st =
     (case reader_Read (rf_reader st) of
        ((d, err), reader) \<Rightarrow>
          st\<lparr>wr_err := err, wr_nextid := wr_nextid st + 1,
             wr_sent := wr_sent st @ [sshFxpWritePacket (wr_nextid st + 1) handle (wr_offset st) (of_nat (length d)) d],
             wr_inFlight := wr_inFlight st + 1, wr_offset := wr_offset st + of_nat (length d),
             rf_reader := reader, rf_read := rf_read st + length d\<rparr>)"

function ReadFrom_fill :: "string \<Rightarrow> from_state \<Rightarrow> from_state" where
  "ReadFrom_fill handle st =
     (if wr_inFlight st < wr_desired st \<and> wr_err st = None then ReadFrom_fill handle (ReadFrom_send handle st) else st)"
  by pat_completeness auto
termination
  by (relation "measure (\<lambda>(_, st). wr_desired st - wr_inFlight st)") (auto simp: ReadFrom_send_def split: prod.split)

declare ReadFrom_fill.simps [simp del]

fun ReadFrom_loop :: "nat \<Rightarrow> string \<Rightarrow> from_state \<Rightarrow> result list \<Rightarrow> from_state run" where
  "ReadFrom_loop mc handle st rs =
     (if \<not> (wr_inFlight st > 0 \<or> wr_err st = None) then Returned st
      else let st = ReadFrom_fill handle st
           in if wr_inFlight st = 0 then Returned st
              else case rs of
                     [] \<Rightarrow> Waiting st
                   | r # rs \<Rightarrow> (case Write_receive mc r st of None \<Rightarrow> Panicked | Some st \<Rightarrow> ReadFrom_loop mc handle st rs))"

declare ReadFrom_loop.simps [simp del]

definition ReadFrom_init :: "(bytes \<times> go_error option) list \<Rightarrow> u64 \<Rightarrow> u32 \<Rightarrow> from_state" where
  "ReadFrom_init r off n = write_state.extend (Write_init [] off n) \<lparr>rf_reader = r, rf_read = 0\<rparr>"

text \<open>The end of \<^verbatim>\<open>ReadFrom\<close>: the end of the reader is not an error, and any other error makes the count zero.\<close>

definition ReadFrom_result :: "from_state \<Rightarrow> nat \<times> go_error option" where
  "ReadFrom_result st =
     (let err = (if wr_err st = Some EOF then None else wr_err st) in (if err \<noteq> None then 0 else rf_read st, err))"

definition File_ReadFrom :: "nat \<Rightarrow> u32 \<Rightarrow> File \<Rightarrow> (bytes \<times> go_error option) list \<Rightarrow> result list \<Rightarrow>
    ((nat \<times> go_error option) \<times> File \<times> from_state) run" where
  "File_ReadFrom mc n f r rs =
     (let result = (\<lambda>st. (ReadFrom_result st, f\<lparr>f_offset := f_offset f + of_nat (fst (ReadFrom_result st))\<rparr>, st))
      in case ReadFrom_loop mc (f_handle f) (ReadFrom_init r (f_offset f) n) rs of
           Returned st \<Rightarrow> Returned (result st)
         | Waiting st \<Rightarrow> Waiting (result st)
         | Panicked \<Rightarrow> Panicked)"

subsection \<open>Downloading to a writer\<close>

text \<open>
  \<^verbatim>\<open>WriteTo\<close> asks for the size of the file first, then reads ahead in whole packets and writes the data in order: data that came
  too early waits in \<^verbatim>\<open>pendingWrites\<close>, here an association list with distinct offsets. The \<^verbatim>\<open>io.Writer\<close> is a function on a
  state \<open>'v\<close>, giving the number of bytes written and an error.
\<close>

definition WriteTo_fileSize :: "'s conn \<Rightarrow> File \<Rightarrow> 's Client \<Rightarrow> ((go_error + u64) \<times> 's Client) option" where
  "WriteTo_fileSize cn f c =
     (if useFstat c then do {
        ((st, err), c) \<leftarrow> Client_fstat cn (f_handle f) c;
        case err of
          Some e \<Rightarrow> Some (Inl e, c)
        | None \<Rightarrow> (case st of None \<Rightarrow> None | Some st \<Rightarrow> Some (Inr (fs_Size st), c)) }
      else do {
        ((fi, err), c) \<leftarrow> Client_Stat cn (f_path f) c;
        case err of
          Some e \<Rightarrow> Some (Inl e, c)
        | None \<Rightarrow> (case fi of None \<Rightarrow> None | Some fi \<Rightarrow> Some (Inr (fi_size fi), c)) })"

type_synonym 'v writer = "bytes \<Rightarrow> 'v \<Rightarrow> (nat \<times> go_error option) \<times> 'v"

record 'v to_state =
  wt_offset :: u64
  wt_writeOffset :: u64
  wt_inFlight :: nat
  wt_desired :: nat
  wt_reqs :: "u32 \<rightharpoonup> u64"
  wt_pending :: "(u64 \<times> bytes) list"
  wt_err :: "u64 \<times> go_error option"
  wt_copied :: nat
  wt_w :: 'v
  wt_nextid :: u32
  wt_sent :: "requestPacket list"

definition WriteTo_init :: "u64 \<Rightarrow> 'v \<Rightarrow> u32 \<Rightarrow> 'v to_state" where
  "WriteTo_init off w n =
     \<lparr>wt_offset = off, wt_writeOffset = off, wt_inFlight = 0, wt_desired = 1, wt_reqs = Map.empty, wt_pending = [], wt_err = (0, None),
      wt_copied = 0, wt_w = w, wt_nextid = n, wt_sent = []\<rparr>"

function WriteTo_fill :: "nat \<Rightarrow> u64 \<Rightarrow> string \<Rightarrow> 'v to_state \<Rightarrow> 'v to_state" where
  "WriteTo_fill mp fileSize handle st =
     (if wt_inFlight st + length (wt_pending st) < wt_desired st
      then let reqID = wt_nextid st + 1;
               st = st\<lparr>wt_nextid := reqID, wt_sent := wt_sent st @ [sshFxpReadPacket reqID handle (wt_offset st) (of_nat mp)],
                       wt_inFlight := wt_inFlight st + 1, wt_reqs := (wt_reqs st)(reqID \<mapsto> wt_offset st),
                       wt_offset := wt_offset st + of_nat mp\<rparr>
           in WriteTo_fill mp fileSize handle (if wt_offset st > fileSize then st\<lparr>wt_desired := 1\<rparr> else st)
      else st)"
  by pat_completeness auto
termination
  by (relation "measure (\<lambda>(_, _, _, st). wt_desired st - (wt_inFlight st + length (wt_pending st)))") (auto simp: Let_def)

declare WriteTo_fill.simps [simp del]

text \<open>The data that waited for its turn is written as far as it is consecutive. The count of copied bytes is not increased here.\<close>

function flush_pending :: "'v writer \<Rightarrow> 'v to_state \<Rightarrow> 'v to_state" where
  "flush_pending wr st =
     (case map_of (wt_pending st) (wt_writeOffset st) of
        None \<Rightarrow> st
      | Some d \<Rightarrow>
          (case wr d (wt_w st) of
             ((nbytes, err), w) \<Rightarrow>
               (let st = st\<lparr>wt_pending := filter (\<lambda>(k, _). k \<noteq> wt_writeOffset st) (wt_pending st), wt_w := w\<rparr>
                in case err of
                     Some e \<Rightarrow> st\<lparr>wt_err := (wt_writeOffset st + of_nat nbytes, Some e)\<rparr>
                   | None \<Rightarrow>
                       if nbytes < length d then st\<lparr>wt_err := (wt_writeOffset st + of_nat nbytes, Some (ErrText ''short write''))\<rparr>
                       else flush_pending wr (st\<lparr>wt_writeOffset := wt_writeOffset st + of_nat nbytes\<rparr>))))"
  by pat_completeness auto
termination
proof (relation "measure (\<lambda>(_, st). length (wt_pending st))", goal_cases)
  case (2 wr st d x w nbytes err st')
  then have "(wt_writeOffset st, d) \<in> set (wt_pending st)" by (auto dest: map_of_SomeD)
  then have "length (filter (\<lambda>(k, _). k \<noteq> wt_writeOffset st) (wt_pending st)) < length (wt_pending st)"
    by (intro length_filter_less) auto
  with 2 show ?case by simp
qed simp

declare flush_pending.simps [simp del]

definition WriteTo_data :: "nat \<Rightarrow> u64 \<Rightarrow> 'v writer \<Rightarrow> u64 \<Rightarrow> bytes \<Rightarrow> 'v to_state \<Rightarrow> 'v to_state option" where
  "WriteTo_data mc fileSize wr off data st = do {
     (l, data) \<leftarrow> unmarshalUint32 data;
     Some
       (if off = wt_writeOffset st
        then (case wr data (wt_w st) of
                ((nbytes, err), w) \<Rightarrow>
                  (let st = st\<lparr>wt_copied := wt_copied st + nbytes, wt_w := w\<rparr>
                   in case err of
                        Some e \<Rightarrow> st\<lparr>wt_err := (off + of_nat nbytes, Some e)\<rparr>
                      | None \<Rightarrow>
                          if nbytes < unat l then st\<lparr>wt_err := (off + of_nat nbytes, Some (ErrText ''short write''))\<rparr>
                          else
                            let st = (if wt_offset st > fileSize then st\<lparr>wt_desired := 1\<rparr>
                                      else if wt_desired st < mc then st\<lparr>wt_desired := wt_desired st + 1\<rparr> else st)
                            in flush_pending wr (st\<lparr>wt_writeOffset := wt_writeOffset st + of_nat nbytes\<rparr>)))
        else st\<lparr>wt_pending := (off, data) # filter (\<lambda>(k, _). k \<noteq> off) (wt_pending st)\<rparr>) }"

definition WriteTo_receive :: "nat \<Rightarrow> u64 \<Rightarrow> 'v writer \<Rightarrow> result \<Rightarrow> 'v to_state \<Rightarrow> 'v to_state option" where
  "WriteTo_receive mc fileSize wr res st =
     (let st = st\<lparr>wt_inFlight := wt_inFlight st - 1\<rparr>
      in case res of
           ResErr e \<Rightarrow> Some (st\<lparr>wt_err := (0, Some e)\<rparr>)
         | ResPkt typ res_data \<Rightarrow> do {
             (reqID, data) \<leftarrow> unmarshalUint32 res_data;
             case wt_reqs st reqID of
               None \<Rightarrow> Some (st\<lparr>wt_err := (0, Some (ErrText (''sid: '' @ decimal reqID @ '' not found'')))\<rparr>)
             | Some off \<Rightarrow>
                 let st = st\<lparr>wt_reqs := (wt_reqs st)(reqID := None)\<rparr>
                 in if typ = sshFxpStatus then
                      (if snd (wt_err st) = None \<or> off < fst (wt_err st)
                       then do { err \<leftarrow> status_reply reqID res_data; Some (st\<lparr>wt_err := (off, err)\<rparr>) }
                       else Some st)
                    else if typ = sshFxpData then WriteTo_data mc fileSize wr off data st
                    else Some (st\<lparr>wt_err := (0, Some (UnimplementedPacketErr typ))\<rparr>) })"

text \<open>The loop; a state and the error of the early return, if it is taken.\<close>

fun WriteTo_loop :: "nat \<Rightarrow> nat \<Rightarrow> u64 \<Rightarrow> string \<Rightarrow> 'v writer \<Rightarrow> 'v to_state \<Rightarrow> result list \<Rightarrow> ('v to_state \<times> go_error option) run" where
  "WriteTo_loop mp mc fileSize handle wr st rs =
     (if snd (wt_err st) \<noteq> None \<and> wt_inFlight st = 0 then Returned (st, None)
      else let st = (if snd (wt_err st) = None then WriteTo_fill mp fileSize handle st else st)
           in if wt_inFlight st = 0
              then Returned (st, if snd (wt_err st) = None \<and> wt_pending st \<noteq> [] then Some (ErrText ''internal inconsistency'') else None)
              else case rs of
                     [] \<Rightarrow> Waiting (st, None)
                   | r # rs \<Rightarrow>
                       (case WriteTo_receive mc fileSize wr r st of
                          None \<Rightarrow> Panicked
                        | Some st \<Rightarrow> WriteTo_loop mp mc fileSize handle wr st rs))"

declare WriteTo_loop.simps [simp del]

definition WriteTo_result :: "'v to_state \<times> go_error option \<Rightarrow> nat \<times> go_error option" where
  "WriteTo_result r =
     (case r of (st, early) \<Rightarrow>
        (case early of
           Some e \<Rightarrow> (wt_copied st, Some e)
         | None \<Rightarrow> (wt_copied st, if snd (wt_err st) = Some EOF then None else snd (wt_err st))))"

definition File_WriteTo :: "nat \<Rightarrow> nat \<Rightarrow> u64 \<Rightarrow> u32 \<Rightarrow> File \<Rightarrow> 'v writer \<Rightarrow> 'v \<Rightarrow> result list \<Rightarrow> ('v to_state \<times> go_error option) run" where
  "File_WriteTo mp mc fileSize n f wr w rs = WriteTo_loop mp mc fileSize (f_handle f) wr (WriteTo_init (f_offset f) w n) rs"

end
