(* ===== verification/Client_Read.thy ===== *)
theory Client_Read
  imports Client_File "HOL-Library.Sublist"
begin

text \<open>
  \<^verbatim>\<open>ReadAt\<close> of client.go is correct in whatever order the answers arrive. The requests in flight cover disjoint slices of the buffer
  (\<open>reqs_ok\<close>); what they do not cover is filled with the file's bytes or lies behind its end (\<open>read_inv\<close>). Every answer
  takes at least one position out of flight, so the loop ends.
\<close>

subsection \<open>The requests in flight\<close>

type_synonym slices = "u32 \<rightharpoonup> nat \<times> nat \<times> u64"

definition cov :: "slices \<Rightarrow> nat set" where
  "cov reqs = {x. \<exists>i f l u. reqs i = Some (f, l, u) \<and> f \<le> x \<and> x < f + l}"

definition reqs_ok :: "nat \<Rightarrow> nat \<Rightarrow> u32 \<Rightarrow> nat \<Rightarrow> slices \<Rightarrow> bool" where
  "reqs_ok off0 P n0 k reqs \<longleftrightarrow>
     finite (dom reqs) \<and>
     (\<forall>i f l u. reqs i = Some (f, l, u) \<longrightarrow> 0 < l \<and> f + l \<le> P \<and> unat u = off0 + f) \<and>
     (\<forall>i j f l u f' l' u'. i \<noteq> j \<longrightarrow> reqs i = Some (f, l, u) \<longrightarrow> reqs j = Some (f', l', u') \<longrightarrow> f + l \<le> f' \<or> f' + l' \<le> f) \<and>
     (\<forall>i \<in> dom reqs. \<exists>j \<le> k. i = n0 + of_nat j)"

lemma covI: "reqs i = Some (f, l, u) \<Longrightarrow> f \<le> x \<Longrightarrow> x < f + l \<Longrightarrow> x \<in> cov reqs"
  by (auto simp: cov_def)

lemma covE: "x \<in> cov reqs \<Longrightarrow> (\<And>i f l u. reqs i = Some (f, l, u) \<Longrightarrow> f \<le> x \<Longrightarrow> x < f + l \<Longrightarrow> P) \<Longrightarrow> P"
  by (auto simp: cov_def)

lemma reqs_okD:
  assumes "reqs_ok off0 P n0 k reqs" "reqs i = Some (f, l, u)"
  shows "0 < l" "f + l \<le> P" "unat u = off0 + f"
  using assms unfolding reqs_ok_def by blast+

lemma reqs_ok_apart:
  assumes "reqs_ok off0 P n0 k reqs" "i \<noteq> j" "reqs i = Some (f, l, u)" "reqs j = Some (f', l', u')"
  shows "f + l \<le> f' \<or> f' + l' \<le> f"
  using assms unfolding reqs_ok_def by blast

lemma cov_bound: "reqs_ok off0 P n0 k reqs \<Longrightarrow> x \<in> cov reqs \<Longrightarrow> x < P"
  by (auto simp: cov_def dest!: reqs_okD(2))

lemma cov_finite: "reqs_ok off0 P n0 k reqs \<Longrightarrow> finite (cov reqs)"
  by (rule finite_subset [of _ "{..<P}"]) (auto dest: cov_bound)

lemma reqs_ok_add:
  assumes ok: "reqs_ok off0 P n0 k reqs" and l: "0 < l" "f + l \<le> P'" "P \<le> P'" "unat u = off0 + f"
    and new: "{f..<f + l} \<inter> cov reqs = {}" and k: "Suc k < 2 ^ 32"
  defines "i \<equiv> n0 + of_nat (Suc k)"
  shows "reqs i = None" "reqs_ok off0 P' n0 (Suc k) (reqs(i \<mapsto> (f, l, u)))"
    "cov (reqs(i \<mapsto> (f, l, u))) = cov reqs \<union> {f..<f + l}"
proof -
  have fresh: "n0 + of_nat j \<noteq> i" if "j \<le> k" for j
  proof
    assume "n0 + of_nat j = i"
    then have "(of_nat j :: u32) = of_nat (Suc k)" by (simp add: i_def)
    then have "unat (of_nat j :: u32) = unat (of_nat (Suc k) :: u32)" by simp
    moreover have "unat (of_nat m :: u32) = m" if "m \<le> Suc k" for m
      using that k by (simp add: unat_of_nat take_bit_nat_eq_self)
    ultimately have "j = Suc k" using that by (metis le_SucI order_refl)
    with that show False by simp
  qed
  then show none: "reqs i = None" using ok unfolding reqs_ok_def by (metis domIff option.exhaust_sel)
  then show "cov (reqs(i \<mapsto> (f, l, u))) = cov reqs \<union> {f..<f + l}"
    by (auto simp: cov_def split: if_splits) (metis option.distinct(1))
  have apart: "f + l \<le> f' \<or> f' + l' \<le> f" if "reqs j = Some (f', l', u')" for j f' l' u'
  proof (rule ccontr)
    assume "\<not> (f + l \<le> f' \<or> f' + l' \<le> f)"
    then have "max f f' \<in> {f..<f + l} \<inter> cov reqs" using that l(1) reqs_okD(1) [OF ok that] by (auto intro: covI)
    with new show False by blast
  qed
  show "reqs_ok off0 P' n0 (Suc k) (reqs(i \<mapsto> (f, l, u)))"
    unfolding reqs_ok_def
  proof (intro conjI allI impI ballI)
    show "finite (dom (reqs(i \<mapsto> (f, l, u))))" using ok by (simp add: reqs_ok_def)
  next
    fix i' f' l' u' assume "(reqs(i \<mapsto> (f, l, u))) i' = Some (f', l', u')"
    then show "0 < l'" "f' + l' \<le> P'" "unat u' = off0 + f'" using l reqs_okD [OF ok, of i' f' l' u'] by (auto split: if_splits)
  next
    fix a b f' l' u' f'' l'' u''
    assume "a \<noteq> b" "(reqs(i \<mapsto> (f, l, u))) a = Some (f', l', u')" "(reqs(i \<mapsto> (f, l, u))) b = Some (f'', l'', u'')"
    then show "f' + l' \<le> f'' \<or> f'' + l'' \<le> f'"
      using apart reqs_ok_apart [OF ok] by (auto split: if_splits)
  next
    fix j assume "j \<in> dom (reqs(i \<mapsto> (f, l, u)))"
    then consider "j = i" | "j \<in> dom reqs" by auto
    then show "\<exists>m\<le>Suc k. j = n0 + of_nat m"
    proof cases
      case 1
      then show ?thesis unfolding i_def by blast
    next
      case 2
      with ok show ?thesis unfolding reqs_ok_def by (metis le_SucI)
    qed
  qed
qed

lemma reqs_ok_del:
  assumes ok: "reqs_ok off0 P n0 k reqs" and i: "reqs i = Some (f, l, u)"
  shows "reqs_ok off0 P n0 k (reqs(i := None))" "cov (reqs(i := None)) = cov reqs - {f..<f + l}" "{f..<f + l} \<subseteq> cov reqs"
    "card (dom (reqs(i := None))) = card (dom reqs) - 1" "0 < card (dom reqs)"
proof -
  show "reqs_ok off0 P n0 k (reqs(i := None))"
    using ok unfolding reqs_ok_def by (auto split: if_splits)
  show "{f..<f + l} \<subseteq> cov reqs" using i by (auto intro: covI)
  show "cov (reqs(i := None)) = cov reqs - {f..<f + l}"
  proof (intro set_eqI iffI)
    fix x assume "x \<in> cov (reqs(i := None))"
    then obtain j f' l' u' where j: "j \<noteq> i" "reqs j = Some (f', l', u')" "f' \<le> x" "x < f' + l'" by (auto simp: cov_def split: if_splits)
    from reqs_ok_apart [OF ok j(1,2) i] j show "x \<in> cov reqs - {f..<f + l}" by (auto simp: cov_def)
  next
    fix x assume "x \<in> cov reqs - {f..<f + l}"
    then have x: "x \<in> cov reqs" "x \<notin> {f..<f + l}" by auto
    from x(1) obtain j f' l' u' where j: "reqs j = Some (f', l', u')" "f' \<le> x" "x < f' + l'" by (rule covE)
    with x(2) i have "j \<noteq> i" by auto
    with j show "x \<in> cov (reqs(i := None))" by (intro covI [of _ j f' l' u']) auto
  qed
  have fin: "finite (dom reqs)" using ok by (simp add: reqs_ok_def)
  show "card (dom (reqs(i := None))) = card (dom reqs) - 1" using fin i by (simp add: card_Diff_singleton domI)
  show "0 < card (dom reqs)" using fin i by (auto simp: card_gt_0_iff)
qed

text \<open>The first \<open>n\<close> bytes of a slice are answered and the rest is asked for again.\<close>

lemma reqs_shrink:
  assumes ok: "reqs_ok off0 P n0 k reqs" and i: "reqs i = Some (f, l, u)" and n: "n < l" and bounds: "off0 + P < 2 ^ 64" "Suc k < 2 ^ 32"
  defines "R \<equiv> reqs(i := None, n0 + of_nat (Suc k) \<mapsto> (f + n, l - n, u + of_nat n))"
  shows "reqs_ok off0 P n0 (Suc k) R" "cov R = cov reqs - {f..<f + n}" "card (dom R) = card (dom reqs)"
proof -
  note del = reqs_ok_del [OF ok i]
  from reqs_okD [OF ok i] have sl: "0 < l" "f + l \<le> P" "unat u = off0 + f" by auto
  have new: "{f + n..<f + n + (l - n)} \<inter> cov (reqs(i := None)) = {}" using del(2) n by auto
  have "unat (of_nat n :: u64) = n" using n sl bounds(1) by (simp add: unat_of_nat take_bit_nat_eq_self)
  then have off: "unat (u + of_nat n) = off0 + (f + n)"
    using sl n bounds(1) by (subst unat_plus_simple [THEN iffD1]) (auto simp: word_le_nat_alt unat_word_ariths)
  have a: "0 < l - n" "f + n + (l - n) \<le> P" using n sl by auto
  note add = reqs_ok_add [OF del(1) a order_refl off new bounds(2)]
  show "reqs_ok off0 P n0 (Suc k) R" using add(2) by (simp add: R_def)
  have "cov R = (cov reqs - {f..<f + l}) \<union> {f + n..<f + n + (l - n)}" using add(3) del(2) by (simp add: R_def)
  also have "\<dots> = cov reqs - {f..<f + n}" using del(3) n by auto
  finally show "cov R = cov reqs - {f..<f + n}" .
  have "finite (dom (reqs(i := None)))" using ok by (simp add: reqs_ok_def)
  moreover have "n0 + of_nat (Suc k) \<notin> dom (reqs(i := None))" using add(1) by (simp only: domIff not_not)
  ultimately have "card (insert (n0 + of_nat (Suc k)) (dom (reqs(i := None)))) = Suc (card (dom (reqs(i := None))))"
    by (rule card_insert_disjoint)
  then show "card (dom R) = card (dom reqs)" using del(4,5) unfolding R_def dom_fun_upd by simp
qed

subsection \<open>The buffer\<close>

text \<open>What the file at offset \<open>off0\<close> gives for the positions of the buffer that no request in flight covers.\<close>

definition filled :: "bytes \<Rightarrow> nat \<Rightarrow> bool \<Rightarrow> bytes \<Rightarrow> nat set \<Rightarrow> bool" where
  "filled F off0 eof buf X \<longleftrightarrow>
     (\<forall>x \<in> X. if off0 + x < length F then buf ! x = F ! (off0 + x) else eof)"

definition in_file :: "bytes \<Rightarrow> nat \<Rightarrow> nat set \<Rightarrow> nat set" where
  "in_file F off0 X = {x \<in> X. off0 + x < length F}"

definition read_inv :: "bytes \<Rightarrow> nat \<Rightarrow> nat \<Rightarrow> u32 \<Rightarrow> read_state \<Rightarrow> bool" where
  "read_inv F off0 L n0 st \<longleftrightarrow>
     length (ra_buf st) = L \<and> ra_pos st \<le> L \<and> unat (ra_offset st) = off0 + ra_pos st \<and> 1 \<le> ra_desired st \<and>
     ra_inFlight st = card (dom (ra_reqs st)) \<and>
     (snd (ra_err st) = None \<or> snd (ra_err st) = Some EOF \<and> length F < off0 + ra_pos st) \<and>
     filled F off0 (snd (ra_err st) = Some EOF) (ra_buf st) ({..<ra_pos st} - cov (ra_reqs st)) \<and>
     ra_read st = card (in_file F off0 ({..<ra_pos st} - cov (ra_reqs st))) \<and>
     (\<exists>k \<le> ra_pos st + ra_read st. ra_nextid st = n0 + of_nat k \<and> reqs_ok off0 (ra_pos st) n0 k (ra_reqs st))"

definition left :: "nat \<Rightarrow> read_state \<Rightarrow> nat" where
  "left L st = (L - ra_pos st) + card (cov (ra_reqs st))"

lemma sendReq_simps [simp]:
  "ra_buf (ReadAt_sendReq h f l u st) = ra_buf st" "ra_pos (ReadAt_sendReq h f l u st) = ra_pos st"
  "ra_offset (ReadAt_sendReq h f l u st) = ra_offset st" "ra_desired (ReadAt_sendReq h f l u st) = ra_desired st"
  "ra_err (ReadAt_sendReq h f l u st) = ra_err st" "ra_read (ReadAt_sendReq h f l u st) = ra_read st"
  "ra_inFlight (ReadAt_sendReq h f l u st) = ra_inFlight st + 1" "ra_nextid (ReadAt_sendReq h f l u st) = ra_nextid st + 1"
  "ra_reqs (ReadAt_sendReq h f l u st) = (ra_reqs st)(ra_nextid st + 1 \<mapsto> (f, l, u))"
  by (simp_all add: ReadAt_sendReq_def Let_def)

lemma in_file_card_le: "card (in_file F off0 ({..<p} - C)) \<le> p"
proof -
  have "card (in_file F off0 ({..<p} - C)) \<le> card {..<p}" by (rule card_mono) (auto simp: in_file_def)
  then show ?thesis by simp
qed

lemma read_inv_read_le: "read_inv F off0 L n0 st \<Longrightarrow> ra_read st \<le> ra_pos st"
  by (auto simp: read_inv_def in_file_card_le)

text \<open>Sending the next piece.\<close>

lemma fill_step_inv:
  fixes h :: string
  assumes inv: "read_inv F off0 L n0 st" and bounds: "off0 + L < 2 ^ 64" "2 * L < 2 ^ 32"
    and l: "0 < l" "ra_pos st + l \<le> L"
  defines "st' \<equiv> (ReadAt_sendReq h (ra_pos st) l (ra_offset st) st)\<lparr>ra_offset := ra_offset st + of_nat l, ra_pos := ra_pos st + l\<rparr>"
  shows "read_inv F off0 L n0 st'" "left L st' = left L st"
proof -
  from inv obtain k where k: "k \<le> ra_pos st + ra_read st" "ra_nextid st = n0 + of_nat k" "reqs_ok off0 (ra_pos st) n0 k (ra_reqs st)"
    unfolding read_inv_def by blast
  have cv: "cov (ra_reqs st) \<subseteq> {..<ra_pos st}" using cov_bound [OF k(3)] by auto
  then have new: "{ra_pos st..<ra_pos st + l} \<inter> cov (ra_reqs st) = {}" by auto
  have "Suc k < 2 ^ 32" using k(1) read_inv_read_le [OF inv] l bounds(2) by simp
  note add = reqs_ok_add [OF k(3) l(1) order_refl _ _ new this, of "ra_offset st"]
  have off: "unat (ra_offset st) = off0 + ra_pos st" using inv by (simp add: read_inv_def)
  from add off have a: "ra_reqs st (n0 + of_nat (Suc k)) = None"
    "reqs_ok off0 (ra_pos st + l) n0 (Suc k) ((ra_reqs st)(n0 + of_nat (Suc k) \<mapsto> (ra_pos st, l, ra_offset st)))"
    "cov ((ra_reqs st)(n0 + of_nat (Suc k) \<mapsto> (ra_pos st, l, ra_offset st))) = cov (ra_reqs st) \<union> {ra_pos st..<ra_pos st + l}"
    by auto
  have i: "ra_nextid st + 1 = n0 + of_nat (Suc k)" by (simp add: k(2))
  have fin: "finite (dom (ra_reqs st))" using k(3) by (simp add: reqs_ok_def)
  have same: "{..<ra_pos st + l} - (cov (ra_reqs st) \<union> {ra_pos st..<ra_pos st + l}) = {..<ra_pos st} - cov (ra_reqs st)" by auto
  have o: "unat (ra_offset st + of_nat l) = off0 + (ra_pos st + l)"
  proof -
    have "unat (of_nat l :: u64) = l" using l bounds(1) by (simp add: unat_of_nat take_bit_nat_eq_self)
    then show ?thesis using off l bounds(1) by (subst unat_plus_simple [THEN iffD1]) (auto simp: word_le_nat_alt unat_word_ariths)
  qed
  show "read_inv F off0 L n0 st'"
    using inv a l k(1) fin o unfolding read_inv_def st'_def
    by (auto simp: i same card_insert_if domIff intro!: exI [of _ "Suc k"])
  have "card (cov (ra_reqs st) \<union> {ra_pos st..<ra_pos st + l}) = card (cov (ra_reqs st)) + l"
    using cov_finite [OF k(3)] new by (subst card_Un_disjoint) auto
  with a l show "left L st' = left L st" unfolding left_def st'_def by (simp add: i)
qed

lemma fill_inv:
  assumes "read_inv F off0 L n0 st" "off0 + L < 2 ^ 64" "2 * L < 2 ^ 32" "0 < mp"
  shows "read_inv F off0 L n0 (ReadAt_fill mp h st) \<and> left L (ReadAt_fill mp h st) = left L st \<and>
    (ra_inFlight (ReadAt_fill mp h st) = 0 \<longrightarrow> ra_pos (ReadAt_fill mp h st) = L \<or> snd (ra_err (ReadAt_fill mp h st)) \<noteq> None)"
  using assms
proof (induction mp h st rule: ReadAt_fill.induct)
  case (1 mp h st)
  show ?case
  proof (cases "ra_inFlight st < ra_desired st \<and> ra_pos st < length (ra_buf st) \<and> snd (ra_err st) = None")
    case True
    let ?l = "min (length (ra_buf st) - ra_pos st) mp"
    let ?st = "(ReadAt_sendReq h (ra_pos st) ?l (ra_offset st) st)\<lparr>ra_offset := ra_offset st + of_nat ?l, ra_pos := ra_pos st + ?l\<rparr>"
    have L: "length (ra_buf st) = L" using "1.prems"(1) by (simp add: read_inv_def)
    have l: "0 < ?l" "ra_pos st + ?l \<le> L" using True "1.prems"(4) L by auto
    note step = fill_step_inv [OF "1.prems"(1-3) l, of h]
    have "ReadAt_fill mp h st = ReadAt_fill mp h ?st" using True by (subst ReadAt_fill.simps) (simp add: Let_def)
    moreover note "1.IH" [OF True refl refl]
    ultimately show ?thesis using step "1.prems"(2-4) by simp
  next
    case False
    then have f: "ReadAt_fill mp h st = st" by (subst ReadAt_fill.simps) auto
    from "1.prems"(1) have "ra_pos st \<le> L" "length (ra_buf st) = L" "1 \<le> ra_desired st" by (auto simp: read_inv_def)
    with False "1.prems"(1) show ?thesis unfolding f by auto
  qed
qed

subsection \<open>Answers of the server\<close>

text \<open>
  An answer of a server whose file holds \<open>F\<close> to one of the requests in flight: some of the bytes asked for, but at least one, or the end of the
  file if the request starts there or later.
\<close>

definition answer_to :: "bytes \<Rightarrow> read_state \<Rightarrow> result \<Rightarrow> bool" where
  "answer_to F st r \<longleftrightarrow> (\<exists>i f l u. ra_reqs st i = Some (f, l, u) \<and>
     ((\<exists>d. d \<noteq> [] \<and> length d \<le> l \<and> prefix d (drop (unat u) F) \<and>
         r = ResPkt sshFxpData (marshalUint32 [] i @ marshalUint32 [] (of_nat (length d)) @ d)) \<or>
      (length F \<le> unat u \<and> (\<exists>msg lang. wire_string msg \<and> wire_string lang \<and>
         r = ResPkt sshFxpStatus (marshalUint32 [] i @ marshalUint32 [] sshFxEOF @ marshalString [] msg @ marshalString [] lang)))))"

lemma status_reply_eof:
  "wire_string msg \<Longrightarrow> wire_string lang \<Longrightarrow>
   status_reply i (marshalUint32 [] i @ marshalUint32 [] sshFxEOF @ marshalString [] msg @ marshalString [] lang) = Some (Some EOF)"
  by (simp add: status_reply_def unmarshalStatus_def or_zero_def codec_simps)

lemma filled_cut:
  assumes "filled F off0 e buf X" "prefix d (drop (off0 + f) F)" "f + length d \<le> length buf" "\<forall>x \<in> X. x < length buf"
    and "X \<inter> {f..<f + length d} = {}"
  shows "filled F off0 e (cut buf f d) (X \<union> {f..<f + length d})" "length (cut buf f d) = length buf"
proof -
  show "length (cut buf f d) = length buf" using assms(3) by (simp add: cut_def)
  from assms(2) obtain t where t: "drop (off0 + f) F = d @ t" by (auto simp: prefix_def)
  have at: "off0 + x < length F \<and> F ! (off0 + x) = d ! (x - f)" if "f \<le> x" "x < f + length d" for x
  proof -
    have "length (drop (off0 + f) F) = length d + length t" by (simp add: t)
    with that have len: "off0 + x < length F" by simp
    have "drop (off0 + f) F ! (x - f) = F ! (off0 + x)" using that len by (subst nth_drop) auto
    moreover have "x - f < length d" using that by simp
    ultimately show ?thesis using len t by (simp add: nth_append)
  qed
  show "filled F off0 e (cut buf f d) (X \<union> {f..<f + length d})"
    unfolding filled_def
  proof
    fix x assume "x \<in> X \<union> {f..<f + length d}"
    then consider "x \<in> X" "x \<notin> {f..<f + length d}" | "f \<le> x" "x < f + length d" using assms(5) by auto
    then show "if off0 + x < length F then cut buf f d ! x = F ! (off0 + x) else e"
    proof cases
      case 1
      then have "cut buf f d ! x = buf ! x" using assms(3,4) by (auto simp: cut_def nth_append)
      with 1 assms(1) show ?thesis by (simp add: filled_def)
    next
      case 2
      with assms(3) have "cut buf f d ! x = d ! (x - f)" by (auto simp: cut_def nth_append)
      with at 2 show ?thesis by simp
    qed
  qed
qed

lemma in_file_add:
  assumes "finite X" "X \<inter> Y = {}" "finite Y" "\<forall>y \<in> Y. off0 + y < length F"
  shows "card (in_file F off0 (X \<union> Y)) = card (in_file F off0 X) + card Y"
proof -
  have "in_file F off0 (X \<union> Y) = in_file F off0 X \<union> Y" using assms(4) by (auto simp: in_file_def)
  moreover have "in_file F off0 X \<inter> Y = {}" "finite (in_file F off0 X)" using assms(1,2) by (auto simp: in_file_def)
  ultimately show ?thesis using assms(3) by (simp add: card_Un_disjoint)
qed

lemma card_minus_less: "finite C \<Longrightarrow> x \<in> C \<Longrightarrow> x \<in> Y \<Longrightarrow> card (C - Y) < card C"
  by (intro psubset_card_mono) blast+

text \<open>The positions that become free when the first \<open>n\<close> bytes of a slice are answered.\<close>

lemma uncovered:
  assumes "C \<subseteq> {..<p}" "{f..<f + n} \<subseteq> C"
  shows "{..<p} - (C - {f..<f + n}) = ({..<p} - C) \<union> {f..<f + n}" "({..<p} - C) \<inter> {f..<f + n} = {}"
  using assms by auto

text \<open>What a data answer does to the state, before the pipeline is widened.\<close>

definition after_data :: "string \<Rightarrow> u32 \<Rightarrow> nat \<Rightarrow> nat \<Rightarrow> u64 \<Rightarrow> bytes \<Rightarrow> read_state \<Rightarrow> read_state" where
  "after_data h i f l u d st =
     (let st = st\<lparr>ra_inFlight := ra_inFlight st - 1, ra_reqs := (ra_reqs st)(i := None), ra_buf := cut (ra_buf st) f d,
                   ra_read := ra_read st + length d\<rparr>
      in if length d < l then ReadAt_sendReq h (f + length d) (l - length d) (u + of_nat (length d)) st else st)"

lemma receive_data_eq:
  assumes "ra_reqs st i = Some (f, l, u)" "length d \<le> l" "l < 2 ^ 32"
  shows "ReadAt_receive mc h (ResPkt sshFxpData (marshalUint32 [] i @ marshalUint32 [] (of_nat (length d)) @ d)) st =
    Some (let st = after_data h i f l u d st in if ra_desired st < mc then st\<lparr>ra_desired := ra_desired st + 1\<rparr> else st)"
proof -
  have n: "unat (of_nat (length d) :: u32) = length d" using assms(2,3) by (simp add: unat_of_nat take_bit_nat_eq_self)
  have "ucast (of_nat (length d) :: u32) = (of_nat (length d) :: u64)"
    using n unsigned_less [of "of_nat (length d) :: u32"]
    by (intro word_unat_eq_iff [THEN iffD2]) (simp add: unsigned_ucast_eq unat_of_nat take_bit_nat_eq_self)
  with assms n show ?thesis
    by (simp add: ReadAt_receive_def ReadAt_data_def Let_def after_data_def min_absorb2)
qed

text \<open>The requests in flight after it.\<close>

lemma after_data_reqs:
  fixes h :: string
  assumes ok: "reqs_ok off0 P n0 k (ra_reqs st)" and n: "ra_nextid st = n0 + of_nat k" "ra_inFlight st = card (dom (ra_reqs st))"
    and i: "ra_reqs st i = Some (f, l, u)" and d: "d \<noteq> []" "length d \<le> l" and bounds: "off0 + P < 2 ^ 64" "Suc k < 2 ^ 32"
  defines "st' \<equiv> after_data h i f l u d st"
  shows "\<exists>k' \<le> Suc k. ra_nextid st' = n0 + of_nat k' \<and> reqs_ok off0 P n0 k' (ra_reqs st') \<and>
    cov (ra_reqs st') = cov (ra_reqs st) - {f..<f + length d} \<and> ra_inFlight st' = card (dom (ra_reqs st'))"
proof (cases "length d < l")
  case True
  have e: "ra_nextid st + 1 = n0 + of_nat (Suc k)" by (simp add: n(1))
  have r: "ra_reqs st' = (ra_reqs st)(i := None, n0 + of_nat (Suc k) \<mapsto> (f + length d, l - length d, u + of_nat (length d)))"
    using True by (simp add: st'_def after_data_def Let_def e)
  note sh = reqs_shrink [OF ok i True bounds, folded r]
  have "ra_nextid st' = n0 + of_nat (Suc k)" "ra_inFlight st' = card (dom (ra_reqs st))"
    using True n(2) reqs_ok_del(5) [OF ok i] by (simp_all add: st'_def after_data_def Let_def e)
  with sh show ?thesis by (intro exI [of _ "Suc k"]) simp
next
  case False
  with d(2) have l: "l = length d" by simp
  note del = reqs_ok_del [OF ok i]
  from False del n show ?thesis by (intro exI [of _ k]) (simp add: st'_def after_data_def Let_def l)
qed

lemma after_data_inv:
  fixes h :: string
  assumes inv: "read_inv F off0 L n0 st" and bounds: "off0 + L < 2 ^ 64" "2 * L < 2 ^ 32"
    and i: "ra_reqs st i = Some (f, l, u)" and d: "d \<noteq> []" "length d \<le> l" "prefix d (drop (unat u) F)"
  defines "st' \<equiv> after_data h i f l u d st"
  shows "read_inv F off0 L n0 st'" "left L st' < left L st"
proof -
  from inv obtain k where k: "k \<le> ra_pos st + ra_read st" "ra_nextid st = n0 + of_nat k" "reqs_ok off0 (ra_pos st) n0 k (ra_reqs st)"
    unfolding read_inv_def by blast
  let ?n = "length d" and ?C = "cov (ra_reqs st)" and ?X = "{..<ra_pos st} - cov (ra_reqs st)"
  from reqs_okD [OF k(3) i] have sl: "0 < l" "f + l \<le> ra_pos st" "unat u = off0 + f" by auto
  have st: "ra_pos st \<le> L" "length (ra_buf st) = L" "ra_inFlight st = card (dom (ra_reqs st))"
    "filled F off0 (snd (ra_err st) = Some EOF) (ra_buf st) ?X" "ra_read st = card (in_file F off0 ?X)"
    using inv by (auto simp: read_inv_def)
  have Cb: "?C \<subseteq> {..<ra_pos st}" using cov_bound [OF k(3)] by auto
  have dC: "{f..<f + ?n} \<subseteq> ?C" using reqs_ok_del(3) [OF k(3) i] d(2) by auto
  have f: "f \<in> ?C" "f \<in> {f..<f + ?n}" using dC d(1) by (cases d; auto)+
  note un = uncovered [OF Cb dC]
  have "card (in_file F off0 ?X) < card {..<ra_pos st}" using f Cb by (intro psubset_card_mono) (auto simp: in_file_def)
  with k(1) st bounds have "off0 + ra_pos st < 2 ^ 64" "Suc k < 2 ^ 32" by auto
  from after_data_reqs [OF k(3,2) st(3) i d(1,2) this, of h] obtain k' where
    k': "k' \<le> Suc k" "ra_nextid st' = n0 + of_nat k'" "reqs_ok off0 (ra_pos st) n0 k' (ra_reqs st')"
      "cov (ra_reqs st') = ?C - {f..<f + ?n}" "ra_inFlight st' = card (dom (ra_reqs st'))" unfolding st'_def by blast
  have fc: "filled F off0 (snd (ra_err st) = Some EOF) (cut (ra_buf st) f d) (?X \<union> {f..<f + ?n})" "length (cut (ra_buf st) f d) = L"
    using filled_cut [OF st(4) _ _ _ un(2)] d(2,3) sl st by auto
  have "?n \<le> length (drop (off0 + f) F)" using d(3) sl(3) by (metis prefix_length_le)
  then have inF: "\<forall>y \<in> {f..<f + ?n}. off0 + y < length F" by auto
  have ca: "card (in_file F off0 (?X \<union> {f..<f + ?n})) = ra_read st + ?n"
    using in_file_add [OF _ un(2) _ inF] st(5) by simp
  have same: "ra_pos st' = ra_pos st" "ra_offset st' = ra_offset st" "ra_desired st' = ra_desired st" "ra_err st' = ra_err st"
    "ra_buf st' = cut (ra_buf st) f d" "ra_read st' = ra_read st + ?n"
    by (simp_all add: st'_def after_data_def Let_def)
  have "k' \<le> ra_pos st + (ra_read st + ?n)" using k(1) k'(1) d(1) by (cases d) auto
  then show "read_inv F off0 L n0 st'"
    using inv k' fc ca unfolding read_inv_def same by (auto simp: un(1))
  have "card (?C - {f..<f + ?n}) < card ?C" using f by (intro card_minus_less [OF cov_finite [OF k(3)]])
  then show "left L st' < left L st" by (simp add: left_def same k'(4))
qed

text \<open>What the end of the file does.\<close>

lemma receive_eof:
  assumes inv: "read_inv F off0 L n0 st" and i: "ra_reqs st i = Some (f, l, u)" and eof: "length F \<le> unat u"
    and w: "wire_string msg" "wire_string lang"
  shows "\<exists>st'. ReadAt_receive mc h (ResPkt sshFxpStatus (marshalUint32 [] i @ marshalUint32 [] sshFxEOF @ marshalString [] msg @ marshalString [] lang)) st = Some st' \<and>
    read_inv F off0 L n0 st' \<and> left L st' < left L st"
proof -
  from inv obtain k where k: "k \<le> ra_pos st + ra_read st" "ra_nextid st = n0 + of_nat k" "reqs_ok off0 (ra_pos st) n0 k (ra_reqs st)"
    unfolding read_inv_def by blast
  let ?C = "cov (ra_reqs st)" and ?X = "{..<ra_pos st} - cov (ra_reqs st)"
  from reqs_okD [OF k(3) i] have sl: "0 < l" "f + l \<le> ra_pos st" "unat u = off0 + f" by auto
  note del = reqs_ok_del [OF k(3) i]
  have Cb: "?C \<subseteq> {..<ra_pos st}" using cov_bound [OF k(3)] by auto
  note un = uncovered [OF Cb del(3)]
  define st' where "st' = st\<lparr>ra_inFlight := ra_inFlight st - 1, ra_reqs := (ra_reqs st)(i := None),
      ra_err := (if snd (ra_err st) = None \<or> u < fst (ra_err st) then (u, Some EOF) else ra_err st)\<rparr>"
  have recv: "ReadAt_receive mc h (ResPkt sshFxpStatus (marshalUint32 [] i @ marshalUint32 [] sshFxEOF @ marshalString [] msg @ marshalString [] lang)) st = Some st'"
    using i status_reply_eof [OF w] by (simp add: ReadAt_receive_def Let_def st'_def)
  have err: "snd (ra_err st') = Some EOF" using inv by (auto simp: st'_def read_inv_def)
  have "filled F off0 True (ra_buf st) (?X \<union> {f..<f + l})" using inv eof sl by (auto simp: read_inv_def filled_def)
  moreover have "in_file F off0 (?X \<union> {f..<f + l}) = in_file F off0 ?X" using eof sl by (auto simp: in_file_def)
  moreover have "length F < off0 + ra_pos st" using eof sl by simp
  ultimately have "read_inv F off0 L n0 st'"
    using inv del k err unfolding read_inv_def by (auto simp: st'_def un(1))
  moreover have "card (?C - {f..<f + l}) < card ?C"
    using del(3) sl(1) by (intro card_minus_less [OF cov_finite [OF k(3)], of f]) auto
  then have "left L st' < left L st" using del(2) by (simp add: left_def st'_def)
  ultimately show ?thesis using recv by blast
qed

lemma receive_inv:
  assumes inv: "read_inv F off0 L n0 st" and bounds: "off0 + L < 2 ^ 64" "2 * L < 2 ^ 32" and r: "answer_to F st r"
  shows "\<exists>st'. ReadAt_receive mc h r st = Some st' \<and> read_inv F off0 L n0 st' \<and> left L st' < left L st"
proof -
  from r obtain i f l u where i: "ra_reqs st i = Some (f, l, u)"
    and c: "(\<exists>d. d \<noteq> [] \<and> length d \<le> l \<and> prefix d (drop (unat u) F) \<and>
         r = ResPkt sshFxpData (marshalUint32 [] i @ marshalUint32 [] (of_nat (length d)) @ d)) \<or>
      (length F \<le> unat u \<and> (\<exists>msg lang. wire_string msg \<and> wire_string lang \<and>
         r = ResPkt sshFxpStatus (marshalUint32 [] i @ marshalUint32 [] sshFxEOF @ marshalString [] msg @ marshalString [] lang)))"
    unfolding answer_to_def by blast
  from inv i have "l < 2 ^ 32" using bounds(2) unfolding read_inv_def by (fastforce dest: reqs_okD(2))
  from c show ?thesis
  proof (elim disjE exE conjE)
    fix d assume d: "d \<noteq> []" "length d \<le> l" "prefix d (drop (unat u) F)"
      and r: "r = ResPkt sshFxpData (marshalUint32 [] i @ marshalUint32 [] (of_nat (length d)) @ d)"
    from after_data_inv [OF inv bounds i d, of h] show ?thesis
      unfolding r receive_data_eq [OF i d(2) \<open>l < 2 ^ 32\<close>] by (auto simp: read_inv_def left_def Let_def)
  next
    fix msg lang assume "length F \<le> unat u" "wire_string msg" "wire_string lang"
      "r = ResPkt sshFxpStatus (marshalUint32 [] i @ marshalUint32 [] sshFxEOF @ marshalString [] msg @ marshalString [] lang)"
    with receive_eof [OF inv i] show ?thesis by blast
  qed
qed

subsection \<open>The whole loop\<close>

text \<open>A list of results in which each is an answer to one of the requests in flight at the time it is taken.\<close>

fun answered :: "bytes \<Rightarrow> nat \<Rightarrow> nat \<Rightarrow> string \<Rightarrow> read_state \<Rightarrow> result list \<Rightarrow> bool" where
  "answered F mp mc h st [] \<longleftrightarrow> True"
| "answered F mp mc h st (r # rs) \<longleftrightarrow>
     (let st = ReadAt_fill mp h st
      in ra_inFlight st = 0 \<or>
         answer_to F st r \<and> (case ReadAt_receive mc h r st of None \<Rightarrow> True | Some st \<Rightarrow> answered F mp mc h st rs))"

lemma loop_inv:
  assumes "read_inv F off0 L n0 st" "off0 + L < 2 ^ 64" "2 * L < 2 ^ 32" "0 < mp"
    and "answered F mp mc h st rs" "left L st \<le> length rs"
  shows "\<exists>st'. ReadAt_loop mp mc h st rs = Returned st' \<and> read_inv F off0 L n0 st' \<and> ra_inFlight st' = 0 \<and>
    (ra_pos st' = L \<or> snd (ra_err st') \<noteq> None)"
  using assms(1,5,6)
proof (induction rs arbitrary: st)
  case Nil
  let ?st = "ReadAt_fill mp h st"
  note f = fill_inv [OF Nil(1) assms(2-4), of h]
  have len: "length (ra_buf st) = L" using Nil(1) by (simp add: read_inv_def)
  from Nil(3) f have "left L ?st = 0" by simp
  moreover obtain k where ok: "reqs_ok off0 (ra_pos ?st) n0 k (ra_reqs ?st)" using f unfolding read_inv_def by blast
  ultimately have "cov (ra_reqs ?st) = {}" using cov_finite [OF ok] by (simp add: left_def)
  then have "ra_reqs ?st i \<noteq> Some (x, l, u)" for i x l u using covI [of "ra_reqs ?st" i x l u x] reqs_okD(1) [OF ok] by fastforce
  then have "ra_reqs ?st i = None" for i by (metis not_None_eq prod_cases3)
  then have "ra_inFlight ?st = 0" using f by (simp add: read_inv_def dom_def)
  then show ?case using f Nil(1) len by (subst ReadAt_loop.simps) (auto simp: Let_def)
next
  case (Cons r rs)
  let ?st = "ReadAt_fill mp h st"
  note f = fill_inv [OF Cons.prems(1) assms(2-4), of h]
  have len: "length (ra_buf st) = L" using Cons.prems(1) by (simp add: read_inv_def)
  consider "ra_pos st = L \<and> ra_inFlight st = 0" | "\<not> (ra_pos st = L \<and> ra_inFlight st = 0)" "ra_inFlight ?st = 0"
    | "\<not> (ra_pos st = L \<and> ra_inFlight st = 0)" "ra_inFlight ?st \<noteq> 0" by blast
  then show ?case
  proof cases
    case 1
    with Cons.prems(1) len show ?thesis by (subst ReadAt_loop.simps) simp
  next
    case 2
    with f len show ?thesis by (subst ReadAt_loop.simps) (auto simp: Let_def)
  next
    case 3
    with Cons.prems(2) have "answer_to F ?st r" by (simp add: Let_def)
    with receive_inv [OF _ assms(2,3)] f obtain st' where
      st': "ReadAt_receive mc h r ?st = Some st'" "read_inv F off0 L n0 st'" "left L st' < left L ?st" by blast
    from 3 Cons.prems(2) st'(1) have "answered F mp mc h st' rs" by (simp add: Let_def)
    with Cons.IH [OF st'(2)] st'(3) f Cons.prems(3) have
      "\<exists>st''. ReadAt_loop mp mc h st' rs = Returned st'' \<and> read_inv F off0 L n0 st'' \<and> ra_inFlight st'' = 0 \<and>
        (ra_pos st'' = L \<or> snd (ra_err st'') \<noteq> None)" by simp
    with 3 st'(1) len show ?thesis by (subst ReadAt_loop.simps) (auto simp: Let_def)
  qed
qed

lemma in_file_all: "card (in_file F off0 {..<p}) = min p (length F - off0)"
proof -
  have "in_file F off0 {..<p} = {..<min p (length F - off0)}" by (auto simp: in_file_def)
  then show ?thesis by simp
qed

lemma finished_result:
  assumes "read_inv F off0 L n0 st" "ra_inFlight st = 0" "ra_pos st = L \<or> snd (ra_err st) \<noteq> None" "0 < L"
  shows "ReadAt_result st = (min L (length F - off0), if off0 + L \<le> length F then None else Some EOF)"
    "take (min L (length F - off0)) (ra_buf st) = take L (drop off0 F)"
proof -
  from assms(1) obtain k where ok: "reqs_ok off0 (ra_pos st) n0 k (ra_reqs st)" unfolding read_inv_def by blast
  from assms(1,2) ok have "dom (ra_reqs st) = {}" by (simp add: read_inv_def reqs_ok_def)
  then have C: "cov (ra_reqs st) = {}" by (auto simp: cov_def)
  from assms(1) have len: "length (ra_buf st) = L" "ra_pos st \<le> L" by (auto simp: read_inv_def)
  have rd: "ra_read st = min (ra_pos st) (length F - off0)" and fl: "filled F off0 (snd (ra_err st) = Some EOF) (ra_buf st) {..<ra_pos st}"
    using assms(1) C in_file_all by (auto simp: read_inv_def)
  consider (ok) "snd (ra_err st) = None" "ra_pos st = L" | (eof) "snd (ra_err st) = Some EOF" "length F < off0 + ra_pos st"
    using assms(1,3) by (auto simp: read_inv_def)
  then have "ReadAt_result st = (min L (length F - off0), if off0 + L \<le> length F then None else Some EOF) \<and> min L (length F - off0) \<le> ra_pos st"
  proof cases
    case ok
    have "off0 + (L - 1) < length F" using fl ok assms(4) by (auto simp: filled_def dest!: bspec [of _ _ "L - 1"] split: if_splits)
    with ok rd assms(4) show ?thesis by (simp add: ReadAt_result_def)
  next
    case eof
    with rd len show ?thesis by (simp add: ReadAt_result_def)
  qed
  then show "ReadAt_result st = (min L (length F - off0), if off0 + L \<le> length F then None else Some EOF)"
    "take (min L (length F - off0)) (ra_buf st) = take L (drop off0 F)"
    using fl len by (auto intro!: nth_equalityI simp: filled_def)
qed

text \<open>
  C14: reading is correct for every order of answers. Let the server's file hold the bytes \<open>F\<close>, and let the results taken by \<^verbatim>\<open>ReadAt\<close> be
  answers to its requests in flight, in any order and as short as the server likes. Then, after at most one answer for each byte of the
  buffer, \<^verbatim>\<open>ReadAt\<close> returns the number of bytes the file has there, with the end-of-file error exactly if the buffer could not be
  filled, and the buffer begins with these bytes.
\<close>

theorem ReadAt_correct:
  assumes "b \<noteq> []" and "unat off + length b < 2 ^ 64" and "2 * length b < 2 ^ 32" and "0 < mp"
    and "answered F mp mc (f_handle f) (ReadAt_init b off n) rs" and "length b \<le> length rs"
  shows "\<exists>st. File_ReadAt mp mc n f b off rs = Returned st \<and>
    ReadAt_result st = (min (length b) (length F - unat off), if unat off + length b \<le> length F then None else Some EOF) \<and>
    take (fst (ReadAt_result st)) (ra_buf st) = take (length b) (drop (unat off) F)"
proof -
  have inv: "read_inv F (unat off) (length b) n (ReadAt_init b off n)"
    by (auto simp: read_inv_def ReadAt_init_def reqs_ok_def filled_def in_file_def)
  have "left (length b) (ReadAt_init b off n) \<le> length rs" using assms(6) by (simp add: left_def ReadAt_init_def cov_def)
  from loop_inv [OF inv assms(2-5) this] obtain st where
    st: "File_ReadAt mp mc n f b off rs = Returned st" "read_inv F (unat off) (length b) n st" "ra_inFlight st = 0"
      "ra_pos st = length b \<or> snd (ra_err st) \<noteq> None" by (auto simp: File_ReadAt_def)
  from finished_result [OF st(2-4)] assms(1) st(1) show ?thesis by auto
qed

text \<open>The witness: two bytes of a file of three, answered one at a time.\<close>

definition demo_answers :: "result list" where
  "demo_answers = [ResPkt sshFxpData (marshalUint32 [] 1 @ marshalUint32 [] 1 @ [5]), ResPkt sshFxpData (marshalUint32 [] 2 @ marshalUint32 [] 1 @ [6])]"

theorem ReadAt_correct_witness:
  "\<exists>st. File_ReadAt 2 64 0 \<lparr>f_path = ''a'', f_handle = ''1'', f_offset = 0\<rparr> [0, 0] 0 demo_answers = Returned st \<and>
     ReadAt_result st = (2, None) \<and> take (fst (ReadAt_result st)) (ra_buf st) = [5, 6]"
proof -
  let ?st0 = "ReadAt_init [0, 0] 0 0" and ?f = "\<lparr>f_path = ''a'', f_handle = ''1'', f_offset = 0\<rparr>"
  let ?st1 = "?st0\<lparr>ra_nextid := 1, ra_sent := [sshFxpReadPacket 1 ''1'' 0 2], ra_inFlight := 1, ra_reqs := [1 \<mapsto> (0, 2, 0)], ra_offset := 2, ra_pos := 2\<rparr>"
  let ?st2 = "?st1\<lparr>ra_nextid := 2, ra_sent := [sshFxpReadPacket 1 ''1'' 0 2, sshFxpReadPacket 2 ''1'' 1 1], ra_reqs := [2 \<mapsto> (1, 1, 1)],
      ra_buf := [5, 0], ra_read := 1, ra_desired := 2\<rparr>"
  have f: "ReadAt_fill 2 ''1'' ?st0 = ?st1" "ReadAt_fill 2 ''1'' ?st2 = ?st2"
    by (simp_all add: ReadAt_fill.simps ReadAt_init_def ReadAt_sendReq_def numeral_2_eq_2)
  have r1: "ReadAt_receive 64 ''1'' (ResPkt sshFxpData (marshalUint32 [] 1 @ marshalUint32 [] 1 @ [5])) ?st1 = Some ?st2"
    by (simp add: ReadAt_receive_def ReadAt_data_def ReadAt_sendReq_def ReadAt_init_def Let_def cut_def)
  have a1: "answer_to [5, 6, 7] ?st1 (ResPkt sshFxpData (marshalUint32 [] 1 @ marshalUint32 [] 1 @ [5]))"
    unfolding answer_to_def by (intro exI [of _ 1] exI [of _ 0] exI [of _ 2] conjI disjI1 exI [of _ "[5]"]) simp_all
  have a2: "answer_to [5, 6, 7] ?st2 (ResPkt sshFxpData (marshalUint32 [] 2 @ marshalUint32 [] 1 @ [6]))"
    unfolding answer_to_def by (intro exI [of _ 2] exI [of _ 1] exI [of _ 1] conjI disjI1 exI [of _ "[6]"]) simp_all
  have ok: "answered [5, 6, 7] 2 64 (f_handle ?f) ?st0 demo_answers"
    using f r1 a1 a2 by (simp add: demo_answers_def Let_def split: option.split)
  have "[0, 0 :: byte] \<noteq> []" "unat (0 :: u64) + length [0, 0 :: byte] < 2 ^ 64" "2 * length [0, 0 :: byte] < 2 ^ 32" "0 < (2 :: nat)" by simp_all
  from ReadAt_correct [OF this ok] show ?thesis by (simp add: demo_answers_def numeral_2_eq_2)
qed

end
