(* ===== verification/Client_Write.thy ===== *)
theory Client_Write
  imports Client_File "HOL-Library.Multiset"
begin

text \<open>
  \<^verbatim>\<open>Write\<close> and \<^verbatim>\<open>ReadFrom\<close> of client.go: which write requests they send, that these put the data into the file in whatever order the server
  handles them, and which errors are lost.
\<close>

subsection \<open>Write requests and their effect\<close>

text \<open>The requests for consecutive pieces of data, the first at offset \<open>off\<close>.\<close>

fun write_packets :: "string \<Rightarrow> u32 \<Rightarrow> u64 \<Rightarrow> bytes list \<Rightarrow> requestPacket list" where
  "write_packets h n off [] = []"
| "write_packets h n off (d # ds) =
     sshFxpWritePacket (n + 1) h off (of_nat (length d)) d # write_packets h (n + 1) (off + of_nat (length d)) ds"

lemma write_packets_snoc:
  "write_packets h n off (ds @ [d]) =
     write_packets h n off ds @ [sshFxpWritePacket (n + of_nat (length ds) + 1) h (off + of_nat (length (concat ds))) (of_nat (length d)) d]"
  by (induction ds arbitrary: n off) (simp_all add: add_ac)

text \<open>What writing at an offset does to a file; a gap behind its end reads as zeros.\<close>

definition write_at :: "nat \<Rightarrow> bytes \<Rightarrow> bytes \<Rightarrow> bytes" where
  "write_at off d F = (if d = [] then F else take off (F @ replicate (off - length F) 0) @ d @ drop (off + length d) F)"

fun packet_effect :: "requestPacket \<Rightarrow> bytes \<Rightarrow> bytes" where
  "packet_effect (sshFxpWritePacket _ _ off _ d) F = write_at (unat off) d F"
| "packet_effect _ F = F"

lemma length_write_at: "length (write_at off d F) = (if d = [] then length F else max (length F) (off + length d))"
  by (auto simp: write_at_def)

lemma nth_write_at:
  assumes "x < length (write_at off d F)"
  shows "write_at off d F ! x = (if off \<le> x \<and> x < off + length d then d ! (x - off) else if x < length F then F ! x else 0)"
proof -
  have "take off (F @ replicate (off - length F) 0) ! x = (if x < length F then F ! x else 0)" if "x < off"
    using that by (simp add: nth_append)
  moreover have "length (take off (F @ replicate (off - length F) 0)) = off" by simp
  ultimately show ?thesis using assms by (auto simp: write_at_def nth_append)
qed

text \<open>Writes of disjoint ranges commute.\<close>

lemma write_at_commute:
  assumes "o1 + length d1 \<le> o2 \<or> o2 + length d2 \<le> o1"
  shows "write_at o1 d1 (write_at o2 d2 F) = write_at o2 d2 (write_at o1 d1 F)"
proof (rule nth_equalityI)
  show "length (write_at o1 d1 (write_at o2 d2 F)) = length (write_at o2 d2 (write_at o1 d1 F))" by (auto simp: length_write_at)
next
  fix x assume x: "x < length (write_at o1 d1 (write_at o2 d2 F))"
  then have "x < length (write_at o2 d2 (write_at o1 d1 F))" by (auto simp: length_write_at split: if_splits)
  with x assms show "write_at o1 d1 (write_at o2 d2 F) ! x = write_at o2 d2 (write_at o1 d1 F) ! x"
    by (auto simp: nth_write_at length_write_at split: if_splits)
qed

lemma write_at_append: "write_at (off + length d) e (write_at off d F) = write_at off (d @ e) F"
proof (rule nth_equalityI)
  show "length (write_at (off + length d) e (write_at off d F)) = length (write_at off (d @ e) F)" by (auto simp: length_write_at)
next
  fix x assume x: "x < length (write_at (off + length d) e (write_at off d F))"
  then have "x < length (write_at off (d @ e) F)" by (auto simp: length_write_at split: if_splits)
  with x show "write_at (off + length d) e (write_at off d F) ! x = write_at off (d @ e) F ! x"
    by (auto simp: nth_write_at length_write_at nth_append split: if_splits)
qed

lemma unat_add_small: "unat off + n < 2 ^ 64 \<Longrightarrow> unat (off + of_nat n) = unat off + n"
  for off :: u64
proof -
  assume a: "unat off + n < 2 ^ 64"
  then have "unat (of_nat n :: u64) = n" by (simp add: unat_of_nat take_bit_nat_eq_self)
  with a show ?thesis by (subst unat_plus_simple [THEN iffD1]) (auto simp: word_le_nat_alt unat_word_ariths)
qed

lemma write_packets_effect:
  assumes "unat off + length (concat ds) < 2 ^ 64"
  shows "fold packet_effect (write_packets h n off ds) F = write_at (unat off) (concat ds) F"
  using assms
proof (induction ds arbitrary: n off F)
  case (Cons d ds)
  have "unat (off + of_nat (length d)) = unat off + length d" using Cons.prems by (intro unat_add_small) simp
  with Cons show ?case by (simp add: write_at_append)
qed (simp add: write_at_def)

text \<open>The ranges of the requests.\<close>

lemma write_packets_mem:
  assumes "p \<in> set (write_packets h n off ds)" "unat off + length (concat ds) < 2 ^ 64"
  obtains i u l d where "p = sshFxpWritePacket i h u l d" "unat off \<le> unat u" "unat u + length d \<le> unat off + length (concat ds)"
  using assms
proof (induction ds arbitrary: n off thesis)
  case (Cons e ds)
  have o: "unat (off + of_nat (length e)) = unat off + length e" using Cons.prems(3) by (intro unat_add_small) simp
  from Cons.prems(2) consider "p = sshFxpWritePacket (n + 1) h off (of_nat (length e)) e"
    | "p \<in> set (write_packets h (n + 1) (off + of_nat (length e)) ds)" by auto
  then show ?case
  proof cases
    case 1
    then show ?thesis by (intro Cons.prems(1)) auto
  next
    case 2
    from Cons.prems(3) o have "unat (off + of_nat (length e)) + length (concat ds) < 2 ^ 64" by simp
    with 2 obtain i u l d where "p = sshFxpWritePacket i h u l d" "unat (off + of_nat (length e)) \<le> unat u"
      "unat u + length d \<le> unat (off + of_nat (length e)) + length (concat ds)" by (rule Cons.IH [rotated])
    with o show ?thesis by (intro Cons.prems(1)) auto
  qed
qed simp

lemma write_packets_commute:
  assumes "unat off + length (concat ds) < 2 ^ 64" "p \<in> set (write_packets h n off ds)" "q \<in> set (write_packets h n off ds)"
  shows "packet_effect p \<circ> packet_effect q = packet_effect q \<circ> packet_effect p"
  using assms
proof (induction ds arbitrary: n off)
  case (Cons e ds)
  have o: "unat (off + of_nat (length e)) = unat off + length e" using Cons.prems(1) by (intro unat_add_small) simp
  let ?tl = "write_packets h (n + 1) (off + of_nat (length e)) ds" and ?hd = "sshFxpWritePacket (n + 1) h off (of_nat (length e)) e"
  have b: "unat (off + of_nat (length e)) + length (concat ds) < 2 ^ 64" using Cons.prems(1) o by simp
  have later: "packet_effect ?hd \<circ> packet_effect r = packet_effect r \<circ> packet_effect ?hd" if "r \<in> set ?tl" for r
  proof -
    from that b obtain i u l d where "r = sshFxpWritePacket i h u l d" "unat (off + of_nat (length e)) \<le> unat u" by (rule write_packets_mem)
    with o show ?thesis by (auto simp: fun_eq_iff intro: write_at_commute)
  qed
  from Cons.prems(2,3) consider "p = ?hd" "q = ?hd" | "p = ?hd" "q \<in> set ?tl" | "q = ?hd" "p \<in> set ?tl" | "p \<in> set ?tl" "q \<in> set ?tl" by auto
  then show ?case by cases (metis, metis later, metis later, rule Cons.IH [OF b])
qed simp

text \<open>Whatever order the server handles them in, they write the data.\<close>

lemma write_packets_any_order:
  assumes "unat off + length (concat ds) < 2 ^ 64" "mset ps = mset (write_packets h n off ds)"
  shows "fold packet_effect ps F = write_at (unat off) (concat ds) F"
proof -
  have "fold packet_effect (write_packets h n off ds) = fold packet_effect ps"
    using write_packets_commute [OF assms(1)] assms(2) by (intro fold_multiset_equiv) auto
  with write_packets_effect [OF assms(1)] show ?thesis by metis
qed

subsection \<open>Writing a buffer\<close>

text \<open>A status reply for some request, with the given code.\<close>

definition status_result :: "u32 \<Rightarrow> result \<Rightarrow> bool" where
  "status_result code r \<longleftrightarrow> (\<exists>i msg lang. wire_string msg \<and> wire_string lang \<and>
     r = ResPkt sshFxpStatus (marshalUint32 [] i @ marshalUint32 [] code @ marshalString [] msg @ marshalString [] lang))"

lemma status_result_reply:
  assumes "status_result code r"
  obtains i data rest msg lang where "r = ResPkt sshFxpStatus data" "unmarshalUint32 data = Some (i, rest)"
    "status_reply i data = Some (normaliseError (StatusErr code msg lang))"
  using assms by (auto simp: status_result_def status_reply_def unmarshalStatus_def or_zero_def codec_simps)

text \<open>Neither a success nor, once there is an error, any other status is recorded.\<close>

lemma Write_receive_ok:
  assumes "status_result code r" "code = sshFxOk \<or> wr_err st \<noteq> None"
  shows "\<exists>n. Write_receive mc r st = Some (st\<lparr>wr_inFlight := wr_inFlight st - 1, wr_desired := n\<rparr>) \<and> wr_desired st \<le> n"
  using assms(1)
  by (rule status_result_reply)
     (use assms(2) in \<open>auto simp: Write_receive_def Let_def intro!: exI [of _ "if wr_desired st < mc then wr_desired st + 1 else wr_desired st"]\<close>)

definition write_inv :: "string \<Rightarrow> u32 \<Rightarrow> u64 \<Rightarrow> nat \<Rightarrow> bytes \<Rightarrow> write_state \<Rightarrow> bool" where
  "write_inv h n off mp b st \<longleftrightarrow> wr_err st = None \<and> 1 \<le> wr_desired st \<and>
     (\<exists>ds. wr_sent st = write_packets h n off ds \<and> wr_nextid st = n + of_nat (length ds) \<and>
       wr_offset st = off + of_nat (length (concat ds)) \<and> concat ds @ wr_rest st = b \<and> (\<forall>d \<in> set ds. d \<noteq> [] \<and> length d \<le> mp))"

lemma Write_fill_inv:
  assumes "write_inv h n off mp b st" "0 < mp"
  shows "write_inv h n off mp b (Write_fill mp h st) \<and>
    wr_inFlight (Write_fill mp h st) + length (wr_rest (Write_fill mp h st)) \<le> wr_inFlight st + length (wr_rest st) \<and>
    (wr_inFlight (Write_fill mp h st) = 0 \<longrightarrow> wr_rest (Write_fill mp h st) = [])"
  using assms
proof (induction mp h st rule: Write_fill.induct)
  case (1 mp h st)
  show ?case
  proof (cases "wr_inFlight st < wr_desired st \<and> wr_rest st \<noteq> [] \<and> wr_err st = None")
    case True
    let ?l = "min (length (wr_rest st)) mp"
    let ?st = "(dispatch_write h (take ?l (wr_rest st)) st)\<lparr>wr_rest := drop ?l (wr_rest st)\<rparr>"
    from "1.prems"(1) obtain ds where ds: "wr_sent st = write_packets h n off ds" "wr_nextid st = n + of_nat (length ds)"
      "wr_offset st = off + of_nat (length (concat ds))" "concat ds @ wr_rest st = b" "\<forall>d \<in> set ds. d \<noteq> [] \<and> length d \<le> mp"
      unfolding write_inv_def by blast
    have l: "0 < ?l" using True "1.prems"(2) by auto
    have "write_inv h n off mp b ?st"
      using "1.prems"(1) ds l unfolding write_inv_def
      by (intro conjI exI [of _ "ds @ [take ?l (wr_rest st)]"]) (auto simp: dispatch_write_def write_packets_snoc algebra_simps)
    moreover have "Write_fill mp h st = Write_fill mp h ?st" using True by (subst Write_fill.simps) (simp add: Let_def)
    moreover have "wr_inFlight ?st + length (wr_rest ?st) \<le> wr_inFlight st + length (wr_rest st)" 
    proof -
      have "Suc (a + (c - ?l)) \<le> a + c" if "?l \<le> c" for a c using that l by linarith
      from this [of "length (wr_rest st)" "wr_inFlight st"] show ?thesis by (simp add: dispatch_write_def)
    qed
    moreover note "1.IH" [OF True refl refl]
    ultimately show ?thesis using "1.prems"(2) by auto
  next
    case False
    then have f: "Write_fill mp h st = st" by (subst Write_fill.simps) auto
    from False "1.prems"(1) show ?thesis unfolding f by (auto simp: write_inv_def)
  qed
qed

lemma Write_loop_inv:
  assumes "write_inv h n off mp b st" "0 < mp" "list_all (status_result sshFxOk) rs" "wr_inFlight st + length (wr_rest st) \<le> length rs"
  shows "\<exists>st'. Write_loop mp mc h st rs = Returned st' \<and> write_inv h n off mp b st' \<and> wr_rest st' = []"
  using assms(1,3,4)
proof (induction rs arbitrary: st)
  case Nil
  then show ?case by (subst Write_loop.simps) simp
next
  case (Cons r rs)
  let ?st = "Write_fill mp h st"
  note f = Write_fill_inv [OF Cons.prems(1) assms(2)]
  consider "wr_rest st = [] \<and> wr_inFlight st = 0" | "\<not> (wr_rest st = [] \<and> wr_inFlight st = 0)" "wr_inFlight ?st = 0"
    | "\<not> (wr_rest st = [] \<and> wr_inFlight st = 0)" "wr_inFlight ?st \<noteq> 0" by blast
  then show ?case
  proof cases
    case 1
    with Cons.prems(1) show ?thesis by (subst Write_loop.simps) simp
  next
    case 2
    with f show ?thesis by (subst Write_loop.simps) (auto simp: Let_def)
  next
    case 3
    from Cons.prems(2) Write_receive_ok [of sshFxOk r ?st mc] obtain k where
      r: "Write_receive mc r ?st = Some (?st\<lparr>wr_inFlight := wr_inFlight ?st - 1, wr_desired := k\<rparr>)" "wr_desired ?st \<le> k" by auto
    let ?st' = "?st\<lparr>wr_inFlight := wr_inFlight ?st - 1, wr_desired := k\<rparr>"
    have "write_inv h n off mp b ?st'" using f r(2) by (auto simp: write_inv_def)
    moreover have "wr_inFlight ?st' + length (wr_rest ?st') \<le> length rs" 
    proof -
      from f have "wr_inFlight ?st + length (wr_rest ?st) \<le> wr_inFlight st + length (wr_rest st)" by blast
      with 3(2) Cons.prems(3) show ?thesis by simp
    qed
    ultimately have "\<exists>st'. Write_loop mp mc h ?st' rs = Returned st' \<and> write_inv h n off mp b st' \<and> wr_rest st' = []"
      using Cons.prems(2) by (intro Cons.IH) auto
    with 3 r(1) show ?thesis by (subst Write_loop.simps) (auto simp: Let_def)
  qed
qed

text \<open>
  C15: what \<^verbatim>\<open>Write\<close> reports as written is written. If the server confirms the requests, in any order, \<^verbatim>\<open>Write\<close> returns the length of the buffer and
  no error, and moves the file's offset by it; and the requests it sent, handled by the server in any order at all, put exactly the buffer's bytes at the old
  offset, leaving the rest of the file as it was. No packet is longer than the limit.
\<close>

theorem Write_correct:
  assumes "0 < mp" and "list_all (status_result sshFxOk) rs" and "length b \<le> length rs" and "unat (f_offset f) + length b < 2 ^ 64"
  shows "\<exists>st. File_Write mp mc n f b rs = Returned ((length b, None), f\<lparr>f_offset := f_offset f + of_nat (length b)\<rparr>, st) \<and>
    (\<forall>p \<in> set (wr_sent st). \<exists>i off d. p = sshFxpWritePacket i (f_handle f) off (of_nat (length d)) d \<and> length d \<le> mp) \<and>
    (\<forall>ps F. mset ps = mset (wr_sent st) \<longrightarrow> fold packet_effect ps F = write_at (unat (f_offset f)) b F)"
proof -
  have "write_inv (f_handle f) n (f_offset f) mp b (Write_init b (f_offset f) n)"
    unfolding write_inv_def by (intro conjI exI [of _ "[]"]) (simp_all add: Write_init_def)
  moreover have "wr_inFlight (Write_init b (f_offset f) n) + length (wr_rest (Write_init b (f_offset f) n)) \<le> length rs"
    using assms(3) by (simp add: Write_init_def)
  ultimately obtain st where l: "Write_loop mp mc (f_handle f) (Write_init b (f_offset f) n) rs = Returned st"
    and i: "write_inv (f_handle f) n (f_offset f) mp b st" and r: "wr_rest st = []"
    using Write_loop_inv [OF _ assms(1,2)] by blast
  from i r obtain ds where ds: "wr_sent st = write_packets (f_handle f) n (f_offset f) ds" "concat ds = b" "\<forall>d \<in> set ds. d \<noteq> [] \<and> length d \<le> mp"
    "wr_err st = None" by (auto simp: write_inv_def)
  have small: "\<exists>i off d. p = sshFxpWritePacket i h off (of_nat (length d)) d \<and> length d \<le> mp"
    if "p \<in> set (write_packets h m u es)" "\<forall>d \<in> set es. d \<noteq> [] \<and> length d \<le> mp" for p h m u es
    using that by (induction es arbitrary: m u) auto
  have any: "fold packet_effect ps F = write_at (unat (f_offset f)) b F" if "mset ps = mset (wr_sent st)" for ps F
    using write_packets_any_order [of "f_offset f" ds ps "f_handle f" n F] that ds(1,2) assms(4) by simp
  show ?thesis using l ds small any by (intro exI [of _ st]) (auto simp: File_Write_def Let_def)
qed

text \<open>The witness: three bytes in packets of two; two of the three results are taken.\<close>

definition demo_file :: File where
  "demo_file = \<lparr>f_path = ''a'', f_handle = ''1'', f_offset = 4\<rparr>"

definition demo_status :: "u32 \<Rightarrow> result" where
  "demo_status code = ResPkt sshFxpStatus (marshalUint32 [] 1 @ marshalUint32 [] code @ marshalString [] [] @ marshalString [] [])"

lemma demo_status_result: "status_result code (demo_status code)"
  unfolding status_result_def demo_status_def by (intro exI [of _ 1] exI [of _ "[]"]) (simp add: wire_string_def)

theorem Write_correct_witness:
  "\<exists>st. File_Write 2 64 0 demo_file [7, 8, 9] (replicate 3 (demo_status 0)) = Returned ((3, None), demo_file\<lparr>f_offset := 7\<rparr>, st) \<and>
     fold packet_effect (rev (wr_sent st)) [1, 2] = [1, 2, 0, 0, 7, 8, 9]"
proof -
  have "0 < (2 :: nat)" "list_all (status_result sshFxOk) (replicate 3 (demo_status 0))" "length [7, 8, 9 :: byte] \<le> length (replicate 3 (demo_status 0))"
    "unat (f_offset demo_file) + length [7, 8, 9 :: byte] < 2 ^ 64"
    using demo_status_result by (simp_all add: demo_file_def list_all_iff)
  from Write_correct [OF this, of 64 0] obtain st where
    "File_Write 2 64 0 demo_file [7, 8, 9] (replicate 3 (demo_status 0)) =
       Returned ((length [7, 8, 9 :: byte], None), demo_file\<lparr>f_offset := f_offset demo_file + of_nat (length [7, 8, 9 :: byte])\<rparr>, st)"
    "\<forall>ps F. mset ps = mset (wr_sent st) \<longrightarrow> fold packet_effect ps F = write_at (unat (f_offset demo_file)) [7, 8, 9] F" by blast
  then have "fold packet_effect (rev (wr_sent st)) [1, 2] = write_at 4 [7, 8, 9] [1, 2]"
    by (simp add: demo_file_def)
  also have "\<dots> = [1, 2, 0, 0, 7, 8, 9]" by (simp add: write_at_def numeral_eq_Suc)
  finally show ?thesis
    using \<open>File_Write 2 64 0 demo_file [7, 8, 9] (replicate 3 (demo_status 0)) = _\<close> by (intro exI [of _ st]) (simp add: demo_file_def)
qed

subsection \<open>Uploading from a reader\<close>

text \<open>The state after the pieces \<open>es\<close> were read and sent, with \<open>ds\<close> still to come; the last piece sent is the empty one.\<close>

definition from_inv :: "string \<Rightarrow> u32 \<Rightarrow> u64 \<Rightarrow> bytes list \<Rightarrow> from_state \<Rightarrow> bool" where
  "from_inv h n off all st \<longleftrightarrow> 1 \<le> wr_desired st \<and>
     (\<exists>es ds. wr_sent st = write_packets h n off es \<and> wr_nextid st = n + of_nat (length es) \<and>
       wr_offset st = off + of_nat (length (concat es)) \<and> rf_read st = length (concat es) \<and> rf_reader st = map (\<lambda>d. (d, None)) ds \<and>
       (wr_err st = None \<and> es @ ds = all \<or> wr_err st = Some EOF \<and> ds = [] \<and> es = all @ [[]]))"

definition to_come :: "from_state \<Rightarrow> nat" where
  "to_come st = wr_inFlight st + (if wr_err st = None then Suc (length (rf_reader st)) else 0)"

lemma ReadFrom_send_inv:
  assumes "from_inv h n off all st" "wr_err st = None"
  shows "from_inv h n off all (ReadFrom_send h st)" "to_come (ReadFrom_send h st) = to_come st" "0 < wr_inFlight (ReadFrom_send h st)"
proof -
  from assms obtain es ds where s: "wr_sent st = write_packets h n off es" "wr_nextid st = n + of_nat (length es)"
    "wr_offset st = off + of_nat (length (concat es))" "rf_read st = length (concat es)" "rf_reader st = map (\<lambda>d. (d, None)) ds" "es @ ds = all" "1 \<le> wr_desired st"
    by (auto simp: from_inv_def)
  show "from_inv h n off all (ReadFrom_send h st)"
  proof (cases ds)
    case Nil
    with s show ?thesis unfolding from_inv_def
      by (intro conjI exI [of _ "all @ [[]]"] exI [of _ "[]"]) (auto simp: ReadFrom_send_def write_packets_snoc algebra_simps)
  next
    case (Cons d ds')
    with s show ?thesis unfolding from_inv_def
      by (intro conjI exI [of _ "es @ [d]"] exI [of _ ds']) (auto simp: ReadFrom_send_def write_packets_snoc algebra_simps)
  qed
  show "to_come (ReadFrom_send h st) = to_come st" "0 < wr_inFlight (ReadFrom_send h st)"
    using s assms(2) by (cases ds; simp add: to_come_def ReadFrom_send_def)+
qed

lemma ReadFrom_fill_inv:
  assumes "from_inv h n off all st"
  shows "from_inv h n off all (ReadFrom_fill h st) \<and> to_come (ReadFrom_fill h st) = to_come st \<and>
    (wr_inFlight (ReadFrom_fill h st) = 0 \<longrightarrow> wr_err (ReadFrom_fill h st) \<noteq> None)"
  using assms
proof (induction h st rule: ReadFrom_fill.induct)
  case (1 h st)
  show ?case
  proof (cases "wr_inFlight st < wr_desired st \<and> wr_err st = None")
    case True
    then have f: "ReadFrom_fill h st = ReadFrom_fill h (ReadFrom_send h st)" by (subst ReadFrom_fill.simps) simp
    from True ReadFrom_send_inv [OF "1.prems"] "1.IH" [OF True] show ?thesis unfolding f by simp
  next
    case False
    then have f: "ReadFrom_fill h st = st" by (subst ReadFrom_fill.simps) auto
    from False "1.prems" show ?thesis unfolding f by (auto simp: from_inv_def)
  qed
qed

lemma ReadFrom_loop_inv:
  assumes "from_inv h n off all st" "list_all (status_result sshFxOk) rs" "to_come st \<le> length rs"
  shows "\<exists>st'. ReadFrom_loop mc h st rs = Returned st' \<and> from_inv h n off all st' \<and> wr_err st' \<noteq> None"
  using assms
proof (induction rs arbitrary: st)
  case Nil
  then show ?case by (subst ReadFrom_loop.simps) (auto simp: to_come_def split: if_splits)
next
  case (Cons r rs)
  let ?st = "ReadFrom_fill h st"
  note f = ReadFrom_fill_inv [OF Cons.prems(1)]
  consider "\<not> (wr_inFlight st > 0 \<or> wr_err st = None)" | "wr_inFlight st > 0 \<or> wr_err st = None" "wr_inFlight ?st = 0"
    | "wr_inFlight st > 0 \<or> wr_err st = None" "wr_inFlight ?st \<noteq> 0" by blast
  then show ?case
  proof cases
    case 1
    with Cons.prems(1) show ?thesis by (subst ReadFrom_loop.simps) auto
  next
    case 2
    with f show ?thesis by (subst ReadFrom_loop.simps) (auto simp: Let_def)
  next
    case 3
    from Cons.prems(2) Write_receive_ok [of sshFxOk r ?st mc] obtain k where
      r: "Write_receive mc r ?st = Some (?st\<lparr>wr_inFlight := wr_inFlight ?st - 1, wr_desired := k\<rparr>)" "wr_desired ?st \<le> k" by auto
    let ?st' = "?st\<lparr>wr_inFlight := wr_inFlight ?st - 1, wr_desired := k\<rparr>"
    have "from_inv h n off all ?st'" using f r(2) by (auto simp: from_inv_def)
    moreover have "to_come ?st' \<le> length rs" using f 3(2) Cons.prems(3) by (auto simp: to_come_def split: if_splits)
    ultimately have "\<exists>st'. ReadFrom_loop mc h ?st' rs = Returned st' \<and> from_inv h n off all st' \<and> wr_err st' \<noteq> None"
      using Cons.prems(2) by (intro Cons.IH) auto
    with 3 r(1) show ?thesis by (subst ReadFrom_loop.simps) (auto simp: Let_def)
  qed
qed

text \<open>
  An upload that the server confirms is complete. If the reader gives the pieces \<open>ds\<close> and then ends, and the server confirms every request, in any order, then
  \<^verbatim>\<open>ReadFrom\<close> returns the number of bytes read and no error, moves the offset by it, and the requests, handled in any order, write all pieces
  one after the other at the old offset.
\<close>

theorem ReadFrom_correct:
  assumes "list_all (status_result sshFxOk) rs" and "Suc (length ds) \<le> length rs" and "unat (f_offset f) + length (concat ds) < 2 ^ 64"
  shows "\<exists>st. File_ReadFrom mc n f (map (\<lambda>d. (d, None)) ds) rs =
      Returned ((length (concat ds), None), f\<lparr>f_offset := f_offset f + of_nat (length (concat ds))\<rparr>, st) \<and>
    (\<forall>ps F. mset ps = mset (wr_sent st) \<longrightarrow> fold packet_effect ps F = write_at (unat (f_offset f)) (concat ds) F)"
proof -
  let ?st0 = "ReadFrom_init (map (\<lambda>d. (d, None)) ds) (f_offset f) n"
  have "from_inv (f_handle f) n (f_offset f) ds ?st0"
    unfolding from_inv_def
    by (intro conjI exI [of _ "[]"] exI [of _ ds]) (simp_all add: ReadFrom_init_def write_state.defs Write_init_def)
  moreover have "to_come ?st0 \<le> length rs" using assms(2) by (simp add: to_come_def ReadFrom_init_def write_state.defs Write_init_def)
  ultimately obtain st where l: "ReadFrom_loop mc (f_handle f) ?st0 rs = Returned st"
    and i: "from_inv (f_handle f) n (f_offset f) ds st" "wr_err st \<noteq> None" using ReadFrom_loop_inv [OF _ assms(1)] by blast
  from i have s: "wr_sent st = write_packets (f_handle f) n (f_offset f) (ds @ [[]])" "rf_read st = length (concat ds)" "wr_err st = Some EOF"
    by (auto simp: from_inv_def)
  have any: "fold packet_effect ps F = write_at (unat (f_offset f)) (concat ds) F" if "mset ps = mset (wr_sent st)" for ps F
    using write_packets_any_order [of "f_offset f" "ds @ [[]]" ps "f_handle f" n F] that s(1) assms(3) by simp
  with l s show ?thesis by (intro exI [of _ st]) (auto simp: File_ReadFrom_def Let_def ReadFrom_result_def)
qed

text \<open>
  Errors that arrive after the end of the reader are lost. Once the reader has reported its end, a failure the server reports for a request still in
  flight is not recorded: an upload of a single packet whose write the server refuses is reported as complete.
\<close>

theorem ReadFrom_loses_late_errors:
  assumes "status_result code r"
  shows "\<exists>st. File_ReadFrom mc n f [(d, Some EOF)] [r] =
    Returned ((length d, None), f\<lparr>f_offset := f_offset f + of_nat (length d)\<rparr>, st)"
proof -
  let ?st0 = "ReadFrom_init [(d, Some EOF)] (f_offset f) n"
  let ?st1 = "ReadFrom_send (f_handle f) ?st0"
  have e: "wr_err ?st1 = Some EOF" "wr_inFlight ?st1 = 1" "rf_read ?st1 = length d" "wr_inFlight ?st0 = 0" "wr_err ?st0 = None" "wr_desired ?st0 = 1"
    by (simp_all add: ReadFrom_send_def ReadFrom_init_def write_state.defs Write_init_def)
  then have f: "ReadFrom_fill (f_handle f) ?st0 = ?st1" by (subst ReadFrom_fill.simps, subst ReadFrom_fill.simps) simp
  from Write_receive_ok [OF assms, of ?st1 mc] e obtain k where
    "Write_receive mc r ?st1 = Some (?st1\<lparr>wr_inFlight := 0, wr_desired := k\<rparr>)" by auto
  then have "ReadFrom_loop mc (f_handle f) ?st0 [r] = Returned (?st1\<lparr>wr_inFlight := 0, wr_desired := k\<rparr>)"
    using e f by (subst ReadFrom_loop.simps) (simp add: Let_def ReadFrom_loop.simps)
  with e show ?thesis by (auto simp: File_ReadFrom_def Let_def ReadFrom_result_def)
qed

theorem ReadFrom_loses_late_errors_witness:
  "\<exists>st. File_ReadFrom 64 0 demo_file [([1, 2, 3], Some EOF)] [demo_status sshFxFailure] =
    Returned ((3, None), demo_file\<lparr>f_offset := 7\<rparr>, st)"
  using ReadFrom_loses_late_errors [OF demo_status_result [of sshFxFailure], of 64 0 demo_file "[1, 2, 3]"] by (simp add: demo_file_def numeral_3_eq_3)

theorem ReadFrom_correct_witness:
  "\<exists>st. File_ReadFrom 64 0 demo_file [([1, 2], None), ([3], None)] (replicate 3 (demo_status 0)) = Returned ((3, None), demo_file\<lparr>f_offset := 7\<rparr>, st)"
proof -
  have "list_all (status_result sshFxOk) (replicate 3 (demo_status 0))" "Suc (length [[1, 2], [3 :: byte]]) \<le> length (replicate 3 (demo_status 0))"
    "unat (f_offset demo_file) + length (concat [[1, 2], [3 :: byte]]) < 2 ^ 64"
    using demo_status_result by (simp_all add: demo_file_def list_all_iff)
  from ReadFrom_correct [OF this, of 64 0] show ?thesis by (auto simp: demo_file_def numeral_3_eq_3)
qed

end
