(* ===== verification/Client_Download.thy ===== *)
theory Client_Download
  imports Client_File
begin

text \<open>
  \<^verbatim>\<open>WriteTo\<close> of client.go: two ways in which its result does not tell what reached the writer.
\<close>

definition to_bytes :: "bytes writer" where
  "to_bytes d out = ((length d, None), out @ d)"

definition demo_data :: "u32 \<Rightarrow> bytes \<Rightarrow> result" where
  "demo_data i d = ResPkt sshFxpData (marshalUint32 [] i @ marshalUint32 [] (of_nat (length d)) @ d)"

definition demo_eof :: "u32 \<Rightarrow> result" where
  "demo_eof i = ResPkt sshFxpStatus (marshalUint32 [] i @ marshalUint32 [] sshFxEOF @ marshalString [] [] @ marshalString [] [])"

text \<open>
  Bytes that waited for their turn are not counted. A file of six bytes is read in packets of two; the answer to the third request
  overtakes that to the second. All six bytes reach the writer in order, and \<^verbatim>\<open>WriteTo\<close> returns four.
\<close>

theorem WriteTo_undercounts:
  "case File_WriteTo 2 64 6 0 \<lparr>f_path = ''a'', f_handle = ''1'', f_offset = 0\<rparr> to_bytes []
      [demo_data 1 [1, 2], demo_data 3 [5, 6], demo_data 2 [3, 4], demo_eof 4] of
     Returned r \<Rightarrow> WriteTo_result r = (4, None) \<and> wt_w (fst r) = [1, 2, 3, 4, 5, 6]
   | _ \<Rightarrow> False"
  by code_simp

text \<open>
  A lost connection looks like the end of the file. If the connection ends, at a packet boundary, while \<^verbatim>\<open>WriteTo\<close> waits, every request in flight
  gets the connection's end-of-file error, and \<^verbatim>\<open>WriteTo\<close> returns without an error, however little of the file has been written; here,
  nothing of it.
\<close>

theorem lost_connection_ends_download:
  "\<exists>st. File_WriteTo mp mc fileSize n f wr w [ResErr EOF] = Returned (st, None) \<and> WriteTo_result (st, None) = (0, None) \<and> wt_w st = w"
proof -
  let ?st0 = "WriteTo_init (f_offset f) w n"
  let ?st1 = "WriteTo_fill mp fileSize (f_handle f) ?st0"
  have st1: "wt_inFlight ?st1 = 1" "snd (wt_err ?st1) = None" "wt_copied ?st1 = 0" "wt_w ?st1 = w"
    by (simp_all add: WriteTo_fill.simps WriteTo_init_def Let_def)
  have "WriteTo_receive mc fileSize wr (ResErr EOF) ?st1 = Some (?st1\<lparr>wt_inFlight := 0, wt_err := (0, Some EOF)\<rparr>)"
    by (simp add: WriteTo_receive_def Let_def st1)
  then have "File_WriteTo mp mc fileSize n f wr w [ResErr EOF] = Returned (?st1\<lparr>wt_inFlight := 0, wt_err := (0, Some EOF)\<rparr>, None)"
    using st1 unfolding File_WriteTo_def
    by (subst WriteTo_loop.simps) (simp add: Let_def WriteTo_init_def WriteTo_loop.simps [of _ _ _ _ _ "_\<lparr>wt_inFlight := 0, wt_err := _\<rparr>"])
  with st1 show ?thesis by (simp add: WriteTo_result_def)
qed

end
