(* ===== verification/Client_Conn.thy ===== *)
theory Client_Conn
  imports Client_File
begin

text \<open>
  The connection of a client, pkgsftp/conn.go: goroutines that dispatch requests, the goroutine that receives responses and hands each to the
  channel registered under its id, and the broadcast of an error to all that wait. Each critical section and each send on a channel is a step; a
  channel is the number of the request it was made for, and what was sent on it is a list.

  The underlying connection refuses writes once it is closed, as \<^verbatim>\<open>io.WriteCloser\<close> documents; before that a write may succeed or fail.
\<close>

subsection \<open>States and steps\<close>

text \<open>The receiving goroutine: in its loop, about to hand over a response, on its way to the broadcast (the connection is closed), broadcasting to the
  channels left, ended.\<close>

datatype recv_phase = Receiving | Delivering nat result | Failed go_error | Broadcasting go_error "nat list" | Ended go_error

text \<open>A goroutine in \<^verbatim>\<open>dispatchRequest\<close>: its request is registered, or the write has failed and the request is unregistered again.\<close>

datatype dispatch = Registered u32 nat | Unsent u32 nat go_error

record clientConn =
  inflight :: "u32 \<rightharpoonup> nat"
  wr_closed :: bool
  cc_recv :: recv_phase
  dispatching :: "dispatch set"
  channel :: "nat \<Rightarrow> result list"
  cc_nextid :: u32
  issued :: "u32 list"

definition newClientConn :: clientConn where
  "newClientConn = \<lparr>inflight = Map.empty, wr_closed = False, cc_recv = Receiving, dispatching = {}, channel = \<lambda>_. [], cc_nextid = 0, issued = []\<rparr>"

definition deliver :: "nat \<Rightarrow> result \<Rightarrow> clientConn \<Rightarrow> clientConn" where
  "deliver ch r s = s\<lparr>channel := (channel s)(ch := channel s ch @ [r])\<rparr>"

text \<open>\<^verbatim>\<open>dispatchRequest\<close>, in its parts: the request registered under the next id; the write done; the write failed and the request unregistered; the error
  sent to the request's own channel.\<close>

definition register :: "clientConn \<Rightarrow> clientConn" where
  "register s =
     (let i = cc_nextid s + 1; ch = length (issued s)
      in s\<lparr>cc_nextid := i, issued := issued s @ [i], inflight := (inflight s)(i \<mapsto> ch), dispatching := insert (Registered i ch) (dispatching s)\<rparr>)"

definition written :: "u32 \<Rightarrow> nat \<Rightarrow> clientConn \<Rightarrow> clientConn" where
  "written i ch s = s\<lparr>dispatching := dispatching s - {Registered i ch}\<rparr>"

definition unregister :: "u32 \<Rightarrow> nat \<Rightarrow> go_error \<Rightarrow> clientConn \<Rightarrow> clientConn" where
  "unregister i ch e s =
     s\<lparr>inflight := (inflight s)(i := None), dispatching := insert (Unsent i ch e) (dispatching s - {Registered i ch})\<rparr>"

definition report_unsent :: "u32 \<Rightarrow> nat \<Rightarrow> go_error \<Rightarrow> clientConn \<Rightarrow> clientConn" where
  "report_unsent i ch e s = (deliver ch (ResErr e) s)\<lparr>dispatching := dispatching s - {Unsent i ch e}\<rparr>"

text \<open>One round of \<^verbatim>\<open>recv\<close>; \<open>None\<close> is the panic on a packet too short to have an id. A receive error, and a packet under an id that nothing waits for,
  end the loop and close the connection.\<close>

definition recv_fail :: "go_error \<Rightarrow> clientConn \<Rightarrow> clientConn" where
  "recv_fail e s = s\<lparr>cc_recv := Failed e, wr_closed := True\<rparr>"

definition recv_packet :: "byte \<Rightarrow> bytes \<Rightarrow> clientConn \<Rightarrow> clientConn option" where
  "recv_packet typ data s = do {
     (sid, _) \<leftarrow> unmarshalUint32 data;
     Some (case inflight s sid of
             None \<Rightarrow> recv_fail (ErrText (''sid: '' @ decimal sid @ '' not fond'')) s
           | Some ch \<Rightarrow> s\<lparr>inflight := (inflight s)(sid := None), cc_recv := Delivering ch (ResPkt typ data)\<rparr>) }"

definition close_conn :: "clientConn \<Rightarrow> clientConn" where
  "close_conn s = s\<lparr>wr_closed := True\<rparr>"

text \<open>
  The steps. A goroutine that dispatches takes the next id (the count of requests stays below the size of the id space); a write succeeds only on an open
  connection; the listeners of a broadcast are the registered channels, in any order.
\<close>

inductive conn_step :: "clientConn \<Rightarrow> clientConn \<Rightarrow> bool" where
  dispatch: "Suc (length (issued s)) < 2 ^ 32 \<Longrightarrow> conn_step s (register s)"
| sent: "Registered i ch \<in> dispatching s \<Longrightarrow> \<not> wr_closed s \<Longrightarrow> conn_step s (written i ch s)"
| unsent: "Registered i ch \<in> dispatching s \<Longrightarrow> conn_step s (unregister i ch e s)"
| reported: "Unsent i ch e \<in> dispatching s \<Longrightarrow> conn_step s (report_unsent i ch e s)"
| received: "cc_recv s = Receiving \<Longrightarrow> recv_packet typ data s = Some s' \<Longrightarrow> conn_step s s'"
| delivered: "cc_recv s = Delivering ch r \<Longrightarrow> conn_step s ((deliver ch r s)\<lparr>cc_recv := Receiving\<rparr>)"
| failed: "cc_recv s = Receiving \<Longrightarrow> conn_step s (recv_fail e s)"
| closed: "conn_step s (close_conn s)"
| listeners: "cc_recv s = Failed e \<Longrightarrow> distinct chs \<Longrightarrow> set chs = ran (inflight s) \<Longrightarrow> conn_step s (s\<lparr>cc_recv := Broadcasting e chs\<rparr>)"
| broadcast: "cc_recv s = Broadcasting e (ch # chs) \<Longrightarrow> conn_step s ((deliver ch (ResErr e) s)\<lparr>cc_recv := Broadcasting e chs\<rparr>)"
| ended: "cc_recv s = Broadcasting e [] \<Longrightarrow> conn_step s (s\<lparr>cc_recv := Ended e\<rparr>)"

inductive conn_reachable :: "clientConn \<Rightarrow> bool" where
  start: "conn_reachable newClientConn"
| step: "conn_reachable s \<Longrightarrow> conn_step s s' \<Longrightarrow> conn_reachable s'"

subsection \<open>The invariant\<close>

fun dispatch_ch :: "dispatch \<Rightarrow> nat" where
  "dispatch_ch (Registered i ch) = ch"
| "dispatch_ch (Unsent i ch e) = ch"

fun dispatch_id :: "dispatch \<Rightarrow> u32" where
  "dispatch_id (Registered i ch) = i"
| "dispatch_id (Unsent i ch e) = i"

text \<open>A goroutine still dispatches the request; or the receiving goroutine will answer it or tell it an error.\<close>

definition busy :: "dispatch set \<Rightarrow> nat \<Rightarrow> bool" where
  "busy D ch \<longleftrightarrow> (\<exists>d \<in> D. dispatch_ch d = ch)"

fun owed :: "recv_phase \<Rightarrow> nat set \<Rightarrow> nat set" where
  "owed Receiving W = W"
| "owed (Delivering ch r) W = insert ch W"
| "owed (Failed e) W = W"
| "owed (Broadcasting e chs) W = set chs"
| "owed (Ended e) W = {}"

fun looping :: "recv_phase \<Rightarrow> bool" where
  "looping Receiving \<longleftrightarrow> True"
| "looping (Delivering ch r) \<longleftrightarrow> True"
| "looping p \<longleftrightarrow> False"

definition awaited :: "clientConn \<Rightarrow> nat set" where
  "awaited s = owed (cc_recv s) (ran (inflight s))"

definition credit :: "clientConn \<Rightarrow> nat \<Rightarrow> nat" where
  "credit s ch = of_bool (busy (dispatching s) ch) + of_bool (ch \<in> awaited s) + length (channel s ch)"

definition id_of :: "u32 list \<Rightarrow> nat \<Rightarrow> u32 \<Rightarrow> bool" where
  "id_of l ch i \<longleftrightarrow> ch < length l \<and> l ! ch = i"

definition ids_ok :: "u32 list \<Rightarrow> bool" where
  "ids_ok l \<longleftrightarrow> length l < 2 ^ 32 \<and> (\<forall>ch < length l. l ! ch = of_nat (Suc ch))"

definition answers :: "u32 list \<Rightarrow> nat \<Rightarrow> result \<Rightarrow> bool" where
  "answers l ch r \<longleftrightarrow> (case r of ResErr _ \<Rightarrow> True | ResPkt _ data \<Rightarrow> (\<exists>i rest. id_of l ch i \<and> unmarshalUint32 data = Some (i, rest)))"

definition dispatching_ok :: "u32 list \<Rightarrow> dispatch set \<Rightarrow> bool" where
  "dispatching_ok l D \<longleftrightarrow> (\<forall>d \<in> D. id_of l (dispatch_ch d) (dispatch_id d)) \<and> inj_on dispatch_ch D"

fun phase_ok :: "clientConn \<Rightarrow> recv_phase \<Rightarrow> bool" where
  "phase_ok s (Delivering ch r) \<longleftrightarrow> ch < length (issued s) \<and> ch \<notin> ran (inflight s) \<and> answers (issued s) ch r"
| "phase_ok s (Broadcasting e chs) \<longleftrightarrow> distinct chs \<and> (\<forall>ch \<in> set chs. ch < length (issued s))"
| "phase_ok s p \<longleftrightarrow> True"

definition conn_inv :: "clientConn \<Rightarrow> bool" where
  "conn_inv s \<longleftrightarrow> ids_ok (issued s) \<and> cc_nextid s = of_nat (length (issued s)) \<and>
     (\<forall>i ch. inflight s i = Some ch \<longrightarrow> id_of (issued s) ch i) \<and>
     dispatching_ok (issued s) (dispatching s) \<and>
     (looping (cc_recv s) \<or> wr_closed s) \<and> phase_ok s (cc_recv s) \<and>
     (\<forall>i ch. looping (cc_recv s) \<longrightarrow> Registered i ch \<in> dispatching s \<longrightarrow> ch \<in> awaited s \<or> channel s ch \<noteq> []) \<and>
     (\<forall>ch r. r \<in> set (channel s ch) \<longrightarrow> ch < length (issued s) \<and> answers (issued s) ch r) \<and>
     (\<forall>ch < length (issued s). 1 \<le> credit s ch \<and> credit s ch \<le> 2)"

lemma conn_invD:
  assumes "conn_inv s"
  shows "ids_ok (issued s)" "cc_nextid s = of_nat (length (issued s))" "inflight s i = Some ch \<Longrightarrow> id_of (issued s) ch i"
    "dispatching_ok (issued s) (dispatching s)" "\<not> looping (cc_recv s) \<Longrightarrow> wr_closed s" "phase_ok s (cc_recv s)"
    "looping (cc_recv s) \<Longrightarrow> Registered i ch \<in> dispatching s \<Longrightarrow> ch \<in> awaited s \<or> channel s ch \<noteq> []"
    "r \<in> set (channel s ch) \<Longrightarrow> ch < length (issued s) \<and> answers (issued s) ch r"
    "ch < length (issued s) \<Longrightarrow> 1 \<le> credit s ch \<and> credit s ch \<le> 2"
  using assms unfolding conn_inv_def by blast+

lemma conn_invI:
  assumes "ids_ok (issued s)" "cc_nextid s = of_nat (length (issued s))" "\<And>i ch. inflight s i = Some ch \<Longrightarrow> id_of (issued s) ch i"
    "dispatching_ok (issued s) (dispatching s)" "looping (cc_recv s) \<or> wr_closed s" "phase_ok s (cc_recv s)"
    "\<And>i ch. looping (cc_recv s) \<Longrightarrow> Registered i ch \<in> dispatching s \<Longrightarrow> ch \<in> awaited s \<or> channel s ch \<noteq> []"
    "\<And>ch r. r \<in> set (channel s ch) \<Longrightarrow> ch < length (issued s) \<and> answers (issued s) ch r"
    "\<And>ch. ch < length (issued s) \<Longrightarrow> 1 \<le> credit s ch \<and> credit s ch \<le> 2"
  shows "conn_inv s"
  using assms unfolding conn_inv_def by blast

lemma id_of_unique:
  assumes "ids_ok l" "id_of l ch i" "id_of l ch' i"
  shows "ch = ch'"
proof -
  from assms have "(of_nat (Suc ch) :: u32) = of_nat (Suc ch')" "ch < length l" "ch' < length l" "length l < 2 ^ 32"
    by (auto simp: ids_ok_def id_of_def simp del: of_nat_Suc)
  moreover have "unat (of_nat (Suc m) :: u32) = Suc m" if "m < length l" "length l < 2 ^ 32" for m
    using that by (simp add: unat_of_nat take_bit_nat_eq_self del: of_nat_Suc)
  ultimately show ?thesis by (metis nat.inject)
qed

lemma id_of_fun: "id_of l ch i \<Longrightarrow> id_of l ch j \<Longrightarrow> i = j"
  by (simp add: id_of_def)

lemma id_of_append: "id_of l ch i \<Longrightarrow> id_of (l @ l') ch i"
  by (simp add: id_of_def nth_append)

lemma answers_append: "answers l ch r \<Longrightarrow> answers (l @ l') ch r"
  by (auto simp: answers_def dest: id_of_append split: result.splits)

lemma busy_insert: "busy (insert d D) c \<longleftrightarrow> c = dispatch_ch d \<or> busy D c"
  by (auto simp: busy_def)

lemma busy_remove: "dispatching_ok l D \<Longrightarrow> d \<in> D \<Longrightarrow> busy (D - {d}) c \<longleftrightarrow> busy D c \<and> c \<noteq> dispatch_ch d"
  by (auto simp: busy_def dispatching_ok_def dest: inj_onD)

lemma busy_mem: "d \<in> D \<Longrightarrow> busy D (dispatch_ch d)"
  by (auto simp: busy_def)

lemma dispatching_ok_subset: "dispatching_ok l D \<Longrightarrow> D' \<subseteq> D \<Longrightarrow> dispatching_ok l D'"
  by (auto simp: dispatching_ok_def intro: inj_on_subset)

lemma dispatching_ok_mem: "dispatching_ok l D \<Longrightarrow> d \<in> D \<Longrightarrow> id_of l (dispatch_ch d) (dispatch_id d)"
  by (simp add: dispatching_ok_def)

lemma dispatching_ok_insert:
  "dispatching_ok l D \<Longrightarrow> id_of l (dispatch_ch d) (dispatch_id d) \<Longrightarrow> \<not> busy D (dispatch_ch d) \<Longrightarrow> dispatching_ok l (insert d D)"
  by (auto simp: dispatching_ok_def busy_def)

lemma ran_unregister:
  assumes "\<And>i ch. m i = Some ch \<Longrightarrow> id_of l ch i"
  shows "ran (m(i := None)) = ran m - set_option (m i)"
proof -
  have "j = i" if "m j = Some c" "m i = Some c" for j c using assms that id_of_fun by metis
  then have "(\<exists>j. j \<noteq> i \<and> m j = Some c) \<longleftrightarrow> (\<exists>j. m j = Some c) \<and> m i \<noteq> Some c" for c by metis
  then show ?thesis by (auto simp: ran_def elem_set)
qed

lemma conn_inv_new: "conn_inv newClientConn"
  by (rule conn_invI) (simp_all add: newClientConn_def ids_ok_def dispatching_ok_def)

lemma register_inv:
  assumes inv: "conn_inv s" and room: "Suc (length (issued s)) < 2 ^ 32"
  shows "conn_inv (register s)"
proof -
  let ?n = "length (issued s)" and ?s = "register s" and ?i = "of_nat (Suc (length (issued s))) :: u32"
  have "cc_nextid s + 1 = ?i" using conn_invD(2) [OF inv] by simp
  then have f: "issued ?s = issued s @ [?i]" "inflight ?s = (inflight s)(?i \<mapsto> ?n)" "cc_recv ?s = cc_recv s" "wr_closed ?s = wr_closed s"
    "dispatching ?s = insert (Registered ?i ?n) (dispatching s)" "channel ?s = channel s" "cc_nextid ?s = ?i"
    by (simp_all only: register_def Let_def) simp_all
  have ids: "ids_ok (issued s @ [?i])"
    using conn_invD(1) [OF inv] room by (auto simp: ids_ok_def nth_append less_Suc_eq simp del: of_nat_Suc)
  have new: "id_of (issued s @ [?i]) ?n ?i" by (simp add: id_of_def)
  have fresh: "\<not> id_of (issued s) ch ?i" for ch
    using id_of_unique [OF ids id_of_append new, of ch] by (auto simp: id_of_def)
  have none: "inflight s ?i = None" using fresh conn_invD(3) [OF inv] by (metis not_Some_eq)
  have ran: "ran (inflight ?s) = insert ?n (ran (inflight s))" using none by (simp add: f ran_map_upd)
  have small: "ch < ?n" if "ch \<in> ran (inflight s)" for ch
    using that conn_invD(3) [OF inv] by (auto simp: ran_def id_of_def)
  have nb: "\<not> busy (dispatching s) ?n"
    using conn_invD(4) [OF inv] by (auto simp: busy_def dispatching_ok_def id_of_def)
  have empty: "channel s ?n = []" using conn_invD(8) [OF inv, of _ ?n] by (cases "channel s ?n") auto
  have aw: "ch \<in> awaited ?s \<longleftrightarrow> ch \<in> awaited s" if "ch \<noteq> ?n" for ch
    using that by (cases "cc_recv s") (auto simp: awaited_def f(3) ran)
  have bal: "credit ?s ch = (if ch = ?n then 1 + of_bool (?n \<in> awaited ?s) else credit s ch)" for ch
    using nb empty aw by (simp add: credit_def f busy_insert)
  show ?thesis
  proof (rule conn_invI)
    show "ids_ok (issued ?s)" "cc_nextid ?s = of_nat (length (issued ?s))" using ids f by simp_all
    show "id_of (issued ?s) ch j" if "inflight ?s j = Some ch" for j ch
      using that new conn_invD(3) [OF inv] by (auto simp: f intro: id_of_append split: if_splits)
    have "dispatching_ok (issued s @ [?i]) (dispatching s)"
      using conn_invD(4) [OF inv] by (auto simp: dispatching_ok_def intro: id_of_append)
    from dispatching_ok_insert [OF this] show "dispatching_ok (issued ?s) (dispatching ?s)" using new nb by (simp add: f)
    show "looping (cc_recv ?s) \<or> wr_closed ?s" using conn_invD(5) [OF inv] f by auto
    show "phase_ok ?s (cc_recv ?s)"
      using conn_invD(6) [OF inv] by (cases "cc_recv s") (auto simp: f(1,3) ran intro: answers_append less_SucI)
    show "ch \<in> awaited ?s \<or> channel ?s ch \<noteq> []" if "looping (cc_recv ?s)" "Registered j ch \<in> dispatching ?s" for j ch
      using that conn_invD(7) [OF inv, of j ch] aw [of ch]
      by (cases "ch = ?n"; cases "cc_recv s") (auto simp: f(3,5,6) ran awaited_def)
    show "ch < length (issued ?s) \<and> answers (issued ?s) ch r" if "r \<in> set (channel ?s ch)" for ch r
      using that conn_invD(8) [OF inv, of r ch] by (auto simp: f intro: answers_append)
    show "1 \<le> credit ?s ch \<and> credit ?s ch \<le> 2" if "ch < length (issued ?s)" for ch
      using that conn_invD(9) [OF inv, of ch] by (auto simp: bal f less_Suc_eq)
  qed
qed

text \<open>The other steps leave the ids alone, and most of them the channels or the registered requests as well.\<close>

lemma frame_inv:
  assumes inv: "conn_inv s" and same: "issued s' = issued s" "cc_nextid s' = cc_nextid s" and sub: "inflight s' \<subseteq>\<^sub>m inflight s"
    and D: "dispatching_ok (issued s) (dispatching s')" and ph: "looping (cc_recv s') \<or> wr_closed s'" "phase_ok s' (cc_recv s')"
    and reg: "\<And>i ch. looping (cc_recv s') \<Longrightarrow> Registered i ch \<in> dispatching s' \<Longrightarrow> ch \<in> awaited s' \<or> channel s' ch \<noteq> []"
    and res: "\<And>ch r. r \<in> set (channel s' ch) \<Longrightarrow> r \<in> set (channel s ch) \<or> ch < length (issued s) \<and> answers (issued s) ch r"
    and bal: "\<And>ch. ch < length (issued s) \<Longrightarrow> credit s' ch = credit s ch \<or> 1 \<le> credit s' ch \<and> credit s' ch \<le> credit s ch"
  shows "conn_inv s'"
proof (rule conn_invI)
  show "id_of (issued s') ch i" if "inflight s' i = Some ch" for i ch
    using that sub conn_invD(3) [OF inv, of i ch] by (auto simp: same map_le_def dom_def)
  show "ch < length (issued s') \<and> answers (issued s') ch r" if "r \<in> set (channel s' ch)" for ch r
    using res [OF that] conn_invD(8) [OF inv, of r ch] by (auto simp: same)
  show "1 \<le> credit s' ch \<and> credit s' ch \<le> 2" if "ch < length (issued s')" for ch
    using bal [of ch] conn_invD(9) [OF inv, of ch] that by (auto simp: same)
qed (use assms conn_invD(1,2) [OF inv] in auto)

lemma written_inv:
  assumes inv: "conn_inv s" and d: "Registered i ch \<in> dispatching s" and o: "\<not> wr_closed s"
  shows "conn_inv (written i ch s)"
proof (rule frame_inv [OF inv])
  let ?s = "written i ch s"
  have l: "looping (cc_recv s)" using conn_invD(5) [OF inv] o by blast
  have aw: "awaited ?s = awaited s" by (simp add: awaited_def written_def)
  have w: "ch \<in> awaited s \<or> channel s ch \<noteq> []" by (rule conn_invD(7) [OF inv l d])
  show "credit ?s c = credit s c \<or> 1 \<le> credit ?s c \<and> credit ?s c \<le> credit s c" for c
    using w busy_remove [OF conn_invD(4) [OF inv] d, of c]
    by (cases "c = ch") (auto simp: credit_def aw, auto simp: written_def Suc_le_eq)
  show "phase_ok ?s (cc_recv ?s)" using conn_invD(6) [OF inv] by (cases "cc_recv s") (simp_all add: written_def)
  show "c \<in> awaited ?s \<or> channel ?s c \<noteq> []" if "looping (cc_recv ?s)" "Registered j c \<in> dispatching ?s" for j c
    using that conn_invD(7) [OF inv l, of j c] by (simp add: aw) (simp add: written_def)
qed (use conn_invD(4,5) [OF inv] in \<open>auto simp: written_def intro: dispatching_ok_subset\<close>)

lemma report_unsent_inv:
  assumes inv: "conn_inv s" and d: "Unsent i ch e \<in> dispatching s"
  shows "conn_inv (report_unsent i ch e s)"
proof (rule frame_inv [OF inv])
  let ?s = "report_unsent i ch e s"
  have aw: "awaited ?s = awaited s" by (simp add: awaited_def report_unsent_def deliver_def)
  show "credit ?s c = credit s c \<or> 1 \<le> credit ?s c \<and> credit ?s c \<le> credit s c" for c
    using busy_remove [OF conn_invD(4) [OF inv] d, of c] busy_mem [OF d]
    by (cases "c = ch") (auto simp: credit_def aw, auto simp: report_unsent_def deliver_def)
  show "phase_ok ?s (cc_recv ?s)" using conn_invD(6) [OF inv] by (cases "cc_recv s") (simp_all add: report_unsent_def deliver_def)
  show "c \<in> awaited ?s \<or> channel ?s c \<noteq> []" if "looping (cc_recv ?s)" "Registered j c \<in> dispatching ?s" for j c
    using that conn_invD(7) [OF inv, of j c] by (simp add: aw) (simp add: report_unsent_def deliver_def)
  show "r \<in> set (channel s c) \<or> c < length (issued s) \<and> answers (issued s) c r" if "r \<in> set (channel ?s c)" for c r
    using that dispatching_ok_mem [OF conn_invD(4) [OF inv] d]
    by (auto simp: report_unsent_def deliver_def answers_def id_of_def split: if_splits)
qed (use conn_invD(4,5) [OF inv] in \<open>auto simp: report_unsent_def deliver_def intro: dispatching_ok_subset\<close>)

lemma unregister_inv:
  assumes inv: "conn_inv s" and d: "Registered i ch \<in> dispatching s"
  shows "conn_inv (unregister i ch e s)"
proof (rule frame_inv [OF inv])
  let ?s = "unregister i ch e s"
  have idc: "id_of (issued s) ch i" using dispatching_ok_mem [OF conn_invD(4) [OF inv] d] by simp
  have fl: "c = ch" if "inflight s i = Some c" for c
    using id_of_unique [OF conn_invD(1) [OF inv] conn_invD(3) [OF inv that] idc] .
  have ran: "ran ((inflight s)(i := None)) = ran (inflight s) - set_option (inflight s i)"
    using conn_invD(3) [OF inv] by (rule ran_unregister)
  have aw: "awaited ?s \<subseteq> awaited s" "awaited s \<subseteq> insert ch (awaited ?s)"
    using fl by (cases "cc_recv s"; auto simp: awaited_def unregister_def ran)+
  have rm: "busy (dispatching s - {Registered i ch}) c \<longleftrightarrow> busy (dispatching s) c \<and> c \<noteq> ch" for c
    using busy_remove [OF conn_invD(4) [OF inv] d, of c] by simp
  have bs: "busy (dispatching ?s) c \<longleftrightarrow> busy (dispatching s) c" for c
    using rm [of c] busy_mem [OF d] by (auto simp: unregister_def busy_insert)
  have cs: "channel ?s = channel s" by (simp add: unregister_def)
  show "credit ?s c = credit s c \<or> 1 \<le> credit ?s c \<and> credit ?s c \<le> credit s c" for c
    using aw busy_mem [OF d] by (cases "c = ch") (auto simp: credit_def bs cs)
  show "phase_ok ?s (cc_recv ?s)"
    using conn_invD(6) [OF inv] by (cases "cc_recv s") (simp_all add: unregister_def ran)
  show "dispatching_ok (issued s) (dispatching ?s)"
    using dispatching_ok_insert [OF dispatching_ok_subset [OF conn_invD(4) [OF inv]], of "dispatching s - {Registered i ch}" "Unsent i ch e"] rm idc
    by (simp add: unregister_def)
  show "c \<in> awaited ?s \<or> channel ?s c \<noteq> []" if "looping (cc_recv ?s)" "Registered j c \<in> dispatching ?s" for j c
  proof -
    have l: "looping (cc_recv s)" "Registered j c \<in> dispatching s - {Registered i ch}" using that by (auto simp: unregister_def)
    then have "c \<noteq> ch" using rm [of c] busy_mem [OF l(2)] by auto
    with l conn_invD(7) [OF inv l(1), of j c] aw(2) show ?thesis by (auto simp: cs)
  qed
qed (use conn_invD(5) [OF inv] in \<open>auto simp: unregister_def map_le_def\<close>)

text \<open>Steps of the receiving goroutine: what it owes and what the channels hold, taken together, stay the same.\<close>

lemma recv_inv:
  assumes inv: "conn_inv s" and same: "issued s' = issued s" "cc_nextid s' = cc_nextid s" "dispatching s' = dispatching s"
    and sub: "inflight s' \<subseteq>\<^sub>m inflight s" and ph: "looping (cc_recv s') \<or> wr_closed s'" "phase_ok s' (cc_recv s')" "looping (cc_recv s') \<Longrightarrow> looping (cc_recv s)"
    and res: "\<And>ch r. r \<in> set (channel s' ch) \<Longrightarrow> r \<in> set (channel s ch) \<or> ch < length (issued s) \<and> answers (issued s) ch r"
    and bal: "\<And>ch. of_bool (ch \<in> awaited s') + length (channel s' ch) = of_bool (ch \<in> awaited s) + length (channel s ch)"
  shows "conn_inv s'"
proof (rule frame_inv [OF inv same(1,2) sub _ ph(1,2) _ res])
  show "dispatching_ok (issued s) (dispatching s')" using conn_invD(4) [OF inv] same by simp
  show "credit s' ch = credit s ch \<or> 1 \<le> credit s' ch \<and> credit s' ch \<le> credit s ch" for ch
    using bal [of ch] same by (simp add: credit_def)
  show "ch \<in> awaited s' \<or> channel s' ch \<noteq> []" if "looping (cc_recv s')" "Registered i ch \<in> dispatching s'" for i ch
    using conn_invD(7) [OF inv ph(3), of i ch] that bal [of ch] same by (cases "ch \<in> awaited s'") (auto split: if_splits)
qed

lemma recv_fail_inv: "conn_inv s \<Longrightarrow> cc_recv s = Receiving \<Longrightarrow> conn_inv (recv_fail e s)"
  by (rule recv_inv [of s]) (simp_all add: recv_fail_def awaited_def)

lemma recv_packet_inv:
  assumes inv: "conn_inv s" and r: "cc_recv s = Receiving" and p: "recv_packet typ data s = Some s'"
  shows "conn_inv s'"
proof -
  from p obtain sid rest where sid: "unmarshalUint32 data = Some (sid, rest)"
    and s': "s' = (case inflight s sid of None \<Rightarrow> recv_fail (ErrText (''sid: '' @ decimal sid @ '' not fond'')) s
      | Some ch \<Rightarrow> s\<lparr>inflight := (inflight s)(sid := None), cc_recv := Delivering ch (ResPkt typ data)\<rparr>)"
    by (auto simp: recv_packet_def split: Option.bind_splits)
  show ?thesis
  proof (cases "inflight s sid")
    case None
    with recv_fail_inv [OF inv r] s' show ?thesis by simp
  next
    case (Some ch)
    have ran: "ran ((inflight s)(sid := None)) = ran (inflight s) - {ch}"
      using ran_unregister [of "inflight s", OF conn_invD(3) [OF inv], of sid] Some by simp
    have "insert ch (ran (inflight s)) = ran (inflight s)" using Some by (auto simp: ran_def)
    with Some conn_invD(3) [OF inv Some] sid r show ?thesis
      by (intro recv_inv [OF inv]) (auto simp: s' awaited_def ran answers_def id_of_def map_le_def)
  qed
qed

lemma delivered_inv:
  assumes inv: "conn_inv s" and r: "cc_recv s = Delivering ch r"
  shows "conn_inv ((deliver ch r s)\<lparr>cc_recv := Receiving\<rparr>)"
  using conn_invD(6) [OF inv] r by (intro recv_inv [OF inv]) (auto simp: deliver_def awaited_def split: if_splits)

lemma broadcast_inv:
  assumes inv: "conn_inv s" and r: "cc_recv s = Broadcasting e (ch # chs)"
  shows "conn_inv ((deliver ch (ResErr e) s)\<lparr>cc_recv := Broadcasting e chs\<rparr>)"
  using conn_invD(5,6) [OF inv] r by (intro recv_inv [OF inv]) (auto simp: deliver_def awaited_def answers_def split: if_splits)

lemma listeners_inv:
  assumes inv: "conn_inv s" and r: "cc_recv s = Failed e" and chs: "distinct chs" "set chs = ran (inflight s)"
  shows "conn_inv (s\<lparr>cc_recv := Broadcasting e chs\<rparr>)"
proof -
  have "ch < length (issued s)" if "ch \<in> set chs" for ch using that chs(2) conn_invD(3) [OF inv] by (auto simp: ran_def id_of_def)
  then show ?thesis using conn_invD(5) [OF inv] r chs by (intro recv_inv [OF inv]) (auto simp: awaited_def)
qed

lemma conn_step_inv: "conn_step s s' \<Longrightarrow> conn_inv s \<Longrightarrow> conn_inv s'"
proof (induction rule: conn_step.induct)
  case (closed s)
  have "phase_ok (close_conn s) (cc_recv s)" using conn_invD(6) [OF closed] by (cases "cc_recv s") (simp_all add: close_conn_def)
  then show ?case by (intro recv_inv [OF closed]) (simp_all add: close_conn_def awaited_def)
next
  case (ended s e)
  then show ?case using conn_invD(5) [OF ended(2)] by (intro recv_inv [OF ended(2)]) (simp_all add: awaited_def)
qed (simp_all add: register_inv written_inv unregister_inv report_unsent_inv recv_packet_inv delivered_inv recv_fail_inv listeners_inv broadcast_inv)

lemma reachable_inv: "conn_reachable s \<Longrightarrow> conn_inv s"
  by (induction rule: conn_reachable.induct) (auto intro: conn_inv_new conn_step_inv)

subsection \<open>What a waiting caller gets\<close>

text \<open>
  C17: A packet that the receiving goroutine puts on the channel of a request carries the id under which that request was issued, whatever the
  interleaving of the goroutines that dispatch, of responses in any order, of failed writes and of the end of the connection.
\<close>
theorem responses_reach_their_request:
  assumes "conn_reachable s" and "ResPkt typ data \<in> set (channel s ch)"
  shows "ch < length (issued s) \<and> (\<exists>rest. unmarshalUint32 data = Some (issued s ! ch, rest))"
  using conn_invD(8) [OF reachable_inv [OF assms(1)] assms(2)] by (auto simp: answers_def id_of_def)

definition one_response :: clientConn where
  "one_response = (let s = (register newClientConn)\<lparr>inflight := Map.empty, dispatching := {}\<rparr> in s\<lparr>channel := (\<lambda>_. [])(0 := [ResPkt 101 [0, 0, 0, 1]])\<rparr>)"

lemma one_response_reachable: "conn_reachable one_response"
proof -
  let ?a = "register newClientConn" and ?r = "ResPkt 101 [0, 0, 0, 1]"
  let ?b = "written 1 0 ?a" and ?c = "(written 1 0 (register newClientConn))\<lparr>inflight := Map.empty, cc_recv := Delivering 0 (ResPkt 101 [0, 0, 0, 1])\<rparr>"
  have a: "conn_reachable ?a" by (rule conn_reachable.step [OF start dispatch]) (simp add: newClientConn_def)
  have b: "conn_reachable ?b" by (rule conn_reachable.step [OF a sent]) (simp_all add: register_def newClientConn_def Let_def)
  have p: "recv_packet 101 [0, 0, 0, 1] ?b = Some ?c"
    by (simp add: recv_packet_def written_def register_def newClientConn_def Let_def)
  have c: "conn_reachable ?c" by (rule conn_reachable.step [OF b received [OF _ p]]) (simp add: written_def register_def newClientConn_def Let_def)
  have "conn_reachable ((deliver 0 ?r ?c)\<lparr>cc_recv := Receiving\<rparr>)" by (rule conn_reachable.step [OF c delivered]) simp
  moreover have "(deliver 0 ?r ?c)\<lparr>cc_recv := Receiving\<rparr> = one_response"
    by (simp add: one_response_def deliver_def written_def register_def newClientConn_def Let_def fun_eq_iff)
  ultimately show ?thesis by simp
qed

theorem responses_reach_their_request_witness:
  "0 < length (issued one_response) \<and> (\<exists>rest. unmarshalUint32 [0, 0, 0, 1] = Some (issued one_response ! 0, rest))"
  by (rule responses_reach_their_request [OF one_response_reachable, of 101]) (simp add: one_response_def Let_def)

text \<open>
  C16: A request never has more than two results sent to it, so that a send on its channel, which has room for two, never blocks the receiving
  goroutine or a broadcast; and once the receiving goroutine has ended and no goroutine is dispatching, every request that was ever issued has
  been told something: its response, or an error. No caller waits forever on a connection that has ended.
\<close>
theorem no_caller_waits_forever:
  assumes "conn_reachable s" and "ch < length (issued s)"
  shows "length (channel s ch) \<le> 2 \<and> (cc_recv s = Ended e \<longrightarrow> dispatching s = {} \<longrightarrow> channel s ch \<noteq> [])"
  using conn_invD(9) [OF reachable_inv [OF assms(1)] assms(2)] by (auto simp: credit_def awaited_def busy_def)

definition lost_request :: clientConn where
  "lost_request = (register newClientConn)\<lparr>inflight := Map.empty, dispatching := {}, wr_closed := True, cc_recv := Ended EOF,
     channel := (\<lambda>_. [])(0 := [ResErr EOF, ResErr (ErrText ''closed'')])\<rparr>"

lemma lost_request_reachable: "conn_reachable lost_request"
proof -
  let ?a = "register newClientConn"
  let ?b = "recv_fail EOF ?a"
  let ?c = "?b\<lparr>cc_recv := Broadcasting EOF [0]\<rparr>"
  let ?d = "(deliver 0 (ResErr EOF) ?c)\<lparr>cc_recv := Broadcasting EOF []\<rparr>"
  let ?e = "?d\<lparr>cc_recv := Ended EOF\<rparr>"
  let ?f = "unregister 1 0 (ErrText ''closed'') ?e"
  note defs = unregister_def deliver_def recv_fail_def register_def newClientConn_def Let_def
  have a: "conn_reachable ?a" by (rule conn_reachable.step [OF start dispatch]) (simp add: newClientConn_def)
  have b: "conn_reachable ?b" by (rule conn_reachable.step [OF a failed]) (simp add: defs)
  have c: "conn_reachable ?c" by (rule conn_reachable.step [OF b listeners]) (simp_all add: defs)
  have d: "conn_reachable ?d" by (rule conn_reachable.step [OF c broadcast]) simp
  have e: "conn_reachable ?e" by (rule conn_reachable.step [OF d ended]) simp
  have f: "conn_reachable ?f" by (rule conn_reachable.step [OF e unsent]) (simp add: defs)
  have "conn_reachable (report_unsent 1 0 (ErrText ''closed'') ?f)" by (rule conn_reachable.step [OF f reported]) (simp add: defs)
  moreover have "report_unsent 1 0 (ErrText ''closed'') ?f = lost_request"
    by (simp add: lost_request_def report_unsent_def defs fun_eq_iff)
  ultimately show ?thesis by simp
qed

theorem no_caller_waits_forever_witness:
  "length (channel lost_request 0) \<le> 2 \<and> channel lost_request 0 \<noteq> []"
  using no_caller_waits_forever [OF lost_request_reachable, of 0 EOF]
  by (simp add: lost_request_def register_def newClientConn_def Let_def)

end
