(* ===== verification/Glob_Match.thy ===== *)
theory Glob_Match
  imports Client_Ops
begin

text \<open>
  Shell patterns of the client library (\<^verbatim>\<open>match.go\<close>): the scanner of chunks, the matcher of a chunk, and \<^verbatim>\<open>Glob\<close>, which walks the directories of the
  server. Strings are lists of bytes, as in Go; \<^verbatim>\<open>utf8.DecodeRuneInString\<close> is written out. \<^verbatim>\<open>Match\<close> itself calls \<^verbatim>\<open>path.Match\<close>
  of the standard library, whose loop (of Go 1.14, the version the module asks for) runs over the same two helpers.
  A step that could panic (an index into an empty string) is the value \<open>None\<close>.
\<close>

subsection \<open>Runes\<close>

abbreviation RuneError :: nat where "RuneError \<equiv> 65533"

definition is_cont :: "nat \<Rightarrow> nat \<Rightarrow> char \<Rightarrow> bool" where
  "is_cont lo hi c = (lo \<le> of_char c \<and> of_char c \<le> hi)"

text \<open>The range that the second byte of a sequence must be in, by its first byte.\<close>

definition second_range :: "nat \<Rightarrow> nat \<times> nat" where
  "second_range b = (if b = 224 then (160, 191) else if b = 237 then (128, 159) else if b = 240 then (144, 191) else if b = 244 then (128, 143) else (128, 191))"

definition DecodeRuneInString :: "string \<Rightarrow> nat \<times> nat" where
  "DecodeRuneInString s =
     (case s of
        [] \<Rightarrow> (RuneError, 0)
      | c # cs \<Rightarrow>
          let b = of_char c; (lo, hi) = second_range b
          in if b < 128 then (b, 1)
             else if 194 \<le> b \<and> b \<le> 223 then
               (case cs of c1 # _ \<Rightarrow> if is_cont lo hi c1 then ((b - 192) * 64 + (of_char c1 - 128), 2) else (RuneError, 1) | [] \<Rightarrow> (RuneError, 1))
             else if 224 \<le> b \<and> b \<le> 239 then
               (case cs of
                  c1 # c2 # _ \<Rightarrow> if is_cont lo hi c1 \<and> is_cont 128 191 c2 then ((b - 224) * 4096 + (of_char c1 - 128) * 64 + (of_char c2 - 128), 3)
                                  else (RuneError, 1)
                | _ \<Rightarrow> (RuneError, 1))
             else if 240 \<le> b \<and> b \<le> 244 then
               (case cs of
                  c1 # c2 # c3 # _ \<Rightarrow> if is_cont lo hi c1 \<and> is_cont 128 191 c2 \<and> is_cont 128 191 c3
                     then ((b - 240) * 262144 + (of_char c1 - 128) * 4096 + (of_char c2 - 128) * 64 + (of_char c3 - 128), 4)
                     else (RuneError, 1)
                | _ \<Rightarrow> (RuneError, 1))
             else (RuneError, 1))"

subsection \<open>Chunks\<close>

definition isPathSeparator :: "char \<Rightarrow> bool" where
  "isPathSeparator c = ([c] = ''/'')"

abbreviation backslash :: char where "backslash \<equiv> CHR 0x5C"

text \<open>The loop \<^verbatim>\<open>Scan\<close>: the chunk that ends at the first star outside brackets, and the rest. The flag is \<^verbatim>\<open>inrange\<close>.\<close>

fun scan_to :: "bool \<Rightarrow> string \<Rightarrow> string \<times> string" where
  "scan_to inrange [] = ([], [])"
| "scan_to inrange (c # cs) =
     (if c = backslash then
        (case cs of
           [] \<Rightarrow> ([c], [])
         | d # ds \<Rightarrow> let (chunk, rest) = scan_to inrange ds in (c # d # chunk, rest))
      else if c = CHR ''*'' \<and> \<not> inrange then ([], c # cs)
      else let (chunk, rest) = scan_to (if c = CHR ''['' then True else if c = CHR '']'' then False else inrange) cs in (c # chunk, rest))"

definition scanChunk :: "string \<Rightarrow> bool \<times> string \<times> string" where
  "scanChunk pattern =
     (let (chunk, rest) = scan_to False (dropWhile (\<lambda>c. c = CHR ''*'') pattern)
      in (pattern \<noteq> [] \<and> hd pattern = CHR ''*'', chunk, rest))"

text \<open>A character of a class: the rune, the rest, the error (the rest is set with it, as in the code).\<close>

definition getEsc :: "string \<Rightarrow> nat \<times> string \<times> go_error option" where
  "getEsc chunk =
     (if chunk = [] \<or> hd chunk = CHR ''-'' \<or> hd chunk = CHR '']'' then (0, [], Some ErrBadPattern)
      else let esc = (hd chunk = backslash); chunk = (if esc then tl chunk else chunk)
           in if esc \<and> chunk = [] then (0, [], Some ErrBadPattern)
              else let (r, n) = DecodeRuneInString chunk; nchunk = drop n chunk
                   in (r, nchunk, if r = RuneError \<and> n = 1 \<or> nchunk = [] then Some ErrBadPattern else None))"

lemma DecodeRune_width: "s \<noteq> [] \<Longrightarrow> 0 < snd (DecodeRuneInString s)"
  by (auto simp: DecodeRuneInString_def Let_def split: list.splits prod.splits)

lemma getEsc_shorter: "getEsc chunk = (r, rest, None) \<Longrightarrow> length rest < length chunk \<and> rest \<noteq> []"
proof -
  assume a: "getEsc chunk = (r, rest, None)"
  let ?c = "if hd chunk = backslash then tl chunk else chunk"
  have n: "chunk \<noteq> []" "?c \<noteq> []" and r: "rest = drop (snd (DecodeRuneInString ?c)) ?c" "rest \<noteq> []"
    using a by (auto simp: getEsc_def Let_def split: if_splits prod.splits)
  have "length ?c \<le> length chunk" by simp
  moreover have "length rest < length ?c" using n(2) r DecodeRune_width [OF n(2)] by simp
  ultimately show ?thesis using r(2) by linarith
qed

text \<open>
  The loop over the ranges of a class, for the rune \<open>r\<close>: whether one of them has it, and the chunk after the closing bracket.
\<close>

function class_loop :: "nat \<Rightarrow> nat \<Rightarrow> bool \<Rightarrow> string \<Rightarrow> (go_error + bool \<times> string) option" where
  "class_loop r nrange match chunk =
     (if chunk \<noteq> [] \<and> hd chunk = CHR '']'' \<and> nrange > 0 then Some (Inr (match, tl chunk))
      else case getEsc chunk of
        (_, _, Some e) \<Rightarrow> Some (Inl e)
      | (lo, chunk', None) \<Rightarrow>
          (case chunk' of
             [] \<Rightarrow> None
           | c # cs \<Rightarrow>
               if c = CHR ''-'' then
                 (case getEsc cs of
                    (_, _, Some e) \<Rightarrow> Some (Inl e)
                  | (hi, chunk'', None) \<Rightarrow> class_loop r (Suc nrange) (match \<or> lo \<le> r \<and> r \<le> hi) chunk'')
               else class_loop r (Suc nrange) (match \<or> lo \<le> r \<and> r \<le> lo) chunk'))"
  by pat_completeness auto
termination
  by (relation "measure (\<lambda>(_, _, _, chunk). length chunk)") (auto dest!: getEsc_shorter [OF sym])

declare class_loop.simps [simp del]

lemma class_loop_shorter: "class_loop r n m chunk = Some (Inr (m', rest)) \<Longrightarrow> length rest < length chunk"
proof (induction r n m chunk rule: class_loop.induct)
  case (1 r n m chunk)
  show ?case
  proof (cases "chunk \<noteq> [] \<and> hd chunk = CHR '']'' \<and> n > 0")
    case True
    then show ?thesis using "1.prems" by (auto simp: class_loop.simps [of r n m chunk])
  next
    case False
    then obtain lo c cs where g: "getEsc chunk = (lo, c # cs, None)"
      using "1.prems" by (auto simp: class_loop.simps [of r n m chunk] split: prod.splits option.splits list.splits)
    show ?thesis
    proof (cases "c = CHR ''-''")
      case True
      then obtain hi d where d: "getEsc cs = (hi, d, None)" "class_loop r (Suc n) (m \<or> lo \<le> r \<and> r \<le> hi) d = Some (Inr (m', rest))"
        using False g "1.prems" by (auto simp: class_loop.simps [of r n m chunk] split: prod.splits option.splits)
      have "length rest < length d" using "1.IH"(1) [OF False g [symmetric] refl refl refl True d(1) [symmetric] refl refl d(2)] .
      then show ?thesis using getEsc_shorter [OF g] getEsc_shorter [OF d(1)] by simp
    next
      case nd: False
      then have d: "class_loop r (Suc n) (m \<or> lo \<le> r \<and> r \<le> lo) (c # cs) = Some (Inr (m', rest))"
        using False g "1.prems" by (auto simp: class_loop.simps [of r n m chunk])
      have "length rest < length (c # cs)" using "1.IH"(2) [OF False g [symmetric] refl refl refl nd d] .
      then show ?thesis using getEsc_shorter [OF g] by simp
    qed
  qed
qed

text \<open>The results are the remainder, \<^verbatim>\<open>ok\<close> and the error, as the code returns them.\<close>

abbreviation mismatch :: "string \<times> bool \<times> go_error option" where "mismatch \<equiv> ([], False, None)"

abbreviation bad_pattern :: "go_error \<Rightarrow> string \<times> bool \<times> go_error option" where "bad_pattern e \<equiv> ([], False, Some e)"

function matchChunk :: "string \<Rightarrow> string \<Rightarrow> (string \<times> bool \<times> go_error option) option" where
  "matchChunk [] s = Some (s, True, None)"
| "matchChunk (c # chunk) [] = Some mismatch"
| "matchChunk (c # chunk) (b # s) =
     (if c = CHR ''['' then
        (if chunk = [] then Some (bad_pattern ErrBadPattern)
         else let (r, n) = DecodeRuneInString (b # s); negated = (hd chunk = CHR ''^'')
              in case class_loop r 0 False (if negated then tl chunk else chunk) of
                   None \<Rightarrow> None
                 | Some (Inl e) \<Rightarrow> Some (bad_pattern e)
                 | Some (Inr (match, chunk')) \<Rightarrow> if match = negated then Some mismatch else matchChunk chunk' (drop n (b # s)))
      else if c = CHR ''?'' then
        (if isPathSeparator b then Some mismatch else matchChunk chunk (drop (snd (DecodeRuneInString (b # s))) (b # s)))
      else if c = backslash then
        (case chunk of
           [] \<Rightarrow> Some (bad_pattern ErrBadPattern)
         | d # chunk' \<Rightarrow> if d \<noteq> b then Some mismatch else matchChunk chunk' s)
      else if c \<noteq> b then Some mismatch else matchChunk chunk s)"
  by pat_completeness auto
termination
  by (relation "measure (\<lambda>(chunk, _). length chunk)") (auto dest!: class_loop_shorter split: if_splits)

subsection \<open>Matching\<close>

text \<open>\<^verbatim>\<open>path.Match\<close>: a star tries the chunk after it at each place of the name that is reached without a slash.\<close>

fun star_loop :: "string \<Rightarrow> bool \<Rightarrow> string \<Rightarrow> (go_error + string option) option" where
  "star_loop chunk last_chunk [] = Some (Inr None)"
| "star_loop chunk last_chunk (c # name) =
     (if c = slash then Some (Inr None)
      else case matchChunk chunk name of
        None \<Rightarrow> None
      | Some (t, ok, err) \<Rightarrow>
          if ok then (if last_chunk \<and> t \<noteq> [] then star_loop chunk last_chunk name else Some (Inr (Some t)))
          else (case err of Some e \<Rightarrow> Some (Inl e) | None \<Rightarrow> star_loop chunk last_chunk name))"

lemma scan_to_append: "scan_to b p = (chunk, rest) \<Longrightarrow> chunk @ rest = p"
proof (induction b p arbitrary: chunk rule: scan_to.induct)
  case (2 b c cs)
  then show ?case by (cases cs) (auto simp: Let_def split: prod.splits if_splits)
qed simp

lemma scanChunk_shorter:
  assumes "p \<noteq> []" and "scanChunk p = (star, chunk, rest)"
  shows "length rest < length p"
proof -
  let ?q = "dropWhile (\<lambda>c. c = CHR ''*'') p"
  have q: "chunk @ rest = ?q" "(chunk, rest) = scan_to False ?q" using assms scan_to_append [of False ?q] by (auto simp: scanChunk_def Let_def split: prod.splits)
  have "length ?q = length chunk + length rest" by (simp flip: q(1))
  moreover have "length ?q < length p" if "hd p = CHR ''*''"
    using that assms(1) length_dropWhile_le [of "\<lambda>c. c = CHR ''*''" "tl p"] by (cases p) auto
  moreover have "0 < length chunk" if "hd p \<noteq> CHR ''*''"
    using that assms(1) q(2) by (cases p) (auto split: if_splits list.splits prod.splits)
  moreover have "length ?q \<le> length p" by (rule length_dropWhile_le)
  ultimately show ?thesis by (cases "hd p = CHR ''*''") linarith+
qed

function path_Match :: "string \<Rightarrow> string \<Rightarrow> (go_error + bool) option" where
  "path_Match pattern name =
     (if pattern = [] then Some (Inr (name = []))
      else case scanChunk pattern of (star, chunk, pattern') \<Rightarrow>
        if star \<and> chunk = [] then Some (Inr (slash \<notin> set name))
        else (case matchChunk chunk name of
          None \<Rightarrow> None
        | Some (t, ok, err) \<Rightarrow>
            if ok \<and> (t = [] \<or> pattern' \<noteq> []) then path_Match pattern' t
            else (case err of
              Some e \<Rightarrow> Some (Inl e)
            | None \<Rightarrow>
                if star then
                  (case star_loop chunk (pattern' = []) name of
                     None \<Rightarrow> None
                   | Some (Inl e) \<Rightarrow> Some (Inl e)
                   | Some (Inr None) \<Rightarrow> Some (Inr False)
                   | Some (Inr (Some t)) \<Rightarrow> path_Match pattern' t)
                else Some (Inr False))))"
  by pat_completeness auto
termination
  by (relation "measure (\<lambda>(pattern, _). length pattern)") (auto dest!: scanChunk_shorter [OF _ sym])

declare path_Match.simps [simp del]

definition Match :: "string \<Rightarrow> string \<Rightarrow> (go_error + bool) option" where
  "Match pattern name = path_Match pattern name"

subsection \<open>Directories\<close>

text \<open>\<^verbatim>\<open>Split\<close> counts down to the last separator.\<close>

definition match_Split :: "string \<Rightarrow> string \<times> string" where
  "match_Split path = (let i = length (dropWhile (\<lambda>c. \<not> isPathSeparator c) (rev path)) in (take i path, drop i path))"

definition hasMeta :: "string \<Rightarrow> bool" where
  "hasMeta path = (\<exists>c \<in> set path. c \<in> set ''*?['')"

definition cleanGlobPath :: "string \<Rightarrow> string" where
  "cleanGlobPath path = (if path = [] then ''.'' else if path = ''/'' then path else butlast path)"

text \<open>The names of a directory that match, added to the matches so far.\<close>

fun glob_names :: "string \<Rightarrow> string \<Rightarrow> fileInfo list \<Rightarrow> string list \<Rightarrow> (string list \<times> go_error option) option" where
  "glob_names dir pattern [] m = Some (m, None)"
| "glob_names dir pattern (n # names) m =
     (case Match pattern (fi_name n) of
        None \<Rightarrow> None
      | Some (Inl e) \<Rightarrow> Some (m, Some e)
      | Some (Inr matched) \<Rightarrow> glob_names dir pattern names (if matched then m @ [Join [dir, fi_name n]] else m))"

text \<open>As for \<^verbatim>\<open>ReadDir\<close>, the outer \<open>None\<close> is a listing that never ends, the inner one a panic.\<close>

definition Client_glob :: "'s conn \<Rightarrow> string \<Rightarrow> string \<Rightarrow> string list \<Rightarrow> 's Client \<Rightarrow>
    ((string list \<times> go_error option) \<times> 's Client) option option" where
  "Client_glob cn dir pattern matches c =
     (case Client_Stat cn dir c of
        None \<Rightarrow> Some None
      | Some ((_, Some _), c) \<Rightarrow> Some (Some ((matches, None), c))
      | Some ((None, None), c) \<Rightarrow> Some None
      | Some ((Some fi, None), c) \<Rightarrow>
          if \<not> IsDir fi then Some (Some ((matches, None), c))
          else (case Client_ReadDir cn dir c of
             None \<Rightarrow> None
           | Some None \<Rightarrow> Some None
           | Some (Some ((_, Some _), c)) \<Rightarrow> Some (Some ((matches, None), c))
           | Some (Some ((names, None), c)) \<Rightarrow>
               (case glob_names dir pattern names matches of None \<Rightarrow> Some None | Some r \<Rightarrow> Some (Some (r, c)))))"

text \<open>The loop over the directories that the pattern's directory part matched.\<close>

fun glob_dirs :: "'s conn \<Rightarrow> string \<Rightarrow> string list \<Rightarrow> string list \<Rightarrow> 's Client \<Rightarrow>
    ((string list \<times> go_error option) \<times> 's Client) option option" where
  "glob_dirs cn pattern [] matches c = Some (Some ((matches, None), c))"
| "glob_dirs cn pattern (d # ds) matches c =
     (case Client_glob cn d pattern matches c of
        None \<Rightarrow> None
      | Some None \<Rightarrow> Some None
      | Some (Some ((m, Some e), c)) \<Rightarrow> Some (Some ((m, Some e), c))
      | Some (Some ((m, None), c)) \<Rightarrow> glob_dirs cn pattern ds m c)"

lemma match_Split_append: "fst (match_Split p) @ snd (match_Split p) = p"
  by (simp add: match_Split_def Let_def)

lemma glob_dir_shorter:
  assumes "hasMeta (cleanGlobPath (fst (match_Split p)))"
  shows "length (cleanGlobPath (fst (match_Split p))) < length p"
proof -
  let ?d = "fst (match_Split p)"
  have "?d \<noteq> []" "?d \<noteq> ''/''" using assms by (auto simp: cleanGlobPath_def hasMeta_def)
  then have "length (cleanGlobPath ?d) < length ?d" by (simp add: cleanGlobPath_def)
  also have "length ?d \<le> length p" by (simp add: match_Split_def Let_def)
  finally show ?thesis .
qed

function Glob :: "'s conn \<Rightarrow> string \<Rightarrow> 's Client \<Rightarrow> ((string list \<times> go_error option) \<times> 's Client) option option" where
  "Glob cn pattern c =
     (if \<not> hasMeta pattern then
        (case Client_Lstat cn pattern c of
           None \<Rightarrow> Some None
         | Some ((_, Some _), c) \<Rightarrow> Some (Some (([], None), c))
         | Some ((None, None), c) \<Rightarrow> Some None
         | Some ((Some fi, None), c) \<Rightarrow> Some (Some (([Join [cleanGlobPath (fst (match_Split pattern)), fi_name fi]], None), c)))
      else let dir = cleanGlobPath (fst (match_Split pattern)); filepat = snd (match_Split pattern)
        in if \<not> hasMeta dir then Client_glob cn dir filepat [] c
           else if dir = pattern then Some (Some (([], Some ErrBadPattern), c))
           else (case Glob cn dir c of
                   None \<Rightarrow> None
                 | Some None \<Rightarrow> Some None
                 | Some (Some ((_, Some e), c)) \<Rightarrow> Some (Some (([], Some e), c))
                 | Some (Some ((m, None), c)) \<Rightarrow> glob_dirs cn filepat m [] c))"
  by pat_completeness auto
termination
  by (relation "measure (\<lambda>(_, pattern, _). length pattern)") (auto simp: glob_dir_shorter)

declare Glob.simps [simp del]

end
