(* ===== verification/Glob_Laws.thy ===== *)
theory Glob_Laws
  imports Glob_Match
begin

text \<open>
  What a pattern means, and that the matcher and \<^verbatim>\<open>Glob\<close> do it. A pattern is parsed into terms by the grammar of the comment of \<^verbatim>\<open>Match\<close>; a list of
  terms has a language, in which a star stands for any string without a slash. The matcher takes for each star the first place at which the next
  chunk fits and never comes back; the theorems say when that is enough.
\<close>

subsection \<open>Patterns as terms\<close>

datatype glob_term = Star | Any | Class bool "(nat \<times> nat) list" | Lit char

text \<open>The ranges of a class up to its closing bracket; the first item cannot be the bracket.\<close>

function parse_ranges :: "bool \<Rightarrow> string \<Rightarrow> ((nat \<times> nat) list \<times> string) option" where
  "parse_ranges first s =
     (if s \<noteq> [] \<and> hd s = CHR '']'' \<and> \<not> first then Some ([], tl s)
      else case getEsc s of
        (_, _, Some _) \<Rightarrow> None
      | (lo, s', None) \<Rightarrow>
          if hd s' = CHR ''-'' then
            (case getEsc (tl s') of
               (_, _, Some _) \<Rightarrow> None
             | (hi, s'', None) \<Rightarrow> map_option (\<lambda>(rs, t). ((lo, hi) # rs, t)) (parse_ranges False s''))
          else map_option (\<lambda>(rs, t). ((lo, lo) # rs, t)) (parse_ranges False s'))"
  by pat_completeness auto
termination
  by (relation "measure (\<lambda>(_, s). length s)") (auto dest!: getEsc_shorter [OF sym])

declare parse_ranges.simps [simp del]

definition in_ranges :: "nat \<Rightarrow> (nat \<times> nat) list \<Rightarrow> bool" where
  "in_ranges r rs = list_ex (\<lambda>(lo, hi). lo \<le> r \<and> r \<le> hi) rs"

lemma class_loop_parse:
  "class_loop r n m s =
     (case parse_ranges (n = 0) s of None \<Rightarrow> Some (Inl ErrBadPattern) | Some (rs, t) \<Rightarrow> Some (Inr (m \<or> in_ranges r rs, t)))"
proof (induction r n m s rule: class_loop.induct)
  case (1 r n m s)
  have bad: "e = ErrBadPattern" if "getEsc x = (y, z, Some e)" for x y z e using that by (auto simp: getEsc_def Let_def split: if_splits prod.splits)
  note eqs = class_loop.simps [of r n m s] parse_ranges.simps [of "n = 0" s]
  show ?case
  proof (cases "s \<noteq> [] \<and> hd s = CHR '']'' \<and> n > 0")
    case True
    then show ?thesis by (simp add: eqs parse_ranges.simps [of False s] in_ranges_def)
  next
    case False
    obtain lo s' err where g: "getEsc s = (lo, s', err)" by (metis prod.exhaust)
    show ?thesis
    proof (cases err)
      case (Some e)
      then show ?thesis using False g bad [of s lo s' e] by (auto simp: eqs)
    next
      case None
      then obtain c cs where s': "s' = c # cs" using getEsc_shorter g by (metis list.exhaust)
      have g': "getEsc s = (lo, c # cs, None)" using g None s' by simp
      show ?thesis
      proof (cases "c = CHR ''-''")
        case minus: True
        obtain hi t err' where h: "getEsc cs = (hi, t, err')" by (metis prod.exhaust)
        show ?thesis
        proof (cases err')
          case (Some e)
          then show ?thesis using False g' minus h bad [of cs hi t e] by (auto simp: eqs)
        next
          case None
          have "class_loop r (Suc n) (m \<or> lo \<le> r \<and> r \<le> hi) t =
              (case parse_ranges False t of None \<Rightarrow> Some (Inl ErrBadPattern) | Some (rs, t) \<Rightarrow> Some (Inr ((m \<or> lo \<le> r \<and> r \<le> hi) \<or> in_ranges r rs, t)))"
            using "1.IH"(1) [OF False g' [symmetric] refl refl refl minus h [symmetric] refl None] by simp
          then show ?thesis using False g' minus h None by (auto simp: eqs in_ranges_def split: option.splits)
        qed
      next
        case other: False
        have "class_loop r (Suc n) (m \<or> lo \<le> r \<and> r \<le> lo) (c # cs) =
            (case parse_ranges False (c # cs) of None \<Rightarrow> Some (Inl ErrBadPattern) | Some (rs, t) \<Rightarrow> Some (Inr ((m \<or> lo \<le> r \<and> r \<le> lo) \<or> in_ranges r rs, t)))"
          using "1.IH"(2) [OF False g' [symmetric] refl refl refl other] by simp
        then show ?thesis using False g' other by (auto simp: eqs in_ranges_def split: option.splits)
      qed
    qed
  qed
qed

lemma parse_ranges_shorter: "parse_ranges first s = Some (rs, t) \<Longrightarrow> length t < length s"
  using class_loop_shorter [of 0 "if first then 0 else 1" False s "in_ranges 0 rs" t] by (cases first) (simp_all add: class_loop_parse)

function parse_pattern :: "string \<Rightarrow> glob_term list option" where
  "parse_pattern [] = Some []"
| "parse_pattern (c # p) =
     (if c = CHR ''*'' then map_option ((#) Star) (parse_pattern p)
      else if c = CHR ''['' then
        (let negated = (p \<noteq> [] \<and> hd p = CHR ''^'')
         in case parse_ranges True (if negated then tl p else p) of
              None \<Rightarrow> None
            | Some (rs, p') \<Rightarrow> map_option ((#) (Class negated rs)) (parse_pattern p'))
      else if c = CHR ''?'' then map_option ((#) Any) (parse_pattern p)
      else if c = backslash then (case p of [] \<Rightarrow> None | d # p' \<Rightarrow> map_option ((#) (Lit d)) (parse_pattern p'))
      else map_option ((#) (Lit c)) (parse_pattern p))"
  by pat_completeness auto
termination
  by (relation "measure length") (auto dest!: parse_ranges_shorter split: if_splits)

subsection \<open>The language of a pattern\<close>

text \<open>A term other than a star takes one rune or one byte from the front.\<close>

fun term_step :: "glob_term \<Rightarrow> string \<Rightarrow> string option" where
  "term_step t [] = None"
| "term_step Star (b # s) = None"
| "term_step Any (b # s) = (if b = slash then None else Some (drop (snd (DecodeRuneInString (b # s))) (b # s)))"
| "term_step (Class negated rs) (b # s) =
     (case DecodeRuneInString (b # s) of (r, n) \<Rightarrow> if in_ranges r rs = negated then None else Some (drop n (b # s)))"
| "term_step (Lit c) (b # s) = (if c = b then Some s else None)"

fun glob_lang :: "glob_term list \<Rightarrow> string \<Rightarrow> bool" where
  "glob_lang [] s = (s = [])"
| "glob_lang (t # ts) s =
     (if t = Star then (\<exists>i \<in> set [0 ..< Suc (length s)]. slash \<notin> set (take i s) \<and> glob_lang ts (drop i s))
      else case term_step t s of None \<Rightarrow> False | Some s' \<Rightarrow> glob_lang ts s')"

text \<open>A run of terms without stars.\<close>

fun match_terms :: "glob_term list \<Rightarrow> string \<Rightarrow> string option" where
  "match_terms [] s = Some s"
| "match_terms (t # ts) s = (case term_step t s of None \<Rightarrow> None | Some s' \<Rightarrow> match_terms ts s')"

lemma matchChunk_terms:
  "parse_pattern chunk = Some ts \<Longrightarrow> Star \<notin> set ts \<Longrightarrow>
   matchChunk chunk s = Some (case match_terms ts s of None \<Rightarrow> mismatch | Some t \<Rightarrow> (t, True, None))"
proof (induction chunk s arbitrary: ts rule: matchChunk.induct)
  case (2 c chunk)
  then show ?case by (cases ts) (auto simp: Let_def split: if_splits option.splits prod.splits list.splits)
next
  case (3 c chunk b s)
  consider (cls) "c = CHR ''[''" | (any) "c = CHR ''?''" | (esc) "c = backslash" | (lit) "c \<noteq> CHR ''[''" "c \<noteq> CHR ''?''" "c \<noteq> backslash" by blast
  then show ?case
  proof cases
    case cls
    let ?neg = "chunk \<noteq> [] \<and> hd chunk = CHR ''^''"
    obtain rs p' ts' where p: "parse_ranges True (if ?neg then tl chunk else chunk) = Some (rs, p')" "parse_pattern p' = Some ts'" "ts = Class ?neg rs # ts'"
      using "3.prems" cls by (auto simp: Let_def split: option.splits)
    have ne: "chunk \<noteq> []" using parse_ranges_shorter [OF p(1)] by auto
    obtain r n where d: "DecodeRuneInString (b # s) = (r, n)" by (metis prod.exhaust)
    have cl: "class_loop r 0 False (if hd chunk = CHR ''^'' then tl chunk else chunk) = Some (Inr (in_ranges r rs, p'))"
      using p(1) ne by (simp add: class_loop_parse)
    have IH: "in_ranges r rs \<noteq> (hd chunk = CHR ''^'') \<Longrightarrow>
        matchChunk p' (drop n (b # s)) = Some (case match_terms ts' (drop n (b # s)) of None \<Rightarrow> mismatch | Some t \<Rightarrow> (t, True, None))"
      using "3.IH"(1) [OF cls ne d [symmetric] refl refl cl refl refl] p "3.prems"(2) by simp
    show ?thesis using cls ne d cl IH p(3) by auto
  next
    case any
    then show ?thesis using "3.prems" "3.IH"(2) by (auto simp: isPathSeparator_def)
  next
    case esc
    then show ?thesis using "3.prems" "3.IH"(3) by (auto split: list.splits)
  next
    case lit
    then show ?thesis using "3.prems" "3.IH"(4) by (auto split: if_splits)
  qed
qed auto

subsection \<open>The scanner and the parser\<close>

text \<open>A rune that is decoded depends on its own bytes only, and none of them is a special character unless it is alone.\<close>

abbreviation second_ok :: "char \<Rightarrow> char \<Rightarrow> bool" where "second_ok c \<equiv> is_cont (fst (second_range (of_char c))) (snd (second_range (of_char c)))"

lemma DecodeRune_range:
  "of_char c < (128 :: nat) \<Longrightarrow> DecodeRuneInString (c # cs) = (of_char c, 1)"
  "194 \<le> (of_char c :: nat) \<Longrightarrow> of_char c \<le> (223 :: nat) \<Longrightarrow> DecodeRuneInString (c # cs) =
    (case cs of c1 # _ \<Rightarrow> if second_ok c c1 then ((of_char c - 192) * 64 + (of_char c1 - 128), 2) else (RuneError, 1) | [] \<Rightarrow> (RuneError, 1))"
  "224 \<le> (of_char c :: nat) \<Longrightarrow> of_char c \<le> (239 :: nat) \<Longrightarrow> DecodeRuneInString (c # cs) =
    (case cs of c1 # c2 # _ \<Rightarrow> if second_ok c c1 \<and> is_cont 128 191 c2 then ((of_char c - 224) * 4096 + (of_char c1 - 128) * 64 + (of_char c2 - 128), 3)
       else (RuneError, 1) | _ \<Rightarrow> (RuneError, 1))"
  "240 \<le> (of_char c :: nat) \<Longrightarrow> of_char c \<le> (244 :: nat) \<Longrightarrow> DecodeRuneInString (c # cs) =
    (case cs of c1 # c2 # c3 # _ \<Rightarrow> if second_ok c c1 \<and> is_cont 128 191 c2 \<and> is_cont 128 191 c3
         then ((of_char c - 240) * 262144 + (of_char c1 - 128) * 4096 + (of_char c2 - 128) * 64 + (of_char c3 - 128), 4)
       else (RuneError, 1) | _ \<Rightarrow> (RuneError, 1))"
  "128 \<le> (of_char c :: nat) \<Longrightarrow> of_char c < (194 :: nat) \<or> (244 :: nat) < of_char c \<Longrightarrow> DecodeRuneInString (c # cs) = (RuneError, 1)"
  by (auto simp: DecodeRuneInString_def Let_def case_prod_beta)

lemma second_ok_high: "second_ok c c1 \<Longrightarrow> 128 \<le> (of_char c1 :: nat)"
  by (auto simp: is_cont_def second_range_def split: if_splits)

lemma DecodeRune_local:
  assumes "DecodeRuneInString s = (r, n)" and "s \<noteq> []" and "\<not> (r = RuneError \<and> n = 1)"
  shows "n \<le> length s \<and> DecodeRuneInString (take n s @ x) = (r, n) \<and> (n = 1 \<or> (\<forall>c \<in> set (take n s). 128 \<le> (of_char c :: nat)))"
proof -
  obtain c cs where s: "s = c # cs" using assms(2) by (cases s) auto
  have i3: "is_cont 128 191 d \<Longrightarrow> 128 \<le> (of_char d :: nat)" for d by (simp add: is_cont_def)
  let ?b = "of_char c :: nat"
  consider (a) "?b < 128" | (b) "194 \<le> ?b" "?b \<le> 223" | (c) "224 \<le> ?b" "?b \<le> 239" | (d) "240 \<le> ?b" "?b \<le> 244" | (e) "128 \<le> ?b" "?b < 194 \<or> 244 < ?b"
    by linarith
  then show ?thesis
  proof cases
    case a
    then have "n = 1" "r = ?b" using assms(1) s by (auto simp: DecodeRune_range(1))
    then show ?thesis using a s by (simp add: DecodeRune_range(1))
  next
    case b
    then obtain c1 cs' where "cs = c1 # cs'" "second_ok c c1" "n = 2" using assms(1,3) s by (auto simp: DecodeRune_range(2) split: list.splits if_splits)
    then show ?thesis using b assms(1) s second_ok_high by (simp add: DecodeRune_range(2))
  next
    case c
    then obtain c1 c2 cs' where "cs = c1 # c2 # cs'" "second_ok c c1" "is_cont 128 191 c2" "n = 3"
      using assms(1,3) s by (auto simp: DecodeRune_range(3) split: list.splits if_splits)
    then show ?thesis using c assms(1) s second_ok_high i3 by (simp add: DecodeRune_range(3))
  next
    case d
    then obtain c1 c2 c3 cs' where "cs = c1 # c2 # c3 # cs'" "second_ok c c1" "is_cont 128 191 c2" "is_cont 128 191 c3" "n = 4"
      using assms(1,3) s by (auto simp: DecodeRune_range(4) split: list.splits if_splits)
    then show ?thesis using d assms(1) s second_ok_high i3 by (simp add: DecodeRune_range(4))
  next
    case e
    then show ?thesis using assms(1,3) s DecodeRune_range(5) [of c cs] by auto
  qed
qed

text \<open>What the scanner does inside brackets, over a piece without special characters.\<close>

lemma scan_to_plain:
  assumes "\<forall>c \<in> set u. c \<noteq> backslash \<and> c \<noteq> CHR '']''"
  shows "scan_to True (u @ x) = (u @ fst (scan_to True x), snd (scan_to True x))"
  using assms by (induction u) (auto simp: Let_def split: prod.splits)

lemma getEsc_local:
  assumes "getEsc s = (r, t, None)"
  shows "\<exists>u. s = u @ t \<and> u \<noteq> [] \<and> hd u \<noteq> CHR '']'' \<and> (\<forall>x. x \<noteq> [] \<longrightarrow> getEsc (u @ x) = (r, x, None)) \<and>
    (\<forall>x. scan_to True (u @ x) = (u @ fst (scan_to True x), snd (scan_to True x)))"
proof -
  define esc where "esc = (hd s = backslash)"
  define c where "c = (if esc then tl s else s)"
  define n where "n = snd (DecodeRuneInString c)"
  define v where "v = take n c"
  have s: "s \<noteq> []" "hd s \<noteq> CHR ''-''" "hd s \<noteq> CHR '']''" "c \<noteq> []" and t: "t = drop n c" "t \<noteq> []" and d: "DecodeRuneInString c = (r, n)" "\<not> (r = RuneError \<and> n = 1)"
    using assms by (auto simp: getEsc_def Let_def n_def c_def esc_def split: if_splits prod.splits)
  have loc: "n \<le> length c" "DecodeRuneInString (v @ x) = (r, n)" "n = 1 \<or> (\<forall>e \<in> set v. 128 \<le> (of_char e :: nat))" for x
    using DecodeRune_local [OF d(1) s(4) d(2)] by (simp_all add: v_def)
  have n: "0 < n" "v \<noteq> []" "length v = n" using DecodeRune_width [OF s(4)] d(1) s(4) loc(1) by (auto simp: v_def)
  have cv: "c = v @ t" by (simp add: v_def t)
  let ?u = "if esc then backslash # v else v"
  have su: "s = ?u @ t" using s(1) cv by (cases s) (auto simp: c_def esc_def split: if_splits)
  have hu: "hd ?u \<noteq> CHR '']''" "hd ?u \<noteq> CHR ''-''" using s(2,3) su n(2) by (auto simp: hd_append split: if_splits)
  have ge: "getEsc (?u @ x) = (r, x, None)" if "x \<noteq> []" for x
  proof -
    have "hd ?u = hd s" using arg_cong [OF su, of hd] n(2) by (cases esc) simp_all
    then have h: "hd (?u @ x) = hd s" "(if hd s = backslash then tl (?u @ x) else ?u @ x) = v @ x"
      using n(2) unfolding esc_def by (simp_all add: hd_append)
    have "?u @ x \<noteq> []" "drop n (v @ x) = x" "v @ x \<noteq> []" using n by auto
    then show ?thesis unfolding getEsc_def Let_def h using s(2,3) loc(2) [of x] that d(2) n(3) by simp
  qed
  have plain: "\<forall>e \<in> set w. e \<noteq> backslash \<and> e \<noteq> CHR '']''" if "\<forall>e \<in> set w. 128 \<le> (of_char e :: nat)" for w using that by auto
  have sc: "scan_to True (?u @ x) = (?u @ fst (scan_to True x), snd (scan_to True x))" for x
  proof (cases "n = 1")
    case True
    then obtain e where e: "v = [e]" using n(3) by (metis length_0_conv length_Suc_conv One_nat_def)
    show ?thesis
    proof (cases esc)
      case True
      then show ?thesis using e by (auto simp: Let_def split: prod.splits)
    next
      case False
      have "hd s = e" using arg_cong [OF su, of hd] False e by simp
      then have "e \<noteq> backslash" "e \<noteq> CHR '']''" using False s(3) unfolding esc_def by auto
      then show ?thesis using False e scan_to_plain [of "[e]" x] by simp
    qed
  next
    case False
    then have big: "\<forall>e \<in> set v. 128 \<le> (of_char e :: nat)" using loc(3) by simp
    obtain e w where v: "v = e # w" using n(2) by (cases v) auto
    have "scan_to True (v @ x) = (v @ fst (scan_to True x), snd (scan_to True x))" "scan_to True (w @ x) = (w @ fst (scan_to True x), snd (scan_to True x))"
      using scan_to_plain [OF plain [OF big], of x] scan_to_plain [OF plain, of w x] big v by auto
    then show ?thesis by (simp add: v Let_def)
  qed
  show ?thesis using su hu n(2) ge sc by (intro exI [of _ ?u]) auto
qed

text \<open>A class ends for the scanner where it ends for the parser.\<close>

lemma parse_ranges_local:
  assumes "parse_ranges first s = Some (rs, t)"
  shows "\<exists>u. s = u @ t \<and> u \<noteq> [] \<and> (\<forall>x. parse_ranges first (u @ x) = Some (rs, x)) \<and>
    (\<forall>x. scan_to True (u @ x) = (u @ fst (scan_to False x), snd (scan_to False x)))"
  using assms
proof (induction first s arbitrary: rs rule: parse_ranges.induct)
  case (1 first s)
  note eq = parse_ranges.simps [of first s]
  show ?case
  proof (cases "s \<noteq> [] \<and> hd s = CHR '']'' \<and> \<not> first")
    case True
    then have "s = [CHR '']''] @ t" "rs = []" using "1.prems" True unfolding eq by (auto simp: neq_Nil_conv)
    then show ?thesis using True by (intro exI [of _ "[CHR '']'']"]) (auto simp: parse_ranges.simps Let_def split: prod.splits)
  next
    case False
    then obtain lo s' where g: "getEsc s = (lo, s', None)" using "1.prems" by (auto simp: eq split: prod.splits option.splits)
    then obtain u where u: "s = u @ s'" "u \<noteq> []" "hd u \<noteq> CHR '']''" "\<And>x. x \<noteq> [] \<Longrightarrow> getEsc (u @ x) = (lo, x, None)"
      "\<And>x. scan_to True (u @ x) = (u @ fst (scan_to True x), snd (scan_to True x))" using getEsc_local by blast
    obtain c cs where s': "s' = c # cs" using getEsc_shorter [OF g] by (cases s') auto
    show ?thesis
    proof (cases "c = CHR ''-''")
      case minus: True
      then obtain hi s'' rs' where h: "getEsc cs = (hi, s'', None)" "parse_ranges False s'' = Some (rs', t)" "rs = (lo, hi) # rs'"
        using "1.prems" False g s' by (auto simp: eq split: prod.splits option.splits)
      obtain v where v: "cs = v @ s''" "v \<noteq> []" "\<And>x. x \<noteq> [] \<Longrightarrow> getEsc (v @ x) = (hi, x, None)"
        "\<And>x. scan_to True (v @ x) = (v @ fst (scan_to True x), snd (scan_to True x))" using getEsc_local [OF h(1)] by blast
      obtain w where w: "s'' = w @ t" "w \<noteq> []" "\<And>x. parse_ranges False (w @ x) = Some (rs', x)"
        "\<And>x. scan_to True (w @ x) = (w @ fst (scan_to False x), snd (scan_to False x))"
        using "1.IH"(1) [OF False g [symmetric] refl refl _ _ refl refl h(2)] s' minus h(1) by auto
      have "parse_ranges first ((u @ c # v @ w) @ x) = Some (rs, x)" for x
        using u v w h(3) minus by (simp add: parse_ranges.simps [of first] hd_append)
      moreover have "scan_to True ((u @ c # v @ w) @ x) = ((u @ c # v @ w) @ fst (scan_to False x), snd (scan_to False x))" for x
        using u(5) [of "c # v @ w @ x"] v(4) [of "w @ x"] w(4) [of x] minus by (simp add: Let_def)
      ultimately show ?thesis using u(1,2) s' v(1) w(1) by (intro exI [of _ "u @ c # v @ w"]) auto
    next
      case other: False
      then obtain rs' where h: "parse_ranges False (c # cs) = Some (rs', t)" "rs = (lo, lo) # rs'"
        using "1.prems" False g s' by (auto simp: eq)
      obtain w where w: "c # cs = w @ t" "w \<noteq> []" "\<And>x. parse_ranges False (w @ x) = Some (rs', x)"
        "\<And>x. scan_to True (w @ x) = (w @ fst (scan_to False x), snd (scan_to False x))"
        using "1.IH"(2) [OF False g [symmetric] refl refl] s' other h(1) by auto
      have "hd (w @ x) \<noteq> CHR ''-''" for x using w(1,2) other by (cases w) auto
      then have "parse_ranges first ((u @ w) @ x) = Some (rs, x)" for x
        using u w h(2) by (simp add: parse_ranges.simps [of first] hd_append)
      moreover have "scan_to True ((u @ w) @ x) = ((u @ w) @ fst (scan_to False x), snd (scan_to False x))" for x
        using u(5) [of "w @ x"] w(4) [of x] by simp
      ultimately show ?thesis using u(1,2) s' w(1) by (intro exI [of _ "u @ w"]) auto
    qed
  qed
qed

text \<open>The scanner cuts a well-formed pattern at its first star: the chunk and the rest are well-formed too.\<close>

lemma scan_to_parse:
  assumes "parse_pattern p = Some ts" and "scan_to False p = (chunk, rest)"
  shows "parse_pattern chunk = Some (takeWhile (\<lambda>t. t \<noteq> Star) ts) \<and> parse_pattern rest = Some (dropWhile (\<lambda>t. t \<noteq> Star) ts)"
  using assms
proof (induction p arbitrary: ts chunk rule: parse_pattern.induct)
  case (2 c p)
  consider (star) "c = CHR ''*''" | (cls) "c = CHR ''[''" | (esc) "c = backslash" | (one) "c \<noteq> CHR ''*''" "c \<noteq> CHR ''[''" "c \<noteq> backslash" by blast
  then show ?case
  proof cases
    case star
    then show ?thesis using "2.prems" by auto
  next
    case cls
    let ?neg = "p \<noteq> [] \<and> hd p = CHR ''^''"
    obtain rs q ts' where q: "parse_ranges True (if ?neg then tl p else p) = Some (rs, q)" "parse_pattern q = Some ts'" "ts = Class ?neg rs # ts'"
      using "2.prems" cls by (auto simp: Let_def split: option.splits)
    then obtain u where u: "(if ?neg then tl p else p) = u @ q" "u \<noteq> []" "\<And>x. parse_ranges True (u @ x) = Some (rs, x)"
      "\<And>x. scan_to True (u @ x) = (u @ fst (scan_to False x), snd (scan_to False x))" using parse_ranges_local by blast
    let ?v = "if ?neg then CHR ''^'' # u else u"
    have p: "p = ?v @ q" using u(1) by (cases p) (auto split: if_splits)
    have v: "scan_to True (?v @ x) = (?v @ fst (scan_to False x), snd (scan_to False x))" for x using u(4) [of x] by (simp add: Let_def)
    obtain chunk' where c: "scan_to False q = (chunk', rest)" "chunk = c # ?v @ chunk'"
      using "2.prems"(2) cls v [of q] p by (cases "scan_to False q") (auto simp: Let_def)
    have IH: "parse_pattern chunk' = Some (takeWhile (\<lambda>t. t \<noteq> Star) ts')" "parse_pattern rest = Some (dropWhile (\<lambda>t. t \<noteq> Star) ts')"
      using "2.IH"(2) [OF _ cls refl q(1) refl q(2) c(1)] cls by auto
    have "hd u = CHR ''^'' \<longrightarrow> ?neg" using u(1,2) p by (auto split: if_splits)
    then have n: "(?v @ chunk' \<noteq> [] \<and> hd (?v @ chunk') = CHR ''^'') = ?neg" using u(2) by auto
    then have "parse_pattern (c # ?v @ chunk') = Some (Class ?neg rs # takeWhile (\<lambda>t. t \<noteq> Star) ts')"
      using cls u(3) [of chunk'] IH(1) by (simp add: Let_def)
    then show ?thesis using IH(2) c(2) q(3) by simp
  next
    case esc
    then obtain d p' ts' where d: "p = d # p'" "parse_pattern p' = Some ts'" "ts = Lit d # ts'" using "2.prems" by (auto split: list.splits)
    obtain chunk' where c: "scan_to False p' = (chunk', rest)" "chunk = c # d # chunk'"
      using "2.prems"(2) esc d(1) by (cases "scan_to False p'") auto
    show ?thesis using "2.IH"(4) [OF _ _ _ esc d(1) d(2) c(1)] esc c(2) d(3) by simp
  next
    case one
    obtain t ts' where t: "t \<noteq> Star" "parse_pattern p = Some ts'" "ts = t # ts'" "t = (if c = CHR ''?'' then Any else Lit c)"
      using "2.prems" one by (auto split: if_splits)
    obtain chunk' where c: "scan_to False p = (chunk', rest)" "chunk = c # chunk'"
      using "2.prems"(2) one by (cases "scan_to False p") (auto split: if_splits)
    have "parse_pattern chunk' = Some (takeWhile (\<lambda>t. t \<noteq> Star) ts') \<and> parse_pattern rest = Some (dropWhile (\<lambda>t. t \<noteq> Star) ts')"
      using "2.IH"(3,5) one t(2) c(1) by blast
    then show ?thesis using one t c(2) by (auto split: if_splits)
  qed
qed simp

lemma parse_stars:
  assumes "parse_pattern p = Some ts"
  shows "parse_pattern (dropWhile (\<lambda>c. c = CHR ''*'') p) = Some (dropWhile (\<lambda>t. t = Star) ts)" and "(p \<noteq> [] \<and> hd p = CHR ''*'') = (ts \<noteq> [] \<and> hd ts = Star)"
proof -
  show "parse_pattern (dropWhile (\<lambda>c. c = CHR ''*'') p) = Some (dropWhile (\<lambda>t. t = Star) ts)"
    using assms
  proof (induction p arbitrary: ts)
    case (Cons c p)
    then show ?case
    proof (cases "c = CHR ''*''")
      case False
      then have "ts \<noteq> []" "hd ts \<noteq> Star" using Cons.prems by (auto simp: Let_def split: if_splits option.splits list.splits)
      then show ?thesis using Cons.prems False by (cases ts) auto
    qed auto
  qed simp
  show "(p \<noteq> [] \<and> hd p = CHR ''*'') = (ts \<noteq> [] \<and> hd ts = Star)"
    using assms by (cases p) (auto simp: Let_def split: if_splits option.splits list.splits)
qed

lemma parse_Nil: "parse_pattern p = Some ts \<Longrightarrow> (ts = []) = (p = [])"
  by (cases p) (auto simp: Let_def split: if_splits option.splits list.splits)

lemma scanChunk_parse:
  assumes "parse_pattern p = Some ts" and "scanChunk p = (star, chunk, rest)"
  defines "ts' \<equiv> dropWhile (\<lambda>t. t = Star) ts"
  shows "star = (ts \<noteq> [] \<and> hd ts = Star)" and "parse_pattern chunk = Some (takeWhile (\<lambda>t. t \<noteq> Star) ts')"
    and "parse_pattern rest = Some (dropWhile (\<lambda>t. t \<noteq> Star) ts')"
proof -
  have "scan_to False (dropWhile (\<lambda>c. c = CHR ''*'') p) = (chunk, rest)" and "star = (p \<noteq> [] \<and> hd p = CHR ''*'')"
    using assms(2) by (simp_all add: scanChunk_def Let_def split: prod.splits)
  then show "star = (ts \<noteq> [] \<and> hd ts = Star)" "parse_pattern chunk = Some (takeWhile (\<lambda>t. t \<noteq> Star) ts')"
    "parse_pattern rest = Some (dropWhile (\<lambda>t. t \<noteq> Star) ts')"
    using parse_stars [OF assms(1)] scan_to_parse unfolding ts'_def by blast+
qed

subsection \<open>The first place is enough\<close>

text \<open>What the matcher tries at one place, and its search for the first place that fits; the flag says that the chunk is the last one.\<close>

definition fits_at :: "glob_term list \<Rightarrow> bool \<Rightarrow> string \<Rightarrow> string option" where
  "fits_at cs l s = (case match_terms cs s of None \<Rightarrow> None | Some t \<Rightarrow> if l \<and> t \<noteq> [] then None else Some t)"

fun first_fit :: "glob_term list \<Rightarrow> bool \<Rightarrow> string \<Rightarrow> string option" where
  "first_fit cs l [] = fits_at cs l []"
| "first_fit cs l (c # s) = (case fits_at cs l (c # s) of Some t \<Rightarrow> Some t | None \<Rightarrow> if c = slash then None else first_fit cs l s)"

lemma star_loop_terms:
  assumes "parse_pattern chunk = Some cs" and "Star \<notin> set cs"
  shows "star_loop chunk l name = Some (Inr (case name of [] \<Rightarrow> None | c # s \<Rightarrow> if c = slash then None else first_fit cs l s))"
  by (induction name) (auto simp: matchChunk_terms [OF assms] fits_at_def split: option.splits list.splits)

text \<open>One round of the loop of \<^verbatim>\<open>path.Match\<close>, over the terms.\<close>

lemma path_Match_terms:
  assumes "parse_pattern p = Some ts" and "ts \<noteq> []"
  defines "us \<equiv> dropWhile (\<lambda>t. t = Star) ts"
  defines "cs \<equiv> takeWhile (\<lambda>t. t \<noteq> Star) us" and "rs \<equiv> dropWhile (\<lambda>t. t \<noteq> Star) us"
  obtains rest where "parse_pattern rest = Some rs" and "length rest < length p"
    and "path_Match p name =
      (if us = [] then Some (Inr (slash \<notin> set name))
       else case if hd ts = Star then first_fit cs (rs = []) name else fits_at cs (rs = []) name of
         None \<Rightarrow> Some (Inr False) | Some t \<Rightarrow> path_Match rest t)"
proof -
  obtain star chunk rest where sc: "scanChunk p = (star, chunk, rest)" by (metis prod.exhaust)
  note pr = scanChunk_parse [OF assms(1) sc, folded us_def, folded cs_def rs_def]
  have p: "p \<noteq> []" using assms(1,2) by auto
  have e: "(chunk = []) = (cs = [])" "(rest = []) = (rs = [])" using parse_Nil [OF pr(2)] parse_Nil [OF pr(3)] by auto
  have st: "Star \<notin> set cs" unfolding cs_def by (auto dest: set_takeWhileD)
  have "us \<noteq> [] \<Longrightarrow> hd us \<noteq> Star" unfolding us_def by (rule hd_dropWhile)
  then have u: "(us = []) = (cs = [])" unfolding cs_def by (cases us) auto
  have hs: "us = [] \<Longrightarrow> hd ts = Star" using assms(2) by (cases ts) (auto simp: us_def split: if_splits)
  note mc = matchChunk_terms [OF pr(2) st] and sl = star_loop_terms [OF pr(2) st]
  have "path_Match p name =
      (if us = [] then Some (Inr (slash \<notin> set name))
       else case if hd ts = Star then first_fit cs (rs = []) name else fits_at cs (rs = []) name of
         None \<Rightarrow> Some (Inr False) | Some t \<Rightarrow> path_Match rest t)"
  proof (cases "us = []")
    case True
    then show ?thesis using hs u e p sc pr(1) assms(2) by (simp add: path_Match.simps [of p name])
  next
    case False
    have m: "matchChunk chunk name = Some (case match_terms cs name of None \<Rightarrow> mismatch | Some t \<Rightarrow> (t, True, None))" by (rule mc)
    have "path_Match p name = (case fits_at cs (rs = []) name of
        Some t \<Rightarrow> path_Match rest t
      | None \<Rightarrow> if hd ts = Star then (case star_loop chunk (rs = []) name of
             None \<Rightarrow> None | Some (Inl e) \<Rightarrow> Some (Inl e) | Some (Inr None) \<Rightarrow> Some (Inr False) | Some (Inr (Some t)) \<Rightarrow> path_Match rest t)
          else Some (Inr False))"
      using False u e p sc pr(1) assms(2) by (cases "match_terms cs name") (simp_all add: path_Match.simps [of p name] m fits_at_def)
    moreover have "first_fit cs (rs = []) name = (case fits_at cs (rs = []) name of Some t \<Rightarrow> Some t
        | None \<Rightarrow> (case name of [] \<Rightarrow> None | c # s \<Rightarrow> if c = slash then None else first_fit cs (rs = []) s))"
      by (cases name) (simp_all split: option.split)
    ultimately show ?thesis using False sl [of "rs = []" name]
      by (cases "fits_at cs (rs = []) name"; cases "case name of [] \<Rightarrow> None | c # s \<Rightarrow> if c = slash then None else first_fit cs (rs = []) s"; simp)
  qed
  then show thesis using that pr(3) scanChunk_shorter [OF p sc] by blast
qed

lemma lang_terms:
  "Star \<notin> set cs \<Longrightarrow> glob_lang (cs @ rs) s = (case match_terms cs s of None \<Rightarrow> False | Some t \<Rightarrow> glob_lang rs t)"
  by (induction cs arbitrary: s) (auto split: option.splits)

lemma lang_star_Nil: "glob_lang (Star # ts) [] = glob_lang ts []"
  by simp

lemma lang_star_Cons: "glob_lang (Star # ts) (c # s) = (glob_lang ts (c # s) \<or> c \<noteq> slash \<and> glob_lang (Star # ts) s)"
proof -
  have "[0 ..< Suc (length (c # s))] = 0 # map Suc [0 ..< Suc (length s)]" by (simp add: map_Suc_upt upt_conv_Cons del: upt_Suc)
  then have "set [0 ..< Suc (length (c # s))] = insert 0 (Suc ` set [0 ..< Suc (length s)])" by (metis list.simps(15) set_map)
  then show ?thesis unfolding glob_lang.simps(2) [of Star] by (auto simp del: set_upt upt_Suc)
qed

lemma lang_two_stars: "glob_lang (Star # Star # ts) s = glob_lang (Star # ts) s"
  by (induction s) (simp_all only: lang_star_Nil lang_star_Cons, blast)

lemma lang_stars: "ts \<noteq> [] \<Longrightarrow> hd ts = Star \<Longrightarrow> glob_lang ts s = glob_lang (Star # dropWhile (\<lambda>t. t = Star) ts) s"
proof (induction ts)
  case (Cons t ts)
  show ?case
  proof (cases "ts \<noteq> [] \<and> hd ts = Star")
    case True
    then obtain ts' where "ts = Star # ts'" by (cases ts) auto
    then show ?thesis using Cons True lang_two_stars [of ts' s] by simp
  next
    case False
    then have "dropWhile (\<lambda>t. t = Star) ts = ts" by (cases ts) auto
    then show ?thesis using Cons.prems by simp
  qed
qed simp

lemma lang_last_star: "glob_lang [Star] s = (slash \<notin> set s)"
  by (induction s) (simp_all add: lang_star_Cons del: glob_lang.simps(2), auto)

lemma fits_at_lang:
  "(case fits_at cs (rs = []) s of None \<Rightarrow> False | Some t \<Rightarrow> glob_lang rs t) = (case match_terms cs s of None \<Rightarrow> False | Some t \<Rightarrow> glob_lang rs t)"
  by (auto simp: fits_at_def split: option.splits)

text \<open>Names as listings of directories have them: no slash, and here single-byte characters only.\<close>

definition plain_name :: "string \<Rightarrow> bool" where
  "plain_name s = list_all (\<lambda>c. c \<noteq> slash \<and> of_char c < (128 :: nat)) s"

lemma plain_drop: "plain_name s \<Longrightarrow> plain_name (drop n s)"
  by (auto simp: plain_name_def list_all_iff dest: in_set_dropD)

lemma match_terms_plain: "match_terms cs s = Some t \<Longrightarrow> plain_name s \<Longrightarrow> t = drop (length cs) s"
proof (induction cs arbitrary: s)
  case (Cons a cs)
  then obtain s' where s': "term_step a s = Some s'" "match_terms cs s' = Some t" by (auto split: option.splits)
  then obtain b s'' where s: "s = b # s''" by (cases s) auto
  then have "DecodeRuneInString s = (of_char b, 1)" using Cons.prems by (simp add: DecodeRune_range plain_name_def)
  then have "s' = s''" using s'(1) s by (cases a) (auto split: if_splits)
  then show ?case using Cons.IH [OF s'(2)] Cons.prems(2) s by (simp add: plain_name_def)
qed simp

lemma lang_star_grows: "glob_lang (Star # ts) (drop n s) \<Longrightarrow> plain_name s \<Longrightarrow> glob_lang (Star # ts) s"
proof (induction n arbitrary: s)
  case (Suc n)
  then show ?case by (cases s) (auto simp: plain_name_def lang_star_Cons simp del: glob_lang.simps(2))
qed simp

lemma first_fit_drop: "first_fit cs l s = Some t \<Longrightarrow> plain_name s \<Longrightarrow> \<exists>n. t = drop (n + length cs) s"
proof (induction s)
  case Nil
  then show ?case using match_terms_plain [of cs "[]" t] by (auto simp: fits_at_def split: option.splits if_splits)
next
  case (Cons c s)
  show ?case
  proof (cases "fits_at cs l (c # s)")
    case None
    then have "first_fit cs l s = Some t" using Cons.prems by (simp add: plain_name_def)
    then obtain n where "t = drop (n + length cs) s" using Cons by (auto simp: plain_name_def)
    then show ?thesis by (intro exI [of _ "Suc n"]) simp
  next
    case (Some t')
    then show ?thesis using Cons.prems match_terms_plain [of cs "c # s" t]
      by (intro exI [of _ 0]) (auto simp: fits_at_def split: option.splits if_splits)
  qed
qed

lemma first_fit_lang:
  assumes "Star \<notin> set cs" and "rs = [] \<or> hd rs = Star" and "plain_name s"
  shows "glob_lang (Star # cs @ rs) s = (case first_fit cs (rs = []) s of None \<Rightarrow> False | Some t \<Rightarrow> glob_lang rs t)"
  using assms(3)
proof (induction s)
  case Nil
  then show ?case using lang_terms [OF assms(1)] by (auto simp: fits_at_def lang_star_Nil simp del: glob_lang.simps(2) split: option.splits)
next
  case (Cons c s)
  have here: "glob_lang (cs @ rs) (c # s) = (case fits_at cs (rs = []) (c # s) of None \<Rightarrow> False | Some t \<Rightarrow> glob_lang rs t)"
    using lang_terms [OF assms(1)] by (auto simp: fits_at_def split: option.splits)
  have p: "c \<noteq> slash" "plain_name s" using Cons.prems by (auto simp: plain_name_def)
  show ?case
  proof (cases "fits_at cs (rs = []) (c # s)")
    case None
    then show ?thesis using here p Cons.IH by (simp add: lang_star_Cons del: glob_lang.simps(2))
  next
    case (Some t)
    have "glob_lang rs t" if l: "glob_lang (Star # cs @ rs) s"
    proof (cases rs)
      case Nil
      then show ?thesis using Some by (auto simp: fits_at_def split: option.splits if_splits)
    next
      case (Cons a rs')
      obtain t' where t': "first_fit cs (rs = []) s = Some t'" "glob_lang rs t'" using l Cons.IH p by (auto split: option.splits)
      obtain n where n: "t' = drop (n + length cs) s" using first_fit_drop [OF t'(1) p(2)] by blast
      have "t = drop (length cs) (c # s)" using Some match_terms_plain [OF _ Cons.prems] by (auto simp: fits_at_def split: option.splits if_splits)
      then have "t' = drop (Suc n) t" using n by (simp add: add.commute)
      then show ?thesis using t'(2) lang_star_grows [of rs' "Suc n" t] assms(2) Cons plain_drop [OF Cons.prems] \<open>t = _\<close> by auto
    qed
    then show ?thesis using Some here p by (simp add: lang_star_Cons del: glob_lang.simps(2)) blast
  qed
qed

subsection \<open>The matcher is the language\<close>

lemma path_Match_lang: "parse_pattern p = Some ts \<Longrightarrow> plain_name name \<Longrightarrow> path_Match p name = Some (Inr (glob_lang ts name))"
proof (induction "length p" arbitrary: p ts name rule: less_induct)
  case less
  show ?case
  proof (cases "ts = []")
    case True
    then show ?thesis using parse_Nil [OF less.prems(1)] by (simp add: path_Match.simps)
  next
    case False
    define us where "us = dropWhile (\<lambda>t. t = Star) ts"
    define cs rs where "cs = takeWhile (\<lambda>t. t \<noteq> Star) us" and "rs = dropWhile (\<lambda>t. t \<noteq> Star) us"
    obtain rest where r: "parse_pattern rest = Some rs" "length rest < length p" "path_Match p name =
      (if us = [] then Some (Inr (slash \<notin> set name))
       else case if hd ts = Star then first_fit cs (rs = []) name else fits_at cs (rs = []) name of
         None \<Rightarrow> Some (Inr False) | Some t \<Rightarrow> path_Match rest t)"
      using path_Match_terms [OF less.prems(1) False, folded us_def, folded cs_def rs_def] .
    have cs: "Star \<notin> set cs" "cs @ rs = us" by (auto simp: cs_def rs_def dest: set_takeWhileD)
    have rs: "rs = [] \<or> hd rs = Star" using hd_dropWhile [of "\<lambda>t. t \<noteq> Star" us] unfolding rs_def by blast
    have IH: "path_Match rest t = Some (Inr (glob_lang rs t))" if "plain_name t" for t using less.hyps [OF r(2) r(1) that] .
    consider (last) "us = []" "hd ts = Star" | (star) "us \<noteq> []" "hd ts = Star" | (none) "us \<noteq> []" "hd ts \<noteq> Star" "us = ts"
      using False by (cases ts) (auto simp: us_def)
    then show ?thesis
    proof cases
      case last
      then show ?thesis using lang_stars [OF False last(2), of name, folded us_def] lang_last_star r(3) by (simp del: glob_lang.simps(2))
    next
      case star
      have l: "glob_lang ts name = (case first_fit cs (rs = []) name of None \<Rightarrow> False | Some t \<Rightarrow> glob_lang rs t)"
        using first_fit_lang [OF cs(1) rs less.prems(2)] lang_stars [OF False star(2), of name] cs(2) by (simp add: us_def)
      have "plain_name t" if "first_fit cs (rs = []) name = Some t" for t
        using first_fit_drop [OF that less.prems(2)] plain_drop [OF less.prems(2)] by blast
      then show ?thesis using star r(3) l IH by (cases "first_fit cs (rs = []) name") simp_all
    next
      case none
      have l: "glob_lang ts name = (case fits_at cs (rs = []) name of None \<Rightarrow> False | Some t \<Rightarrow> glob_lang rs t)"
        using lang_terms [OF cs(1), of rs name] none(3) unfolding cs(2) fits_at_lang by simp
      have "plain_name t" if "fits_at cs (rs = []) name = Some t" for t
        using that match_terms_plain [OF _ less.prems(2), of cs] plain_drop [OF less.prems(2)] by (auto simp: fits_at_def split: option.splits if_splits)
      then show ?thesis using none r(3) l IH by (cases "fits_at cs (rs = []) name") simp_all
    qed
  qed
qed

text \<open>Whatever the pattern and the name, the matcher returns, and its only error is the one for a bad pattern.\<close>

lemma matchChunk_total: "\<exists>t ok err. matchChunk chunk s = Some (t, ok, err) \<and> (err = None \<or> err = Some ErrBadPattern)"
proof (induction chunk s rule: matchChunk.induct)
  case (3 c chunk b s)
  obtain r n where d: "DecodeRuneInString (b # s) = (r, n)" by (metis prod.exhaust)
  show ?case
  proof (cases "c = CHR ''[''")
    case cls: True
    show ?thesis
    proof (cases "chunk = []")
      case False
      let ?chunk = "if hd chunk = CHR ''^'' then tl chunk else chunk"
      show ?thesis
      proof (cases "parse_ranges True ?chunk")
        case None
        then show ?thesis using cls False d by (auto simp: class_loop_parse)
      next
        case (Some x)
        then obtain rs p' where x: "parse_ranges True ?chunk = Some (rs, p')" by (cases x) auto
        then have cl: "class_loop r 0 False ?chunk = Some (Inr (in_ranges r rs, p'))" by (simp add: class_loop_parse)
        show ?thesis using cls False d cl "3.IH"(1) [OF cls False d [symmetric] refl refl cl refl refl] by auto
      qed
    qed (use cls in auto)
  next
    case False
    then show ?thesis using "3.IH"(2-4) by (auto split: list.split)
  qed
qed auto

lemma star_loop_total: "\<exists>r. star_loop chunk l name = Some r \<and> (\<forall>e. r = Inl e \<longrightarrow> e = ErrBadPattern)"
proof (induction name)
  case (Cons c name)
  then show ?case using matchChunk_total [of chunk name] by auto
qed simp

lemma path_Match_total: "\<exists>r. path_Match p name = Some r \<and> (\<forall>e. r = Inl e \<longrightarrow> e = ErrBadPattern)"
proof (induction "length p" arbitrary: p name rule: less_induct)
  case less
  show ?case
  proof (cases "p = []")
    case False
    obtain star chunk rest where sc: "scanChunk p = (star, chunk, rest)" by (metis prod.exhaust)
    have IH: "\<exists>r. path_Match rest t = Some r \<and> (\<forall>e. r = Inl e \<longrightarrow> e = ErrBadPattern)" for t
      using less [OF scanChunk_shorter [OF False sc]] .
    obtain t ok err where m: "matchChunk chunk name = Some (t, ok, err)" "err = None \<or> err = Some ErrBadPattern" using matchChunk_total by blast
    obtain r where s: "star_loop chunk (rest = []) name = Some r" "\<forall>e. r = Inl e \<longrightarrow> e = ErrBadPattern" using star_loop_total by blast
    have "\<exists>q. (case r of Inl e \<Rightarrow> Some (Inl e) | Inr None \<Rightarrow> Some (Inr False) | Inr (Some t) \<Rightarrow> path_Match rest t) = Some q \<and> (\<forall>e. q = Inl e \<longrightarrow> e = ErrBadPattern)"
      using s(2) IH by (auto split: sum.splits option.splits)
    then show ?thesis using False sc m IH [of t] s(1) by (auto simp: path_Match.simps [of p name] split: if_splits)
  qed (simp add: path_Match.simps)
qed



text \<open>Across slashes the first place is not always enough: a class can match a slash, which the star before it cannot.\<close>

lemma Match_misses_slash_in_class:
  "parse_pattern ''*[^x]*'' = Some [Star, Class True [(120, 120)], Star]" "glob_lang [Star, Class True [(120, 120)], Star] ''a/b''"
  "Match ''*[^x]*'' ''a/b'' = Some (Inr False)"
  by (simp_all add: parse_ranges.simps getEsc_def DecodeRune_range Let_def in_ranges_def Match_def path_Match.simps scanChunk_def class_loop.simps)

subsection \<open>Directories\<close>

lemma glob_names_filter:
  assumes "parse_pattern p = Some ts" and "\<forall>n \<in> set names. plain_name (fi_name n)"
  shows "glob_names dir p names m = Some (m @ map (\<lambda>n. Join [dir, fi_name n]) (filter (\<lambda>n. glob_lang ts (fi_name n)) names), None)"
  using assms(2) by (induction names arbitrary: m) (auto simp: Match_def path_Match_lang [OF assms(1)])

lemma glob_names_error: "glob_names dir p names m = Some (m', err) \<Longrightarrow> err = None \<or> err = Some ErrBadPattern"
proof (induction names arbitrary: m)
  case (Cons n names)
  then show ?case using path_Match_total [of p "fi_name n"] by (auto simp: Match_def split: option.splits sum.splits)
qed simp

lemma Client_glob_error: "Client_glob cn dir p m c = Some (Some ((m', err), c')) \<Longrightarrow> err = None \<or> err = Some ErrBadPattern"
  using glob_names_error [of dir p _ m m' err] by (fastforce simp: Client_glob_def split: option.splits prod.splits if_splits)

lemma glob_dirs_error: "glob_dirs cn p ds m c = Some (Some ((m', err), c')) \<Longrightarrow> err = None \<or> err = Some ErrBadPattern"
  using Client_glob_error by (induction ds arbitrary: m c) (fastforce split: option.splits prod.splits)+

text \<open>The guard against endless recursion is never needed: the directory part is shorter than the pattern.\<close>

lemma Glob_guard_unreachable: "hasMeta (cleanGlobPath (fst (match_Split p))) \<Longrightarrow> cleanGlobPath (fst (match_Split p)) \<noteq> p"
  using glob_dir_shorter by fastforce

text \<open>
  What \<^verbatim>\<open>Glob\<close> returns for a pattern whose last element only is a pattern: the paths of the entries of the directory whose names are in the language, in the order of
  the server's listing.
\<close>
theorem Glob_lists_matches:
  assumes "hasMeta p" and "\<not> hasMeta (cleanGlobPath (fst (match_Split p)))" and "parse_pattern (snd (match_Split p)) = Some ts"
    and "Client_Stat cn (cleanGlobPath (fst (match_Split p))) c = Some ((Some fi, None), c1)" and "IsDir fi"
    and "Client_ReadDir cn (cleanGlobPath (fst (match_Split p))) c1 = Some (Some ((names, None), c2))" and "\<forall>n \<in> set names. plain_name (fi_name n)"
  shows "Glob cn p c =
    Some (Some ((map (\<lambda>n. Join [cleanGlobPath (fst (match_Split p)), fi_name n]) (filter (\<lambda>n. glob_lang ts (fi_name n)) names), None), c2))"
  using assms by (simp add: Glob.simps [of cn p c] Let_def Client_glob_def glob_names_filter)

text \<open>Whatever the pattern and the server, the only error is that for a bad pattern; errors of the server are ignored.\<close>

theorem Glob_only_error: "Glob cn p c = Some (Some ((ms, err), c')) \<Longrightarrow> err = None \<or> err = Some ErrBadPattern"
proof (induction "length p" arbitrary: p c ms err c' rule: less_induct)
  case less
  then show ?case
    using less.hyps [OF glob_dir_shorter] Client_glob_error glob_dirs_error
    by (fastforce simp: Glob.simps [of cn p c] Let_def split: if_splits option.splits prod.splits)
qed

end
