(* ===== verification/Client_Listing.thy ===== *)
theory Client_Listing
  imports Client_Server Mem_Dirs Glob_Laws
begin

text \<open>
  A client of the library connected to the handler-based server over the in-memory file system: what \<^verbatim>\<open>Stat\<close>, \<^verbatim>\<open>ReadDir\<close> and \<^verbatim>\<open>Glob\<close> return, through the
  encoding of requests and answers, the table of handles, the batches of the listing and the map of files. The locale of \<open>Client_Wire\<close> is interpreted
  on this server; the rest is a run of it.
\<close>

subsection \<open>The server at the other end\<close>

type_synonym mem_world = "(slice, nat, nat list) RequestServer \<times> root \<times> u32"

text \<open>The worker answers one packet after the other; the order number is that of the packet manager.\<close>

definition serve_mem :: "(root, 'f) os_api \<Rightarrow> ((string \<rightharpoonup> nat) \<Rightarrow> string list) \<Rightarrow> (nat \<Rightarrow> nat \<Rightarrow> nat) \<Rightarrow> (page \<Rightarrow> nat \<Rightarrow> byte) \<Rightarrow>
    requestPacket \<Rightarrow> mem_world \<Rightarrow> (responsePacket \<times> mem_world) option" where
  "serve_mem os iter extra mem q = (\<lambda>(rs, fs, oid).
     map_option (\<lambda>(rp, rs, fs). (rp, rs, fs, oid + 1)) (packetWorker os (mem_Handlers iter extra) mem rs \<lparr>oreq_packet = Some q, oreq_orderid = oid\<rparr> fs))"

text \<open>The server is asked in states that its table's invariant holds in, and packets on which it does not panic.\<close>

definition mem_ok :: "(root, 'f) os_api \<Rightarrow> ((string \<rightharpoonup> nat) \<Rightarrow> string list) \<Rightarrow> (nat \<Rightarrow> nat \<Rightarrow> nat) \<Rightarrow> (page \<Rightarrow> nat \<Rightarrow> byte) \<Rightarrow>
    mem_world \<Rightarrow> requestPacket \<Rightarrow> bool" where
  "mem_ok os iter extra mem = (\<lambda>(rs, fs, oid) q. rs_inv rs \<and> sint (rs_handleCount rs) < 2 ^ 63 - 1 \<and> serve_mem os iter extra mem q (rs, fs, oid) \<noteq> None)"

interpretation mem_peer: peer "serve_mem os iter extra mem" "mem_ok os iter extra mem"
  for os :: "(root, 'f) os_api" and iter extra mem
proof
  fix s :: mem_world and q
  assume ok: "mem_ok os iter extra mem s q" and w: "wire_packet q"
  obtain rs fs oid where s: "s = (rs, fs, oid)" by (rule prod_cases3)
  from ok s obtain rp rs' fs' where run: "packetWorker os (mem_Handlers iter extra) mem rs \<lparr>oreq_packet = Some q, oreq_orderid = oid\<rparr> fs = Some (rp, rs', fs')"
    by (auto simp: mem_ok_def serve_mem_def)
  then have "handleWork os (mem_Handlers iter extra) mem rs (unwrap q) oid fs = Some (rp, rs', fs')" by (simp add: packetWorker_def)
  from handleWork_grows [OF this] ok s have "responsePacket_id rp = workPacket_id (unwrap q)" by (auto simp: mem_ok_def rs_grows_def)
  then show "\<exists>rp w'. serve_mem os iter extra mem q s = Some (rp, w') \<and> responsePacket_id rp = requestPacket_id q"
    using run s unwrap_id wire_packet_consistent [OF w] by (simp add: serve_mem_def)
qed

abbreviation mem_asks :: "(root, 'f) os_api \<Rightarrow> ((string \<rightharpoonup> nat) \<Rightarrow> string list) \<Rightarrow> (nat \<Rightarrow> nat \<Rightarrow> nat) \<Rightarrow> (page \<Rightarrow> nat \<Rightarrow> byte) \<Rightarrow>
    (u32 \<Rightarrow> requestPacket) \<Rightarrow> mem_world link Client \<Rightarrow> responsePacket \<Rightarrow> mem_world \<Rightarrow> bool" where
  "mem_asks os \<equiv> mem_peer.calls TYPE('f) os"

text \<open>A client that is connected to it, between two operations.\<close>

definition at_mem :: "mem_world link Client \<Rightarrow> (slice, nat, nat list) RequestServer \<Rightarrow> root \<Rightarrow> u32 \<Rightarrow> bool" where
  "at_mem c rs fs oid \<longleftrightarrow> idle c \<and> lk_world (cl_link c) = (rs, fs, oid) \<and> rs_inv rs \<and> sint (rs_handleCount rs) < 2 ^ 63 - 1"

lemma mem_calls:
  assumes "at_mem c rs fs oid" and "sendable (mk (nextid c + 1))" and "requestPacket_id (mk (nextid c + 1)) = nextid c + 1"
    and "packetWorker os (mem_Handlers iter extra) mem rs \<lparr>oreq_packet = Some (as_received (mk (nextid c + 1))), oreq_orderid = oid\<rparr> fs = Some (rp, rs', fs')"
    and "fits rp" and "wire_reply rp"
  shows "mem_asks os iter extra mem mk c rp (rs', fs', oid + 1)"
  unfolding mem_peer.calls_def Let_def using assms by (simp add: serve_mem_def mem_ok_def at_mem_def)

lemma at_mem_stepped:
  assumes "at_mem c rs fs oid" and "packetWorker os h mem rs pkt w = Some (rp, rs', w')" and "sint (rs_handleCount rs') < 2 ^ 63 - 1"
  shows "at_mem (stepped c (rs', fs', oid + 1)) rs' fs' (oid + 1)"
  using assms packetWorker_grows [OF assms(2)] by (auto simp: at_mem_def rs_grows_def)

subsection \<open>File information\<close>

text \<open>What the client makes of the information the server sends for a file.\<close>

definition seen :: "string \<Rightarrow> fileInfo \<Rightarrow> fileInfo" where
  "seen name fi = fileInfoFromStat (snd (fileStatFromInfo fi)) name"

lemma mem_mode: "go_mode (fi_mode (memFile_info f))"
  by (auto simp: memFile_info_def memFile_Mode_def go_mode_def posix_types_def type_to_mode_def)

lemma IsDir_seen: "IsDir (seen name (memFile_info f)) = IsDir (memFile_info f)"
  using toFileMode_fromFileMode [OF mem_mode, of f] by (simp add: seen_def IsDir_def fileInfoFromStat_def fileStatFromInfo_fields)

lemma mem_Stat:
  assumes "at_mem c rs fs oid" and "short p" and "root_mockErr fs = None" and "fetch fs (cleanPath p) = Inr a"
  shows "Client_Stat (server_conn (serve_mem os iter extra mem)) p c =
      Some ((Some (seen (Base p) (memFile_info (objs fs ! a))), None), stepped c (rs, fs, oid + 1)) \<and>
    at_mem (stepped c (rs, fs, oid + 1)) rs fs (oid + 1)"
proof -
  let ?rp = "sshFxpStatResponse (nextid c + 1) (memFile_info (objs fs ! a))"
  have p: "packetWorker os (mem_Handlers iter extra) mem rs \<lparr>oreq_packet = Some (sshFxpStatPacket (nextid c + 1) p), oreq_orderid = oid\<rparr> fs = Some (?rp, rs, fs)"
    using assms(3,4)
    by (simp add: packetWorker_def unwrap_def handleWork_def requestFromPacket_def NewRequest_def call_fresh_def call_def filestat_def
        mem_Handlers_def mem_Filelist_def listerat_ListAt_def req_close_def close_if_def)
  have "mem_asks os iter extra mem (\<lambda>i. sshFxpStatPacket i p) c ?rp (rs, fs, oid + 1)"
    by (rule mem_calls [OF assms(1)]) (use p assms(2) sendable_path(1) stat_fits in simp_all)
  from mem_peer.Stat_served [OF this] at_mem_stepped [OF assms(1) p] assms(1) show ?thesis by (simp add: seen_def at_mem_def)
qed

subsection \<open>Directories\<close>

lemma length_digits_of: "n < 10 ^ Suc k \<Longrightarrow> length (digits_of n) \<le> Suc k"
proof (induction k arbitrary: n)
  case 0
  then show ?case by (simp add: digits_of.simps)
next
  case (Suc k)
  then have "n div 10 < 10 ^ Suc k" by (simp add: less_mult_imp_div_less)
  then show ?case using Suc.IH [of "n div 10"] by (simp add: digits_of.simps [of n])
qed

lemma short_handle: "0 \<le> n \<Longrightarrow> n < 2 ^ 63 \<Longrightarrow> short (Itoa n)"
proof -
  assume n: "0 \<le> n" "n < 2 ^ 63"
  then have "nat n < 10 ^ Suc 18" by auto
  from length_digits_of [OF this] n show ?thesis by (simp add: Itoa_def)
qed

text \<open>Files whose entries are small enough for a full batch of them to fit into one packet.\<close>

definition small_entry :: "(root, 'f) os_api \<Rightarrow> root \<Rightarrow> string \<Rightarrow> nat \<Rightarrow> bool" where
  "small_entry os fs dir a \<longleftrightarrow> length (entry_bytes (runLs os fs dir) (memFile_info (objs fs ! a))) \<le> 2500"

abbreviation mem_info :: "root \<Rightarrow> nat \<Rightarrow> fileInfo" where "mem_info fs a \<equiv> memFile_info (objs fs ! a)"

lemma names_fit:
  assumes "\<forall>a \<in> set xs. small_entry os fs dir a" and "length xs \<le> 100"
    and rp_def: "rp = sshFxpNamePacket i (map (name_of_info (runLs os fs dir)) (map (mem_info fs) xs))"
  shows "fits rp" and "wire_reply rp"
proof -
  have b: "name_body (map (name_of_info (runLs os fs dir)) (map (mem_info fs) xs)) = Some (concat (map (entry_bytes (runLs os fs dir)) (map (mem_info fs) xs)))"
    by (rule name_body_of)
  have "length (concat (map (entry_bytes (runLs os fs dir)) (map (mem_info fs) xs))) \<le> 2500 * length xs"
    using assms(1) by (induction xs) (auto simp: small_entry_def)
  then have "length (concat (map (entry_bytes (runLs os fs dir)) (map (mem_info fs) xs))) \<le> 250000" using assms(2) by linarith
  with b show "fits rp" by (simp add: rp_def fits_def marshal_Name_def append_NameAttrs_body marshal_append maxMsgLength_def)
  have "wire_string (fi_name (mem_info fs a)) \<and> wire_string (runLs os fs dir (mem_info fs a))" if "a \<in> set xs" for a
    using assms(1) that by (auto simp: small_entry_def entry_bytes_def wire_string_def marshal_append)
  then show "wire_reply rp" using assms(2) by (auto simp: rp_def name_of_info_def list_all_iff)
qed

lemma readdir_answer_names:
  "batch ls j \<noteq> [] \<Longrightarrow> readdir_answer os fs i dir ls j = sshFxpNamePacket i (map (name_of_info (runLs os fs dir)) (map (mem_info fs) (batch ls j)))"
  by (simp add: readdir_answer_def Let_def name_of_info_def)

lemma entries_append: "entries (xs @ ys) = entries xs @ entries ys"
  by (simp add: entries_def)

text \<open>The rest of a listing: every further request brings the next batch, until the end is reported.\<close>

lemma mem_lists:
  fixes os :: "(root, 'f) os_api"
  assumes "at_mem c rs fs oid" and "openRequests rs k = Some r" and "Method r = ''List''" and "listerAt (r_state r) = Some ls"
    and "lister_ok fs ls (lsoffset (r_state r))" and "unat (lsoffset (r_state r)) = min (MaxFilelist * j) (length ls)"
    and "short k" and "\<forall>a \<in> set ls. small_entry os fs (Base (Filepath r)) a"
  shows "\<exists>c' rs' oid' r'. mem_peer.lists TYPE('f) os iter extra mem k c (entries (map (mem_info fs) (drop (MaxFilelist * j) ls))) None c' \<and>
    at_mem c' rs' fs oid' \<and> openRequests rs' = (openRequests rs)(k \<mapsto> r') \<and> rs_handleCount rs' = rs_handleCount rs"
  using assms
proof (induction "length ls - MaxFilelist * j" arbitrary: c rs oid r j rule: less_induct)
  case less
  let ?mk = "\<lambda>i. sshFxpReaddirPacket i k"
  from readdir_request [OF less.prems(2-6), of os iter extra mem "nextid c + 1" oid] obtain r' where
    p: "packetWorker os (mem_Handlers iter extra) mem rs \<lparr>oreq_packet = Some (?mk (nextid c + 1)), oreq_orderid = oid\<rparr> fs =
      Some (readdir_answer os fs (nextid c + 1) (Base (Filepath r)) ls j, putRequest rs k r', fs)"
    and r': "Method r' = ''List''" "Filepath r' = Filepath r" "listerAt (r_state r') = Some ls" "lister_ok fs ls (lsoffset (r_state r'))"
      "unat (lsoffset (r_state r')) = min (MaxFilelist * Suc j) (length ls)" by blast
  let ?c = "stepped c (putRequest rs k r', fs, oid + 1)"
  have at: "at_mem ?c (putRequest rs k r') fs (oid + 1)"
    using at_mem_stepped [OF less.prems(1) p] less.prems(1) by (simp add: at_mem_def putRequest_def)
  have o: "openRequests (putRequest rs k r') = (openRequests rs)(k \<mapsto> r')" "rs_handleCount (putRequest rs k r') = rs_handleCount rs"
    by (simp_all add: putRequest_def)
  show ?case
  proof (cases "length ls \<le> MaxFilelist * j")
    case True
    then have e: "readdir_answer os fs i d ls j = sshFxpStatusPacket i sshFxEOF ''EOF'' []" for i d
      by (simp add: readdir_answer_def batch_def statusFromError_def status_code_def)
    have "fits (statusFromError (nextid c + 1) (Some EOF))" "wire_reply (statusFromError (nextid c + 1) (Some EOF))"
      by (simp_all add: status_fits short_err_def)
    then have "mem_asks os iter extra mem ?mk c (sshFxpStatusPacket (nextid c + 1) sshFxEOF ''EOF'' []) (putRequest rs k r', fs, oid + 1)"
      by (intro mem_calls [OF less.prems(1)]) (use p less.prems(7) sendable_path(5) in \<open>simp_all add: e statusFromError_def status_code_def\<close>)
    from mem_peer.lists.last [OF this refl] have "mem_peer.lists TYPE('f) os iter extra mem k c [] None ?c" by simp
    moreover have "entries (map (mem_info fs) (drop (MaxFilelist * j) ls)) = []" using True by (simp add: entries_def)
    ultimately show ?thesis using at o by metis
  next
    case False
    then have ne: "batch ls j \<noteq> []" by (simp add: batch_def MaxFilelist_def)
    have bl: "set (batch ls j) \<subseteq> set ls" "length (batch ls j) \<le> 100"
      by (auto simp: batch_def MaxFilelist_def dest: in_set_takeD in_set_dropD)
    let ?rp = "sshFxpNamePacket (nextid c + 1) (map (name_of_info (runLs os fs (Base (Filepath r)))) (map (mem_info fs) (batch ls j)))"
    have sm: "\<forall>a \<in> set (batch ls j). small_entry os fs (Base (Filepath r)) a" using less.prems(8) bl(1) by blast
    have "sendable (?mk (nextid c + 1))" "as_received (?mk i) = ?mk i" "requestPacket_id (?mk i) = i" for i using less.prems(7) sendable_path(5) by simp_all
    then have "mem_asks os iter extra mem ?mk c ?rp (putRequest rs k r', fs, oid + 1)"
      using mem_calls [where mk = ?mk, OF less.prems(1) _ _ _ names_fit [OF sm bl(2) refl]] p unfolding readdir_answer_names [OF ne] by metis
    note more = mem_peer.lists.more [OF this]
    obtain c' rs' oid' r'' where l: "mem_peer.lists TYPE('f) os iter extra mem k ?c (entries (map (mem_info fs) (drop (MaxFilelist * Suc j) ls))) None c'"
      "at_mem c' rs' fs oid'" "openRequests rs' = (openRequests (putRequest rs k r'))(k \<mapsto> r'')" "rs_handleCount rs' = rs_handleCount (putRequest rs k r')"
    proof -
      have d: "length ls - MaxFilelist * Suc j < length ls - MaxFilelist * j" using False by (simp add: MaxFilelist_def)
      have k: "openRequests (putRequest rs k r') k = Some r'" by (simp add: o)
      from less.hyps [OF d at k r'(1,3,4,5) less.prems(7)] less.prems(8) r'(2) that show ?thesis by auto
    qed
    have "drop (MaxFilelist * j) ls = batch ls j @ drop (MaxFilelist * Suc j) ls"
      using append_take_drop_id [of MaxFilelist "drop (MaxFilelist * j) ls"] by (simp add: batch_def add.commute)
    then have "mem_peer.lists TYPE('f) os iter extra mem k c (entries (map (mem_info fs) (drop (MaxFilelist * j) ls))) None c'"
      using more [OF l(1)] by (simp add: entries_append)
    with l o show ?thesis by (metis fun_upd_upd)
  qed
qed

text \<open>The files of a directory, in the order in which the server lists them.\<close>

definition listing :: "root \<Rightarrow> string \<Rightarrow> nat list" where
  "listing fs dir = map (\<lambda>fn. the (root_files fs fn)) (sorted_list_of_set {fn \<in> dom (root_files fs). Dir fn = dir})"

text \<open>The directory at \<open>p\<close> as the client can list it.\<close>

definition listable :: "(root, 'f) os_api \<Rightarrow> ((string \<rightharpoonup> nat) \<Rightarrow> string list) \<Rightarrow> root \<Rightarrow> string \<Rightarrow> bool" where
  "listable os iter fs p \<longleftrightarrow> set (iter (root_files fs)) = dom (root_files fs) \<and> distinct (iter (root_files fs)) \<and> root_mockErr fs = None \<and>
     (\<exists>a. fetch fs (cleanPath p) = Inr a \<and> mf_isdir (objs fs ! a)) \<and> lister_ok fs (listing fs (cleanPath p)) 0 \<and>
     (\<forall>a \<in> set (listing fs (cleanPath p)). small_entry os fs (Base (cleanPath p)) a)"

lemma mem_Filelist_listing:
  assumes "listable os iter fs p" and "Method r = ''List''" and "Filepath r = cleanPath p"
  shows "mem_Filelist iter r fs = Some (Some (listing fs (cleanPath p)), None, fs)"
proof -
  let ?ns = "filter (\<lambda>fn. Dir fn = cleanPath p) (iter (root_files fs))"
  have it: "set (iter (root_files fs)) = dom (root_files fs)" "distinct (iter (root_files fs))" using assms(1) by (auto simp: listable_def)
  have "sort ?ns = sorted_list_of_set (set ?ns)" by (metis sorted_list_of_set_sort_remdups distinct_remdups_id distinct_filter it(2))
  moreover have "set ?ns = {fn \<in> dom (root_files fs). Dir fn = cleanPath p}" using it(1) by auto
  ultimately show ?thesis using assms by (auto simp: mem_Filelist_def listable_def listing_def Let_def)
qed

lemma opendir_request:
  assumes "listable os iter fs p" and "rs_inv rs" and "sint (rs_handleCount rs) < 2 ^ 63 - 1"
  shows "\<exists>rs' r. packetWorker os (mem_Handlers iter extra) mem rs \<lparr>oreq_packet = Some (sshFxpOpendirPacket i p), oreq_orderid = oid\<rparr> fs =
      Some (sshFxpHandlePacket i (Itoa (sint (rs_handleCount rs) + 1)), rs', fs) \<and>
    openRequests rs' = (openRequests rs)(Itoa (sint (rs_handleCount rs) + 1) \<mapsto> r) \<and> sint (rs_handleCount rs') = sint (rs_handleCount rs) + 1 \<and>
    Method r = ''List'' \<and> Filepath r = cleanPath p \<and> listerAt (r_state r) = Some (listing fs (cleanPath p)) \<and> lsoffset (r_state r) = 0"
proof -
  let ?k = "Itoa (sint (rs_handleCount rs) + 1)"
  let ?r = "NewRequest [] p :: mem_request"
  obtain rs1 where n: "nextRequest rs ?r = (?k, rs1)" "openRequests rs1 = (openRequests rs)(?k \<mapsto> ?r\<lparr>r_handle := ?k\<rparr>)"
    "sint (rs_handleCount rs1) = sint (rs_handleCount rs) + 1"
    using nextRequest_law [OF assms(2,3)] by (metis surj_pair)
  let ?r2 = "setListerState (?r\<lparr>r_handle := ?k, Method := ''List''\<rparr>) (Some (listing fs (cleanPath p)))"
  have "mem_Filelist iter (?r\<lparr>r_handle := ?k, Method := ''List''\<rparr>) fs = Some (Some (listing fs (cleanPath p)), None, fs)"
    by (rule mem_Filelist_listing [OF assms(1)]) (simp_all add: NewRequest_def)
  then have "packetWorker os (mem_Handlers iter extra) mem rs \<lparr>oreq_packet = Some (sshFxpOpendirPacket i p), oreq_orderid = oid\<rparr> fs =
      Some (sshFxpHandlePacket i ?k, putRequest rs1 ?k ?r2, fs)"
    using n(1) by (simp add: packetWorker_def unwrap_def handleWork_def open_new_def requestFromPacket_def req_opendir_def mem_Handlers_def setListerState_def)
  moreover have "openRequests (putRequest rs1 ?k ?r2) = (openRequests rs)(?k \<mapsto> ?r2)" "sint (rs_handleCount (putRequest rs1 ?k ?r2)) = sint (rs_handleCount rs) + 1"
    using n by (simp_all add: putRequest_def)
  ultimately show ?thesis by (intro exI [of _ "putRequest rs1 ?k ?r2"] exI [of _ ?r2]) (simp add: setListerState_def NewRequest_def)
qed

lemma close_request:
  "openRequests rs k = Some r \<Longrightarrow>
   packetWorker os (mem_Handlers iter extra) mem rs \<lparr>oreq_packet = Some (sshFxpClosePacket i k), oreq_orderid = oid\<rparr> fs =
     Some (statusFromError i None, deleteRequest rs k, fs)"
  by (simp add: packetWorker_def unwrap_def handleWork_def closeRequest_def req_close_def close_if_def mem_Handlers_def split: option.split)

lemma mem_ReadDir:
  fixes os :: "(root, 'f) os_api"
  assumes "at_mem c rs fs oid" and "sint (rs_handleCount rs) < 2 ^ 63 - 2" and "short p" and "listable os iter fs p"
  shows "\<exists>c' rs' oid'. Client_ReadDir (server_conn (serve_mem os iter extra mem)) p c =
      Some (Some ((entries (map (mem_info fs) (listing fs (cleanPath p))), None), c')) \<and>
    at_mem c' rs' fs oid' \<and> openRequests rs' = openRequests rs"
proof -
  let ?n = "sint (rs_handleCount rs)"
  let ?k = "Itoa (?n + 1)"
  have inv: "rs_inv rs" "?n < 2 ^ 63 - 1" "0 \<le> ?n" using assms(1) by (auto simp: at_mem_def rs_inv_def)
  have k: "short ?k" using short_handle [of "?n + 1"] inv by simp
  have new: "openRequests rs ?k = None"
    using inv issued_fresh [of ?n] by (auto simp: rs_inv_def dest: subsetD [OF _ domI])
  obtain rs1 r where o: "packetWorker os (mem_Handlers iter extra) mem rs \<lparr>oreq_packet = Some (sshFxpOpendirPacket (nextid c + 1) p), oreq_orderid = oid\<rparr> fs =
      Some (sshFxpHandlePacket (nextid c + 1) ?k, rs1, fs)" "openRequests rs1 = (openRequests rs)(?k \<mapsto> r)" "sint (rs_handleCount rs1) = ?n + 1"
      "Method r = ''List''" "Filepath r = cleanPath p" "listerAt (r_state r) = Some (listing fs (cleanPath p))" "lsoffset (r_state r) = 0"
    using opendir_request [OF assms(4) inv(1,2)] by metis
  have "fits (sshFxpHandlePacket i ?k)" for i using k by (simp add: fits_def marshal_Handle_def marshal_append maxMsgLength_def)
  then have c1: "mem_asks os iter extra mem (\<lambda>i. sshFxpOpendirPacket i p) c (sshFxpHandlePacket (nextid c + 1) ?k) (rs1, fs, oid + 1)"
    by (intro mem_calls [OF assms(1)]) (use o(1) assms(3) k sendable_path(4) in simp_all)
  let ?c1 = "stepped c (rs1, fs, oid + 1)"
  have at1: "at_mem ?c1 rs1 fs (oid + 1)" using at_mem_stepped [OF assms(1) o(1)] o(3) assms(2) by simp
  have "lister_ok fs (listing fs (cleanPath p)) (lsoffset (r_state r))" "unat (lsoffset (r_state r)) = min (MaxFilelist * 0) (length (listing fs (cleanPath p)))"
    "\<forall>a \<in> set (listing fs (cleanPath p)). small_entry os fs (Base (Filepath r)) a" "openRequests rs1 ?k = Some r"
    using assms(4) o(2,5,7) by (auto simp: listable_def)
  from mem_lists [OF at1 this(4) o(4,6) this(1,2) k this(3), of iter extra mem] obtain c2 rs2 oid2 r2 where
    l: "mem_peer.lists TYPE('f) os iter extra mem ?k ?c1 (entries (map (mem_info fs) (listing fs (cleanPath p)))) None c2" "at_mem c2 rs2 fs oid2"
      "openRequests rs2 = (openRequests rs1)(?k \<mapsto> r2)" "rs_handleCount rs2 = rs_handleCount rs1" by auto
  have "openRequests rs2 ?k = Some r2" using l(3) by simp
  note cl = close_request [OF this, of os iter extra mem "nextid c2 + 1" oid2 fs]
  have c2: "mem_asks os iter extra mem (\<lambda>i. sshFxpClosePacket i ?k) c2 (statusFromError (nextid c2 + 1) None) (deleteRequest rs2 ?k, fs, oid2 + 1)"
    by (intro mem_calls [OF l(2)]) (use cl k sendable_path(6) in \<open>simp_all add: status_fits short_err_def\<close>)
  from mem_peer.ReadDir_served [OF c1 l(1) c2]
  have "Client_ReadDir (server_conn (serve_mem os iter extra mem)) p c =
      Some (Some ((entries (map (mem_info fs) (listing fs (cleanPath p))), None), stepped c2 (deleteRequest rs2 ?k, fs, oid2 + 1)))" .
  moreover have "at_mem (stepped c2 (deleteRequest rs2 ?k, fs, oid2 + 1)) (deleteRequest rs2 ?k) fs (oid2 + 1)"
    using at_mem_stepped [OF l(2) cl] l(2) by (simp add: deleteRequest_def at_mem_def)
  moreover have "openRequests (deleteRequest rs2 ?k) = openRequests rs" using l(3) o(2) new by (auto simp: deleteRequest_def)
  ultimately show ?thesis by blast
qed


text \<open>The witness: the root directory of the demonstration file system.\<close>

definition demo_mem_client :: "mem_world link Client" where
  "demo_mem_client = \<lparr>maxPacket = 32768, nextid = 0, maxConcurrentRequests = 64, useFstat = False, cl_closed = False,
     cl_link = \<lparr>lk_world = (demo_mem_server, demo_root, 1), lk_out = []\<rparr>\<rparr>"

lemma demo_small: "small_entry demo_mem_os demo_root ''/'' 1"
proof -
  have b: "Base ''/a'' = ''a''" by code_simp
  have m: "length (marshalFileInfo [] fi) \<le> 100" for fi by (simp add: marshalFileInfo_def Let_def split: prod.split)
  have d: "Itoa 65534 = ''65534''" "Itoa 1 = ''1''" "Itoa 0 = ''0''" "Itoa 4 = ''4''" by (simp_all add: Itoa_def digits_of.simps char_of_def bit_iff_odd)
  have "length (runLsTypeWord fi) = 10" for fi by (simp add: runLsTypeWord_def Let_def)
  then have "length (runLs demo_mem_os demo_root ''/'' (mem_info demo_root 1)) \<le> 400"
    by (simp add: runLs_def memFile_info_def fakeFileInfoSys_def runLsStatt_def demo_mem_os_def demo_root_def Let_def d pad_left_def pad_right_def memFile_Name_def b)
  with m [of "mem_info demo_root 1"] show ?thesis by (simp add: small_entry_def entry_bytes_def memFile_info_def memFile_Name_def demo_root_def b)
qed

lemma demo_listing: "cleanPath ''/'' = ''/''" "listing demo_root ''/'' = [1]" "listable demo_mem_os (\<lambda>_. [''/a'']) demo_root ''/''"
proof -
  have d: "Dir ''/a'' = ''/''" "Base ''/'' = ''/''" by code_simp+
  show c: "cleanPath ''/'' = ''/''" by code_simp
  have *: "{fn \<in> dom (root_files demo_root). Dir fn = ''/''} = {''/a''}" by (auto simp: demo_root_def d split: if_splits)
  show l: "listing demo_root ''/'' = [1]" unfolding listing_def * by (simp add: demo_root_def)
  show "listable demo_mem_os (\<lambda>_. [''/a'']) demo_root ''/''"
    unfolding listable_def c l using demo_small by (auto simp: d demo_root_def fetch_def lister_ok_def split: if_splits)
qed


end
