(* ===== verification/Service_Sessions.thy ===== *)
theory Service_Sessions
  imports Sftp_Service
begin

text \<open>
  The goroutines of the SSH front end (\<^verbatim>\<open>acceptConns\<close> and \<^verbatim>\<open>handleConnectingClients\<close> of sftpservice.go) as a step relation: connections are accepted,
  authenticate, open channels and end, while all of them share the one field \<^verbatim>\<open>loginUser\<close>. The SSH library is taken by its documentation: a handshake succeeds only after a password
  was accepted, or after a key was accepted and the client has proved to hold it (\<open>signs\<close>); the callback for keys is called when a key is
  offered, before any proof, and its answer is remembered until the proof comes.
\<close>

subsection \<open>Connections\<close>

text \<open>
  A goroutine for a connection: in the handshake, with the users whose keys were accepted so far; waiting for a channel; in \<^verbatim>\<open>Serve\<close> of the server with that address;
  ended; or blocked for ever, as after a failed handshake, which is only logged: the channels it then waits for are nil.
\<close>

datatype conn_phase = Handshaking "User list" | Established User | InSession nat User | Blocked | Finished

record ('w, 'f) service_state =
  svc :: "'f SFTPService"
  conns :: "nat \<rightharpoonup> conn_phase"
  used_addrs :: "nat set"
  svc_crashed :: bool
  svc_world :: 'w

definition service_start :: "ConfigService \<Rightarrow> UserGov \<Rightarrow> 'w \<Rightarrow> ('w, 'f) service_state" where
  "service_start c u w = \<lparr>svc = NewSFTPService c u, conns = Map.empty, used_addrs = {}, svc_crashed = False, svc_world = w\<rparr>"

text \<open>
  A request on the session's channel: \<open>None\<close> for the panic of slicing a payload of fewer than four bytes, otherwise whether it is accepted. Every channel of type session gets a server, whether the
  subsystem was asked for or not; channels of other types are rejected.
\<close>

definition subsystem_request :: "string \<Rightarrow> bytes \<Rightarrow> bool option" where
  "subsystem_request ty payload =
     (if ty = ''subsystem'' then if length payload < 4 then None else Some (string_of_bytes (drop 4 payload) = ''sftp'') else Some False)"

definition accepts_channel :: "string \<Rightarrow> bool" where
  "accepts_channel ty = (\<not> ty \<noteq> ''session'')"

text \<open>
  The parameters are the parser of authorized keys, the system, and who can prove to hold the key of a user. \<open>serving\<close> is the work of a running server, which changes neither its user nor
  its root (\<open>Sftp_Server\<close>). After a failed \<^verbatim>\<open>Accept\<close> the address of the nil connection is logged.
\<close>

inductive service_step :: "(string \<Rightarrow> go_error + bytes) \<Rightarrow> ('w, 'f, 'z) os_api_scheme \<Rightarrow> (nat \<Rightarrow> User \<Rightarrow> bool) \<Rightarrow> page \<Rightarrow> extensionPair list \<Rightarrow>
    ('w, 'f) service_state \<Rightarrow> ('w, 'f) service_state \<Rightarrow> bool" for parse os signs hp exts where
  accept: "conns s k = None \<Longrightarrow> service_step parse os signs hp exts s (s\<lparr>conns := (conns s)(k \<mapsto> Handshaking [])\<rparr>)"
| accept_error: "service_step parse os signs hp exts s (s\<lparr>svc_crashed := True\<rparr>)"
| password: "conns s k = Some (Handshaking us) \<Longrightarrow> PasswordCallback os (svc s) name pass (svc_world s) = (None, ss, w) \<Longrightarrow>
    service_step parse os signs hp exts s (s\<lparr>svc := ss, svc_world := w, conns := (conns s)(k \<mapsto> Established (loginUser ss))\<rparr>)"
| offered: "conns s k = Some (Handshaking us) \<Longrightarrow> PublicKeyCallback parse os (svc s) name key (svc_world s) = (None, ss, w) \<Longrightarrow>
    service_step parse os signs hp exts s (s\<lparr>svc := ss, svc_world := w, conns := (conns s)(k \<mapsto> Handshaking (loginUser ss # us))\<rparr>)"
| proven: "conns s k = Some (Handshaking us) \<Longrightarrow> u \<in> set us \<Longrightarrow> signs k u \<Longrightarrow>
    service_step parse os signs hp exts s (s\<lparr>conns := (conns s)(k \<mapsto> Established u)\<rparr>)"
| refused: "conns s k = Some (Handshaking us) \<Longrightarrow> service_step parse os signs hp exts s (s\<lparr>conns := (conns s)(k \<mapsto> Blocked)\<rparr>)"
| channel: "conns s k = Some (Established u) \<Longrightarrow> accepts_channel ty \<Longrightarrow> a \<notin> used_addrs s \<Longrightarrow> start_session hp exts a (svc s) = (svr, ss) \<Longrightarrow>
    service_step parse os signs hp exts s (s\<lparr>svc := ss, used_addrs := insert a (used_addrs s), conns := (conns s)(k \<mapsto> InSession a u)\<rparr>)"
| serving: "servers (svc s) = xs @ (a, svr) # ys \<Longrightarrow> svr_User svr' = svr_User svr \<Longrightarrow> jailPath svr' = jailPath svr \<Longrightarrow>
    service_step parse os signs hp exts s (s\<lparr>svc := (svc s)\<lparr>servers := xs @ (a, svr') # ys\<rparr>, svc_world := w\<rparr>)"
| request: "conns s k = Some (InSession a u) \<Longrightarrow> subsystem_request ty payload = r \<Longrightarrow>
    service_step parse os signs hp exts s (s\<lparr>svc_crashed := svc_crashed s \<or> r = None\<rparr>)"
| eof: "conns s k = Some (InSession a u) \<Longrightarrow>
    service_step parse os signs hp exts s (s\<lparr>svc := removeServer (svc s) a, conns := (conns s)(k \<mapsto> Established u)\<rparr>)"
| failed: "conns s k = Some (InSession a u) \<Longrightarrow> service_step parse os signs hp exts s (s\<lparr>conns := (conns s)(k \<mapsto> Established u)\<rparr>)"
| leave: "conns s k = Some (Established u) \<Longrightarrow> service_step parse os signs hp exts s (s\<lparr>conns := (conns s)(k \<mapsto> Finished)\<rparr>)"

abbreviation service_reach :: "(string \<Rightarrow> go_error + bytes) \<Rightarrow> ('w, 'f, 'z) os_api_scheme \<Rightarrow> (nat \<Rightarrow> User \<Rightarrow> bool) \<Rightarrow> page \<Rightarrow> extensionPair list \<Rightarrow>
    ('w, 'f) service_state \<Rightarrow> ('w, 'f) service_state \<Rightarrow> bool" where
  "service_reach parse os signs hp exts \<equiv> (service_step parse os signs hp exts)\<^sup>*\<^sup>*"

subsection \<open>Every session is that of a configured user\<close>

text \<open>The user of a connection that got through the handshake.\<close>

fun authenticated :: "conn_phase \<Rightarrow> User option" where
  "authenticated (Established u) = Some u"
| "authenticated (InSession _ u) = Some u"
| "authenticated _ = None"

definition root_of :: "ConfigService \<Rightarrow> User \<Rightarrow> string" where
  "root_of c u = (if IsCleanDirUser u then CleanPath (cs_config c) else StagingPath (cs_config c))"

definition service_inv :: "ConfigService \<Rightarrow> UserGov \<Rightarrow> ('w, 'f) service_state \<Rightarrow> bool" where
  "service_inv c ug s \<longleftrightarrow> configsvc (svc s) = c \<and> usrgov (svc s) = ug \<and>
     (\<forall>k p. conns s k = Some p \<longrightarrow> (\<forall>us. p = Handshaking us \<longrightarrow> set us \<subseteq> set (Users ug) \<and> (us \<noteq> [] \<longrightarrow> loginUser (svc s) \<in> set (Users ug))) \<and>
        (\<forall>u. authenticated p = Some u \<longrightarrow> u \<in> set (Users ug) \<and> loginUser (svc s) \<in> set (Users ug))) \<and>
     (\<forall>(a, svr) \<in> set (servers (svc s)). svr_User svr \<in> set (Users ug) \<and> jailPath svr = root_of c (svr_User svr))"

lemma service_invI:
  assumes "configsvc (svc s) = c" "usrgov (svc s) = ug"
    and "\<And>k us. conns s k = Some (Handshaking us) \<Longrightarrow> set us \<subseteq> set (Users ug) \<and> (us \<noteq> [] \<longrightarrow> loginUser (svc s) \<in> set (Users ug))"
    and "\<And>k p u. conns s k = Some p \<Longrightarrow> authenticated p = Some u \<Longrightarrow> u \<in> set (Users ug) \<and> loginUser (svc s) \<in> set (Users ug)"
    and "\<And>a svr. (a, svr) \<in> set (servers (svc s)) \<Longrightarrow> svr_User svr \<in> set (Users ug) \<and> jailPath svr = root_of c (svr_User svr)"
  shows "service_inv c ug s"
  using assms by (auto simp: service_inv_def)

lemma service_invD:
  assumes "service_inv c ug s"
  shows "configsvc (svc s) = c" "usrgov (svc s) = ug"
    and "conns s k = Some (Handshaking us) \<Longrightarrow> set us \<subseteq> set (Users ug) \<and> (us \<noteq> [] \<longrightarrow> loginUser (svc s) \<in> set (Users ug))"
    and "conns s k = Some p \<Longrightarrow> authenticated p = Some u \<Longrightarrow> u \<in> set (Users ug) \<and> loginUser (svc s) \<in> set (Users ug)"
    and "(a, svr) \<in> set (servers (svc s)) \<Longrightarrow> svr_User svr \<in> set (Users ug) \<and> jailPath svr = root_of c (svr_User svr)"
  using assms by (auto simp: service_inv_def)

text \<open>A callback that accepts puts a configured user into the field; nothing else of the service changes.\<close>

lemma login_as_service: "login_as os ss usr w = (ss', w') \<Longrightarrow> loginUser ss' = usr \<and> configsvc ss' = configsvc ss \<and> usrgov ss' = usrgov ss \<and> servers ss' = servers ss"
  by (auto simp: login_as_def Let_def)

lemma PasswordCallback_service:
  assumes "PasswordCallback os ss name pass w = (None, ss', w')"
  shows "loginUser ss' \<in> set (Users (usrgov ss)) \<and> configsvc ss' = configsvc ss \<and> usrgov ss' = usrgov ss \<and> servers ss' = servers ss"
  using PasswordCallback_ok [OF assms] assms by (auto simp: PasswordCallback_def dest: login_as_service split: prod.splits bool.splits)

lemma auth_key_loop_user: "auth_key_loop parse vs name key = (u, True, None) \<Longrightarrow> u \<in> set vs"
  by (induction vs) (auto split: if_splits sum.splits)

lemma PublicKeyCallback_service:
  assumes "PublicKeyCallback parse os ss name key w = (None, ss', w')"
  shows "loginUser ss' \<in> set (Users (usrgov ss)) \<and> configsvc ss' = configsvc ss \<and> usrgov ss' = usrgov ss \<and> servers ss' = servers ss"
proof -
  obtain u where u: "AuthPublicKey parse (usrgov ss) name key = (u, True, None)" "login_as os ss u w = (ss', w')"
    using assms by (auto simp: PublicKeyCallback_def split: prod.splits bool.splits option.splits)
  then show ?thesis using auth_key_loop_user login_as_service [OF u(2)] by (auto simp: AuthPublicKey_def)
qed

lemma start_session_servers:
  "start_session hp exts a ss = (svr, ss') \<Longrightarrow> svr_User svr = loginUser ss \<and> jailPath svr = root_of (configsvc ss) (loginUser ss) \<and>
     servers ss' = servers ss @ [(a, svr)] \<and> loginUser ss' = loginUser ss \<and> configsvc ss' = configsvc ss \<and> usrgov ss' = usrgov ss"
  by (auto simp: start_session_def Let_def NewServer_def session_jailPath_def root_of_def)

lemma service_inv_callback:
  assumes "service_inv c ug s" and "loginUser ss \<in> set (Users ug) \<and> configsvc ss = c \<and> usrgov ss = ug \<and> servers ss = servers (svc s)"
    and "(\<exists>us. p = Handshaking us \<and> set us \<subseteq> set (Users ug)) \<or> (\<exists>u. p = Established u \<and> u \<in> set (Users ug))"
  shows "service_inv c ug (s\<lparr>svc := ss, svc_world := w, conns := (conns s)(k \<mapsto> p)\<rparr>)"
  using assms by (intro service_invI) (auto split: if_splits dest: service_invD)

lemma service_step_inv:
  assumes "service_step parse os signs hp exts s t" and "service_inv c ug s"
  shows "service_inv c ug t"
  using assms
proof (induction rule: service_step.induct)
  case (password s k us name pass ss w)
  note d = service_invD [OF password.prems]
  have "loginUser ss \<in> set (Users ug) \<and> configsvc ss = c \<and> usrgov ss = ug \<and> servers ss = servers (svc s)"
    using PasswordCallback_service [OF password.hyps(2)] d(1,2) by simp
  then show ?case by (intro service_inv_callback [OF password.prems]) auto
next
  case (offered s k us name key ss w)
  note d = service_invD [OF offered.prems]
  have "loginUser ss \<in> set (Users ug) \<and> configsvc ss = c \<and> usrgov ss = ug \<and> servers ss = servers (svc s)"
    using PublicKeyCallback_service [OF offered.hyps(2)] d(1,2) by simp
  then show ?case using d(3) [OF offered.hyps(1)] by (intro service_inv_callback [OF offered.prems]) auto
next
  case (channel s k u ty a svr ss)
  note d = service_invD [OF channel.prems] and st = start_session_servers [OF channel.hyps(4)]
  have l: "u \<in> set (Users ug)" "loginUser (svc s) \<in> set (Users ug)" using d(4) [OF channel.hyps(1)] by auto
  then show ?case using st d by (intro service_invI) (auto split: if_splits)
next
  case (serving s xs a svr ys svr' w)
  note d = service_invD [OF serving.prems]
  have "svr_User x \<in> set (Users ug) \<and> jailPath x = root_of c (svr_User x)" if "(b, x) \<in> set (xs @ (a, svr') # ys)" for b x
    using that d(5) [of b x] d(5) [of a svr] serving.hyps by auto
  then show ?case using d by (intro service_invI) auto
next
  case (eof s k a u)
  note d = service_invD [OF eof.prems]
  have "(b, x) \<in> set (servers (svc s))" if "(b, x) \<in> set (servers (removeServer (svc s) a))" for b x
    using that by (cases "servers (svc s)") (auto simp: removeServer_keeps_first)
  then have "svr_User x \<in> set (Users ug) \<and> jailPath x = root_of c (svr_User x)" if "(b, x) \<in> set (servers (removeServer (svc s) a))" for b x
    using that d(5) by blast
  then show ?case using d eof.hyps by (intro service_invI) (auto simp: removeServer_def split: if_splits)
next
  case (accept s k)
  note d = service_invD [OF accept.prems]
  then show ?case by (intro service_invI) (auto split: if_splits)
next
  case (proven s k us u)
  note d = service_invD [OF proven.prems]
  then show ?case using d(3) [OF proven.hyps(1)] proven.hyps(2) by (intro service_invI) (auto split: if_splits)
next
  case (refused s k us)
  note d = service_invD [OF refused.prems]
  then show ?case by (intro service_invI) (auto split: if_splits)
next
  case (failed s k a u)
  note d = service_invD [OF failed.prems]
  then show ?case using failed.hyps by (intro service_invI) (auto split: if_splits)
next
  case (leave s k u)
  note d = service_invD [OF leave.prems]
  then show ?case by (intro service_invI) (auto split: if_splits)
next
  case (accept_error s)
  then show ?case by (auto simp: service_inv_def)
next
  case (request s k a u ty payload r)
  then show ?case by (auto simp: service_inv_def)
qed

lemma service_reach_inv:
  assumes "service_reach parse os signs hp exts (service_start c ug w) s"
  shows "service_inv c ug s"
  using assms
proof (induction rule: rtranclp_induct)
  case base
  show ?case by (rule service_invI) (auto simp: service_start_def NewSFTPService_def)
next
  case (step s t)
  then show ?case using service_step_inv by blast
qed

text \<open>
  C9: Every session is that of a configured user. In every interleaving of connections, as long as the accounts are not reloaded, the servers that run have one of the configured users, and the root directory
  that belongs to the kind of that user; and a connection that got through the handshake did so as a configured user.
\<close>
theorem sessions_of_configured_users:
  assumes "service_reach parse os signs hp exts (service_start c ug w) s"
  shows "((a, svr) \<in> set (servers (svc s)) \<longrightarrow> svr_User svr \<in> set (Users ug) \<and> jailPath svr = root_of c (svr_User svr)) \<and>
    (conns s k = Some p \<longrightarrow> authenticated p = Some u \<longrightarrow> u \<in> set (Users ug))"
  using service_invD [OF service_reach_inv [OF assms]] by blast

text \<open>
  C8: But not that of its own user. If one user can log in with a password and a second one has an authorized key, there is a run in which the server of the first one's connection acts for
  the second: it is enough that, between the login and the opening of the channel, anyone offers the second user's public key on another connection. Nobody proves to hold that key.
\<close>
theorem session_for_an_offered_key:
  assumes "AuthPass ug name pass = (alice, True)" and "AuthPublicKey parse ug other key = (bob, True, None)"
  shows "\<exists>s svr. service_reach parse os (\<lambda>_ _. False) hp exts (service_start c ug w) s \<and> conns s 0 = Some (InSession 0 alice) \<and>
    (0, svr) \<in> set (servers (svc s)) \<and> svr_User svr = bob \<and> jailPath svr = root_of c bob"
proof -
  let ?step = "service_step parse os (\<lambda>_ _. False) hp exts"
  let ?s0 = "service_start c ug w :: ('a, 'b) service_state"
  let ?s1 = "?s0\<lparr>conns := [0 \<mapsto> Handshaking []]\<rparr>"
  let ?s2 = "?s1\<lparr>conns := [0 \<mapsto> Handshaking [], 1 \<mapsto> Handshaking []]\<rparr>"
  have a1: "?step ?s0 ?s1" using service_step.accept [of ?s0 0 parse os "\<lambda>_ _. False" hp exts] by (simp add: service_start_def)
  have a2: "?step ?s1 ?s2" using service_step.accept [of ?s1 1 parse os "\<lambda>_ _. False" hp exts] by (simp add: service_start_def)
  obtain ss w1 where l: "login_as os (svc ?s2) alice w = (ss, w1)" by fastforce
  note ls = login_as_service [OF l]
  have pc: "PasswordCallback os (svc ?s2) name pass (svc_world ?s2) = (None, ss, w1)"
    using assms(1) l by (simp add: PasswordCallback_def service_start_def NewSFTPService_def)
  let ?s3 = "?s2\<lparr>svc := ss, svc_world := w1, conns := (conns ?s2)(0 \<mapsto> Established alice)\<rparr>"
  have a3: "?step ?s2 ?s3" using pc service_step.password [of ?s2 0 "[]" os name pass ss w1 parse "\<lambda>_ _. False" hp exts] ls by simp
  obtain ss' w2 where l': "login_as os ss bob w1 = (ss', w2)" by fastforce
  note ls' = login_as_service [OF l']
  have kc: "PublicKeyCallback parse os (svc ?s3) other key (svc_world ?s3) = (None, ss', w2)"
    using assms(2) l' ls by (simp add: PublicKeyCallback_def service_start_def NewSFTPService_def)
  let ?s4 = "?s3\<lparr>svc := ss', svc_world := w2, conns := (conns ?s3)(1 \<mapsto> Handshaking [bob])\<rparr>"
  have a4: "?step ?s3 ?s4" using kc service_step.offered [of ?s3 1 "[]" parse os other key ss' w2 "\<lambda>_ _. False" hp exts] ls' by simp
  obtain svr ss3 where st: "start_session hp exts 0 ss' = (svr, ss3)" by fastforce
  note sv = start_session_servers [OF st]
  let ?s5 = "?s4\<lparr>svc := ss3, used_addrs := {0}, conns := (conns ?s4)(0 \<mapsto> InSession 0 alice)\<rparr>"
  have a5: "?step ?s4 ?s5" using service_step.channel [of ?s4 0 alice "''session''" 0 hp exts svr ss3 parse os "\<lambda>_ _. False"] st by (simp add: service_start_def accepts_channel_def)
  have "service_reach parse os (\<lambda>_ _. False) hp exts ?s0 ?s5"
    using a1 a2 a3 a4 a5 by (meson converse_rtranclp_into_rtranclp r_into_rtranclp)
  moreover have "(0, svr) \<in> set (servers (svc ?s5))" "svr_User svr = bob" "jailPath svr = root_of c bob" "conns ?s5 0 = Some (InSession 0 alice)"
    using sv ls ls' by (simp_all add: service_start_def NewSFTPService_def)
  ultimately show ?thesis by blast
qed

text \<open>The witness: two configured users, and a parser of keys that reads the text.\<close>

definition alice_user :: User where
  "alice_user = \<lparr>JailDirectory = ''alice'', Readonly = False, user_Auth = \<lparr>Username = ''alice'', Password = ''secret'', PublicKey = []\<rparr>, IsCleanDirUser = False\<rparr>"

definition bob_user :: User where
  "bob_user = \<lparr>JailDirectory = ''*'', Readonly = False, user_Auth = \<lparr>Username = ''bob'', Password = ''x'', PublicKey = ''K''\<rparr>, IsCleanDirUser = True\<rparr>"

definition demo_users :: UserGov where
  "demo_users = NewUserGov [alice_user, bob_user]"

abbreviation text_parse :: "string \<Rightarrow> go_error + bytes" where "text_parse \<equiv> \<lambda>s. Inr (bytes_of_string s)"

lemma demo_logins: "AuthPass demo_users ''alice'' ''secret'' = (alice_user, True)" "AuthPublicKey text_parse demo_users ''bob'' (bytes_of_string ''K'') = (bob_user, True, None)"
  by (simp_all add: AuthPass_def AuthPublicKey_def demo_users_def NewUserGov_def alice_user_def bob_user_def)

theorem session_for_an_offered_key_witness:
  "\<exists>s svr. service_reach text_parse demo_os (\<lambda>_ _. False) 0 [] (service_start NewConfigService demo_users 0) s \<and> conns s 0 = Some (InSession 0 alice_user) \<and>
     (0, svr) \<in> set (servers (svc s)) \<and> svr_User svr = bob_user"
  using session_for_an_offered_key [OF demo_logins, of demo_os 0 "[]" NewConfigService 0] by blast

theorem sessions_of_configured_users_witness:
  "\<exists>s svr. service_reach text_parse demo_os (\<lambda>_ _. False) 0 [] (service_start NewConfigService demo_users 0) s \<and>
     (0, svr) \<in> set (servers (svc s)) \<and> svr_User svr \<in> {alice_user, bob_user} \<and> jailPath svr = root_of NewConfigService (svr_User svr)"
proof -
  let ?t = "(service_start NewConfigService demo_users 0 :: (nat, nat) service_state)"
  obtain ss :: "nat SFTPService" and w where l: "login_as demo_os (NewSFTPService NewConfigService demo_users) alice_user 0 = (ss, w)" by fastforce
  obtain svr ss2 where st: "start_session 0 [] 0 ss = (svr, ss2)" by fastforce
  let ?s1 = "?t\<lparr>conns := [0 \<mapsto> Handshaking []]\<rparr>"
  let ?s2 = "?s1\<lparr>svc := ss, svc_world := w, conns := [0 \<mapsto> Established alice_user]\<rparr>"
  let ?s3 = "?s2\<lparr>svc := ss2, used_addrs := {0}, conns := [0 \<mapsto> InSession 0 alice_user]\<rparr>"
  have "service_step text_parse demo_os (\<lambda>_ _. False) 0 [] ?t ?s1"
    using service_step.accept [of ?t 0 text_parse demo_os "\<lambda>_ _. False" 0 "[]"] by (simp add: service_start_def)
  moreover have "PasswordCallback demo_os (svc ?s1) ''alice'' ''secret'' 0 = (None, ss, w)"
    using l demo_logins by (simp add: PasswordCallback_def service_start_def NewSFTPService_def)
  then have "service_step text_parse demo_os (\<lambda>_ _. False) 0 [] ?s1 ?s2"
    using service_step.password [of ?s1 0 "[]" demo_os "''alice''" "''secret''" ss w text_parse "\<lambda>_ _. False" 0 "[]"] login_as_service [OF l] by (simp add: service_start_def)
  moreover have "service_step text_parse demo_os (\<lambda>_ _. False) 0 [] ?s2 ?s3"
    using service_step.channel [of ?s2 0 alice_user "''session''" 0 0 "[]" svr ss2 text_parse demo_os "\<lambda>_ _. False"] st by (simp add: service_start_def accepts_channel_def)
  ultimately have r: "service_reach text_parse demo_os (\<lambda>_ _. False) 0 [] ?t ?s3" by (meson converse_rtranclp_into_rtranclp r_into_rtranclp)
  have m: "(0, svr) \<in> set (servers (svc ?s3))" using start_session_servers [OF st] by simp
  have "svr_User svr \<in> set (Users demo_users) \<and> jailPath svr = root_of NewConfigService (svr_User svr)" using sessions_of_configured_users [OF r] m by blast
  then show ?thesis using r m by (intro exI [of _ ?s3] exI [of _ svr]) (simp add: demo_users_def NewUserGov_def)
qed

text \<open>A user can end the process: a request for a subsystem without a name is enough.\<close>

lemma short_request_crashes:
  assumes "conns s k = Some (InSession a u)"
  shows "service_step parse os signs hp exts s (s\<lparr>svc_crashed := True\<rparr>)"
  using service_step.request [OF assms, of "''subsystem''" "[]" None parse os signs hp exts] by (simp add: subsystem_request_def)

end
