(* ===== verification/Go_Encoding.thy ===== *)
theory Go_Encoding
  imports Wire_Codec Sftp_Protocol
begin

text \<open>
  The functions of Go's packages \<^verbatim>\<open>strconv\<close>, \<^verbatim>\<open>encoding/base64\<close>, \<^verbatim>\<open>encoding/hex\<close>, \<^verbatim>\<open>crypto/sha1\<close>, \<^verbatim>\<open>crypto/hmac\<close> and \<^verbatim>\<open>crypto/cipher\<close>
  that the reader of PuTTY keys uses. The block cipher, \<^verbatim>\<open>crypto/aes\<close>, stays a parameter of what is built on it.
\<close>

subsection \<open>Numbers\<close>

definition is_digit :: "char \<Rightarrow> bool" where
  "is_digit c \<longleftrightarrow> 48 \<le> (of_char c :: nat) \<and> (of_char c :: nat) \<le> 57"

text \<open>\<^verbatim>\<open>strconv.Atoi\<close>: an optional sign and decimal digits, within the range of a 64-bit integer.\<close>

definition num_error :: "string \<Rightarrow> string \<Rightarrow> go_error" where
  "num_error s what = ErrText (''strconv.Atoi: parsing '' @ go_quote s @ '': '' @ what)"

fun parse_digits :: "string \<Rightarrow> int \<Rightarrow> string \<Rightarrow> go_error + int" where
  "parse_digits s n [] = Inr n"
| "parse_digits s n (c # cs) =
     (if \<not> is_digit c then Inl (num_error s ''invalid syntax'')
      else let n = 10 * n + int (of_char c - 48)
           in if n < 2 ^ 64 then parse_digits s n cs else Inl (num_error s ''value out of range''))"

definition Atoi :: "string \<Rightarrow> go_error + int" where
  "Atoi s =
     (let neg = (case s of c # _ \<Rightarrow> c = CHR ''-'' | [] \<Rightarrow> False);
          ds = (case s of c # cs \<Rightarrow> if c = CHR ''-'' \<or> c = CHR ''+'' then cs else s | [] \<Rightarrow> [])
      in if ds = [] then Inl (num_error s ''invalid syntax'')
         else case parse_digits s 0 ds of
                Inl e \<Rightarrow> Inl e
              | Inr n \<Rightarrow> if \<not> neg \<and> n \<ge> 2 ^ 63 \<or> neg \<and> n > 2 ^ 63 then Inl (num_error s ''value out of range'')
                        else Inr (if neg then - n else n))"

subsection \<open>Base64\<close>

text \<open>The standard alphabet, and its inverse.\<close>

definition b64_char :: "nat \<Rightarrow> char" where
  "b64_char v = char_of (if v < 26 then 65 + v else if v < 52 then 71 + v else if v < 62 then v - 4 else if v = 62 then 43 else 47)"

definition b64_val :: "char \<Rightarrow> nat option" where
  "b64_val c =
     (let n = (of_char c :: nat)
      in if 65 \<le> n \<and> n \<le> 90 then Some (n - 65)
         else if 97 \<le> n \<and> n \<le> 122 then Some (n - 71)
         else if 48 \<le> n \<and> n \<le> 57 then Some (n + 4)
         else if n = 43 then Some 62
         else if n = 47 then Some 63
         else None)"

text \<open>The bytes of two, three or four values of six bits.\<close>

definition b64_bytes :: "nat list \<Rightarrow> bytes" where
  "b64_bytes vs =
     (let n = foldl (\<lambda>a v. 64 * a + v) 0 (take 4 (vs @ [0, 0, 0, 0]))
      in take (length vs - 1) [of_nat (n div 65536), of_nat (n div 256), of_nat n])"

text \<open>
  \<^verbatim>\<open>StdEncoding.DecodeString\<close> on text without line breaks (the reader of keys has removed them): quanta of four characters, the last padded. The error is the
  position of the offending character.
\<close>

fun b64_decode :: "nat \<Rightarrow> nat list \<Rightarrow> string \<Rightarrow> nat + bytes" where
  "b64_decode pos vs [] = (if vs = [] then Inr [] else Inl (pos - length vs))"
| "b64_decode pos vs (c # cs) =
     (case b64_val c of
        Some v \<Rightarrow>
          (if length vs = 3
           then map_sum (\<lambda>p. p) (\<lambda>bs. b64_bytes (vs @ [v]) @ bs) (b64_decode (pos + 1) [] cs)
           else b64_decode (pos + 1) (vs @ [v]) cs)
      | None \<Rightarrow>
          (if c \<noteq> CHR ''='' \<or> length vs < 2 then Inl pos
           else if length vs = 2
           then (case cs of
                   [] \<Rightarrow> Inl (pos + 1)
                 | d # ds \<Rightarrow> if d \<noteq> CHR ''='' then Inl pos else if ds \<noteq> [] then Inl (pos + 2) else Inr (b64_bytes vs))
           else if cs \<noteq> [] then Inl (pos + 1) else Inr (b64_bytes vs)))"

definition DecodeString :: "string \<Rightarrow> go_error + bytes" where
  "DecodeString s = map_sum (\<lambda>p. ErrText (''illegal base64 data at input byte '' @ digits_of p)) (\<lambda>b. b) (b64_decode 0 [] s)"

text \<open>The encoding, for the statement of the round trip.\<close>

definition b64_group :: "nat \<Rightarrow> string" where
  "b64_group n = map b64_char [n div 262144, n div 4096 mod 64, n div 64 mod 64, n mod 64]"

fun b64_encode :: "bytes \<Rightarrow> string" where
  "b64_encode (a # b # c # bs) = b64_group (65536 * unat a + 256 * unat b + unat c) @ b64_encode bs"
| "b64_encode [a, b] = take 3 (b64_group (65536 * unat a + 256 * unat b)) @ ''=''"
| "b64_encode [a] = take 2 (b64_group (65536 * unat a)) @ ''==''"
| "b64_encode [] = []"

subsection \<open>Hashes\<close>

definition EncodeToString :: "bytes \<Rightarrow> string" where
  "EncodeToString bs = concat (map (\<lambda>b. [hex_digit (unat b div 16), hex_digit (unat b mod 16)]) bs)"

fun words_of :: "bytes \<Rightarrow> u32 list" where
  "words_of (a # b # c # d # bs) = (push_bit 24 (ucast a) OR push_bit 16 (ucast b) OR push_bit 8 (ucast c) OR ucast d) # words_of bs"
| "words_of _ = []"

text \<open>SHA-1: the message schedule (kept in reverse order) and the eighty rounds for one block of sixty-four bytes.\<close>

fun sha1_schedule :: "nat \<Rightarrow> u32 list \<Rightarrow> u32 list" where
  "sha1_schedule 0 ws = rev ws"
| "sha1_schedule (Suc n) ws = sha1_schedule n (word_rotl 1 (ws ! 2 XOR ws ! 7 XOR ws ! 13 XOR ws ! 15) # ws)"

definition sha1_f :: "nat \<Rightarrow> u32 \<Rightarrow> u32 \<Rightarrow> u32 \<Rightarrow> u32" where
  "sha1_f t b c d =
     (if t < 20 then (b AND c) OR (NOT b AND d) else if t < 40 then b XOR c XOR d
      else if t < 60 then (b AND c) OR (b AND d) OR (c AND d) else b XOR c XOR d)"

definition sha1_k :: "nat \<Rightarrow> u32" where
  "sha1_k t = (if t < 20 then 0x5A827999 else if t < 40 then 0x6ED9EBA1 else if t < 60 then 0x8F1BBCDC else 0xCA62C1D6)"

fun sha1_rounds :: "nat \<Rightarrow> u32 list \<Rightarrow> u32 \<times> u32 \<times> u32 \<times> u32 \<times> u32 \<Rightarrow> u32 \<times> u32 \<times> u32 \<times> u32 \<times> u32" where
  "sha1_rounds t [] s = s"
| "sha1_rounds t (w # ws) (a, b, c, d, e) =
     sha1_rounds (Suc t) ws (word_rotl 5 a + sha1_f t b c d + e + w + sha1_k t, a, word_rotl 30 b, c, d)"

fun sha1_add :: "u32 \<times> u32 \<times> u32 \<times> u32 \<times> u32 \<Rightarrow> u32 \<times> u32 \<times> u32 \<times> u32 \<times> u32 \<Rightarrow> u32 \<times> u32 \<times> u32 \<times> u32 \<times> u32" where
  "sha1_add (a, b, c, d, e) (a', b', c', d', e') = (a + a', b + b', c + c', d + d', e + e')"

definition sha1_block :: "u32 \<times> u32 \<times> u32 \<times> u32 \<times> u32 \<Rightarrow> bytes \<Rightarrow> u32 \<times> u32 \<times> u32 \<times> u32 \<times> u32" where
  "sha1_block s bs = sha1_add s (sha1_rounds 0 (sha1_schedule 64 (rev (words_of bs))) s)"

definition sha1_pad :: "bytes \<Rightarrow> bytes" where
  "sha1_pad m = m @ [128] @ replicate ((119 - length m mod 64) mod 64) 0 @ marshalUint64 [] (of_nat (8 * length m))"

function sha1_blocks :: "u32 \<times> u32 \<times> u32 \<times> u32 \<times> u32 \<Rightarrow> bytes \<Rightarrow> u32 \<times> u32 \<times> u32 \<times> u32 \<times> u32" where
  "sha1_blocks s bs = (if bs = [] then s else sha1_blocks (sha1_block s (take 64 bs)) (drop 64 bs))"
  by pat_completeness auto
termination by (relation "measure (\<lambda>(_, bs). length bs)") auto

declare sha1_blocks.simps [simp del]

definition sha1_Sum :: "bytes \<Rightarrow> bytes" where
  "sha1_Sum m =
     (case sha1_blocks (0x67452301, 0xEFCDAB89, 0x98BADCFE, 0x10325476, 0xC3D2E1F0) (sha1_pad m) of
        (a, b, c, d, e) \<Rightarrow> marshalUint32 (marshalUint32 (marshalUint32 (marshalUint32 (marshalUint32 [] a) b) c) d) e)"

definition hmac_sha1 :: "bytes \<Rightarrow> bytes \<Rightarrow> bytes" where
  "hmac_sha1 key m =
     (let k = (if length key > 64 then sha1_Sum key else key); k = k @ replicate (64 - length k) 0
      in sha1_Sum (map (\<lambda>b. b XOR 0x5C) k @ sha1_Sum (map (\<lambda>b. b XOR 0x36) k @ m)))"

subsection \<open>Cipher block chaining\<close>

text \<open>\<^verbatim>\<open>NewCBCDecrypter(block, iv).CryptBlocks\<close> on whole blocks of sixteen bytes, and its inverse.\<close>

function cbc_decrypt :: "(bytes \<Rightarrow> bytes) \<Rightarrow> bytes \<Rightarrow> bytes \<Rightarrow> bytes" where
  "cbc_decrypt dec iv ct =
     (if ct = [] then [] else map2 (XOR) (dec (take 16 ct)) iv @ cbc_decrypt dec (take 16 ct) (drop 16 ct))"
  by pat_completeness auto
termination by (relation "measure (\<lambda>(_, _, ct). length ct)") auto

function cbc_encrypt :: "(bytes \<Rightarrow> bytes) \<Rightarrow> bytes \<Rightarrow> bytes \<Rightarrow> bytes" where
  "cbc_encrypt enc iv pt =
     (if pt = [] then [] else let c = enc (map2 (XOR) (take 16 pt) iv) in c @ cbc_encrypt enc c (drop 16 pt))"
  by pat_completeness auto
termination by (relation "measure (\<lambda>(_, _, pt). length pt)") auto

declare cbc_decrypt.simps [simp del] cbc_encrypt.simps [simp del]

subsection \<open>Laws\<close>

lemma length_sha1_Sum [simp]: "length (sha1_Sum m) = 20"
  by (simp add: sha1_Sum_def split: prod.splits)

lemma length_hmac_sha1 [simp]: "length (hmac_sha1 key m) = 20"
  by (simp add: hmac_sha1_def Let_def)

lemma length_EncodeToString [simp]: "length (EncodeToString bs) = 2 * length bs"
  by (induction bs) (simp_all add: EncodeToString_def)

lemma b64_val_char: "v < 64 \<Longrightarrow> b64_val (b64_char v) = Some v"
  by (simp add: b64_val_def b64_char_def Let_def) arith

lemma b64_char_not_newline: "v < 64 \<Longrightarrow> of_char (b64_char v) > (32 :: nat)"
  by (simp add: b64_char_def) arith

lemma b64_bytes_simps:
  "b64_bytes [v1, v2, v3, v4] = (let n = 64 * (64 * (64 * v1 + v2) + v3) + v4 in [of_nat (n div 65536), of_nat (n div 256), of_nat n])"
  "b64_bytes [v1, v2, v3] = take 2 (b64_bytes [v1, v2, v3, 0])"
  "b64_bytes [v1, v2] = take 1 (b64_bytes [v1, v2, 0, 0])"
  by (simp_all add: b64_bytes_def Let_def)

lemma group_bytes:
  fixes a b c :: byte
  assumes "n = 65536 * unat a + 256 * unat b + unat c"
  shows "b64_bytes [n div 262144, n div 4096 mod 64, n div 64 mod 64, n mod 64] = [a, b, c]"
proof -
  have u: "unat a < 256" "unat b < 256" "unat c < 256" using unsigned_less [of a] unsigned_less [of b] unsigned_less [of c] by simp_all
  have "64 * (64 * (64 * (n div 262144) + n div 4096 mod 64) + n div 64 mod 64) + n mod 64 = n"
  proof -
    have "n div 262144 = n div 64 div 64 div 64" "n div 4096 = n div 64 div 64" by (simp_all flip: div_mult2_eq)
    then show ?thesis using mult_div_mod_eq [of 64 n] mult_div_mod_eq [of 64 "n div 64"] mult_div_mod_eq [of 64 "n div 64 div 64"] by simp
  qed
  moreover have "n div 65536 = unat a" "n div 256 = 256 * unat a + unat b" using u assms by simp_all
  moreover have "(of_nat (256 * unat a + unat b) :: byte) = b" "(of_nat n :: byte) = c"
  proof -
    have z: "(256 :: byte) = 0" "(65536 :: byte) = 0" by simp_all
    show "(of_nat (256 * unat a + unat b) :: byte) = b" "(of_nat n :: byte) = c" by (simp_all add: assms z del: word_of_int_numeral)
  qed
  ultimately show ?thesis unfolding b64_bytes_simps(1) Let_def by simp
qed

lemma b64_decode_group:
  assumes "n < 16777216"
  shows "b64_decode pos [] (b64_group n @ cs) =
    map_sum (\<lambda>p. p) (\<lambda>bs. b64_bytes [n div 262144, n div 4096 mod 64, n div 64 mod 64, n mod 64] @ bs) (b64_decode (Suc (Suc (Suc (Suc pos)))) [] cs)"
proof -
  have "n div 262144 < 64" using assms by simp
  then show ?thesis by (simp add: b64_group_def b64_val_char)
qed

lemma bytes_bound: "65536 * unat (a :: byte) + 256 * unat (b :: byte) + unat (c :: byte) < 16777216"
proof -
  have "unat x < 256" for x :: byte using unsigned_less [of x, where 'a = nat] by simp
  from this [of a] this [of b] this [of c] show ?thesis by simp
qed

lemma b64_val_pad: "b64_val (CHR ''='') = None"
  by (simp add: b64_val_def)

lemma b64_roundtrip: "b64_decode pos [] (b64_encode bs) = Inr bs"
proof (induction bs arbitrary: pos rule: b64_encode.induct)
  case (1 a b c bs)
  then show ?case using group_bytes [OF refl, of a b c] by (simp add: b64_decode_group bytes_bound)
next
  case (2 a b)
  let ?n = "65536 * unat a + 256 * unat b + unat (0 :: byte)"
  have "?n mod 64 = 0" by simp
  then have "b64_bytes [?n div 262144, ?n div 4096 mod 64, ?n div 64 mod 64] = [a, b]"
    using group_bytes [OF refl, of a b 0] by (simp add: b64_bytes_simps(2))
  moreover have "?n div 262144 < 64" using bytes_bound [of a b 0] by simp
  ultimately show ?case by (simp add: b64_group_def b64_val_char b64_val_pad)
next
  case (3 a)
  let ?n = "65536 * unat a + 256 * unat (0 :: byte) + unat (0 :: byte)"
  have e: "?n = 64 * (64 * (16 * unat a))" by simp
  have "?n mod 64 = 0" "?n div 64 mod 64 = 0" unfolding e by simp_all
  then have "b64_bytes [?n div 262144, ?n div 4096 mod 64] = [a]"
    using group_bytes [OF refl, of a 0 0] by (simp add: b64_bytes_simps(3))
  moreover have "?n div 262144 < 64" using bytes_bound [of a 0 0] by simp
  ultimately show ?case by (simp add: b64_group_def b64_val_char b64_val_pad)
qed simp

lemma DecodeString_encode: "DecodeString (b64_encode bs) = Inr bs"
  by (simp add: DecodeString_def b64_roundtrip)

lemma length_b64_encode: "length (b64_encode bs) mod 4 = 0"
  by (induction bs rule: b64_encode.induct) (simp_all add: b64_group_def)

lemma b64_encode_printable: "c \<in> set (b64_encode bs) \<Longrightarrow> of_char c > (32 :: nat)"
proof (induction bs rule: b64_encode.induct)
  case (1 a b c' bs)
  then show ?case using bytes_bound [of a b c'] by (auto simp: b64_group_def intro: b64_char_not_newline)
next
  case (2 a b)
  then show ?case using bytes_bound [of a b 0] by (auto simp: b64_group_def intro: b64_char_not_newline)
next
  case (3 a)
  then show ?case using bytes_bound [of a 0 0] by (auto simp: b64_group_def intro: b64_char_not_newline)
qed simp

text \<open>Numbers are read back as they are printed.\<close>

lemma digits_of_digit: "c \<in> set (digits_of n) \<Longrightarrow> is_digit c"
  by (induction n rule: digits_of.induct) (subst (asm) (2) digits_of.simps, auto simp: is_digit_def split: if_splits)

lemma digits_of_nonempty: "digits_of n \<noteq> []"
  by (subst digits_of.simps) simp

lemma parse_digits_eq:
  "\<forall>c \<in> set ds. is_digit c \<Longrightarrow> int (foldl (\<lambda>a c. 10 * a + (of_char c - 48)) a ds) < 2 ^ 64 \<Longrightarrow>
    parse_digits s (int a) ds = Inr (int (foldl (\<lambda>a c. 10 * a + (of_char c - 48)) a ds))"
proof (induction ds arbitrary: a)
  case (Cons c ds)
  let ?f = "\<lambda>a c. 10 * a + (of_char c - 48 :: nat)"
  have mono: "a \<le> foldl ?f a es" for a es
  proof (induction es arbitrary: a)
    case (Cons c es)
    have "a \<le> ?f a c" by simp
    with Cons.IH [of "?f a c"] show ?case by simp
  qed simp
  have "10 * int a + int (of_char c - 48) < 2 ^ 64" using mono [of "?f a c" ds] Cons.prems(2) by simp
  then show ?case using Cons.IH [of "?f a c"] Cons.prems by (simp add: Let_def)
qed simp

lemma Atoi_digits: "int n < 2 ^ 63 \<Longrightarrow> Atoi (digits_of n) = Inr (int n)"
proof -
  assume n: "int n < 2 ^ 63"
  obtain c cs where c: "digits_of n = c # cs" using digits_of_nonempty by (cases "digits_of n") auto
  with digits_of_digit [of c n] have "c \<noteq> CHR ''-'' \<and> c \<noteq> CHR ''+''" by (auto simp: is_digit_def)
  moreover have "parse_digits (digits_of n) 0 (digits_of n) = Inr (int n)"
    using parse_digits_eq [of "digits_of n" 0] undigits_digits_of [of n] n digits_of_digit [of _ n] by (simp add: undigits_def)
  ultimately show ?thesis using n c by (simp add: Atoi_def)
qed

end
