(* ===== verification/Putty_File.thy ===== *)
theory Putty_File
  imports Go_Encoding Go_Path
begin

text \<open>
  The reader of PuTTY key files, putty/putty.go: the scanner of header lines and bodies, the fields of a key file in their order, the
  decryption of the private part and the check of its message authentication code. A file is a stream of bytes with the error that ends it. The block cipher is the
  parameter \<open>aes\<close>, from a key of 32 bytes and a block of 16 bytes to the decrypted block.
\<close>

subsection \<open>Data\<close>

definition maxKeyBlobSize :: int where "maxKeyBlobSize = 262144"

definition maxKeyBlobLines :: int where "maxKeyBlobLines = maxKeyBlobSize div 48"

definition maxHeaderLength :: nat where "maxHeaderLength = 39"

record Key =
  Algo :: string
  PublicKeyBlob :: bytes
  PrivateKeyBlob :: bytes
  Comment :: string
  Encryption :: string
  PrivateMac :: string
  PrivateHash :: string
  decrypted :: bool

definition zeroKey :: Key where
  "zeroKey = \<lparr>Algo = [], PublicKeyBlob = [], PrivateKeyBlob = [], Comment = [], Encryption = [], PrivateMac = [], PrivateHash = [], decrypted = False\<rparr>"

definition fieldsOrder :: "string list" where
  "fieldsOrder = [''PuTTY-User-Key-File-'', ''Encryption'', ''Comment'', ''Public-Lines'', ''Private-Lines'', ''Private-Hash'', ''Private-MAC'']"

subsection \<open>The scanner\<close>

definition ReadByte :: "reader \<Rightarrow> (go_error + byte) \<times> reader" where
  "ReadByte r = (case incoming_bytes r of [] \<Rightarrow> (Inl (ends_with r), r) | c # cs \<Rightarrow> (Inr c, r\<lparr>incoming_bytes := cs\<rparr>))"

abbreviation LF :: byte where "LF \<equiv> 10"
abbreviation CR :: byte where "CR \<equiv> 13"

text \<open>\<open>n\<close> is the variable \<^verbatim>\<open>length\<close>, which counts down to zero.\<close>

definition hex_upper :: "nat \<Rightarrow> char" where
  "hex_upper n = char_of (if n < 10 then 48 + n else 55 + n)"

fun read_header :: "nat \<Rightarrow> bytes \<Rightarrow> reader \<Rightarrow> (go_error + bytes) \<times> reader" where
  "read_header n buf r =
     (case ReadByte r of
        (Inl e, r) \<Rightarrow> (Inl e, r)
      | (Inr c, r) \<Rightarrow>
          if c = LF \<or> c = CR then (Inl (ErrText ''unexpected newlines''), r)
          else if c = byte_of_char (CHR '':'')
          then (case ReadByte r of
                  (Inl e, r) \<Rightarrow> (Inl e, r)
                | (Inr c, r) \<Rightarrow>
                    if c \<noteq> byte_of_char (CHR '' '')
                    then (Inl (ErrText (''expected whitespace, got \"0x'' @ [hex_upper (unat c div 16), hex_upper (unat c mod 16)] @ ''\"'')), r)
                    else (Inr buf, r))
          else (case n of
                  0 \<Rightarrow> (Inl (ErrText (''header length exceeded '' @ digits_of maxHeaderLength @ '' bytes'')), r)
                | Suc n \<Rightarrow> read_header n (buf @ [c]) r))"

declare read_header.simps [simp del]

definition readHeader :: "reader \<Rightarrow> (go_error + bytes) \<times> reader" where
  "readHeader r = read_header maxHeaderLength [] r"

text \<open>\<^verbatim>\<open>readBody\<close>: up to the end of the line or of the file; a second line-break character after the first is consumed as well. \<^verbatim>\<open>UnreadByte\<close> puts back the byte
  just read.\<close>

definition after_break :: "bytes \<Rightarrow> reader \<Rightarrow> (go_error + bytes) \<times> reader" where
  "after_break buf r =
     (case ReadByte r of
        (Inl e, r) \<Rightarrow> (if e = EOF then Inr buf else Inl e, r)
      | (Inr c, r') \<Rightarrow> (Inr buf, if c \<noteq> CR \<and> c \<noteq> LF then r else r'))"

function read_body :: "bytes \<Rightarrow> reader \<Rightarrow> (go_error + bytes) \<times> reader" where
  "read_body buf r =
     (case ReadByte r of
        (Inl e, r) \<Rightarrow> (if e = EOF then Inr buf else Inl e, r)
      | (Inr c, r) \<Rightarrow> if c = CR \<or> c = LF then after_break buf r else read_body (buf @ [c]) r)"
  by pat_completeness auto
termination
  by (relation "measure (\<lambda>(_, r). length (incoming_bytes r))") (auto simp: ReadByte_def split: list.splits)

declare read_body.simps [simp del]

definition readBody :: "reader \<Rightarrow> (go_error + bytes) \<times> reader" where
  "readBody r = read_body [] r"

fun read_blob :: "nat \<Rightarrow> bytes \<Rightarrow> reader \<Rightarrow> (go_error + bytes) \<times> reader" where
  "read_blob 0 buf r = (Inr buf, r)"
| "read_blob (Suc n) buf r =
     (case readBody r of
        (Inl e, r) \<Rightarrow> (Inl e, r)
      | (Inr line, r) \<Rightarrow>
          if length line mod 4 \<noteq> 0 \<or> length line > 64 then (Inl (ErrText ''invalid blob string length''), r)
          else read_blob n (buf @ line) r)"

definition readBlob :: "reader \<Rightarrow> int \<Rightarrow> (go_error + bytes) \<times> reader" where
  "readBlob r nlines = read_blob (nat nlines) [] r"

subsection \<open>The fields\<close>

definition key_algorithms :: "string list" where
  "key_algorithms = [''ssh-rsa'', ''ssh-dss'', ''ecdsa-sha2-nistp256'', ''ecdsa-sha2-nistp384'', ''ecdsa-sha2-nistp521'', ''ssh-ed25519'']"

text \<open>The blob after a header with its number of lines, and the field it is stored in.\<close>

definition decode_blob :: "string \<Rightarrow> string \<Rightarrow> reader \<Rightarrow> (go_error + bytes) \<times> reader" where
  "decode_blob h b r =
     (case Atoi b of
        Inl e \<Rightarrow> (Inl e, r)
      | Inr n \<Rightarrow>
          if n \<ge> maxKeyBlobLines then (Inl (ErrText (''invalid number of lines: '' @ Itoa n)), r)
          else (case readBlob r n of
                 (Inl e, r) \<Rightarrow> (Inl (ErrText (''failed to read blob data for '' @ go_quote h @ '': '' @ err_Error e)), r)
               | (Inr bs, r) \<Rightarrow>
                   (case DecodeString (string_of_bytes bs) of
                      Inl e \<Rightarrow> (Inl (ErrText (go_quote h @ '' header decode error: '' @ err_Error e)), r)
                    | Inr v \<Rightarrow> (Inr v, r))))"

definition store_field :: "nat \<Rightarrow> string \<Rightarrow> string \<Rightarrow> Key \<Rightarrow> reader \<Rightarrow> (go_error + Key) \<times> reader" where
  "store_field i h b k r =
     (if i = 0 then (if b \<notin> set key_algorithms then Inl (ErrText (''invalid key algorithm: '' @ b)) else Inr (k\<lparr>Algo := b\<rparr>), r)
      else if i = 1
      then (if b \<noteq> ''none'' \<and> b \<noteq> ''aes256-cbc'' then Inl (ErrText (''invalid encryption format: '' @ b)) else Inr (k\<lparr>Encryption := b\<rparr>), r)
      else if i = 2 then (Inr (k\<lparr>Comment := b\<rparr>), r)
      else if i = 3 \<or> i = 4
      then (case decode_blob h b r of
              (Inl e, r) \<Rightarrow> (Inl e, r)
            | (Inr v, r) \<Rightarrow> (Inr (if i = 3 then k\<lparr>PublicKeyBlob := v\<rparr> else k\<lparr>PrivateKeyBlob := v\<rparr>), r))
      else if i = 5 then (Inr (k\<lparr>PrivateHash := b\<rparr>), r)
      else if i = 6 then (Inr (k\<lparr>PrivateMac := b\<rparr>), r)
      else (Inl (ErrText ''index is out of range''), r))"

text \<open>The version in the first header; only version 2 is read, so that \<^verbatim>\<open>oldFmt\<close> is never true when the loop goes on.\<close>

definition check_version :: "string \<Rightarrow> string \<Rightarrow> go_error option" where
  "check_version h v =
     (if v = h @ ''1'' then Some (ErrText ''PuTTY key format is too old'')
      else if v = h @ ''2'' then None
      else Some (ErrText ''PuTTY key format is too new''))"

definition decode_field :: "nat \<Rightarrow> string \<Rightarrow> Key \<Rightarrow> reader \<Rightarrow> (go_error + Key) \<times> reader" where
  "decode_field i h k r =
     (case readHeader r of
        (Inl e, r) \<Rightarrow> (Inl (if i = 0 then ErrText (''no header line found in key file: '' @ err_Error e) else e), r)
      | (Inr header, r) \<Rightarrow>
          let v = string_of_bytes header
          in if i = 0 \<and> HasPrefix v h \<or> v = h
             then (case (if i = 0 then check_version h v else None) of
                     Some e \<Rightarrow> (Inl e, r)
                   | None \<Rightarrow>
                       (case readBody r of
                          (Inl e, r) \<Rightarrow> (Inl e, r)
                        | (Inr b, r) \<Rightarrow> store_field i h (string_of_bytes b) k r))
             else (Inl (if i = 0 then ErrText ''not a PuTTY SSH-2 private key''
                        else ErrText (''unexpected header '' @ go_quote v @ '', expecting '' @ go_quote h)), r))"

fun decode_loop :: "nat \<Rightarrow> string list \<Rightarrow> Key \<Rightarrow> reader \<Rightarrow> (go_error + Key) \<times> reader" where
  "decode_loop i [] k r = (Inr k, r)"
| "decode_loop i (h # hs) k r =
     (if i = 5 then decode_loop (i + 1) hs k r
      else case decode_field i h k r of
             (Inl e, r) \<Rightarrow> (Inl e, r)
           | (Inr k, r) \<Rightarrow> decode_loop (i + 1) hs k r)"

definition decodeFields :: "reader \<Rightarrow> (go_error + Key) \<times> reader" where
  "decodeFields r = decode_loop 0 fieldsOrder zeroKey r"

text \<open>\<^verbatim>\<open>Load\<close> and \<^verbatim>\<open>New\<close> read from bytes; \<^verbatim>\<open>LoadFromFile\<close> and \<^verbatim>\<open>NewFromFile\<close> from an opened file.\<close>

definition Load :: "Key \<Rightarrow> bytes \<Rightarrow> go_error option \<times> Key" where
  "Load k b = (case fst (decodeFields \<lparr>incoming_bytes = b, ends_with = EOF\<rparr>) of Inl e \<Rightarrow> (Some e, k) | Inr v \<Rightarrow> (None, v))"

definition New :: "bytes \<Rightarrow> go_error + Key" where
  "New b = (case Load zeroKey b of (Some e, _) \<Rightarrow> Inl e | (None, k) \<Rightarrow> Inr k)"

definition LoadFromFile :: "(string \<Rightarrow> go_error + reader) \<Rightarrow> Key \<Rightarrow> string \<Rightarrow> go_error option \<times> Key" where
  "LoadFromFile os_Open k path =
     (case os_Open path of
        Inl e \<Rightarrow> (Some e, k)
      | Inr f \<Rightarrow> (case fst (decodeFields f) of Inl e \<Rightarrow> (Some e, k) | Inr v \<Rightarrow> (None, v)))"

definition NewFromFile :: "(string \<Rightarrow> go_error + reader) \<Rightarrow> string \<Rightarrow> go_error + Key" where
  "NewFromFile os_Open path = (case LoadFromFile os_Open zeroKey path of (Some e, _) \<Rightarrow> Inl e | (None, k) \<Rightarrow> Inr k)"

subsection \<open>The private part\<close>

text \<open>The loop that hashes \<^verbatim>\<open>seq\<close> and the password until there are 32 bytes; each round adds twenty.\<close>

function derive_key :: "bytes \<Rightarrow> nat \<Rightarrow> bytes \<Rightarrow> bytes" where
  "derive_key password seq k =
     (let k = k @ sha1_Sum ([0, 0, 0, of_nat seq] @ password)
      in if length k \<ge> 32 then k else derive_key password (Suc seq) k)"
  by pat_completeness auto
termination by (relation "measure (\<lambda>(_, _, k). 32 - length k)") auto

declare derive_key.simps [simp del]

definition decryptCBC :: "(bytes \<Rightarrow> bytes \<Rightarrow> bytes) \<Rightarrow> bytes \<Rightarrow> bytes \<Rightarrow> go_error + bytes" where
  "decryptCBC aes password ciphertext =
     (if length ciphertext < 16 then Inl (ErrText ''ciphertext too short'')
      else if length ciphertext mod 16 \<noteq> 0 then Inl (ErrText ''ciphertext is not a multiple of the block size'')
      else Inr (cbc_decrypt (aes (take 32 (derive_key password 0 []))) (replicate 16 0) ciphertext))"

definition mac_field :: "bytes \<Rightarrow> bytes" where
  "mac_field b = marshalUint32 [] (of_nat (length b)) @ b"

definition key_mac :: "Key \<Rightarrow> bytes \<Rightarrow> string" where
  "key_mac k password =
     EncodeToString (hmac_sha1 (sha1_Sum (bytes_of_string ''putty-private-key-file-mac-key'' @ password))
       (mac_field (bytes_of_string (Algo k)) @ mac_field (bytes_of_string (Encryption k)) @ mac_field (bytes_of_string (Comment k)) @
        mac_field (PublicKeyBlob k) @ mac_field (PrivateKeyBlob k)))"

definition validateHMAC :: "Key \<Rightarrow> bytes \<Rightarrow> go_error option" where
  "validateHMAC k password =
     (let mac = key_mac k password
      in if mac \<noteq> PrivateMac k
         then Some (ErrText (''calculated HMAC '' @ go_quote mac @ '' doesn't correspond to '' @ go_quote (PrivateMac k)))
         else None)"

definition decrypt :: "(bytes \<Rightarrow> bytes \<Rightarrow> bytes) \<Rightarrow> bytes \<Rightarrow> Key \<Rightarrow> go_error option \<times> Key" where
  "decrypt aes password k =
     (case (if \<not> decrypted k \<and> Encryption k \<noteq> ''none''
            then map_sum (\<lambda>e. e) (\<lambda>v. k\<lparr>PrivateKeyBlob := v\<rparr>) (decryptCBC aes password (PrivateKeyBlob k))
            else Inr k) of
        Inl e \<Rightarrow> (Some e, k)
      | Inr k \<Rightarrow> let k = k\<lparr>decrypted := True\<rparr> in (validateHMAC k password, k))"

end
