(* ===== verification/Putty_Keys.thy ===== *)
theory Putty_Keys
  imports Putty_File
begin

text \<open>
  The keys inside a PuTTY key file: the decoder of the binary fields (putty/unmarshal.go) and the readers of the four kinds of keys
  (rsa.go, dsa.go, ecdsa.go, ed25519.go), with the entry points \<^verbatim>\<open>ParseRawPrivateKey\<close> and \<^verbatim>\<open>ParseRawPublicKey\<close> of putty.go. \<open>None\<close> is a panic. Multiplication on the elliptic curves, \<^verbatim>\<open>ScalarBaseMult\<close>
  of \<^verbatim>\<open>crypto/elliptic\<close>, is a parameter.
\<close>

subsection \<open>Big integers\<close>

definition SetBytes :: "bytes \<Rightarrow> nat" where
  "SetBytes bs = foldl (\<lambda>n b. 256 * n + unat b) 0 bs"

fun big_Bytes :: "nat \<Rightarrow> bytes" where
  "big_Bytes n = (if n = 0 then [] else big_Bytes (n div 256) @ [of_nat (n mod 256)])"

fun BitLen :: "nat \<Rightarrow> nat" where
  "BitLen n = (if n = 0 then 0 else Suc (BitLen (n div 2)))"

declare big_Bytes.simps [simp del] BitLen.simps [simp del]

text \<open>\<^verbatim>\<open>ModInverse\<close>, by the extended algorithm of Euclid; \<open>None\<close> stands for nil, the result when there is no inverse.\<close>

function egcd :: "int \<Rightarrow> int \<Rightarrow> int \<times> int" where
  "egcd a b = (if b \<le> 0 then (1, 0) else case egcd b (a mod b) of (x, y) \<Rightarrow> (y, x - (a div b) * y))"
  by pat_completeness auto
termination by (relation "measure (\<lambda>(_, b). nat b)") auto

declare egcd.simps [simp del]

definition ModInverse :: "nat \<Rightarrow> nat \<Rightarrow> nat option" where
  "ModInverse g n =
     (case egcd (int g) (int n) of
        (x, y) \<Rightarrow> if int g * x + int n * y = 1 then Some (nat (x mod int n)) else None)"

subsection \<open>Fields\<close>

text \<open>The kinds of fields the decoder knows, the values it sets, and the reader: its bytes and its position.\<close>

datatype field_kind = KString | KBytes | KInt

datatype field_value = FString string | FBytes bytes | FInt nat

definition readBytes :: "bytes \<Rightarrow> nat \<Rightarrow> go_error + (bytes \<times> nat)" where
  "readBytes data pos =
     (case ReadFull \<lparr>incoming_bytes = drop pos data, ends_with = EOF\<rparr> 4 of
        (Inl e, _) \<Rightarrow> Inl e
      | (Inr h, _) \<Rightarrow>
          (case unmarshalUint32 h of
             None \<Rightarrow> Inl EOF
           | Some (len, _) \<Rightarrow>
               let pos = pos + 4
               in if unat len + pos > length data then Inl (ErrText (''the element length '' @ decimal len @ '' is out of range''))
                  else Inr (take (unat len) (drop pos data), pos + unat len)))"

definition readString :: "bytes \<Rightarrow> nat \<Rightarrow> go_error + (string \<times> nat)" where
  "readString data pos = map_sum (\<lambda>e. e) (\<lambda>(b, pos). (string_of_bytes b, pos)) (readBytes data pos)"

definition readBigInt :: "bytes \<Rightarrow> nat \<Rightarrow> go_error + (nat \<times> nat)" where
  "readBigInt data pos = map_sum (\<lambda>e. e) (\<lambda>(b, pos). (SetBytes b, pos)) (readBytes data pos)"

definition parseField :: "field_kind \<Rightarrow> bytes \<Rightarrow> nat \<Rightarrow> go_error + (field_value \<times> nat)" where
  "parseField kd data pos =
     (case kd of
        KString \<Rightarrow> map_sum (\<lambda>e. e) (\<lambda>(s, pos). (FString s, pos)) (readString data pos)
      | KBytes \<Rightarrow> map_sum (\<lambda>e. e) (\<lambda>(b, pos). (FBytes b, pos)) (readBytes data pos)
      | KInt \<Rightarrow> map_sum (\<lambda>e. e) (\<lambda>(n, pos). (FInt n, pos)) (readBigInt data pos))"

fun parse_fields :: "field_kind list \<Rightarrow> bytes \<Rightarrow> nat \<Rightarrow> go_error + (field_value list \<times> nat)" where
  "parse_fields [] data pos = Inr ([], pos)"
| "parse_fields (kd # kds) data pos =
     (case parseField kd data pos of
        Inl e \<Rightarrow> Inl e
      | Inr (v, pos) \<Rightarrow> map_sum (\<lambda>e. e) (\<lambda>(vs, pos). (v # vs, pos)) (parse_fields kds data pos))"

definition checkGarbage :: "bytes \<Rightarrow> nat \<Rightarrow> bool \<Rightarrow> go_error option" where
  "checkGarbage data pos encrypted =
     (let pos = (if encrypted then pos + 16 - pos mod 16 else pos)
      in if length data \<noteq> pos then Some (ErrText (''expected '' @ digits_of pos @ '', got '' @ digits_of (length data))) else None)"

definition unmarshal_key :: "field_kind list \<Rightarrow> bytes \<Rightarrow> bool \<Rightarrow> go_error + field_value list" where
  "unmarshal_key kds data enc =
     (case parse_fields kds data 0 of
        Inl e \<Rightarrow> Inl e
      | Inr (vs, pos) \<Rightarrow>
          (case checkGarbage data pos enc of
             Some e \<Rightarrow> Inl (ErrText (''wrong key size: '' @ err_Error e))
           | None \<Rightarrow> Inr vs))"

subsection \<open>Keys\<close>

datatype curve = P256 | P384 | P521

datatype public_key =
    RSAPublic (rsa_E: int) (rsa_N: nat)
  | DSAPublic nat nat nat nat
  | ECDSAPublic curve nat nat
  | Ed25519Public bytes

datatype private_key =
    RSAPrivate (rsa_pub: public_key) (rsa_D: nat) (rsa_P: nat) (rsa_Q: nat) (rsa_Qinv: nat)
  | DSAPrivate public_key nat
  | ECDSAPrivate public_key nat
  | Ed25519Private bytes

definition header_error :: "string \<Rightarrow> Key \<Rightarrow> go_error" where
  "header_error h k = ErrText (''invalid header inside public key: '' @ go_quote h @ '': expected '' @ go_quote (Algo k))"

text \<open>The exponent is the low 64 bits of the number, as a signed integer.\<close>

definition readRSAPublicKey :: "Key \<Rightarrow> go_error + public_key" where
  "readRSAPublicKey k =
     (case unmarshal_key [KString, KInt, KInt] (PublicKeyBlob k) False of
        Inl e \<Rightarrow> Inl e
      | Inr [FString h, FInt e, FInt n] \<Rightarrow>
          if h \<noteq> Algo k then Inl (header_error h k) else Inr (RSAPublic (sint (of_nat e :: u64)) n)
      | Inr _ \<Rightarrow> Inl EOF)"

text \<open>\<^verbatim>\<open>Validate\<close> of \<^verbatim>\<open>crypto/rsa\<close>, for two primes.\<close>

definition rsa_Validate :: "int \<Rightarrow> nat \<Rightarrow> nat \<Rightarrow> nat \<Rightarrow> nat \<Rightarrow> go_error option" where
  "rsa_Validate e n d p q =
     (if e < 2 then Some (ErrText ''crypto/rsa: public exponent too small'')
      else if e > 2 ^ 31 - 1 then Some (ErrText ''crypto/rsa: public exponent too large'')
      else if p \<le> 1 \<or> q \<le> 1 then Some (ErrText ''crypto/rsa: invalid prime value'')
      else if p * q \<noteq> n then Some (ErrText ''crypto/rsa: invalid modulus'')
      else if (nat e * d) mod (p - 1) \<noteq> 1 \<or> (nat e * d) mod (q - 1) \<noteq> 1 then Some (ErrText ''crypto/rsa: invalid exponents'')
      else None)"

text \<open>\<^verbatim>\<open>Precompute\<close> sets the inverse of the second prime modulo the first, which is nil if there is none; comparing with nil panics.\<close>

definition readRSAPrivateKey :: "Key \<Rightarrow> (go_error + private_key) option" where
  "readRSAPrivateKey k =
     (case readRSAPublicKey k of
        Inl e \<Rightarrow> Some (Inl e)
      | Inr pub \<Rightarrow>
          (case unmarshal_key [KInt, KInt, KInt, KInt] (PrivateKeyBlob k) (Encryption k \<noteq> ''none'') of
             Inl e \<Rightarrow> Some (Inl e)
           | Inr [FInt d, FInt p, FInt q, FInt qinv] \<Rightarrow>
               (case rsa_Validate (rsa_E pub) (rsa_N pub) d p q of
                  Some e \<Rightarrow> Some (Inl (ErrText (''validation failed: '' @ err_Error e)))
                | None \<Rightarrow>
                    (case ModInverse q p of
                       None \<Rightarrow> None
                     | Some x \<Rightarrow>
                         if qinv \<noteq> x then Some (Inl (ErrText (''invalid precomputed data: '' @ digits_of x)))
                         else Some (Inr (RSAPrivate pub d p q qinv))))
           | Inr _ \<Rightarrow> Some (Inl EOF)))"

definition readDSAPublicKey :: "Key \<Rightarrow> go_error + public_key" where
  "readDSAPublicKey k =
     (case unmarshal_key [KString, KInt, KInt, KInt, KInt] (PublicKeyBlob k) False of
        Inl e \<Rightarrow> Inl e
      | Inr [FString h, FInt p, FInt q, FInt g, FInt y] \<Rightarrow>
          if h \<noteq> Algo k then Inl (header_error h k) else Inr (DSAPublic p q g y)
      | Inr _ \<Rightarrow> Inl EOF)"

definition readDSAPrivateKey :: "Key \<Rightarrow> (go_error + private_key) option" where
  "readDSAPrivateKey k =
     (case readDSAPublicKey k of
        Inl e \<Rightarrow> Some (Inl e)
      | Inr pub \<Rightarrow>
          (case unmarshal_key [KInt] (PrivateKeyBlob k) (Encryption k \<noteq> ''none'') of
             Inl e \<Rightarrow> Some (Inl e)
           | Inr [FInt x] \<Rightarrow> Some (Inr (DSAPrivate pub x))
           | Inr _ \<Rightarrow> Some (Inl EOF)))"

text \<open>The point of an elliptic curve key is cut without a check of its length.\<close>

definition curve_of :: "string \<Rightarrow> curve option" where
  "curve_of s = (if s = ''nistp256'' then Some P256 else if s = ''nistp384'' then Some P384 else if s = ''nistp521'' then Some P521 else None)"

definition readECDSAPublicKey :: "Key \<Rightarrow> (go_error + public_key) option" where
  "readECDSAPublicKey k =
     (case unmarshal_key [KString, KString, KBytes] (PublicKeyBlob k) False of
        Inl e \<Rightarrow> Some (Inl e)
      | Inr [FString h, FString len, FBytes bs] \<Rightarrow>
          if h \<noteq> Algo k then Some (Inl (header_error h k))
          else if \<not> HasSuffix (Algo k) len
          then Some (Inl (ErrText (''elliptic curves '' @ go_quote len @ '' key length doesn't correspond to '' @ go_quote (Algo k))))
          else if bs = [] then None
          else
            let l = length bs div 2; x = SetBytes (take l (drop 1 bs)); y = SetBytes (drop (l + 1) bs)
            in (case curve_of len of
                  None \<Rightarrow> Some (Inl (ErrText (''unsupported elliptic curves key length '' @ go_quote len)))
                | Some c \<Rightarrow> Some (Inr (ECDSAPublic c x y)))
      | Inr _ \<Rightarrow> Some (Inl EOF))"

definition curve_N :: "curve \<Rightarrow> nat" where
  "curve_N c = (case c of
     P256 \<Rightarrow> 0xFFFFFFFF00000000FFFFFFFFFFFFFFFFBCE6FAADA7179E84F3B9CAC2FC632551
   | P384 \<Rightarrow> 0xFFFFFFFFFFFFFFFFFFFFFFFFFFFFFFFFFFFFFFFFFFFFFFFFC7634D81F4372DDF581A0DB248B0A77AECEC196ACCC52973
   | P521 \<Rightarrow> 0x1FFFFFFFFFFFFFFFFFFFFFFFFFFFFFFFFFFFFFFFFFFFFFFFFFFFFFFFFFFFFFFFFFA51868783BF2F966B7FCC0148F709A5D03BB5C9B8899C47AEBB6FB71E91386409)"

definition readECDSAPrivateKey :: "(curve \<Rightarrow> bytes \<Rightarrow> nat \<times> nat) \<Rightarrow> Key \<Rightarrow> (go_error + private_key) option" where
  "readECDSAPrivateKey scalarBaseMult k =
     (case readECDSAPublicKey k of
        None \<Rightarrow> None
      | Some (Inl e) \<Rightarrow> Some (Inl e)
      | Some (Inr (ECDSAPublic c x y)) \<Rightarrow>
          (case unmarshal_key [KInt] (PrivateKeyBlob k) (Encryption k \<noteq> ''none'') of
             Inl e \<Rightarrow> Some (Inl e)
           | Inr [FInt priv] \<Rightarrow>
               if priv \<ge> curve_N c then Some (Inl (ErrText ''invalid elliptic curve private key value''))
               else
                 let n = (BitLen (curve_N c) + 7) div 8; bs = big_Bytes priv
                 in if length bs > n then None
                    else (case scalarBaseMult c (replicate (n - length bs) 0 @ bs) of
                           (xC, yC) \<Rightarrow>
                             if x \<noteq> xC then Some (Inl (ErrText ''calculated X doesn't correspond to public one''))
                             else if y \<noteq> yC then Some (Inl (ErrText ''calculated Y doesn't correspond to public one''))
                             else Some (Inr (ECDSAPrivate (ECDSAPublic c x y) priv)))
           | Inr _ \<Rightarrow> Some (Inl EOF))
      | Some (Inr _) \<Rightarrow> Some (Inl EOF))"

definition readED25519PublicKey :: "Key \<Rightarrow> go_error + bytes" where
  "readED25519PublicKey k =
     (case unmarshal_key [KString, KBytes] (PublicKeyBlob k) False of
        Inl e \<Rightarrow> Inl e
      | Inr [FString h, FBytes bs] \<Rightarrow>
          if h \<noteq> Algo k then Inl (header_error h k)
          else if length bs \<noteq> 32 then Inl (ErrText (''public key unexpected length: '' @ digits_of (length bs) @ '', expected 32''))
          else Inr bs
      | Inr _ \<Rightarrow> Inl EOF)"

definition readED25519PrivateKey :: "Key \<Rightarrow> go_error + bytes" where
  "readED25519PrivateKey k =
     (case readED25519PublicKey k of
        Inl e \<Rightarrow> Inl e
      | Inr pub \<Rightarrow>
          (case unmarshal_key [KBytes] (PrivateKeyBlob k) (Encryption k \<noteq> ''none'') of
             Inl e \<Rightarrow> Inl e
           | Inr [FBytes priv] \<Rightarrow>
               let key = priv @ pub
               in if length key \<noteq> 64 then Inl (ErrText (''private key unexpected length: '' @ digits_of (length key) @ '', expected 64''))
                  else Inr key
           | Inr _ \<Rightarrow> Inl EOF))"

subsection \<open>Entry points\<close>

definition is_ecdsa :: "string \<Rightarrow> bool" where
  "is_ecdsa a \<longleftrightarrow> a = ''ecdsa-sha2-nistp256'' \<or> a = ''ecdsa-sha2-nistp384'' \<or> a = ''ecdsa-sha2-nistp521''"

definition ParseRawPrivateKey :: "(bytes \<Rightarrow> bytes \<Rightarrow> bytes) \<Rightarrow> (curve \<Rightarrow> bytes \<Rightarrow> nat \<times> nat) \<Rightarrow> bytes \<Rightarrow> Key \<Rightarrow>
    (go_error + private_key) option \<times> Key" where
  "ParseRawPrivateKey aes scalarBaseMult password k =
     (if Encryption k \<noteq> ''none'' \<and> password = [] then (Some (Inl (ErrText ''expecting password'')), k)
      else case decrypt aes password k of
             (Some e, k) \<Rightarrow> (Some (Inl e), k)
           | (None, k) \<Rightarrow>
               (if Algo k = ''ssh-rsa'' then readRSAPrivateKey k
                else if is_ecdsa (Algo k) then readECDSAPrivateKey scalarBaseMult k
                else if Algo k = ''ssh-dss'' then readDSAPrivateKey k
                else if Algo k = ''ssh-ed25519'' then Some (map_sum (\<lambda>e. e) Ed25519Private (readED25519PrivateKey k))
                else Some (Inl (ErrText (''unsupported key type '' @ go_quote (Algo k)))), k))"

definition ParseRawPublicKey :: "Key \<Rightarrow> (go_error + public_key) option" where
  "ParseRawPublicKey k =
     (if Algo k = ''ssh-rsa'' then Some (readRSAPublicKey k)
      else if is_ecdsa (Algo k) then readECDSAPublicKey k
      else if Algo k = ''ssh-dss'' then Some (readDSAPublicKey k)
      else if Algo k = ''ssh-ed25519'' then Some (map_sum (\<lambda>e. e) Ed25519Public (readED25519PublicKey k))
      else Some (Inl (ErrText (''unsupported key type '' @ go_quote (Algo k)))))"

end
