(* ===== verification/Transfer_Client.thy ===== *)
theory Transfer_Client
  imports Scan_Pipeline Putty_Keys
begin

text \<open>
  The transfer clients, sftpclient/sftpclient.go: the downloader, which fetches the files of a remote directory into the staging area, the uploader, which sends the files of a
  clean directory and archives them, and the login with a password or a key. The SFTP client is that of \<^verbatim>\<open>github.com/pkg/sftp\<close>, outside the repository: its calls, and
  \<^verbatim>\<open>io.Copy\<close> between a local and a remote file, are functions of the record \<open>transfer_api\<close>, like the calls of the system. A walk is the list of the entries it
  visits.
\<close>

subsection \<open>Configuration and state\<close>

record DownloaderConfig =
  DLName :: string
  dc_Host :: string
  dc_Port :: int
  DeleteRemoteFileAfterDownload :: bool
  OverrideExistingFile :: bool
  dc_Username :: string
  dc_Password :: string
  dc_PrivateKeyPath :: string
  dc_PrivatekeyPassphrase :: string
  LocalStagingBaseDirectory :: string
  LocalStagingDirectory :: string
  dc_RemoteDirectory :: string
  fullLocalStagingDir :: string
  dc_fullRemoteDir :: string

record UploaderConfig =
  UplName :: string
  uc_Host :: string
  uc_Port :: int
  uc_Username :: string
  uc_Password :: string
  uc_PrivateKeyPath :: string
  uc_PrivatekeyPassphrase :: string
  LocalCleanBaseDirectory :: string
  uc_ArchiveBasePath :: string
  LocalDirectoryToUpload :: string
  uc_RemoteDirectory :: string
  OverrideRemoteExistingFile :: bool

record UploadPaths =
  fullLocalCleanUploadDir :: string
  fullLocalFilePath :: string
  archiveBaseDir :: string
  fullArchiveDir :: string
  fullArchiveWithSubDirsOnly :: string
  fullArchiveFilePath :: string
  up_fullRemoteDir :: string
  fullRemoteFilePath :: string
  subDirsDifferenceOnly :: string

record ('w, 'f, 'r) transfer_api = "('w, 'f) drive_api" +
  rc_Getwd :: "'w \<Rightarrow> (go_error + string) \<times> 'w"
  rc_OpenFile :: "string \<Rightarrow> u32 \<Rightarrow> 'w \<Rightarrow> (go_error + 'r) \<times> 'w"
  rc_Create :: "string \<Rightarrow> 'w \<Rightarrow> (go_error + 'r) \<times> 'w"
  rc_Remove :: "string \<Rightarrow> 'w \<Rightarrow> go_error option \<times> 'w"
  rc_MkdirAll :: "string \<Rightarrow> 'w \<Rightarrow> go_error option \<times> 'w"
  rc_Stat :: "string \<Rightarrow> 'w \<Rightarrow> (fileInfo option \<times> go_error option) \<times> 'w"
  rc_Close :: "'w \<Rightarrow> 'w"
  rf_Close :: "'r \<Rightarrow> 'w \<Rightarrow> 'w"
  copy_down :: "'f \<Rightarrow> 'r \<Rightarrow> 'w \<Rightarrow> go_error option \<times> 'w"
  copy_up :: "'r \<Rightarrow> 'f \<Rightarrow> 'w \<Rightarrow> go_error option \<times> 'w"

text \<open>An entry of a walk: an error, or a path and whether it is a directory.\<close>

datatype walk_entry = WalkErr go_error | WalkItem string bool

text \<open>Deferred calls run in reverse order when the function returns.\<close>

datatype ('f, 'r) deferred = CloseRemote 'r | CloseLocal 'f | Unmark string

definition unMarkFileInDownloadingState :: "('w, 'f, 'r) transfer_api \<Rightarrow> string \<Rightarrow> 'w \<Rightarrow> 'w" where
  "unMarkFileInDownloadingState api path w = snd (os_Rename api path (strings_Replace path ''.download'' [] 1) w)"

fun run_deferred :: "('w, 'f, 'r) transfer_api \<Rightarrow> ('f, 'r) deferred list \<Rightarrow> 'w \<Rightarrow> 'w" where
  "run_deferred api [] w = w"
| "run_deferred api (CloseRemote r # ds) w = run_deferred api ds (rf_Close api r w)"
| "run_deferred api (CloseLocal f # ds) w = run_deferred api ds (snd (file_Close api f w))"
| "run_deferred api (Unmark path # ds) w = run_deferred api ds (unMarkFileInDownloadingState api path w)"

subsection \<open>Local files and directories\<close>

definition isDirFileExist :: "('w, 'f, 'r) transfer_api \<Rightarrow> string \<Rightarrow> 'w \<Rightarrow> bool" where
  "isDirFileExist api path w = (\<not> os_IsNotExist (the_error (os_Stat api path w)))"

definition createLocalDir :: "('w, 'f, 'r) transfer_api \<Rightarrow> string \<Rightarrow> 'w \<Rightarrow> go_error option \<times> 'w" where
  "createLocalDir api dir w = (if \<not> isDirFileExist api dir w then os_Mkdir api dir 0x1ED w else (None, w))"

definition createLocalFile :: "('w, 'f, 'r) transfer_api \<Rightarrow> DownloaderConfig \<Rightarrow> string \<Rightarrow> 'w \<Rightarrow> (go_error + 'f) \<times> 'w" where
  "createLocalFile api cfg path w =
     (if \<not> isDirFileExist api path w then os_Create api path w
      else if OverrideExistingFile cfg
      then (case os_Remove api path w of
              (Some err, w) \<Rightarrow> (Inl err, w)
            | (None, w) \<Rightarrow> os_Create api path w)
      else os_Open api path w)"

definition ensureDir :: "('w, 'f, 'r) transfer_api \<Rightarrow> string \<Rightarrow> 'w \<Rightarrow> 'w" where
  "ensureDir api path w =
     (case os_Stat api path w of Inl _ \<Rightarrow> snd (os_MkdirAll api path 0x80000000 w) | Inr _ \<Rightarrow> w)"

subsection \<open>The downloader\<close>

definition setDownloaderFullLocalStagingAndRemotePath ::
  "('w, 'f, 'r) transfer_api \<Rightarrow> DownloaderConfig \<Rightarrow> 'w \<Rightarrow> DownloaderConfig \<times> 'w" where
  "setDownloaderFullLocalStagingAndRemotePath api cfg w =
     (case rc_Getwd api w of
        (wd, w) \<Rightarrow>
          (cfg\<lparr>dc_fullRemoteDir :=
                 (case wd of
                    Inl _ \<Rightarrow> dc_RemoteDirectory cfg
                  | Inr wd \<Rightarrow> if dc_RemoteDirectory cfg \<noteq> [] then Join [wd, dc_RemoteDirectory cfg] else wd),
               fullLocalStagingDir := Join [LocalStagingBaseDirectory cfg, LocalStagingDirectory cfg]\<rparr>, w))"

text \<open>One file: \<open>Some r\<close> if the function returns with \<open>r\<close>. A failed copy returns the variable \<^verbatim>\<open>err\<close>, which is nil at that point.\<close>

definition download_file :: "('w, 'f, 'r) transfer_api \<Rightarrow> DownloaderConfig \<Rightarrow> string \<Rightarrow> ('f, 'r) deferred list \<Rightarrow> 'w \<Rightarrow>
    go_error option option \<times> ('f, 'r) deferred list \<times> 'w" where
  "download_file api cfg rmtFilePath ds w =
     (let localFullFilePath = Join [fullLocalStagingDir cfg, Base rmtFilePath]
      in if \<not> OverrideExistingFile cfg then (Some None, ds, w)
         else case rc_OpenFile api rmtFilePath O_RDONLY w of
                (Inl err, w) \<Rightarrow> (Some (Some err), ds, w)
              | (Inr remoteFile, w) \<Rightarrow>
                  (let ds = CloseRemote remoteFile # ds
                   in case createLocalFile api cfg (localFullFilePath @ ''.download'') w of
                        (Inl err, w) \<Rightarrow> (Some (Some err), ds, w)
                      | (Inr localFile, w) \<Rightarrow>
                          (let ds = CloseLocal localFile # ds
                           in case copy_down api localFile remoteFile w of
                                (Some cerr, w) \<Rightarrow> (Some None, ds, w)
                              | (None, w) \<Rightarrow>
                                  (let ds = Unmark (file_Name api localFile) # ds
                                   in if DeleteRemoteFileAfterDownload cfg
                                      then (case rc_Remove api rmtFilePath w of
                                              (Some err, w) \<Rightarrow> (Some (Some err), ds, w)
                                            | (None, w) \<Rightarrow> (None, ds, w))
                                      else (None, ds, w)))))"

fun download_walk :: "('w, 'f, 'r) transfer_api \<Rightarrow> DownloaderConfig \<Rightarrow> walk_entry list \<Rightarrow> ('f, 'r) deferred list \<Rightarrow> 'w \<Rightarrow>
    go_error option \<times> ('f, 'r) deferred list \<times> 'w" where
  "download_walk api cfg [] ds w = (None, ds, w)"
| "download_walk api cfg (WalkErr e # es) ds w = download_walk api cfg es ds w"
| "download_walk api cfg (WalkItem path isdir # es) ds w =
     (if isdir then download_walk api cfg es ds w
      else case download_file api cfg path ds w of
             (Some r, ds, w) \<Rightarrow> (r, ds, w)
           | (None, ds, w) \<Rightarrow> download_walk api cfg es ds w)"

definition DownloadFilesRecursive :: "('w, 'f, 'r) transfer_api \<Rightarrow> DownloaderConfig \<Rightarrow> walk_entry list \<Rightarrow> 'w \<Rightarrow>
    go_error option \<times> DownloaderConfig \<times> 'w" where
  "DownloadFilesRecursive api cfg entries w =
     (case setDownloaderFullLocalStagingAndRemotePath api cfg w of
        (cfg, w) \<Rightarrow>
          (case download_walk api cfg entries [] (snd (createLocalDir api (fullLocalStagingDir cfg) w)) of
             (r, ds, w) \<Rightarrow> (r, cfg, rc_Close api (run_deferred api ds w))))"

subsection \<open>The uploader\<close>

definition zeroPaths :: UploadPaths where
  "zeroPaths = \<lparr>fullLocalCleanUploadDir = [], fullLocalFilePath = [], archiveBaseDir = [], fullArchiveDir = [], fullArchiveWithSubDirsOnly = [], fullArchiveFilePath = [],
     up_fullRemoteDir = [], fullRemoteFilePath = [], subDirsDifferenceOnly = []\<rparr>"

definition setUploaderFullLocalCleanAndRemotePath ::
  "('w, 'f, 'r) transfer_api \<Rightarrow> UploaderConfig \<Rightarrow> UploadPaths \<Rightarrow> 'w \<Rightarrow> UploadPaths \<times> 'w" where
  "setUploaderFullLocalCleanAndRemotePath api cfg up w =
     (case rc_Getwd api w of
        (wd, w) \<Rightarrow>
          (up\<lparr>archiveBaseDir := uc_ArchiveBasePath cfg,
              up_fullRemoteDir :=
                (case wd of
                   Inl _ \<Rightarrow> uc_RemoteDirectory cfg
                 | Inr wd \<Rightarrow> if uc_RemoteDirectory cfg \<noteq> [] then Join [wd, uc_RemoteDirectory cfg] else wd),
              fullLocalCleanUploadDir := Join [LocalCleanBaseDirectory cfg, LocalDirectoryToUpload cfg]\<rparr>, w))"

definition setUploaderFilePaths :: "UploaderConfig \<Rightarrow> string \<Rightarrow> UploadPaths \<Rightarrow> UploadPaths" where
  "setUploaderFilePaths cfg uploadFilePath up =
     (let sub = strings_Replace (Clean (fst (Split uploadFilePath))) (fullLocalCleanUploadDir up) [] 1;
          name = Base uploadFilePath;
          archive = Join [archiveBaseDir up, LocalDirectoryToUpload cfg, sub]
      in up\<lparr>fullLocalFilePath := uploadFilePath, subDirsDifferenceOnly := sub, fullRemoteFilePath := Join [up_fullRemoteDir up, name],
            fullArchiveDir := archive, fullArchiveFilePath := Join [archive, name]\<rparr>)"

definition isRemoteFileExist :: "('w, 'f, 'r) transfer_api \<Rightarrow> string \<Rightarrow> 'w \<Rightarrow> bool \<times> 'w" where
  "isRemoteFileExist api path w =
     (case rc_Stat api path w of
        ((f, lerr), w) \<Rightarrow> (if lerr \<noteq> None then os_IsExist lerr else f \<noteq> None, w))"

text \<open>Moving the uploaded file: only a missing source is taken for an error of opening, and copying from the nil file then fails.\<close>

definition moveUploadedFileFromCleanToArchive :: "('w, 'f, 'r) transfer_api \<Rightarrow> UploadPaths \<Rightarrow> 'w \<Rightarrow> go_error option \<times> 'w" where
  "moveUploadedFileFromCleanToArchive api up w =
     (let w = ensureDir api (fullArchiveDir up) w
      in if \<not> isDirFileExist api (fullLocalFilePath up) w then (None, w)
         else case os_Open api (fullLocalFilePath up) w of
                (opened, w) \<Rightarrow>
                  (if os_IsNotExist (the_error opened) then (the_error opened, w)
                   else
                     let srcFile = (case opened of Inl _ \<Rightarrow> None | Inr f \<Rightarrow> Some f)
                     in case os_Create api (fullArchiveFilePath up) w of
                          (Inl err, w) \<Rightarrow> (Some err, close_if_open api srcFile (close_if_open api srcFile w))
                        | (Inr destFile, w) \<Rightarrow>
                            (case (case srcFile of None \<Rightarrow> (Some ErrInvalid, w) | Some f \<Rightarrow> io_Copy api destFile f w) of
                               (err, w) \<Rightarrow>
                                 (let w = close_if_open api srcFile w;
                                      (r, w) = (case err of Some e \<Rightarrow> (Some e, w) | None \<Rightarrow> os_Remove api (fullLocalFilePath up) w)
                                  in (r, close_if_open api srcFile (snd (file_Close api destFile w)))))))"

definition upload_file :: "('w, 'f, 'r) transfer_api \<Rightarrow> UploaderConfig \<Rightarrow> string \<Rightarrow> UploadPaths \<Rightarrow> ('f, 'r) deferred list \<Rightarrow> 'w \<Rightarrow>
    UploadPaths \<times> ('f, 'r) deferred list \<times> 'w" where
  "upload_file api cfg v up ds w =
     (case os_Open api v w of
        (Inl err, w) \<Rightarrow> (up, ds, w)
      | (Inr localFile, w) \<Rightarrow>
          (let ds = CloseLocal localFile # ds; up = setUploaderFilePaths cfg (file_Name api localFile) up
           in case isRemoteFileExist api (fullRemoteFilePath up) w of
                (exist, w) \<Rightarrow>
                  if exist \<and> \<not> OverrideRemoteExistingFile cfg then (up, ds, w)
                  else (case rc_Create api (fullRemoteFilePath up) w of
                         (Inl cerr, w) \<Rightarrow> (up, ds, w)
                       | (Inr _, w) \<Rightarrow>
                           (case rc_OpenFile api (fullRemoteFilePath up) (O_WRONLY OR O_CREATE OR O_TRUNC) w of
                              (Inl oerr, w) \<Rightarrow> (up, ds, w)
                            | (Inr rmtFile, w) \<Rightarrow>
                                (case copy_up api rmtFile localFile w of
                                   (Some coerr, w) \<Rightarrow> (up, ds, w)
                                 | (None, w) \<Rightarrow> (up, ds, snd (moveUploadedFileFromCleanToArchive api up w)))))))"

fun upload_files :: "('w, 'f, 'r) transfer_api \<Rightarrow> UploaderConfig \<Rightarrow> string list \<Rightarrow> UploadPaths \<Rightarrow> ('f, 'r) deferred list \<Rightarrow> 'w \<Rightarrow>
    UploadPaths \<times> ('f, 'r) deferred list \<times> 'w" where
  "upload_files api cfg [] up ds w = (up, ds, w)"
| "upload_files api cfg (v # vs) up ds w = (case upload_file api cfg v up ds w of (up, ds, w) \<Rightarrow> upload_files api cfg vs up ds w)"

text \<open>The files a walk finds. The function given to \<^verbatim>\<open>filepath.Walk\<close> always returns nil, so that the walk does not fail.\<close>

fun files_to_upload :: "walk_entry list \<Rightarrow> string list" where
  "files_to_upload [] = []"
| "files_to_upload (WalkErr e # es) = files_to_upload es"
| "files_to_upload (WalkItem path isdir # es) = (if isdir then files_to_upload es else path # files_to_upload es)"

definition UploadFilesRecursive :: "('w, 'f, 'r) transfer_api \<Rightarrow> UploaderConfig \<Rightarrow> UploadPaths \<Rightarrow> walk_entry list \<Rightarrow> 'w \<Rightarrow>
    go_error option \<times> UploadPaths \<times> 'w" where
  "UploadFilesRecursive api cfg up entries w =
     (case setUploaderFullLocalCleanAndRemotePath api cfg up w of
        (up, w) \<Rightarrow>
          (let w = ensureDir api (fullLocalCleanUploadDir up) (ensureDir api (archiveBaseDir up) w)
           in case rc_MkdirAll api (up_fullRemoteDir up) w of
                (Some err, w) \<Rightarrow> (Some err, up, rc_Close api w)
              | (None, w) \<Rightarrow>
                  (case upload_files api cfg (files_to_upload entries) up [] w of
                     (up, ds, w) \<Rightarrow> (None, up, rc_Close api (run_deferred api ds w)))))"

definition toMultiline :: "string list \<Rightarrow> string" where
  "toMultiline stra = concat (map (\<lambda>v. v @ ''\<newline>'') stra)"

end
