(* ===== verification/Putty_Correct.thy ===== *)
theory Putty_Correct
  imports Putty_Keys
begin

text \<open>
  What the reader of PuTTY keys does: it reads back every key file of format version 2, decrypts what was encrypted, accepts only consistent RSA keys; when it
  panics, and what a wrong passphrase does to a key.
\<close>

subsection \<open>Key files\<close>

text \<open>The format: header lines, and the two blobs in lines of 64 characters of base64.\<close>

fun b64_lines :: "string \<Rightarrow> string list" where
  "b64_lines s = (if s = [] then [] else take 64 s # b64_lines (drop 64 s))"

declare b64_lines.simps [simp del]

definition pub_lines :: "Key \<Rightarrow> string list" where "pub_lines k = b64_lines (b64_encode (PublicKeyBlob k))"

definition priv_lines :: "Key \<Rightarrow> string list" where "priv_lines k = b64_lines (b64_encode (PrivateKeyBlob k))"

definition text_lines :: "bytes \<Rightarrow> string list \<Rightarrow> bytes" where
  "text_lines eol ls = concat (map (\<lambda>l. bytes_of_string l @ eol) ls)"

definition key_file :: "bytes \<Rightarrow> Key \<Rightarrow> bytes" where
  "key_file eol k = text_lines eol
     ([''PuTTY-User-Key-File-2: '' @ Algo k, ''Encryption: '' @ Encryption k, ''Comment: '' @ Comment k,
       ''Public-Lines: '' @ digits_of (length (pub_lines k))] @ pub_lines k @
      [''Private-Lines: '' @ digits_of (length (priv_lines k))] @ priv_lines k @ [''Private-MAC: '' @ PrivateMac k])"

definition unbroken :: "bytes \<Rightarrow> bool" where "unbroken b \<longleftrightarrow> CR \<notin> set b \<and> LF \<notin> set b"

definition key_wf :: "Key \<Rightarrow> bool" where
  "key_wf k \<longleftrightarrow> Algo k \<in> set key_algorithms \<and> (Encryption k = ''none'' \<or> Encryption k = ''aes256-cbc'') \<and>
     unbroken (bytes_of_string (Comment k)) \<and> unbroken (bytes_of_string (PrivateMac k)) \<and>
     length (pub_lines k) < 5461 \<and> length (priv_lines k) < 5461 \<and> PrivateHash k = [] \<and> \<not> decrypted k"

abbreviation kfile :: "bytes \<Rightarrow> reader" where "kfile b \<equiv> \<lparr>incoming_bytes = b, ends_with = EOF\<rparr>"

definition line_end :: "bytes \<Rightarrow> bool" where "line_end eol \<longleftrightarrow> eol = [LF] \<or> eol = [CR] \<or> eol = [CR, LF]"

definition new_line :: "bytes \<Rightarrow> bool" where "new_line rest \<longleftrightarrow> (case rest of [] \<Rightarrow> True | c # _ \<Rightarrow> c \<noteq> CR \<and> c \<noteq> LF)"

subsection \<open>Scanning lines\<close>

lemma read_header_line:
  "58 \<notin> set h \<Longrightarrow> unbroken h \<Longrightarrow> length h \<le> n \<Longrightarrow> read_header n buf (kfile (h @ 58 # 32 # rest)) = (Inr (buf @ h), kfile rest)"
proof (induction h arbitrary: n buf)
  case Nil
  then show ?case by (subst read_header.simps) (simp add: ReadByte_def byte_of_char_def)
next
  case (Cons c h)
  then show ?case by (subst read_header.simps) (auto simp: ReadByte_def byte_of_char_def unbroken_def split: nat.splits)
qed

lemma readHeader_line:
  "58 \<notin> set h \<Longrightarrow> unbroken h \<Longrightarrow> length h \<le> 39 \<Longrightarrow> readHeader (kfile (h @ 58 # 32 # rest)) = (Inr h, kfile rest)"
  by (simp add: readHeader_def maxHeaderLength_def read_header_line)

lemma read_body_line:
  "unbroken b \<Longrightarrow> line_end eol \<Longrightarrow> new_line rest \<Longrightarrow> read_body buf (kfile (b @ eol @ rest)) = (Inr (buf @ b), kfile rest)"
proof (induction b arbitrary: buf)
  case Nil
  then show ?case
    by (subst read_body.simps) (auto simp: ReadByte_def after_break_def line_end_def new_line_def split: list.splits)
next
  case (Cons c b)
  then show ?case by (subst read_body.simps) (simp add: ReadByte_def unbroken_def)
qed

lemma readBody_line: "unbroken b \<Longrightarrow> line_end eol \<Longrightarrow> new_line rest \<Longrightarrow> readBody (kfile (b @ eol @ rest)) = (Inr b, kfile rest)"
  by (simp add: readBody_def read_body_line)

lemma unbroken_string: "\<forall>c \<in> set s. of_char c > (31 :: nat) \<Longrightarrow> unbroken (bytes_of_string s)"
proof -
  assume a: "\<forall>c \<in> set s. of_char c > (31 :: nat)"
  have "byte_of_char c \<noteq> CR \<and> byte_of_char c \<noteq> LF" if "c \<in> set s" for c
  proof -
    have "unat (byte_of_char c) = of_char c" by (simp add: byte_of_char_def unat_of_nat)
    with a that show ?thesis by auto
  qed
  then show ?thesis by (auto simp: unbroken_def bytes_of_string_def)
qed

subsection \<open>Blobs\<close>

lemma concat_b64_lines: "concat (b64_lines s) = s"
  by (induction s rule: b64_lines.induct) (subst b64_lines.simps, simp)

lemma b64_lines_line:
  "l \<in> set (b64_lines s) \<Longrightarrow> length s mod 4 = 0 \<Longrightarrow> l \<noteq> [] \<and> length l mod 4 = 0 \<and> length l \<le> 64 \<and> set l \<subseteq> set s"
proof (induction s rule: b64_lines.induct)
  case (1 s)
  show ?case
  proof (cases "s = []")
    case True
    with "1.prems"(1) show ?thesis by (simp add: b64_lines.simps)
  next
    case False
    with "1.prems"(1) consider "l = take 64 s" | "l \<in> set (b64_lines (drop 64 s))" by (subst (asm) b64_lines.simps) auto
    then show ?thesis
    proof cases
      case 1
      with False "1.prems"(2) show ?thesis by (auto simp: min_def dest: in_set_takeD)
    next
      case 2
      have "length (drop 64 s) mod 4 = 0" using "1.prems"(2) by (cases "length s \<le> 64") (simp_all, presburger)
      with "1.IH" [OF False 2] show ?thesis using set_drop_subset [of 64 s] by blast
    qed
  qed
qed

definition blob_line :: "string \<Rightarrow> bool" where
  "blob_line l \<longleftrightarrow> l \<noteq> [] \<and> unbroken (bytes_of_string l) \<and> length l mod 4 = 0 \<and> length l \<le> 64"

lemma b64_blob_lines: "l \<in> set (b64_lines (b64_encode v)) \<Longrightarrow> blob_line l"
  using b64_lines_line [of l "b64_encode v", OF _ length_b64_encode] b64_encode_printable [of _ v] unbroken_string [of l]
  by (fastforce simp: blob_line_def)

lemma text_lines_simps [simp]:
  "text_lines eol [] = []" "text_lines eol (l # ls) = bytes_of_string l @ eol @ text_lines eol ls"
  "text_lines eol (ls @ ls') = text_lines eol ls @ text_lines eol ls'"
  by (simp_all add: text_lines_def)

lemma new_line_blob: "\<forall>l \<in> set ls. blob_line l \<Longrightarrow> new_line rest \<Longrightarrow> new_line (text_lines eol ls @ rest)"
proof (cases ls)
  case (Cons l ls')
  moreover assume "\<forall>l \<in> set ls. blob_line l"
  ultimately obtain c cs where "l = c # cs" "unbroken (bytes_of_string l)" by (cases l) (auto simp: blob_line_def)
  with Cons show ?thesis by (auto simp: new_line_def unbroken_def bytes_of_string_def)
qed simp

lemma read_blob_lines:
  assumes "line_end eol" "new_line rest"
  shows "\<forall>l \<in> set ls. blob_line l \<Longrightarrow>
    read_blob (length ls) buf (kfile (text_lines eol ls @ rest)) = (Inr (buf @ bytes_of_string (concat ls)), kfile rest)"
proof (induction ls arbitrary: buf)
  case (Cons l ls)
  then have "readBody (kfile (bytes_of_string l @ eol @ text_lines eol ls @ rest)) = (Inr (bytes_of_string l), kfile (text_lines eol ls @ rest))"
    using assms by (intro readBody_line new_line_blob) (auto simp: blob_line_def)
  with Cons show ?case by (auto simp: blob_line_def bytes_of_string_def)
qed (simp add: bytes_of_string_def)

lemma decode_blob_lines:
  assumes "line_end eol" "new_line rest" "ls = b64_lines (b64_encode v)" "length ls < 5461"
  shows "decode_blob h (digits_of (length ls)) (kfile (text_lines eol ls @ rest)) = (Inr v, kfile rest)"
proof -
  have "\<forall>l \<in> set ls. blob_line l" using assms(3) b64_blob_lines by blast
  from read_blob_lines [OF assms(1,2) this, of "[]"] assms(3,4) show ?thesis
    by (simp add: decode_blob_def Atoi_digits maxKeyBlobLines_def maxKeyBlobSize_def readBlob_def concat_b64_lines DecodeString_encode)
qed

subsection \<open>Fields\<close>

definition header_ok :: "string \<Rightarrow> bool" where
  "header_ok h \<longleftrightarrow> list_all (\<lambda>c. of_char c > (31 :: nat) \<and> c \<noteq> CHR '':'') h \<and> length h \<le> 39"

lemma decode_field_line:
  assumes "line_end eol" "new_line rest" "unbroken (bytes_of_string b)"
    and "h' = (if i = 0 then h @ ''2'' else h)" "header_ok h'"
  shows "decode_field i h k (kfile (bytes_of_string (h' @ '': '' @ b) @ eol @ rest)) = store_field i h b k (kfile rest)"
proof -
  have "readHeader (kfile (bytes_of_string h' @ 58 # 32 # bytes_of_string b @ eol @ rest)) =
      (Inr (bytes_of_string h'), kfile (bytes_of_string b @ eol @ rest))"
  proof (rule readHeader_line)
    have "byte_of_char (CHR '':'') = 58" by (simp add: byte_of_char_def)
    then have "byte_of_char c \<noteq> 58" if "c \<noteq> CHR '':''" for c using that by (metis char_of_byte_of_char)
    moreover have "c \<noteq> CHR '':''" if "c \<in> set h'" for c using assms(5) that by (auto simp: header_ok_def list_all_iff)
    ultimately show "58 \<notin> set (bytes_of_string h')" unfolding bytes_of_string_def set_map by (metis imageE)
    show "unbroken (bytes_of_string h')" using assms(5) by (intro unbroken_string) (auto simp: header_ok_def list_all_iff)
  qed (use assms(5) in \<open>simp add: header_ok_def\<close>)
  moreover have "bytes_of_string (h' @ '': '' @ b) @ eol @ rest = bytes_of_string h' @ 58 # 32 # bytes_of_string b @ eol @ rest"
    by (simp add: bytes_of_string_def byte_of_char_def)
  ultimately show ?thesis
    using readBody_line [OF assms(3,1,2)] assms(4) by (simp add: decode_field_def HasPrefix_def check_version_def)
qed

lemma header_chars: "of_char c > (31 :: nat) \<Longrightarrow> new_line (bytes_of_string (c # s) @ rest)"
  using unbroken_string [of "[c]"] by (auto simp: new_line_def bytes_of_string_def unbroken_def)

lemma digits_unbroken: "unbroken (bytes_of_string (digits_of n))"
  by (rule unbroken_string) (auto dest: digits_of_digit simp: is_digit_def)

lemma key_file_decodes:
  assumes eol: "line_end eol" and wf: "key_wf k"
  shows "decodeFields (kfile (key_file eol k)) = (Inr k, kfile [])"
proof -
  let ?line = "\<lambda>s. bytes_of_string s @ eol"
  define r6 where "r6 = ?line (''Private-MAC: '' @ PrivateMac k)"
  define r4b where "r4b = text_lines eol (priv_lines k) @ r6"
  define r4 where "r4 = ?line (''Private-Lines: '' @ digits_of (length (priv_lines k))) @ r4b"
  define r3b where "r3b = text_lines eol (pub_lines k) @ r4"
  define r3 where "r3 = ?line (''Public-Lines: '' @ digits_of (length (pub_lines k))) @ r3b"
  define r2 where "r2 = ?line (''Comment: '' @ Comment k) @ r3"
  define r1 where "r1 = ?line (''Encryption: '' @ Encryption k) @ r2"
  have fl: "key_file eol k = ?line (''PuTTY-User-Key-File-2: '' @ Algo k) @ r1"
    by (simp add: key_file_def r1_def r2_def r3_def r3b_def r4_def r4b_def r6_def)
  have nl: "new_line []" "new_line r6" "new_line r4b" "new_line r4" "new_line r3b" "new_line r3" "new_line r2" "new_line r1"
  proof -
    have blob: "\<forall>l \<in> set (priv_lines k). blob_line l" "\<forall>l \<in> set (pub_lines k). blob_line l"
      using b64_blob_lines by (auto simp: priv_lines_def pub_lines_def)
    show "new_line []" by (simp add: new_line_def)
    show 6: "new_line r6" by (simp add: r6_def header_chars)
    show "new_line r4b" unfolding r4b_def by (rule new_line_blob [OF blob(1) 6])
    show 4: "new_line r4" by (simp add: r4_def header_chars)
    show "new_line r3b" unfolding r3b_def by (rule new_line_blob [OF blob(2) 4])
    show "new_line r3" "new_line r2" "new_line r1" by (simp_all add: r1_def r2_def r3_def header_chars)
  qed
  have u: "unbroken (bytes_of_string (Algo k))" "unbroken (bytes_of_string (Encryption k))" "unbroken (bytes_of_string (Comment k))"
    "unbroken (bytes_of_string (PrivateMac k))"
    using wf by (auto simp: key_wf_def key_algorithms_def intro!: unbroken_string)
  let ?k0 = "zeroKey\<lparr>Algo := Algo k\<rparr>"
  let ?k1 = "?k0\<lparr>Encryption := Encryption k\<rparr>"
  let ?k2 = "?k1\<lparr>Comment := Comment k\<rparr>"
  let ?k3 = "?k2\<lparr>PublicKeyBlob := PublicKeyBlob k\<rparr>"
  let ?k4 = "?k3\<lparr>PrivateKeyBlob := PrivateKeyBlob k\<rparr>"
  note line = decode_field_line [OF eol]
  have 0: "decode_field 0 ''PuTTY-User-Key-File-'' zeroKey (kfile (key_file eol k)) = (Inr ?k0, kfile r1)"
    using line [OF nl(8) u(1), of "''PuTTY-User-Key-File-2''" 0 "''PuTTY-User-Key-File-''"] wf
    by (simp add: fl store_field_def key_wf_def header_ok_def)
  have 1: "decode_field 1 ''Encryption'' ?k0 (kfile r1) = (Inr ?k1, kfile r2)"
    using line [OF nl(7) u(2), of "''Encryption''" 1 "''Encryption''"] wf
    by (auto simp: r1_def store_field_def key_wf_def header_ok_def)
  have 2: "decode_field 2 ''Comment'' ?k1 (kfile r2) = (Inr ?k2, kfile r3)"
    using line [OF nl(6) u(3), of "''Comment''" 2 "''Comment''"]
    by (simp add: r2_def store_field_def header_ok_def)
  have 3: "decode_field 3 ''Public-Lines'' ?k2 (kfile r3) = (Inr ?k3, kfile r4)"
    using line [OF nl(5) digits_unbroken, of "''Public-Lines''" 3 "''Public-Lines''"] decode_blob_lines [OF eol nl(4), of "pub_lines k"] wf
    by (simp add: r3_def r3b_def store_field_def key_wf_def pub_lines_def header_ok_def)
  have 4: "decode_field 4 ''Private-Lines'' ?k3 (kfile r4) = (Inr ?k4, kfile r6)"
    using line [OF nl(3) digits_unbroken, of "''Private-Lines''" 4 "''Private-Lines''"] decode_blob_lines [OF eol nl(2), of "priv_lines k"] wf
    by (simp add: r4_def r4b_def store_field_def key_wf_def priv_lines_def header_ok_def)
  have 6: "decode_field 6 ''Private-MAC'' ?k4 (kfile r6) = (Inr (?k4\<lparr>PrivateMac := PrivateMac k\<rparr>), kfile [])"
    using line [OF nl(1) u(4), of "''Private-MAC''" 6 "''Private-MAC''"]
    by (simp add: r6_def store_field_def header_ok_def)
  have "?k4\<lparr>PrivateMac := PrivateMac k\<rparr> = k" using wf by (simp add: zeroKey_def key_wf_def)
  then show ?thesis by (simp add: decodeFields_def fieldsOrder_def 0 1 2 3 4 6 flip: One_nat_def)
qed

text \<open>
  C28: Every key file of PuTTY's format version 2, with any of the known algorithms and either encryption, with lines ended by a line feed, a carriage return or both,
  and blobs below the limit of the program, is read as exactly the key that is written in it.
\<close>
theorem key_file_roundtrip:
  assumes "line_end eol" and "key_wf k"
  shows "New (key_file eol k) = Inr k"
  using key_file_decodes [OF assms] by (simp add: New_def Load_def)

definition demo_key :: Key where
  "demo_key = zeroKey\<lparr>Algo := ''ssh-ed25519'', Encryption := ''none'', Comment := ''a@b'', PublicKeyBlob := [1, 2, 3, 4], PrivateMac := ''00''\<rparr>"

theorem key_file_roundtrip_witness:
  "New (key_file [CR, LF] demo_key) = Inr demo_key"
proof (rule key_file_roundtrip)
  show "key_wf demo_key"
    by (simp add: key_wf_def demo_key_def zeroKey_def key_algorithms_def unbroken_def bytes_of_string_def byte_of_char_def
        pub_lines_def priv_lines_def b64_lines.simps b64_group_def)
qed (simp add: line_end_def)

subsection \<open>Fields of the blobs\<close>

text \<open>What a field may look like: a number has many encodings, with or without leading zeros.\<close>

fun encodes :: "field_value \<Rightarrow> bytes \<Rightarrow> bool" where
  "encodes (FString s) b \<longleftrightarrow> b = bytes_of_string s \<and> length b < 2 ^ 32"
| "encodes (FBytes d) b \<longleftrightarrow> b = d \<and> length b < 2 ^ 32"
| "encodes (FInt n) b \<longleftrightarrow> SetBytes b = n \<and> length b < 2 ^ 32"

fun kind_of :: "field_value \<Rightarrow> field_kind" where
  "kind_of (FString s) = KString"
| "kind_of (FBytes b) = KBytes"
| "kind_of (FInt n) = KInt"

lemma encodes_length: "encodes v b \<Longrightarrow> length b < 2 ^ 32"
  by (cases v) auto

lemma length_mac_field [simp]: "length (mac_field b) = 4 + length b"
  by (simp add: mac_field_def)

lemma readBytes_field:
  assumes "length b < 2 ^ 32"
  shows "readBytes (pre @ mac_field b @ post) (length pre) = Inr (b, length pre + 4 + length b)"
proof -
  have "unat (of_nat (length b) :: u32) = length b" using assms by (simp add: unat_of_nat take_bit_nat_eq_self)
  then show ?thesis
    using unmarshalUint32_marshal [of "of_nat (length b)" "[]"]
    by (simp add: readBytes_def mac_field_def ReadFull_def Let_def)
qed

lemma parse_fields_encoded:
  "list_all2 encodes vs bs \<Longrightarrow>
    parse_fields (map kind_of vs) (pre @ concat (map mac_field bs) @ post) (length pre) = Inr (vs, length pre + length (concat (map mac_field bs)))"
proof (induction vs bs arbitrary: pre rule: list_all2_induct)
  case (Cons v vs b bs)
  note rb = readBytes_field [OF encodes_length [OF Cons(1)], of pre "concat (map mac_field bs) @ post"]
  have "parseField (kind_of v) (pre @ mac_field b @ concat (map mac_field bs) @ post) (length pre) = Inr (v, length (pre @ mac_field b))"
    using Cons(1) rb by (cases v) (simp_all add: parseField_def readString_def readBigInt_def)
  with Cons.IH [of "pre @ mac_field b"] show ?case by simp
qed simp

lemma unmarshal_encoded: "list_all2 encodes vs bs \<Longrightarrow> unmarshal_key (map kind_of vs) (concat (map mac_field bs)) False = Inr vs"
  using parse_fields_encoded [of vs bs "[]" "[]"] by (simp add: unmarshal_key_def checkGarbage_def)

text \<open>
  The binary fields of a key are read back whatever encoding of the numbers was chosen; the blob is accepted exactly if nothing follows the fields, or, when it was
  encrypted, if one to sixteen bytes of padding complete the last block. A private key that fills its last block, which PuTTY does not pad, is refused.
\<close>
theorem key_fields_roundtrip:
  assumes "list_all2 encodes vs bs" and "d = concat (map mac_field bs)"
  shows "(unmarshal_key (map kind_of vs) (d @ pad) enc = Inr vs \<longleftrightarrow> length pad = (if enc then 16 - length d mod 16 else 0)) \<and>
    (length d mod 16 = 0 \<longrightarrow> (\<exists>e. unmarshal_key (map kind_of vs) d True = Inl e))"
proof -
  have "parse_fields (map kind_of vs) (d @ post) 0 = Inr (vs, length d)" for post
    using parse_fields_encoded [OF assms(1), of "[]" post] assms(2) by simp
  from this [of pad] this [of "[]"] show ?thesis
    using mod_less_divisor [of 16 "length d"] by (auto simp: unmarshal_key_def checkGarbage_def Let_def)
qed

theorem key_fields_roundtrip_witness:
  "(\<exists>e. unmarshal_key [KBytes, KInt] ([0, 0, 0, 4, 1, 2, 3, 4] @ [0, 0, 0, 4, 0, 0, 0, 5]) True = Inl e) \<and>
   unmarshal_key [KBytes, KInt] ([0, 0, 0, 4, 1, 2, 3, 4] @ [0, 0, 0, 4, 0, 0, 0, 5]) False = Inr [FBytes [1, 2, 3, 4], FInt 5]"
proof -
  let ?bs = "[[1, 2, 3, 4], [0, 0, 0, 5]]"
  have "list_all2 encodes [FBytes [1, 2, 3, 4], FInt 5] ?bs" by (simp add: SetBytes_def)
  moreover have "concat (map mac_field ?bs) = [0, 0, 0, 4, 1, 2, 3, 4] @ [0, 0, 0, 4, 0, 0, 0, 5]"
    by (simp add: mac_field_def marshalUint32_def)
  ultimately show ?thesis
    using key_fields_roundtrip [of "[FBytes [1, 2, 3, 4], FInt 5]" ?bs "[0, 0, 0, 4, 1, 2, 3, 4] @ [0, 0, 0, 4, 0, 0, 0, 5]" "[]" False] by simp
qed

subsection \<open>Decryption\<close>

lemma length_derive_key: "length (derive_key password n k) \<ge> 32"
  by (induction password n k rule: derive_key.induct) (subst derive_key.simps, simp add: Let_def)

lemma key_mac_congs [simp]:
  "key_mac (k\<lparr>decrypted := b\<rparr>) pw = key_mac k pw" "key_mac (k\<lparr>PrivateMac := m\<rparr>) pw = key_mac k pw"
  by (simp_all add: key_mac_def)

lemma xor_xor_bytes: "length b = length iv \<Longrightarrow> map2 (XOR) (map2 (XOR) b iv) iv = (b :: bytes)"
  by (induction b iv rule: list_induct2) (simp_all add: ac_simps)

lemma cbc_roundtrip:
  assumes cipher: "\<And>b. length b = 16 \<Longrightarrow> length (enc b) = 16 \<and> dec (enc b) = b"
  shows "length iv = 16 \<Longrightarrow> length pt = 16 * n \<Longrightarrow> cbc_decrypt dec iv (cbc_encrypt enc iv pt) = pt \<and> length (cbc_encrypt enc iv pt) = length pt"
proof (induction n arbitrary: iv pt)
  case 0
  then show ?case by (simp add: cbc_encrypt.simps cbc_decrypt.simps)
next
  case (Suc n)
  let ?x = "map2 (XOR) (take 16 pt) iv"
  have x: "length ?x = 16" "map2 (XOR) ?x iv = take 16 pt" using Suc.prems by (simp_all add: xor_xor_bytes)
  have c: "length (enc ?x) = 16" "dec (enc ?x) = ?x" using cipher x(1) by blast+
  have ih: "cbc_decrypt dec (enc ?x) (cbc_encrypt enc (enc ?x) (drop 16 pt)) = drop 16 pt"
    "length (cbc_encrypt enc (enc ?x) (drop 16 pt)) = length (drop 16 pt)"
    using Suc.IH [OF c(1), of "drop 16 pt"] Suc.prems by simp_all
  have e: "cbc_encrypt enc iv pt = enc ?x @ cbc_encrypt enc (enc ?x) (drop 16 pt)"
    using Suc.prems by (subst cbc_encrypt.simps) (auto simp: Let_def)
  have "enc ?x \<noteq> []" using c(1) by auto
  then show ?case using Suc.prems ih c x unfolding e by (subst cbc_decrypt.simps) simp
qed

definition key_cipher :: "(bytes \<Rightarrow> bytes \<Rightarrow> bytes) \<Rightarrow> bytes \<Rightarrow> bytes \<Rightarrow> bytes" where
  "key_cipher aes password = aes (take 32 (derive_key password 0 []))"

text \<open>
  C30: An encrypted key opens with its passphrase. If the private part was encrypted in chained blocks under the key derived from the passphrase, and the authentication
  code is that of the plain private part, then decryption with the passphrase succeeds and leaves the plain private part; the only assumption on the cipher is that it is
  one.
\<close>
theorem encrypted_key_opens:
  assumes "\<forall>b. length b = 16 \<longrightarrow> length (key_cipher enc password b) = 16 \<and> key_cipher dec password (key_cipher enc password b) = b"
    and "length plain = 16 * Suc n" and "Encryption k \<noteq> ''none''" and "\<not> decrypted k"
    and "PrivateKeyBlob k = cbc_encrypt (key_cipher enc password) (replicate 16 0) plain"
    and "PrivateMac k = key_mac (k\<lparr>PrivateKeyBlob := plain\<rparr>) password"
  shows "decrypt dec password k = (None, k\<lparr>PrivateKeyBlob := plain, decrypted := True\<rparr>)"
proof -
  have "cbc_decrypt (key_cipher dec password) (replicate 16 0) (PrivateKeyBlob k) = plain \<and> length (PrivateKeyBlob k) = length plain"
    unfolding assms(5) by (rule cbc_roundtrip [where n = "Suc n"]) (use assms(1,2) in auto)
  then have "decryptCBC dec password (PrivateKeyBlob k) = Inr plain"
    using assms(2) by (simp add: decryptCBC_def key_cipher_def)
  then show ?thesis using assms(3,4,6) by (simp add: decrypt_def validateHMAC_def Let_def)
qed

definition xor_aes :: "bytes \<Rightarrow> bytes \<Rightarrow> bytes" where "xor_aes key b = map2 (XOR) b (take 16 key)"

definition locked_key :: Key where
  "locked_key = (let k = zeroKey\<lparr>Algo := ''ssh-dss'', Encryption := ''aes256-cbc''\<rparr>
     in k\<lparr>PrivateKeyBlob := cbc_encrypt (key_cipher xor_aes [1]) (replicate 16 0) (replicate 16 7),
          PrivateMac := key_mac (k\<lparr>PrivateKeyBlob := replicate 16 7\<rparr>) [1]\<rparr>)"

lemma xor_aes_cipher: "length b = 16 \<Longrightarrow> length (key_cipher xor_aes pw b) = 16 \<and> key_cipher xor_aes pw (key_cipher xor_aes pw b) = b"
proof -
  assume b: "length b = 16"
  have "length (take 16 (take 32 (derive_key pw 0 []))) = 16" using length_derive_key [of pw 0 "[]"] by simp
  with b show ?thesis unfolding key_cipher_def xor_aes_def by (simp add: xor_xor_bytes del: take_take)
qed

theorem encrypted_key_opens_witness:
  "decrypt xor_aes [1] locked_key = (None, locked_key\<lparr>PrivateKeyBlob := replicate 16 7, decrypted := True\<rparr>)"
  by (rule encrypted_key_opens [where enc = xor_aes and n = 0])
     (use xor_aes_cipher in \<open>simp_all add: locked_key_def zeroKey_def Let_def key_mac_def\<close>)

text \<open>
  A wrong passphrase spoils a loaded key. If an attempt to decrypt fails because the authentication code does not match, the private part has been
  replaced by the wrongly decrypted bytes and the key is marked as decrypted: every later attempt, also with the right passphrase, only compares the code of these bytes.
\<close>
theorem wrong_passphrase_spoils_key:
  assumes "decrypt aes wrong k = (Some e, k')" and "Encryption k \<noteq> ''none''" and "length (PrivateKeyBlob k) = 16 * Suc n"
  shows "decrypted k' \<and> (\<forall>right. decrypt aes right k' = (validateHMAC k' right, k')) \<and>
    (\<not> decrypted k \<longrightarrow> PrivateKeyBlob k' = cbc_decrypt (key_cipher aes wrong) (replicate 16 0) (PrivateKeyBlob k))"
proof -
  have "decryptCBC aes wrong (PrivateKeyBlob k) = Inr (cbc_decrypt (key_cipher aes wrong) (replicate 16 0) (PrivateKeyBlob k))"
    using assms(3) by (simp add: decryptCBC_def key_cipher_def)
  then show ?thesis using assms(1,2) by (cases "decrypted k") (auto simp: decrypt_def Let_def)
qed

definition unmatched_key :: Key where
  "unmatched_key = zeroKey\<lparr>Algo := ''ssh-dss'', Encryption := ''aes256-cbc'', PrivateKeyBlob := replicate 16 7, PrivateMac := ''-''\<rparr>"

lemma length_key_mac: "length (key_mac k pw) = 40"
  by (simp add: key_mac_def)

theorem wrong_passphrase_spoils_key_witness:
  "\<exists>e k'. decrypt xor_aes [1] unmatched_key = (Some e, k') \<and> decrypted k' \<and> (\<forall>right. decrypt xor_aes right k' = (validateHMAC k' right, k'))"
proof -
  obtain e k' where d: "decrypt xor_aes [1] unmatched_key = (e, k')" by (cases "decrypt xor_aes [1] unmatched_key")
  have "key_mac q pw \<noteq> ''-''" for q pw using length_key_mac [of q pw] by auto
  then have "e \<noteq> None"
    using d by (auto simp: decrypt_def decryptCBC_def unmatched_key_def zeroKey_def validateHMAC_def Let_def split: if_splits)
  then obtain e' where e: "e = Some e'" by blast
  from wrong_passphrase_spoils_key [OF d [unfolded e], of 0] d e show ?thesis
    by (simp add: unmatched_key_def zeroKey_def)
qed

subsection \<open>RSA keys\<close>

lemma egcd_bezout: "0 \<le> a \<Longrightarrow> 0 \<le> b \<Longrightarrow> egcd a b = (x, y) \<Longrightarrow> a * x + b * y = gcd a b"
proof (induction a b arbitrary: x y rule: egcd.induct)
  case (1 a b)
  show ?case
  proof (cases "b \<le> 0")
    case True
    with "1.prems" show ?thesis by (subst (asm) egcd.simps) simp
  next
    case False
    obtain u v where uv: "egcd b (a mod b) = (u, v)" by (cases "egcd b (a mod b)")
    with False "1.prems"(3) have xy: "x = v" "y = u - (a div b) * v" by (subst (asm) egcd.simps, simp)+
    have "b * u + (a mod b) * v = gcd b (a mod b)" using "1.IH" [OF False _ _ uv] False by simp
    moreover have "a * x + b * y = b * u + (a mod b) * v"
      by (simp add: xy algebra_simps minus_div_mult_eq_mod [symmetric])
    ultimately show ?thesis by (simp add: gcd_red_int [symmetric] gcd.commute)
  qed
qed

lemma ModInverse_correct:
  "ModInverse g n = Some x \<longleftrightarrow> coprime g n \<and> x = nat (fst (egcd (int g) (int n)) mod int n)"
  using egcd_bezout [of "int g" "int n"]
  by (auto simp: ModInverse_def coprime_iff_gcd_eq_1 split: prod.splits)

lemma ModInverse_None: "ModInverse g n = None \<longleftrightarrow> \<not> coprime g n"
  using ModInverse_correct [of g n] by (cases "ModInverse g n") auto

lemma ModInverse_inverse:
  assumes "ModInverse g n = Some x" "1 < n"
  shows "(g * x) mod n = 1 \<and> x < n"
proof -
  obtain u v where uv: "egcd (int g) (int n) = (u, v)" by (cases "egcd (int g) (int n)")
  have b: "int g * u + int n * v = 1" using assms(1) uv by (auto simp: ModInverse_def split: if_splits)
  have x: "int x = u mod int n" using assms uv by (auto simp: ModInverse_def split: if_splits)
  have "int ((g * x) mod n) = (int g * u) mod int n" by (simp add: zmod_int x mod_mult_right_eq)
  also have "int g * u = 1 - int n * v" using b by linarith
  also have "(1 - int n * v) mod int n = 1 mod int n" by (metis mod_mult_self2_is_0 mod_diff_right_eq diff_zero mult.commute)
  also have "\<dots> = 1" using assms(2) by simp
  finally have "(g * x) mod n = 1" by simp
  moreover have "int x < int n" using x assms(2) by simp
  ultimately show ?thesis by simp
qed

text \<open>
  An RSA private key that the reader returns is consistent: the modulus is the product of the two factors, the exponents are inverse to each other modulo each of the factors less
  one, the factors are coprime and the stored coefficient is the inverse of the second modulo the first.
\<close>
theorem rsa_keys_are_consistent:
  assumes "readRSAPrivateKey k = Some (Inr (RSAPrivate pub d p q qinv))"
  shows "rsa_N pub = p * q \<and> 1 < p \<and> 1 < q \<and> 2 \<le> rsa_E pub \<and> (nat (rsa_E pub) * d) mod (p - 1) = 1 \<and> (nat (rsa_E pub) * d) mod (q - 1) = 1 \<and>
    coprime q p \<and> (q * qinv) mod p = 1 \<and> qinv < p \<and> readRSAPublicKey k = Inr pub"
proof -
  from assms have pub: "readRSAPublicKey k = Inr pub" and v: "rsa_Validate (rsa_E pub) (rsa_N pub) d p q = None" and m: "ModInverse q p = Some qinv"
    by (auto simp: readRSAPrivateKey_def split: sum.splits list.splits field_value.splits option.splits if_splits)
  from v have "1 < p" by (auto simp: rsa_Validate_def split: if_splits)
  with ModInverse_inverse [OF m] ModInverse_correct [of q p qinv] m pub v show ?thesis
    by (auto simp: rsa_Validate_def split: if_splits)
qed

definition small_rsa :: Key where
  "small_rsa = zeroKey\<lparr>Algo := ''ssh-rsa'', Encryption := ''none'',
     PublicKeyBlob := mac_field (bytes_of_string ''ssh-rsa'') @ mac_field [3] @ mac_field [55],
     PrivateKeyBlob := mac_field [27] @ mac_field [5] @ mac_field [11] @ mac_field [1]\<rparr>"

lemma small_rsa_fields:
  "unmarshal_key [KString, KInt, KInt] (PublicKeyBlob small_rsa) False = Inr [FString ''ssh-rsa'', FInt 3, FInt 55]"
  "unmarshal_key [KInt, KInt, KInt, KInt] (PrivateKeyBlob small_rsa) False = Inr [FInt 27, FInt 5, FInt 11, FInt 1]"
  using unmarshal_encoded [of "[FString ''ssh-rsa'', FInt 3, FInt 55]" "[bytes_of_string ''ssh-rsa'', [3], [55]]"]
    unmarshal_encoded [of "[FInt 27, FInt 5, FInt 11, FInt 1]" "[[27], [5], [11], [1]]"]
  by (simp_all add: small_rsa_def zeroKey_def SetBytes_def)

lemma small_rsa_private: "readRSAPrivateKey small_rsa = Some (Inr (RSAPrivate (RSAPublic 3 55) 27 5 11 1))"
proof -
  have "ModInverse 11 5 = Some 1" by code_simp
  moreover have "Algo small_rsa = ''ssh-rsa''" "Encryption small_rsa = ''none''" by (simp_all add: small_rsa_def zeroKey_def)
  ultimately show ?thesis by (simp add: readRSAPrivateKey_def readRSAPublicKey_def small_rsa_fields rsa_Validate_def)
qed

theorem rsa_keys_are_consistent_witness:
  "readRSAPrivateKey small_rsa = Some (Inr (RSAPrivate (RSAPublic 3 55) 27 5 11 1)) \<and> 55 = 5 * (11 :: nat) \<and> (11 * 1) mod 5 = (1 :: nat)"
  using rsa_keys_are_consistent [OF small_rsa_private] small_rsa_private by simp

subsection \<open>Panics\<close>

lemma less_BitLen: "n < 2 ^ BitLen n"
proof (induction n rule: BitLen.induct)
  case (1 n)
  show ?case by (subst BitLen.simps) (use 1 in \<open>auto\<close>)
qed

lemma length_big_Bytes: "n < 256 ^ m \<Longrightarrow> length (big_Bytes n) \<le> m"
proof (induction n arbitrary: m rule: big_Bytes.induct)
  case (1 n)
  show ?case
  proof (cases "n = 0")
    case True
    then show ?thesis by (simp add: big_Bytes.simps)
  next
    case False
    with "1.prems" obtain l where l: "m = Suc l" by (cases m) auto
    with "1.prems" have "n div 256 < 256 ^ l" by (simp add: less_mult_imp_div_less mult.commute)
    with "1.IH" [OF False] l show ?thesis by (subst big_Bytes.simps) simp
  qed
qed

lemma scalar_fits: "priv < n \<Longrightarrow> length (big_Bytes priv) \<le> (BitLen n + 7) div 8"
proof (rule length_big_Bytes)
  assume "priv < n"
  also have "n < 2 ^ BitLen n" by (rule less_BitLen)
  also have "\<dots> \<le> 2 ^ (8 * ((BitLen n + 7) div 8))" by (rule power_increasing) presburger+
  finally show "priv < 256 ^ ((BitLen n + 7) div 8)" by (simp add: power_mult)
qed

lemma rsa_panic:
  assumes "readRSAPrivateKey k = None"
  shows "\<exists>d p q qinv. unmarshal_key [KInt, KInt, KInt, KInt] (PrivateKeyBlob k) (Encryption k \<noteq> ''none'') = Inr [FInt d, FInt p, FInt q, FInt qinv] \<and> \<not> coprime q p"
  using assms by (auto simp: readRSAPrivateKey_def ModInverse_None split: sum.splits list.splits field_value.splits option.splits if_splits)

lemma ecdsa_public_panic:
  assumes "readECDSAPublicKey k = None"
  shows "\<exists>h c. unmarshal_key [KString, KString, KBytes] (PublicKeyBlob k) False = Inr [FString h, FString c, FBytes []]"
  using assms by (auto simp: readECDSAPublicKey_def Let_def split: sum.splits list.splits field_value.splits option.splits if_splits)

lemma ecdsa_panic: "readECDSAPrivateKey ec k = None \<Longrightarrow> readECDSAPublicKey k = None"
  using scalar_fits
  by (auto simp: readECDSAPrivateKey_def Let_def linorder_not_le [symmetric]
      split: sum.splits list.splits field_value.splits option.splits public_key.splits if_splits prod.splits)

lemma decrypt_keeps: "decrypt aes pw k = (e, k') \<Longrightarrow> Algo k' = Algo k \<and> PublicKeyBlob k' = PublicKeyBlob k \<and> Encryption k' = Encryption k"
  by (cases "decryptCBC aes pw (PrivateKeyBlob k)") (auto simp: decrypt_def Let_def split: if_splits)

text \<open>
  Reading a private key panics in two cases only: an elliptic curve key whose point is empty, and an RSA key whose factors have a common divisor. Whatever else a key file contains, and
  whatever the passphrase, the reader returns with a key or an error.
\<close>
theorem key_panics:
  assumes "ParseRawPrivateKey aes ec password k = (None, k')"
  shows "(is_ecdsa (Algo k) \<and> (\<exists>h c. unmarshal_key [KString, KString, KBytes] (PublicKeyBlob k) False = Inr [FString h, FString c, FBytes []])) \<or>
    (Algo k = ''ssh-rsa'' \<and>
     (\<exists>d p q qinv. unmarshal_key [KInt, KInt, KInt, KInt] (PrivateKeyBlob k') (Encryption k \<noteq> ''none'') = Inr [FInt d, FInt p, FInt q, FInt qinv] \<and> \<not> coprime q p))"
proof -
  from assms have d: "decrypt aes password k = (None, k')" and r: "Algo k' = ''ssh-rsa'' \<and> readRSAPrivateKey k' = None \<or> is_ecdsa (Algo k') \<and> readECDSAPrivateKey ec k' = None"
    by (auto simp: ParseRawPrivateKey_def readDSAPrivateKey_def split: if_splits prod.splits option.splits sum.splits list.splits field_value.splits)
  with decrypt_keeps [OF d] rsa_panic [of k'] ecdsa_public_panic [OF ecdsa_panic, of ec k'] show ?thesis by auto
qed

definition square_key :: Key where
  "square_key = (let k = zeroKey\<lparr>Algo := ''ssh-rsa'', Encryption := ''none'',
       PublicKeyBlob := mac_field (bytes_of_string ''ssh-rsa'') @ mac_field [3] @ mac_field [25],
       PrivateKeyBlob := mac_field [3] @ mac_field [5] @ mac_field [5] @ mac_field [1]\<rparr>
     in k\<lparr>PrivateMac := key_mac k []\<rparr>)"

lemma square_key_panics: "\<exists>k'. ParseRawPrivateKey aes ec [] square_key = (None, k')"
proof -
  let ?k = "square_key\<lparr>decrypted := True\<rparr>"
  have f: "Algo square_key = ''ssh-rsa''" "Encryption square_key = ''none''" "\<not> decrypted square_key"
    "PublicKeyBlob square_key = concat (map mac_field [bytes_of_string ''ssh-rsa'', [3], [25]])"
    "PrivateKeyBlob square_key = concat (map mac_field [[3], [5], [5], [1]])"
    by (simp_all add: square_key_def zeroKey_def Let_def)
  have "validateHMAC ?k [] = None" by (simp add: validateHMAC_def square_key_def Let_def key_mac_def)
  then have d: "decrypt aes [] square_key = (None, ?k)" using f by (simp add: decrypt_def Let_def)
  have "unmarshal_key [KString, KInt, KInt] (PublicKeyBlob ?k) False = Inr [FString ''ssh-rsa'', FInt 3, FInt 25]"
    "unmarshal_key [KInt, KInt, KInt, KInt] (PrivateKeyBlob ?k) False = Inr [FInt 3, FInt 5, FInt 5, FInt 1]"
    using unmarshal_encoded [of "[FString ''ssh-rsa'', FInt 3, FInt 25]" "[bytes_of_string ''ssh-rsa'', [3], [25]]"]
      unmarshal_encoded [of "[FInt 3, FInt 5, FInt 5, FInt 1]" "[[3], [5], [5], [1]]"]
    by (simp_all add: f SetBytes_def)
  moreover have "ModInverse 5 5 = None" by (simp add: ModInverse_None)
  ultimately have "readRSAPrivateKey ?k = None" using f by (simp add: readRSAPrivateKey_def readRSAPublicKey_def rsa_Validate_def)
  with d f show ?thesis by (simp add: ParseRawPrivateKey_def)
qed

theorem key_panics_witness:
  "\<exists>k'. ParseRawPrivateKey xor_aes (\<lambda>_ _. (0, 0)) [] square_key = (None, k') \<and>
    (\<exists>d p q qinv. unmarshal_key [KInt, KInt, KInt, KInt] (PrivateKeyBlob k') False = Inr [FInt d, FInt p, FInt q, FInt qinv] \<and> \<not> coprime q p)"
proof -
  obtain k' where k': "ParseRawPrivateKey xor_aes (\<lambda>_ _. (0, 0)) [] square_key = (None, k')" using square_key_panics by blast
  have "Algo square_key = ''ssh-rsa''" "Encryption square_key = ''none''" by (simp_all add: square_key_def zeroKey_def Let_def)
  with key_panics [OF k'] k' show ?thesis by (auto simp: is_ecdsa_def)
qed

end
