(* ===== verification/Transfer_Login.thy ===== *)
theory Transfer_Login
  imports Transfer_Client Putty_Correct
begin

text \<open>
  The login of the transfer clients (sftpclient.go) and their use by the overlord (overlord.go): how the methods of authentication are chosen, how a private key is read, how the
  clients are made from the configuration, and the round in which each of them is started and waited for. PEM blocks, the keys of \<^verbatim>\<open>crypto/x509\<close> and the signers of \<^verbatim>\<open>ssh\<close> are
  library functions, in the record \<open>key_api\<close>; keys in PuTTY's format are read by the model of the package putty. \<open>None\<close> is a panic.
\<close>

subsection \<open>Keys\<close>

record pem_block =
  blk_Type :: string
  blk_Bytes :: bytes

record ('k, 's) key_api =
  ReadFile :: "string \<Rightarrow> go_error + bytes"
  open_key :: "string \<Rightarrow> go_error + reader"
  pem_Decode :: "bytes \<Rightarrow> pem_block option"
  IsEncryptedPEMBlock :: "pem_block \<Rightarrow> bool"
  DecryptPEMBlock :: "pem_block \<Rightarrow> bytes \<Rightarrow> go_error + bytes"
  ParsePKCS1PrivateKey :: "bytes \<Rightarrow> go_error + 'k"
  ParseECPrivateKey :: "bytes \<Rightarrow> go_error + 'k"
  ParseDSAPrivateKey :: "bytes \<Rightarrow> go_error + 'k"
  ParsePrivateKey :: "bytes \<Rightarrow> go_error + 's"
  NewSignerFromKey :: "'k option \<Rightarrow> go_error + 's"
  of_putty :: "private_key \<Rightarrow> 'k"
  ka_aes :: "bytes \<Rightarrow> bytes \<Rightarrow> bytes"
  ka_mult :: "curve \<Rightarrow> bytes \<Rightarrow> nat \<times> nat"

definition wrap_error :: "string \<Rightarrow> go_error + 'a \<Rightarrow> go_error + 'a" where
  "wrap_error msg r = map_sum (\<lambda>e. ErrText (msg @ err_Error e)) (\<lambda>x. x) r"

definition parsePemBlock :: "('k, 's) key_api \<Rightarrow> pem_block \<Rightarrow> go_error + 'k" where
  "parsePemBlock api b =
     (if blk_Type b = ''RSA PRIVATE KEY'' then wrap_error ''Parsing PKCS private key failed '' (ParsePKCS1PrivateKey api (blk_Bytes b))
      else if blk_Type b = ''EC PRIVATE KEY'' then wrap_error ''Parsing EC private key failed '' (ParseECPrivateKey api (blk_Bytes b))
      else if blk_Type b = ''DSA PRIVATE KEY'' then wrap_error ''Parsing DSA private key failed '' (ParseDSAPrivateKey api (blk_Bytes b))
      else Inl (ErrText (''Parsing private key failed, unsupported key type '' @ go_quote (blk_Type b))))"

text \<open>An unencrypted key that cannot be parsed is passed on as nil.\<close>

definition signerFromPPK :: "('k, 's) key_api \<Rightarrow> string \<Rightarrow> string \<Rightarrow> (go_error + 's) option" where
  "signerFromPPK api privateKeyPath passphrase =
     (case NewFromFile (open_key api) privateKeyPath of
        Inl err \<Rightarrow> Some (Inl err)
      | Inr puttyKey \<Rightarrow>
          if Encryption puttyKey \<noteq> ''none''
          then (case fst (ParseRawPrivateKey (ka_aes api) (ka_mult api) (bytes_of_string passphrase) puttyKey) of
                  None \<Rightarrow> None
                | Some (Inl err) \<Rightarrow> Some (Inl err)
                | Some (Inr key) \<Rightarrow> Some (NewSignerFromKey api (Some (of_putty api key))))
          else (case fst (ParseRawPrivateKey (ka_aes api) (ka_mult api) [] puttyKey) of
                  None \<Rightarrow> None
                | Some r \<Rightarrow> Some (NewSignerFromKey api (case r of Inl _ \<Rightarrow> None | Inr key \<Rightarrow> Some (of_putty api key)))))"

definition getSignerFromPrivateKey :: "('k, 's) key_api \<Rightarrow> bytes \<Rightarrow> string \<Rightarrow> string \<Rightarrow> (go_error + 's) option" where
  "getSignerFromPrivateKey api pemBytes privateKeyPath passphrase =
     (case pem_Decode api pemBytes of
        None \<Rightarrow> signerFromPPK api privateKeyPath passphrase
      | Some pemBlock \<Rightarrow>
          Some (if IsEncryptedPEMBlock api pemBlock
                then (case DecryptPEMBlock api pemBlock (bytes_of_string passphrase) of
                        Inl err \<Rightarrow> Inl (ErrText (''Decrypting PEM block failed '' @ err_Error err))
                      | Inr b \<Rightarrow>
                          (case parsePemBlock api (pemBlock\<lparr>blk_Bytes := b\<rparr>) of
                             Inl err \<Rightarrow> Inl err
                           | Inr key \<Rightarrow> wrap_error ''Creating signer from encrypted key failed '' (NewSignerFromKey api (Some key))))
                else wrap_error ''Parsing plain private key failed '' (ParsePrivateKey api pemBytes)))"

definition newPublicKeyAuthMethod :: "('k, 's) key_api \<Rightarrow> string \<Rightarrow> string \<Rightarrow> (go_error + 's) option" where
  "newPublicKeyAuthMethod api privateKeyPath passphrase =
     (case ReadFile api privateKeyPath of
        Inl err \<Rightarrow> Some (Inl err)
      | Inr b \<Rightarrow> getSignerFromPrivateKey api b privateKeyPath passphrase)"

subsection \<open>Connecting\<close>

datatype 's auth_method = PublicKeys 's | SshPassword string

definition auth_methods :: "('k, 's) key_api \<Rightarrow> string \<Rightarrow> string \<Rightarrow> string \<Rightarrow> 's auth_method list option" where
  "auth_methods api password privateKeyPath passphrase =
     (if privateKeyPath \<noteq> []
      then (case newPublicKeyAuthMethod api privateKeyPath passphrase of
              None \<Rightarrow> None
            | Some (Inl err) \<Rightarrow> Some [SshPassword password]
            | Some (Inr signer) \<Rightarrow> Some [PublicKeys signer, SshPassword password])
      else Some [SshPassword password])"

text \<open>\<open>dial\<close> is \<^verbatim>\<open>ssh.Dial\<close> with the address, the user and the methods, \<open>start\<close> is \<^verbatim>\<open>sftp.NewClient\<close>; the client is kept only if both succeed.\<close>

definition Connect :: "('k, 's) key_api \<Rightarrow> (string \<Rightarrow> string \<Rightarrow> 's auth_method list \<Rightarrow> go_error + 'c) \<Rightarrow> ('c \<Rightarrow> go_error + 'x) \<Rightarrow>
    string \<Rightarrow> int \<Rightarrow> string \<Rightarrow> string \<Rightarrow> string \<Rightarrow> string \<Rightarrow> 'x option \<Rightarrow> (go_error option \<times> 'x option) option" where
  "Connect api dial start host port username password privateKeyPath passphrase client =
     (case auth_methods api password privateKeyPath passphrase of
        None \<Rightarrow> None
      | Some authMs \<Rightarrow>
          Some (case dial (host @ '':'' @ Itoa port) username authMs of
                  Inl err \<Rightarrow> (Some err, client)
                | Inr conn \<Rightarrow> (case start conn of Inl err \<Rightarrow> (Some err, client) | Inr c \<Rightarrow> (None, Some c))))"

subsection \<open>The clients of the overlord\<close>

record 'x SftpClient =
  DLConfig :: "DownloaderConfig option"
  UplConfig :: "UploaderConfig option"
  sftpClient :: "'x option"
  uploadpaths :: UploadPaths

definition NewSftpClient :: "DownloaderConfig option \<Rightarrow> UploaderConfig option \<Rightarrow> 'x SftpClient" where
  "NewSftpClient dl ul = \<lparr>DLConfig = dl, UplConfig = ul, sftpClient = None, uploadpaths = zeroPaths\<rparr>"

definition downloader_config :: "Config \<Rightarrow> ClientDownloader \<Rightarrow> DownloaderConfig" where
  "downloader_config c v =
     \<lparr>DLName = dl_Name v, dc_Host = dl_Host v, dc_Port = dl_Port v, DeleteRemoteFileAfterDownload = dl_DeleteRemoteFileAfterDownload v,
      OverrideExistingFile = dl_OverrideExistingFile v, dc_Username = dl_Username v, dc_Password = dl_Password v, dc_PrivateKeyPath = dl_PrivatekeyPath v,
      dc_PrivatekeyPassphrase = dl_PrivatekeyPassphrase v, LocalStagingBaseDirectory = StagingPath c, LocalStagingDirectory = dl_LocalStagingDirectory v,
      dc_RemoteDirectory = dl_RemoteDirectory v, fullLocalStagingDir = [], dc_fullRemoteDir = []\<rparr>"

definition uploader_config :: "Config \<Rightarrow> ClientUploader \<Rightarrow> UploaderConfig" where
  "uploader_config c v =
     \<lparr>UplName = ul_Name v, uc_Host = ul_Host v, uc_Port = ul_Port v, uc_Username = ul_Username v, uc_Password = ul_Password v,
      uc_PrivateKeyPath = ul_PrivatekeyPath v, uc_PrivatekeyPassphrase = ul_PrivatekeyPassphrase v, LocalCleanBaseDirectory = CleanPath c,
      uc_ArchiveBasePath = LocalRemoteUploadArchiveBasePath c, LocalDirectoryToUpload = ul_LocalDirectoryToUpload v, uc_RemoteDirectory = ul_RemoteDirectory v,
      OverrideRemoteExistingFile = ul_OverrideRemoteExistingFile v\<rparr>"

definition NewSFTPClients :: "Config \<Rightarrow> 'x SftpClient list" where
  "NewSFTPClients c =
     map (\<lambda>v. NewSftpClient (Some (downloader_config c v)) None) (ClientDownloaders c) @
     map (\<lambda>v. NewSftpClient None (Some (uploader_config c v))) (ClientUploaders c)"

subsection \<open>A round of transfers\<close>

text \<open>
  One pass of the loop of \<^verbatim>\<open>StartSftpClientsDownloadFiles\<close> (that of the uploaders is the same): for each client of the kind that connects, \<open>go\<close> first and \<^verbatim>\<open>wg.Add(1)\<close> after it, then
  \<^verbatim>\<open>wg.Wait\<close>. The goroutines call \<^verbatim>\<open>wg.Done\<close> at their end, which panics on a counter of zero. \<open>starts\<close> tells whether a client is of the kind and connects.
\<close>

datatype 'c round_at = ROn "'c list" | RAdd "'c list" | RWait | ROver

record 'c round =
  rd_at :: "'c round_at"
  rd_running :: nat
  rd_count :: nat
  rd_panic :: bool

inductive round_step :: "('c \<Rightarrow> bool) \<Rightarrow> 'c round \<Rightarrow> 'c round \<Rightarrow> bool" for starts where
  skip: "rd_at s = ROn (c # cs) \<Longrightarrow> \<not> starts c \<Longrightarrow> \<not> rd_panic s \<Longrightarrow> round_step starts s (s\<lparr>rd_at := ROn cs\<rparr>)"
| go: "rd_at s = ROn (c # cs) \<Longrightarrow> starts c \<Longrightarrow> \<not> rd_panic s \<Longrightarrow> round_step starts s (s\<lparr>rd_at := RAdd cs, rd_running := Suc (rd_running s)\<rparr>)"
| add: "rd_at s = RAdd cs \<Longrightarrow> \<not> rd_panic s \<Longrightarrow> round_step starts s (s\<lparr>rd_at := ROn cs, rd_count := Suc (rd_count s)\<rparr>)"
| wait: "rd_at s = ROn [] \<Longrightarrow> \<not> rd_panic s \<Longrightarrow> round_step starts s (s\<lparr>rd_at := RWait\<rparr>)"
| over: "rd_at s = RWait \<Longrightarrow> rd_count s = 0 \<Longrightarrow> \<not> rd_panic s \<Longrightarrow> round_step starts s (s\<lparr>rd_at := ROver\<rparr>)"
| finish: "rd_running s = Suc n \<Longrightarrow> \<not> rd_panic s \<Longrightarrow> round_step starts s (s\<lparr>rd_running := n, rd_count := rd_count s - 1, rd_panic := rd_count s = 0\<rparr>)"

definition round_start :: "'c list \<Rightarrow> 'c round" where
  "round_start cs = \<lparr>rd_at = ROn cs, rd_running = 0, rd_count = 0, rd_panic = False\<rparr>"

text \<open>Which clients a pass of each of the two loops starts, and its beginning; \<open>connect\<close> is the result of \<open>Connect\<close> with the client's settings.\<close>

definition download_starts :: "('x SftpClient \<Rightarrow> go_error option) \<Rightarrow> 'x SftpClient \<Rightarrow> bool" where
  "download_starts connect v = (DLConfig v \<noteq> None \<and> connect v = None)"

definition upload_starts :: "('x SftpClient \<Rightarrow> go_error option) \<Rightarrow> 'x SftpClient \<Rightarrow> bool" where
  "upload_starts connect v = (UplConfig v \<noteq> None \<and> connect v = None)"

definition download_pass :: "Config \<Rightarrow> 'x SftpClient list \<Rightarrow> 'x SftpClient round" where
  "download_pass c clients = round_start (if EnableSftpClientDownloader c then clients else [])"

definition upload_pass :: "Config \<Rightarrow> 'x SftpClient list \<Rightarrow> 'x SftpClient round" where
  "upload_pass c clients = round_start (if EnableSftpClientUploader c then clients else [])"

subsection \<open>Laws\<close>

text \<open>
  A key file of PuTTY's format opens the door. If the key file that a client is configured with is not a PEM file but a well-formed key file, and the key in it can be parsed with the
  configured passphrase (or without one, if it is not encrypted), then the login offers the signer of that key first and the password second.
\<close>
theorem putty_key_is_offered:
  assumes "line_end eol" and "key_wf k" and "path \<noteq> []"
    and "ReadFile api path = Inr (key_file eol k)" and "open_key api path = Inr (kfile (key_file eol k))" and "pem_Decode api (key_file eol k) = None"
    and "fst (ParseRawPrivateKey (ka_aes api) (ka_mult api) (if Encryption k = ''none'' then [] else bytes_of_string passphrase) k) = Some (Inr key)"
    and "NewSignerFromKey api (Some (of_putty api key)) = Inr signer"
  shows "auth_methods api password path passphrase = Some [PublicKeys signer, SshPassword password]"
proof -
  have "NewFromFile (open_key api) path = Inr k"
    using key_file_decodes [OF assms(1,2)] assms(5) by (simp add: NewFromFile_def LoadFromFile_def)
  then have "signerFromPPK api path passphrase = Some (Inr signer)" using assms(7,8) by (auto simp: signerFromPPK_def)
  then show ?thesis using assms(3,4,6) by (simp add: auth_methods_def newPublicKeyAuthMethod_def getSignerFromPrivateKey_def)
qed

definition signed_key :: Key where
  "signed_key = (let k = zeroKey\<lparr>Algo := ''ssh-dss'', Encryption := ''none'',
       PublicKeyBlob := concat (map mac_field [bytes_of_string ''ssh-dss'', [2], [3], [4], [5]]), PrivateKeyBlob := mac_field [6]\<rparr>
     in k\<lparr>PrivateMac := key_mac k []\<rparr>)"

definition demo_keys :: "(private_key, private_key) key_api" where
  "demo_keys = \<lparr>ReadFile = \<lambda>_. Inr (key_file [LF] signed_key), open_key = \<lambda>_. Inr (kfile (key_file [LF] signed_key)), pem_Decode = \<lambda>_. None,
     IsEncryptedPEMBlock = \<lambda>_. False, DecryptPEMBlock = \<lambda>_ _. Inl EOF, ParsePKCS1PrivateKey = \<lambda>_. Inl EOF, ParseECPrivateKey = \<lambda>_. Inl EOF,
     ParseDSAPrivateKey = \<lambda>_. Inl EOF, ParsePrivateKey = \<lambda>_. Inl EOF, NewSignerFromKey = \<lambda>k. case k of None \<Rightarrow> Inl EOF | Some k \<Rightarrow> Inr k,
     of_putty = \<lambda>k. k, ka_aes = xor_aes, ka_mult = \<lambda>_ _. (0, 0)\<rparr>"

lemma signed_key_parses: "fst (ParseRawPrivateKey aes ec [] signed_key) = Some (Inr (DSAPrivate (DSAPublic 2 3 4 5) 6))"
proof -
  let ?k = "signed_key\<lparr>decrypted := True\<rparr>"
  have f: "Algo signed_key = ''ssh-dss''" "Encryption signed_key = ''none''" "\<not> decrypted signed_key"
    "PublicKeyBlob signed_key = concat (map mac_field [bytes_of_string ''ssh-dss'', [2], [3], [4], [5]])" "PrivateKeyBlob signed_key = concat (map mac_field [[6]])"
    by (simp_all add: signed_key_def zeroKey_def Let_def)
  have "validateHMAC ?k [] = None" by (simp add: validateHMAC_def signed_key_def Let_def key_mac_def)
  then have d: "decrypt aes [] signed_key = (None, ?k)" using f by (simp add: decrypt_def Let_def)
  have "unmarshal_key [KString, KInt, KInt, KInt, KInt] (PublicKeyBlob ?k) False = Inr [FString ''ssh-dss'', FInt 2, FInt 3, FInt 4, FInt 5]"
    "unmarshal_key [KInt] (PrivateKeyBlob ?k) False = Inr [FInt 6]"
    using unmarshal_encoded [of "[FString ''ssh-dss'', FInt 2, FInt 3, FInt 4, FInt 5]" "[bytes_of_string ''ssh-dss'', [2], [3], [4], [5]]"]
      unmarshal_encoded [of "[FInt 6]" "[[6]]"]
    by (simp_all add: f SetBytes_def)
  with d f show ?thesis by (simp add: ParseRawPrivateKey_def is_ecdsa_def readDSAPrivateKey_def readDSAPublicKey_def)
qed

lemma signed_key_wf: "key_wf signed_key"
proof -
  have "unbroken (bytes_of_string (key_mac k pw))" for k pw
  proof (rule unbroken_string)
    have h: "of_char (hex_digit n) > (31 :: nat)" if "n < 16" for n using that by (auto simp: hex_digit_def)
    have "unat b div 16 < 16" for b :: byte using unsigned_less [of b, where 'a = nat] by simp
    then show "\<forall>c \<in> set (key_mac k pw). of_char c > (31 :: nat)" using h by (auto simp: key_mac_def EncodeToString_def)
  qed
  then show ?thesis
    by (simp add: key_wf_def signed_key_def zeroKey_def Let_def key_algorithms_def unbroken_def bytes_of_string_def pub_lines_def priv_lines_def
        mac_field_def marshalUint32_def b64_lines.simps b64_group_def)
qed

theorem putty_key_is_offered_witness:
  "auth_methods demo_keys ''secret'' ''key.ppk'' [] = Some [PublicKeys (DSAPrivate (DSAPublic 2 3 4 5) 6), SshPassword ''secret'']"
proof (rule putty_key_is_offered)
  show "line_end [LF]" by (simp add: line_end_def)
  show "key_wf signed_key" by (rule signed_key_wf)
  have "Encryption signed_key = ''none''" by (simp add: signed_key_def zeroKey_def Let_def)
  then show "fst (ParseRawPrivateKey (ka_aes demo_keys) (ka_mult demo_keys) (if Encryption signed_key = ''none'' then [] else bytes_of_string []) signed_key) =
      Some (Inr (DSAPrivate (DSAPublic 2 3 4 5) 6))"
    by (simp add: signed_key_parses)
qed (simp_all add: demo_keys_def)

text \<open>The password is offered whatever happens to the key.\<close>

lemma password_always_offered: "auth_methods api password path passphrase = Some ms \<Longrightarrow> last ms = SshPassword password"
  by (auto simp: auth_methods_def split: if_splits option.splits sum.splits)

text \<open>Invariant of a round without a panic: the goroutines that run are counted, but for one that was started and not yet added.\<close>

definition round_inv :: "'c round \<Rightarrow> bool" where
  "round_inv s \<longleftrightarrow> rd_panic s \<or>
     (case rd_at s of RAdd _ \<Rightarrow> rd_running s = Suc (rd_count s) | ROver \<Rightarrow> rd_running s = 0 \<and> rd_count s = 0 | _ \<Rightarrow> rd_running s = rd_count s)"

lemma round_step_inv: "round_step starts s s' \<Longrightarrow> round_inv s \<Longrightarrow> round_inv s'"
  by (induction rule: round_step.induct) (auto simp: round_inv_def split: round_at.splits)

lemma round_reach_inv: "(round_step starts)\<^sup>*\<^sup>* (round_start cs) s \<Longrightarrow> round_inv s"
proof (induction rule: rtranclp_induct)
  case base
  then show ?case by (simp add: round_inv_def round_start_def)
next
  case (step s t)
  then show ?case using round_step_inv by blast
qed

text \<open>
  A round waits for all its transfers: when the loop goes on to the next round, no goroutine of this one is left. But a round can panic: a goroutine that ends before \<^verbatim>\<open>Add\<close>
  was called for it makes the counter of the wait group negative.
\<close>
theorem round_waits_or_panics:
  shows "((round_step starts)\<^sup>*\<^sup>* (round_start cs) s \<longrightarrow> \<not> rd_panic s \<longrightarrow> rd_at s = ROver \<longrightarrow> rd_running s = 0) \<and>
    (starts c \<longrightarrow> (\<exists>t. (round_step starts)\<^sup>*\<^sup>* (round_start (c # cs)) t \<and> rd_panic t))"
proof
  show "(round_step starts)\<^sup>*\<^sup>* (round_start cs) s \<longrightarrow> \<not> rd_panic s \<longrightarrow> rd_at s = ROver \<longrightarrow> rd_running s = 0"
    using round_reach_inv [of starts cs s] by (auto simp: round_inv_def)
  show "starts c \<longrightarrow> (\<exists>t. (round_step starts)\<^sup>*\<^sup>* (round_start (c # cs)) t \<and> rd_panic t)"
  proof
    assume c: "starts c"
    let ?a = "(round_start (c # cs))\<lparr>rd_at := RAdd cs, rd_running := 1\<rparr>"
    have "round_step starts (round_start (c # cs)) ?a"
      using round_step.go [of "round_start (c # cs)" c cs starts] c by (simp add: round_start_def)
    moreover have "round_step starts ?a (?a\<lparr>rd_running := 0, rd_count := 0, rd_panic := True\<rparr>)"
      using round_step.finish [of ?a 0 starts] by (simp add: round_start_def)
    ultimately show "\<exists>t. (round_step starts)\<^sup>*\<^sup>* (round_start (c # cs)) t \<and> rd_panic t"
      by (intro exI [of _ "?a\<lparr>rd_running := 0, rd_count := 0, rd_panic := True\<rparr>"]) (auto intro: rtranclp.rtrancl_into_rtrancl)
  qed
qed

theorem round_waits_or_panics_witness:
  "(\<exists>t. (round_step (\<lambda>_. True))\<^sup>*\<^sup>* (round_start [0 :: nat]) t \<and> rd_panic t) \<and>
   (\<exists>t. (round_step (\<lambda>_. True))\<^sup>*\<^sup>* (round_start ([] :: nat list)) t \<and> rd_at t = ROver \<and> rd_running t = 0)"
proof
  show "\<exists>t. (round_step (\<lambda>_. True))\<^sup>*\<^sup>* (round_start [0 :: nat]) t \<and> rd_panic t"
    using round_waits_or_panics [of "\<lambda>_. True" "[]" "round_start []" 0] by blast
  let ?w = "(round_start ([] :: nat list))\<lparr>rd_at := RWait\<rparr>"
  have "round_step (\<lambda>_. True) (round_start ([] :: nat list)) ?w" using round_step.wait [of "round_start []"] by (simp add: round_start_def)
  moreover have "round_step (\<lambda>_. True) ?w (?w\<lparr>rd_at := ROver\<rparr>)" using round_step.over [of ?w] by (simp add: round_start_def)
  ultimately have r: "(round_step (\<lambda>_. True))\<^sup>*\<^sup>* (round_start ([] :: nat list)) (?w\<lparr>rd_at := ROver\<rparr>)"
    by (auto intro: rtranclp.rtrancl_into_rtrancl)
  with round_waits_or_panics [of "\<lambda>_. True" "[] :: nat list" "?w\<lparr>rd_at := ROver\<rparr>" 0]
  show "\<exists>t. (round_step (\<lambda>_. True))\<^sup>*\<^sup>* (round_start ([] :: nat list)) t \<and> rd_at t = ROver \<and> rd_running t = 0"
    by (intro exI [of _ "?w\<lparr>rd_at := ROver\<rparr>"]) (simp add: round_start_def)
qed

end
