(* ===== verification/Service_Loops.thy ===== *)
theory Service_Loops
  imports Service_Sessions Transfer_Login
begin

text \<open>
  The loops that keep the service going: the start in \<^verbatim>\<open>main\<close>, the reaction to a change of the configuration file (filewatcher.go, overlord.go), one round of the search
  for finished uploads (\<^verbatim>\<open>ScavengeUploadedFiles\<close>), and the host key of the SSH server (sftpservice.go). Timers and the file system watcher, which only say when a step happens, are left out.
\<close>

subsection \<open>Start and reload\<close>

text \<open>The parts of the overlord that a reload touches. The service of the SSH front end shares the configuration and the users.\<close>

record 'x Overlord =
  ol_confsvc :: ConfigService
  ol_usergov :: UserGov
  ol_sftpclients :: "'x SftpClient list"

definition NewOverlord :: "ConfigService \<Rightarrow> UserGov \<Rightarrow> 'x Overlord" where
  "NewOverlord c u = \<lparr>ol_confsvc = c, ol_usergov = u, ol_sftpclients = NewSFTPClients (cs_config c)\<rparr>"

text \<open>\<^verbatim>\<open>main\<close>: \<open>None\<close> as long as no attempt to load the configuration has succeeded.\<close>

definition overlord_main :: "(bytes \<Rightarrow> go_error + SSFTPYaml) \<Rightarrow> (string \<Rightarrow> bool) \<Rightarrow> string \<Rightarrow> (go_error + bytes) list \<Rightarrow> 'x Overlord option" where
  "overlord_main unmarshal url_ok env files =
     (case LoadYamlConfig unmarshal url_ok env NewConfigService files of
        (True, c) \<Rightarrow> Some (NewOverlord c (NewUserGov (cfg_Users (cs_config c))))
      | (False, _) \<Rightarrow> None)"

datatype watch_op = WCreate | WWrite | WRemove | WRename | WChmod | WMove

record watch_event =
  ev_Op :: watch_op
  ev_Name :: string
  ev_IsDir :: bool

definition SystemConfigFileName :: string where "SystemConfigFileName = ''ssftp.yaml''"

definition reloads :: "watch_event \<Rightarrow> bool" where
  "reloads ev = (\<not> ev_IsDir ev \<and> (ev_Op ev = WCreate \<or> ev_Op ev = WWrite) \<and> SystemConfigFileName = ev_Name ev)"

text \<open>What \<^verbatim>\<open>watchConfigFileChanges\<close> does when a new configuration was loaded.\<close>

definition config_changed :: "'x Overlord \<Rightarrow> 'x Overlord" where
  "config_changed ol =
     (let ol = ol\<lparr>ol_sftpclients := NewSFTPClients (cs_config (ol_confsvc ol))\<rparr>
      in ol\<lparr>ol_usergov := SetUsers (ol_usergov ol) (cfg_Users (cs_config (ol_confsvc ol)))\<rparr>)"

text \<open>
  \<^verbatim>\<open>registerConfigFileChangeEvent\<close> on one event, with the successive results of reading the file; it goes on loading until an attempt succeeds, and only then
  signals the change. The loading works on the shared configuration.
\<close>

definition handle_config_event :: "(bytes \<Rightarrow> go_error + SSFTPYaml) \<Rightarrow> (string \<Rightarrow> bool) \<Rightarrow> string \<Rightarrow> watch_event \<times> (go_error + bytes) list \<Rightarrow> 'x Overlord \<Rightarrow> 'x Overlord" where
  "handle_config_event unmarshal url_ok env e ol =
     (case e of (ev, files) \<Rightarrow>
        if reloads ev
        then (case LoadYamlConfig unmarshal url_ok env (ol_confsvc ol) files of
                (True, c) \<Rightarrow> config_changed (ol\<lparr>ol_confsvc := c\<rparr>)
              | (False, c) \<Rightarrow> ol\<lparr>ol_confsvc := c\<rparr>)
        else ol)"

text \<open>The users and the clients are those of one valid configuration, and that is the one in force unless a reload is under way.\<close>

definition overlord_inv :: "(string \<Rightarrow> bool) \<Rightarrow> 'x Overlord \<Rightarrow> bool" where
  "overlord_inv url_ok ol \<longleftrightarrow> (\<exists>cfg. config_valid url_ok cfg \<and> SftpPort cfg \<noteq> 0 \<and> Users (ol_usergov ol) = cfg_Users cfg \<and> ol_sftpclients ol = NewSFTPClients cfg \<and>
     (waitConfigValid_returns (ol_confsvc ol) \<longrightarrow> cs_config (ol_confsvc ol) = cfg))"

lemma LoadYamlConfig_law:
  "LoadYamlConfig unmarshal url_ok env c files = (ok, c') \<Longrightarrow>
   (ok \<longrightarrow> cs_valid c' \<and> config_valid url_ok (cs_config c') \<and> SftpPort (cs_config c') \<noteq> 0) \<and> (\<not> ok \<longrightarrow> cs_valid c' \<longrightarrow> c' = c)"
proof (induction files arbitrary: c)
  case (Cons f fs)
  obtain k d where a: "load_attempt unmarshal url_ok env c f = (k, d)" by (cases "load_attempt unmarshal url_ok env c f")
  note law = load_attempt_law [OF a]
  show ?case using Cons.prems Cons.IH [of d] a law by (cases k) auto
qed simp

lemma overlord_inv_event: "overlord_inv url_ok ol \<Longrightarrow> overlord_inv url_ok (handle_config_event unmarshal url_ok env e ol)"
proof -
  assume inv: "overlord_inv url_ok ol"
  obtain ev files where e: "e = (ev, files)" by (cases e)
  obtain ok c where l: "LoadYamlConfig unmarshal url_ok env (ol_confsvc ol) files = (ok, c)" by (cases "LoadYamlConfig unmarshal url_ok env (ol_confsvc ol) files")
  note law = LoadYamlConfig_law [OF l]
  show ?thesis
  proof (cases "reloads ev \<and> ok")
    case True
    then show ?thesis using e l law
      by (auto simp: handle_config_event_def config_changed_def overlord_inv_def SetUsers_def Let_def intro!: exI [of _ "cs_config c"])
  next
    case False
    then show ?thesis using inv e l law by (auto simp: handle_config_event_def overlord_inv_def waitConfigValid_returns_def split: if_splits)
  qed
qed



subsection \<open>A round of scavenging\<close>

text \<open>
  One pass of \<^verbatim>\<open>ScavengeUploadedFiles\<close>, once the configuration is valid: the files handed to \<^verbatim>\<open>notifyOverlordProcessScavengedFiles\<close>, if any. The walk gives its entries in order; the open files are
  those of the servers in the list, in the order in which the maps are traversed.
\<close>

definition scavenge_round :: "('w, 'f, 'z) os_api_scheme \<Rightarrow> Config \<Rightarrow> (string \<times> (go_error + fileInfo)) list \<Rightarrow> 'f list \<Rightarrow> 'w \<Rightarrow> string list \<times> 'w" where
  "scavenge_round os cfg entries opens w =
     (if \<not> EnableFileScavenging cfg then ([], w)
      else let files = scavenge_files entries
           in if length files > 0
              then (case checkScavengedFilesUploadState os opens w files of
                      ((closedFiles, ok), w) \<Rightarrow> if \<not> ok then ([], w) else (closedFiles, w))
              else ([], w))"

lemma isSFTPOpenFileTimeup_idle:
  "isSFTPOpenFileTimeup os w f opens = Inr (x, True) \<Longrightarrow>
   \<exists>info. os_Stat os f w = Inr info \<and> uploadTimeDurationMins (time_Now os w) (fi_mtime info) \<ge> UploadTimeLimitMin"
  by (induction opens) (auto split: sum.splits if_splits)

lemma upload_state_one_closed:
  "upload_state_one os opens w f = (True, w') \<Longrightarrow> (\<forall>o1 \<in> set opens. file_Name os o1 \<noteq> f) \<or>
     (\<exists>w1 info. os_Stat os f w1 = Inr info \<and> uploadTimeDurationMins (time_Now os w1) (fi_mtime info) \<ge> UploadTimeLimitMin)"
  using isSFTPOpenFileTimeup_idle [of os w f opens]
  by (auto simp: upload_state_one_def isScavengedFileInOpenFileList_def split: if_splits sum.splits prod.splits)

lemma upload_state_loop_closed:
  "upload_state_loop os opens w files = (cs, w') \<Longrightarrow> f \<in> set cs \<Longrightarrow> f \<in> set files \<and> ((\<forall>o1 \<in> set opens. file_Name os o1 \<noteq> f) \<or>
     (\<exists>w1 info. os_Stat os f w1 = Inr info \<and> uploadTimeDurationMins (time_Now os w1) (fi_mtime info) \<ge> UploadTimeLimitMin))"
proof (induction files arbitrary: w cs)
  case (Cons g files)
  obtain k w1 where one: "upload_state_one os opens w g = (k, w1)" by fastforce
  obtain cs' where l: "upload_state_loop os opens w1 files = (cs', w')" and cs: "cs = (if k then g # cs' else cs')"
    using Cons.prems(1) one by (auto split: prod.splits)
  show ?case
  proof (cases "k \<and> f = g")
    case True
    then show ?thesis using upload_state_one_closed [of os opens w f w1] one by auto
  next
    case False
    then have "f \<in> set cs'" using Cons.prems(2) cs by (auto split: if_splits)
    then show ?thesis using Cons.IH [OF l] by auto
  qed
qed simp



subsection \<open>The host key\<close>

text \<open>
  \<^verbatim>\<open>genSSHKey\<close> on Linux: a key is generated and stored if the file does not exist; the file is then read and parsed. Its result is the signer (nil, if the text cannot be parsed or no key could be
  generated), or the end of the process. \<open>gen\<close>, \<open>encode\<close> and \<open>parse\<close> are \<^verbatim>\<open>rsa.GenerateKey\<close>, \<^verbatim>\<open>pem.Encode\<close> of the key to an open file, and \<^verbatim>\<open>ssh.ParsePrivateKey\<close>; \<open>read\<close> is \<^verbatim>\<open>ioutil.ReadFile\<close>.
  The error of reading is only logged, and the error of parsing is not looked at.
\<close>

datatype 's host_key = HostKey "'s option" | ExitProcess

definition hostKeyPath :: string where "hostKeyPath = ''/mnt/ssftp/system/private.pem''"

definition genSSHKey :: "('w, 'f, 'z) os_api_scheme \<Rightarrow> (go_error + 'k) \<Rightarrow> ('k \<Rightarrow> 'f \<Rightarrow> 'w \<Rightarrow> go_error option \<times> 'w) \<Rightarrow> (string \<Rightarrow> 'w \<Rightarrow> go_error + bytes) \<Rightarrow>
    (bytes \<Rightarrow> go_error + 's) \<Rightarrow> 'w \<Rightarrow> 's host_key \<times> 'w" where
  "genSSHKey os gen encode read parse w =
     (let load = (\<lambda>w. HostKey (case parse (case read hostKeyPath w of Inl _ \<Rightarrow> [] | Inr b \<Rightarrow> b) of
                     Inl _ \<Rightarrow> None
                   | Inr signer \<Rightarrow> (case read hostKeyPath w of Inl _ \<Rightarrow> None | Inr _ \<Rightarrow> Some signer)))
      in if os_IsNotExist (the_error (os_Stat os hostKeyPath w))
         then (case gen of
                 Inl _ \<Rightarrow> (HostKey None, w)
               | Inr key \<Rightarrow>
                   (case os_Create os hostKeyPath w of
                      (Inl _, w) \<Rightarrow> (ExitProcess, w)
                    | (Inr f, w) \<Rightarrow>
                        (case encode key f w of
                           (Some _, w) \<Rightarrow> (ExitProcess, w)
                         | (None, w) \<Rightarrow> (load w, w))))
         else (load w, w))"

text \<open>Once the file is there, every start uses the key in it, and changes nothing.\<close>

lemma host_key_is_stable:
  assumes "os_Stat os hostKeyPath w = Inr fi" and "read hostKeyPath w = Inr b" and "parse b = Inr signer"
  shows "genSSHKey os gen encode read parse w = (HostKey (Some signer), w)"
  using assms by (simp add: genSSHKey_def Let_def os_IsNotExist_def the_error_def)

end
