(* ===== verification/Transfer_Laws.thy ===== *)
theory Transfer_Laws
  imports Transfer_Client
begin

text \<open>
  What the transfer clients do to files: nothing is removed at its source before it was copied, and where the structure of directories is lost.
\<close>

subsection \<open>The downloader\<close>

text \<open>The worlds in which a remote file has just been copied.\<close>

definition fetched :: "('w, 'f, 'r) transfer_api \<Rightarrow> DownloaderConfig \<Rightarrow> string \<Rightarrow> 'w \<Rightarrow> bool" where
  "fetched api cfg p w' \<longleftrightarrow> (\<exists>w remoteFile w1 localFile w2.
     rc_OpenFile api p O_RDONLY w = (Inr remoteFile, w1) \<and>
     createLocalFile api cfg (Join [fullLocalStagingDir cfg, Base p] @ ''.download'') w1 = (Inr localFile, w2) \<and>
     copy_down api localFile remoteFile w2 = (None, w'))"

definition remove_fetched :: "('w, 'f, 'r) transfer_api \<Rightarrow> DownloaderConfig \<Rightarrow> (string \<Rightarrow> 'w \<Rightarrow> go_error option \<times> 'w) \<Rightarrow> ('w, 'f, 'r) transfer_api" where
  "remove_fetched api cfg x = api\<lparr>rc_Remove := \<lambda>p w. if fetched api cfg p w then rc_Remove api p w else x p w\<rparr>"

lemma remove_fetched_simps [simp]:
  "createLocalFile (remove_fetched api cfg x) c = createLocalFile api c" "createLocalDir (remove_fetched api cfg x) = createLocalDir api"
  "setDownloaderFullLocalStagingAndRemotePath (remove_fetched api cfg x) = setDownloaderFullLocalStagingAndRemotePath api"
  "rc_OpenFile (remove_fetched api cfg x) = rc_OpenFile api" "copy_down (remove_fetched api cfg x) = copy_down api"
  "file_Name (remove_fetched api cfg x) = file_Name api" "rc_Close (remove_fetched api cfg x) = rc_Close api"
  by (simp_all add: remove_fetched_def fun_eq_iff createLocalFile_def createLocalDir_def isDirFileExist_def setDownloaderFullLocalStagingAndRemotePath_def
      split: prod.split option.split)

lemma run_deferred_remove [simp]: "run_deferred (remove_fetched api cfg x) ds w = run_deferred api ds w"
  by (induction api ds w rule: run_deferred.induct) (simp_all add: remove_fetched_def unMarkFileInDownloadingState_def)

lemma download_file_remove: "download_file (remove_fetched api cfg x) cfg p ds w = download_file api cfg p ds w"
proof -
  let ?l = "Join [fullLocalStagingDir cfg, Base p] @ ''.download''"
  obtain o1 w1 where 1: "rc_OpenFile api p O_RDONLY w = (o1, w1)" by fastforce
  obtain o2 w2 where 2: "createLocalFile api cfg ?l w1 = (o2, w2)" by fastforce
  show ?thesis
  proof (cases "\<exists>r l. o1 = Inr r \<and> o2 = Inr l")
    case True
    then obtain r l where rl: "o1 = Inr r" "o2 = Inr l" by blast
    obtain e w3 where 3: "copy_down api l r w2 = (e, w3)" by fastforce
    have "rc_Remove (remove_fetched api cfg x) p w3 = rc_Remove api p w3" if "e = None"
      using 1 2 3 rl that by (auto simp: remove_fetched_def fetched_def)
    with 1 2 3 rl show ?thesis by (cases e) (simp_all add: download_file_def Let_def)
  next
    case False
    with 1 2 show ?thesis by (cases o1; cases o2) (simp_all add: download_file_def Let_def)
  qed
qed

lemma download_walk_remove: "download_walk (remove_fetched api cfg x) cfg es ds w = download_walk api cfg es ds w"
  by (induction api cfg es ds w rule: download_walk.induct) (simp_all add: download_file_remove split: prod.split option.split)

text \<open>
  C18: The downloader removes a remote file only after it has copied it: whatever the system, the server and the walk do, a run with another function \<open>x\<close> in the place of
  \<^verbatim>\<open>Remove\<close> on all worlds but those in which that very file has just been opened, its local file made and its contents copied without an error cannot be told from the real
  one.
\<close>
theorem removed_only_after_copied:
  "DownloadFilesRecursive (remove_fetched api (fst (setDownloaderFullLocalStagingAndRemotePath api cfg w)) x) cfg entries w =
   DownloadFilesRecursive api cfg entries w"
  by (simp add: DownloadFilesRecursive_def download_walk_remove split: prod.split)

text \<open>
  Without the flag to override existing files nothing is downloaded, whether or not a local file exists: the outcome is that of an empty remote directory.
\<close>
theorem nothing_downloaded_without_override:
  assumes "\<not> OverrideExistingFile cfg"
  shows "DownloadFilesRecursive api cfg entries w = DownloadFilesRecursive api cfg [] w"
proof -
  have "download_walk api c es ds v = (None, ds, v)" if "\<not> OverrideExistingFile c" for c es ds v
    using that by (induction api c es ds v rule: download_walk.induct) (simp_all add: download_file_def Let_def)
  moreover have "OverrideExistingFile (fst (setDownloaderFullLocalStagingAndRemotePath api cfg w)) = OverrideExistingFile cfg"
    by (simp add: setDownloaderFullLocalStagingAndRemotePath_def split: prod.split)
  ultimately show ?thesis using assms by (cases "setDownloaderFullLocalStagingAndRemotePath api cfg w") (simp add: DownloadFilesRecursive_def)
qed

text \<open>
  A failed copy ends the walk and is reported as success.
\<close>
theorem failed_download_reports_success:
  assumes "OverrideExistingFile cfg" and "rc_OpenFile api p O_RDONLY w = (Inr remoteFile, w1)"
    and "createLocalFile api cfg (Join [fullLocalStagingDir cfg, Base p] @ ''.download'') w1 = (Inr localFile, w2)"
    and "copy_down api localFile remoteFile w2 = (Some e, w3)"
  shows "download_walk api cfg (WalkItem p False # es) ds w = (None, CloseLocal localFile # CloseRemote remoteFile # ds, w3)"
  using assms by (simp add: download_file_def Let_def)

subsection \<open>The uploader\<close>

text \<open>The worlds in which a local file has been sent to the server and then copied to the archive.\<close>

definition archived :: "('w, 'f, 'r) transfer_api \<Rightarrow> string \<Rightarrow> 'w \<Rightarrow> bool" where
  "archived api p w' \<longleftrightarrow> (\<exists>w rmtFile localFile w1 dir dest srcFile w2 destFile w3 w4.
     copy_up api rmtFile localFile w = (None, w1) \<and> os_Open api p (ensureDir api dir w1) = (Inr srcFile, w2) \<and>
     os_Create api dest w2 = (Inr destFile, w3) \<and> io_Copy api destFile srcFile w3 = (None, w4) \<and> w' = snd (file_Close api srcFile w4))"

definition remove_archived :: "('w, 'f, 'r) transfer_api \<Rightarrow> (string \<Rightarrow> 'w \<Rightarrow> go_error option \<times> 'w) \<Rightarrow> ('w, 'f, 'r) transfer_api" where
  "remove_archived api x = api\<lparr>os_Remove := \<lambda>p w. if archived api p w then os_Remove api p w else x p w\<rparr>"

lemma remove_archived_simps [simp]:
  "os_Open (remove_archived api x) = os_Open api" "os_Create (remove_archived api x) = os_Create api" "io_Copy (remove_archived api x) = io_Copy api"
  "file_Close (remove_archived api x) = file_Close api" "file_Name (remove_archived api x) = file_Name api"
  "rc_Create (remove_archived api x) = rc_Create api" "rc_OpenFile (remove_archived api x) = rc_OpenFile api" "copy_up (remove_archived api x) = copy_up api"
  "rc_MkdirAll (remove_archived api x) = rc_MkdirAll api" "rc_Close (remove_archived api x) = rc_Close api"
  "ensureDir (remove_archived api x) = ensureDir api" "isDirFileExist (remove_archived api x) = isDirFileExist api"
  "isRemoteFileExist (remove_archived api x) = isRemoteFileExist api"
  "setUploaderFullLocalCleanAndRemotePath (remove_archived api x) = setUploaderFullLocalCleanAndRemotePath api"
  by (simp_all add: remove_archived_def fun_eq_iff ensureDir_def isDirFileExist_def isRemoteFileExist_def setUploaderFullLocalCleanAndRemotePath_def
      split: sum.split)

lemma close_if_open_archived [simp]: "close_if_open (remove_archived api x) = close_if_open api"
  by (simp add: fun_eq_iff close_if_open_def split: option.split)

lemma run_deferred_archived [simp]: "run_deferred (remove_archived api x) ds w = run_deferred api ds w"
  by (induction api ds w rule: run_deferred.induct) (simp_all add: remove_archived_def unMarkFileInDownloadingState_def)

lemma move_archived:
  assumes sent: "copy_up api rmtFile localFile w = (None, w1)"
  shows "moveUploadedFileFromCleanToArchive (remove_archived api x) up w1 = moveUploadedFileFromCleanToArchive api up w1"
proof -
  let ?w = "ensureDir api (fullArchiveDir up) w1" and ?p = "fullLocalFilePath up"
  obtain o1 w2 where 1: "os_Open api ?p ?w = (o1, w2)" by fastforce
  obtain o2 w3 where 2: "os_Create api (fullArchiveFilePath up) w2 = (o2, w3)" by fastforce
  show ?thesis
  proof (cases "\<exists>f d. o1 = Inr f \<and> o2 = Inr d")
    case True
    then obtain f d where fd: "o1 = Inr f" "o2 = Inr d" by blast
    obtain e w4 where 3: "io_Copy api d f w3 = (e, w4)" by fastforce
    have "os_Remove (remove_archived api x) ?p (snd (file_Close api f w4)) = os_Remove api ?p (snd (file_Close api f w4))" if "e = None"
    proof -
      have "archived api ?p (snd (file_Close api f w4))" unfolding archived_def using sent 1 2 3 fd that by blast
      then show ?thesis by (simp add: remove_archived_def)
    qed
    with 1 2 3 fd show ?thesis by (cases e) (simp_all add: moveUploadedFileFromCleanToArchive_def Let_def close_if_open_def)
  next
    case False
    with 1 2 show ?thesis by (cases o1; cases o2) (simp_all add: moveUploadedFileFromCleanToArchive_def Let_def split: prod.split)
  qed
qed

lemma upload_file_archived: "upload_file (remove_archived api x) cfg v up ds w = upload_file api cfg v up ds w"
  unfolding upload_file_def by (auto simp: Let_def move_archived split: prod.split sum.split option.split)

lemma upload_files_archived: "upload_files (remove_archived api x) cfg vs up ds w = upload_files api cfg vs up ds w"
  by (induction api cfg vs up ds w rule: upload_files.induct) (simp_all add: upload_file_archived split: prod.split)


text \<open>
  The uploader never gives up: whatever happens to single files, every file of the walk is tried, and only a failure to make the remote directory is reported.
\<close>
theorem upload_errors_are_dropped:
  "fst (UploadFilesRecursive api cfg up entries w) =
     (case setUploaderFullLocalCleanAndRemotePath api cfg up w of
        (up, w) \<Rightarrow> fst (rc_MkdirAll api (up_fullRemoteDir up) (ensureDir api (fullLocalCleanUploadDir up) (ensureDir api (archiveBaseDir up) w))))"
  by (simp add: UploadFilesRecursive_def Let_def split: prod.split option.split)

subsection \<open>A small world\<close>

text \<open>Remote and local files by path; a handle is the path. What exists can be opened, and every copy succeeds.\<close>

record demo_world =
  dw_remote :: "string \<rightharpoonup> bytes"
  dw_local :: "string \<rightharpoonup> bytes"

definition demo_info :: fileInfo where
  "demo_info = \<lparr>fi_name = [], fi_size = 0, fi_mode = 0, fi_mtime = 0, fi_sys = SysOther\<rparr>"

definition demo_api :: "(demo_world, string, string) transfer_api" where
  "demo_api = \<lparr>os_Stat = \<lambda>p w. if dw_local w p = None then Inl ENOENT else Inr demo_info, os_Lstat = \<lambda>_ _. Inl ENOENT, os_Readlink = \<lambda>_ _. Inl ENOENT,
     os_Getwd = \<lambda>_. Inr ''/'', os_Mkdir = \<lambda>_ _ w. (None, w), os_MkdirAll = \<lambda>_ _ w. (None, w),
     os_Remove = \<lambda>p w. (None, w\<lparr>dw_local := (dw_local w)(p := None)\<rparr>),
     os_Rename = \<lambda>p q w. (case dw_local w p of None \<Rightarrow> (Some ENOENT, w) | Some d \<Rightarrow> (None, w\<lparr>dw_local := (dw_local w)(p := None, q \<mapsto> d)\<rparr>)),
     os_Symlink = \<lambda>_ _ w. (None, w), os_Link = \<lambda>_ _ w. (None, w), os_Truncate = \<lambda>_ _ w. (None, w), os_Chmod = \<lambda>_ _ w. (None, w),
     os_Chtimes = \<lambda>_ _ _ w. (None, w), os_Chown = \<lambda>_ _ _ w. (None, w), os_OpenFile = \<lambda>_ _ _ w. (Inl ENOENT, w),
     os_Create = \<lambda>p w. (Inr p, w\<lparr>dw_local := (dw_local w)(p \<mapsto> [])\<rparr>), file_Name = \<lambda>p. p,
     file_Stat = \<lambda>_ _. Inl ENOENT, file_ReadAt = \<lambda>_ _ _ _. ([], Some EOF), file_WriteAt = \<lambda>_ _ _ w. (None, w),
     file_Readdir = \<lambda>_ _ w. (Inl EOF, w), file_Truncate = \<lambda>_ _ w. (None, w), file_Chmod = \<lambda>_ _ w. (None, w),
     file_Chown = \<lambda>_ _ _ w. (None, w), file_Close = \<lambda>_ w. (None, w), syscall_Statfs = \<lambda>_ _. Inl ENOENT,
     time_Now = \<lambda>_. 0, time_civil = \<lambda>_ _. \<lparr>ct_month = ''January'', ct_day = 1, ct_year = 1970, ct_hour = 0, ct_minute = 0\<rparr>,
     os_Open = \<lambda>p w. (if dw_local w p = None then Inl ENOENT else Inr p, w),
     io_Copy = \<lambda>d s w. (None, w\<lparr>dw_local := (dw_local w)(d := dw_local w s)\<rparr>),
     rc_Getwd = \<lambda>w. (Inr ''/'', w), rc_OpenFile = \<lambda>p _ w. (if dw_remote w p = None then Inl ENOENT else Inr p, w),
     rc_Create = \<lambda>p w. (Inr p, w\<lparr>dw_remote := (dw_remote w)(p \<mapsto> [])\<rparr>), rc_Remove = \<lambda>p w. (None, w\<lparr>dw_remote := (dw_remote w)(p := None)\<rparr>),
     rc_MkdirAll = \<lambda>_ w. (None, w), rc_Stat = \<lambda>p w. ((if dw_remote w p = None then None else Some demo_info, if dw_remote w p = None then Some ErrNotExist else None), w),
     rc_Close = \<lambda>w. w, rf_Close = \<lambda>_ w. w, copy_down = \<lambda>l r w. (None, w\<lparr>dw_local := (dw_local w)(l := dw_remote w r)\<rparr>),
     copy_up = \<lambda>r l w. (None, w\<lparr>dw_remote := (dw_remote w)(r := dw_local w l)\<rparr>)\<rparr>"

definition demo_dl :: DownloaderConfig where
  "demo_dl = \<lparr>DLName = [], dc_Host = [], dc_Port = 22, DeleteRemoteFileAfterDownload = True, OverrideExistingFile = True, dc_Username = [], dc_Password = [],
     dc_PrivateKeyPath = [], dc_PrivatekeyPassphrase = [], LocalStagingBaseDirectory = ''/staging'', LocalStagingDirectory = [], dc_RemoteDirectory = [],
     fullLocalStagingDir = [], dc_fullRemoteDir = []\<rparr>"

lemma demo_paths:
  "Join [''/staging'', []] = ''/staging''" "Base ''/a/x'' = ''x''" "Base ''/b/x'' = ''x''" "Join [''/staging'', ''x''] = ''/staging/x''"
  "strings_Replace ''/staging/x.download'' ''.download'' [] 1 = ''/staging/x''"
  by code_simp+

text \<open>
  The downloader puts every remote file into one local directory under its last name. Of two remote files of the same name in different directories, with the flag to delete
  remote files after the download, only the second survives: both are gone from the server and the first is nowhere.
\<close>
theorem same_name_downloads_lose_data:
  "case DownloadFilesRecursive demo_api demo_dl [WalkItem ''/'' True, WalkItem ''/a'' True, WalkItem ''/a/x'' False, WalkItem ''/b'' True, WalkItem ''/b/x'' False]
      \<lparr>dw_remote = [''/a/x'' \<mapsto> d1, ''/b/x'' \<mapsto> d2], dw_local = Map.empty\<rparr> of
     (err, _, w) \<Rightarrow> err = None \<and> dw_remote w = Map.empty \<and> dw_local w = [''/staging/x'' \<mapsto> d2]"
  by (simp add: DownloadFilesRecursive_def setDownloaderFullLocalStagingAndRemotePath_def createLocalDir_def isDirFileExist_def os_IsNotExist_def
      the_error_def download_file_def createLocalFile_def Let_def demo_api_def demo_dl_def demo_paths unMarkFileInDownloadingState_def fun_eq_iff)

theorem nothing_downloaded_without_override_witness:
  "DownloadFilesRecursive demo_api (demo_dl\<lparr>OverrideExistingFile := False\<rparr>) [WalkItem ''/a/x'' False] \<lparr>dw_remote = [''/a/x'' \<mapsto> [1]], dw_local = Map.empty\<rparr> =
   DownloadFilesRecursive demo_api (demo_dl\<lparr>OverrideExistingFile := False\<rparr>) [] \<lparr>dw_remote = [''/a/x'' \<mapsto> [1]], dw_local = Map.empty\<rparr>"
  by (rule nothing_downloaded_without_override) simp

subsection \<open>Archive paths\<close>

lemma takeWhile_rev_name: "slash \<notin> set n \<Longrightarrow> takeWhile (\<lambda>c. c \<noteq> slash) (rev n @ slash # q) = rev n \<and> dropWhile (\<lambda>c. c \<noteq> slash) (rev n @ slash # q) = slash # q"
proof -
  have "slash \<notin> set m \<Longrightarrow> takeWhile (\<lambda>c. c \<noteq> slash) (m @ slash # q) = m \<and> dropWhile (\<lambda>c. c \<noteq> slash) (m @ slash # q) = slash # q" for m
    by (induction m) auto
  then show "slash \<notin> set n \<Longrightarrow> ?thesis" by simp
qed

lemma Split_name: "slash \<notin> set n \<Longrightarrow> Split (q @ slash # n) = (q @ ''/'', n)"
  using takeWhile_rev_name [of n "rev q"] by (simp add: Split_def upto_slash_def after_slash_def)

lemma Base_name: "slash \<notin> set n \<Longrightarrow> n \<noteq> [] \<Longrightarrow> Base (q @ slash # n) = n"
proof -
  assume n: "slash \<notin> set n" "n \<noteq> []"
  have "rev n @ slash # rev q \<noteq> [] \<and> dropWhile (\<lambda>c. c = slash) (rev n @ slash # rev q) = rev n @ slash # rev q"
    using n by (cases "rev n") (auto dest: arg_cong [of _ _ set])
  with n takeWhile_rev_name [of n "rev q"] show ?thesis by (simp add: Base_def after_slash_def Let_def)
qed

lemma split_join_slash: "es \<noteq> [] \<Longrightarrow> split_on slash (join_with ''/'' es) = concat (map (split_on slash) es)"
proof (induction es)
  case (Cons e es)
  then show ?case by (cases es) (simp_all add: split_on_slash_append)
qed simp

lemma clean_elems_filter: "clean_elems r es = clean_elems r (filter (\<lambda>e. e \<noteq> []) es)"
proof -
  have "foldl (clean_step r) out es = foldl (clean_step r) out (filter (\<lambda>e. e \<noteq> []) es)" for out
    by (induction es arbitrary: out) (simp_all add: clean_step_def)
  then show ?thesis by (simp add: clean_elems_def)
qed

text \<open>The elements of a path, without the empty ones.\<close>

definition path_elems :: "string \<Rightarrow> string list" where
  "path_elems p = filter (\<lambda>e. e \<noteq> []) (split_on slash p)"

lemma path_elems_render: "normal_elems True es \<Longrightarrow> path_elems (render True es) = es"
  by (auto simp: path_elems_def split_render normal_elems_def is_elem_def list_all_iff filter_id_conv)

lemma path_elems_join: "list_all is_elem es \<Longrightarrow> path_elems (join_with ''/'' es) = es"
  by (cases "es = []") (auto simp: path_elems_def split_on_join elems_no_slash is_elem_def list_all_iff filter_id_conv)

lemma filter_concat_map: "filter P (concat (map f xs)) = concat (map (\<lambda>x. filter P (f x)) xs)"
  by (induction xs) simp_all

lemma Join_elems:
  assumes "normal_elems True (path_elems p @ concat (map path_elems ps))" "IsAbs p"
  shows "Join (p # ps) = render True (path_elems p @ concat (map path_elems ps))"
proof -
  obtain c q where p: "p = c # q" "c = slash" using assms(2) by (cases p) (auto simp: IsAbs_def)
  have abs: "IsAbs (join_with ''/'' (p # ps))" using p by (cases ps) (simp_all add: IsAbs_def)
  have "clean_elems True (split_on slash (join_with ''/'' (p # ps))) = path_elems p @ concat (map path_elems ps)"
    using clean_elems_normal_id [OF assms(1)]
    by (subst split_join_slash, simp, subst clean_elems_filter) (simp add: filter_concat_map path_elems_def [abs_def])
  with abs p show ?thesis by (simp add: Join_def Clean_def)
qed

lemma normal_append: "normal_elems True (xs @ ys) \<longleftrightarrow> normal_elems True xs \<and> normal_elems True ys"
  by (auto simp: normal_elems_def)

lemma render_append:
  assumes "ds \<noteq> []"
  shows "render True (ds @ es) = render True ds @ (if es = [] then [] else render True es)"
proof -
  have "join_with ''/'' (ds @ es) = join_with ''/'' ds @ (if es = [] then [] else ''/'' @ join_with ''/'' es)" if "ds \<noteq> []" for ds
    using that
  proof (induction ds)
    case (Cons d ds)
    then show ?case by (cases ds; cases es) simp_all
  qed simp
  with assms show ?thesis by (simp add: render_def)
qed

lemma render_name: "render True (xs @ [n]) = (if xs = [] then [] else render True xs) @ slash # n"
  by (cases "xs = []") (simp_all add: render_append, simp_all add: render_def)

text \<open>
  The archive mirrors the clean directory, the server does not. For a file at any place below the configured clean directory the archive path has the configured directory and the same
  subdirectories below the archive, and the remote path is the remote directory with the file's name only.
\<close>
theorem archive_mirrors_clean:
  assumes "normal_elems True (ds @ ss @ [n])" "normal_elems True (as @ ls)" "normal_elems True rs" "ds \<noteq> []"
    and "fullLocalCleanUploadDir up = render True ds" "archiveBaseDir up = render True as" "up_fullRemoteDir up = render True rs"
    and "LocalDirectoryToUpload cfg = join_with ''/'' ls"
  shows "fullArchiveFilePath (setUploaderFilePaths cfg (render True (ds @ ss @ [n])) up) = render True (as @ ls @ ss @ [n]) \<and>
    fullRemoteFilePath (setUploaderFilePaths cfg (render True (ds @ ss @ [n])) up) = render True (rs @ [n])"
proof -
  have n: "is_elem n" "slash \<notin> set n" "n \<noteq> []" "normal_elems True ss" "normal_elems True (ds @ ss)" "normal_elems True [n]"
    using assms(1) by (auto simp: normal_elems_def is_elem_def)
  let ?f = "render True (ds @ ss @ [n])"
  have f: "?f = render True (ds @ ss) @ slash # n" using assms(4) render_name [of "ds @ ss" n] by simp
  have e: "path_elems [] = []" "path_elems n = [n]" using n path_elems_join [of "[n]"] by (simp_all add: path_elems_def)
  have abs: "IsAbs (render True xs)" for xs by (simp add: IsAbs_def render_def)
  have "Clean (fst (Split ?f)) = render True (ds @ ss)"
  proof -
    have "split_on slash (render True (ds @ ss) @ ''/'') = split_on slash (render True (ds @ ss)) @ [[]]"
      using split_on_slash_append [of "render True (ds @ ss)" "[]"] by simp
    moreover have "clean_elems True (split_on slash (render True (ds @ ss)) @ [[]]) = ds @ ss"
      using clean_elems_render [OF n(5)] clean_elems_filter [of True "split_on slash (render True (ds @ ss))"]
      by (subst clean_elems_filter) simp
    moreover have "IsAbs (render True (ds @ ss) @ ''/'')" by (simp add: IsAbs_def render_def)
    ultimately show ?thesis unfolding f Split_name [OF n(2)] by (simp add: Clean_def)
  qed
  moreover have "strings_Replace (render True (ds @ ss)) (render True ds) [] 1 = (if ss = [] then [] else render True ss)"
  proof -
    have "render True ds \<noteq> []" by (simp add: render_def)
    then have "replace_n (render True ds @ t) (render True ds) [] 1 = t" for t
      by (subst replace_n.simps, subst replace_n.simps) simp
    then show ?thesis unfolding render_append [OF assms(4)] strings_Replace_def by simp
  qed
  moreover have "Base ?f = n" unfolding f using n by (simp add: Base_name)
  moreover have "Join [render True as, join_with ''/'' ls, if ss = [] then [] else render True ss] = render True (as @ ls @ ss)"
    using Join_elems [of "render True as" "[join_with ''/'' ls, if ss = [] then [] else render True ss]"] assms(2) n(4) abs e(1)
    by (simp add: normal_append path_elems_render path_elems_join normal_elems_def)
  moreover have "Join [render True xs, n] = render True (xs @ [n])" if "normal_elems True xs" for xs
    using Join_elems [of "render True xs" "[n]"] that n abs e by (simp add: normal_append path_elems_render)
  moreover have "normal_elems True (as @ ls @ ss)" using assms(2) n(4) by (simp add: normal_append)
  ultimately show ?thesis using assms(3,5-8) by (simp add: setUploaderFilePaths_def Let_def)
qed

theorem archive_mirrors_clean_witness:
  "fullArchiveFilePath (setUploaderFilePaths \<lparr>UplName = [], uc_Host = [], uc_Port = 22, uc_Username = [], uc_Password = [], uc_PrivateKeyPath = [], uc_PrivatekeyPassphrase = [],
     LocalCleanBaseDirectory = ''/clean'', uc_ArchiveBasePath = ''/archive'', LocalDirectoryToUpload = ''out'', uc_RemoteDirectory = [], OverrideRemoteExistingFile = True\<rparr>
     (render True [''clean'', ''out'', ''x'', ''f''])
     (zeroPaths\<lparr>fullLocalCleanUploadDir := render True [''clean'', ''out''], archiveBaseDir := render True [''archive''], up_fullRemoteDir := render True []\<rparr>)) = ''/archive/out/x/f''"
  using archive_mirrors_clean [of "[''clean'', ''out'']" "[''x'']" "''f''" "[''archive'']" "[''out'']" "[]"
    "zeroPaths\<lparr>fullLocalCleanUploadDir := render True [''clean'', ''out''], archiveBaseDir := render True [''archive''], up_fullRemoteDir := render True []\<rparr>"]
  by (simp add: normal_elems_def is_elem_def render_def)

end
