(* ===== verification/Transfer_Store.thy ===== *)
theory Transfer_Store
  imports Transfer_Laws
begin

text \<open>
  The downloader against file stores that keep what is written to them: every remote file arrives in the staging directory under its last name, and the marked names are gone.
\<close>

subsection \<open>Stores\<close>

text \<open>
  What the system and the remote server promise, seen through the files they have: \<open>rem\<close> and \<open>loc\<close> give the contents of the remote and the local files of a world,
  \<open>rname\<close> the path a remote file was opened with, and \<open>P\<close> are the local paths that are not directories and can be created.
\<close>

definition remote_laws :: "('w, 'f, 'r) transfer_api \<Rightarrow> ('w \<Rightarrow> string \<rightharpoonup> bytes) \<Rightarrow> ('w \<Rightarrow> string \<rightharpoonup> bytes) \<Rightarrow> ('r \<Rightarrow> string) \<Rightarrow> bool" where
  "remote_laws api rem loc rname \<longleftrightarrow>
     (\<forall>w. rem (snd (rc_Getwd api w)) = rem w \<and> loc (snd (rc_Getwd api w)) = loc w) \<and>
     (\<forall>w. rem (rc_Close api w) = rem w \<and> loc (rc_Close api w) = loc w) \<and>
     (\<forall>r w. rem (rf_Close api r w) = rem w \<and> loc (rf_Close api r w) = loc w) \<and>
     (\<forall>p w. rem w p \<noteq> None \<longrightarrow> (\<exists>r w'. rc_OpenFile api p O_RDONLY w = (Inr r, w') \<and> rname r = p \<and> rem w' = rem w \<and> loc w' = loc w)) \<and>
     (\<forall>p w. rem w p \<noteq> None \<longrightarrow> (\<exists>w'. rc_Remove api p w = (None, w') \<and> rem w' = (rem w)(p := None) \<and> loc w' = loc w))"

definition local_laws :: "('w, 'f, 'r) transfer_api \<Rightarrow> ('w \<Rightarrow> string \<rightharpoonup> bytes) \<Rightarrow> ('w \<Rightarrow> string \<rightharpoonup> bytes) \<Rightarrow> string set \<Rightarrow> bool" where
  "local_laws api rem loc P \<longleftrightarrow>
     (\<forall>d m w. rem (snd (os_Mkdir api d m w)) = rem w \<and> loc (snd (os_Mkdir api d m w)) = loc w) \<and>
     (\<forall>f w. rem (snd (file_Close api f w)) = rem w \<and> loc (snd (file_Close api f w)) = loc w) \<and>
     (\<forall>p w. p \<in> P \<longrightarrow> isDirFileExist api p w = (loc w p \<noteq> None)) \<and>
     (\<forall>p w. p \<in> P \<longrightarrow> (\<exists>f w'. os_Create api p w = (Inr f, w') \<and> file_Name api f = p \<and> rem w' = rem w \<and> loc w' = (loc w)(p \<mapsto> []))) \<and>
     (\<forall>p w. p \<in> P \<longrightarrow> loc w p \<noteq> None \<longrightarrow> (\<exists>w'. os_Remove api p w = (None, w') \<and> rem w' = rem w \<and> loc w' = (loc w)(p := None))) \<and>
     (\<forall>p q w. p \<in> P \<longrightarrow> q \<in> P \<longrightarrow> rem (snd (os_Rename api p q w)) = rem w \<and>
        loc (snd (os_Rename api p q w)) = (if loc w p = None then loc w else (loc w)(p := None, q := loc w p)))"

definition copy_law :: "('w, 'f, 'r) transfer_api \<Rightarrow> ('w \<Rightarrow> string \<rightharpoonup> bytes) \<Rightarrow> ('w \<Rightarrow> string \<rightharpoonup> bytes) \<Rightarrow> ('r \<Rightarrow> string) \<Rightarrow> string set \<Rightarrow> bool" where
  "copy_law api rem loc rname P \<longleftrightarrow>
     (\<forall>f r w. file_Name api f \<in> P \<longrightarrow> rem w (rname r) \<noteq> None \<longrightarrow>
        (\<exists>w'. copy_down api f r w = (None, w') \<and> rem w' = rem w \<and> loc w' = (loc w)(file_Name api f := rem w (rname r))))"

subsection \<open>Names\<close>

abbreviation marked :: "string \<Rightarrow> string" where "marked p \<equiv> p @ ''.download''"

lemma suffix_dot: "prefix ''.download'' (s @ ''.download'') \<Longrightarrow> s = [] \<or> prefix ''.download'' s"
proof (cases "9 \<le> length s")
  case True
  assume "prefix ''.download'' (s @ ''.download'')"
  then show ?thesis using True prefix_length_prefix [of "''.download''" "s @ ''.download''" s] by simp
next
  case False
  assume "prefix ''.download'' (s @ ''.download'')"
  then obtain t where t: "s @ ''.download'' = ''.download'' @ t" by (auto simp: prefix_def)
  have "''.download'' ! length s = (s @ ''.download'') ! length s" using False unfolding t by (simp add: nth_append del: append_Cons)
  then have d: "''.download'' ! length s = CHR ''.''" by (simp add: nth_append)
  have "i < 9 \<Longrightarrow> ''.download'' ! i = CHR ''.'' \<Longrightarrow> i = 0" for i :: nat
    by (auto simp: numeral_eq_Suc less_Suc_eq)
  from this [OF _ d] have "length s = 0" using False by linarith
  then show ?thesis by simp
qed

lemma replace_n_skip: "\<not> prefix old (c # s) \<Longrightarrow> n \<noteq> 0 \<Longrightarrow> replace_n (c # s) old new n = c # replace_n s old new n"
  by (cases "old = []") (simp_all add: replace_n.simps [of "c # s"] replace_n.simps [of s])

lemma unmark_name: "\<not> strings_Contains p ''.download'' \<Longrightarrow> strings_Replace (marked p) ''.download'' [] 1 = p"
  unfolding strings_Contains_def strings_Replace_def
proof (induction p)
  case Nil
  show ?case by (simp add: replace_n.simps)
next
  case (Cons c p)
  then have "\<not> sublist ''.download'' p" by (auto simp: sublist_Cons_right)
  moreover have "\<not> prefix ''.download'' (marked (c # p))" using suffix_dot [of "c # p"] Cons.prems by (auto dest: prefix_imp_sublist)
  ultimately show ?case using Cons.IH replace_n_skip [of "''.download''" c "marked p" 1 "[]"] by simp
qed

subsection \<open>One file\<close>

lemma createLocalFile_ok:
  assumes "local_laws api rem loc P" and "p \<in> P" and "OverrideExistingFile cfg"
  shows "\<exists>f w'. createLocalFile api cfg p w = (Inr f, w') \<and> file_Name api f = p \<and> rem w' = rem w \<and> loc w' = (loc w)(p \<mapsto> [])"
proof (cases "loc w p = None")
  case True
  then show ?thesis using assms by (simp add: createLocalFile_def local_laws_def)
next
  case False
  then obtain w1 where r: "os_Remove api p w = (None, w1)" "rem w1 = rem w" "loc w1 = (loc w)(p := None)"
    using assms(1,2) unfolding local_laws_def by metis
  obtain f w2 where c: "os_Create api p w1 = (Inr f, w2)" "file_Name api f = p" "rem w2 = rem w1" "loc w2 = (loc w1)(p \<mapsto> [])"
    using assms(1,2) unfolding local_laws_def by metis
  have "isDirFileExist api p w" using False assms by (simp add: local_laws_def)
  then show ?thesis using r c assms(3) by (simp add: createLocalFile_def)
qed

text \<open>The names that are to be unmarked by deferred calls.\<close>

fun unmarks :: "('f, 'r) deferred list \<Rightarrow> string list" where
  "unmarks [] = []"
| "unmarks (Unmark p # ds) = p # unmarks ds"
| "unmarks (d # ds) = unmarks ds"

lemma unmarks_append [simp]: "unmarks (xs @ ys) = unmarks xs @ unmarks ys"
  by (induction xs rule: unmarks.induct) simp_all

abbreviation local_path :: "DownloaderConfig \<Rightarrow> string \<Rightarrow> string" where
  "local_path cfg p \<equiv> Join [fullLocalStagingDir cfg, Base p]"

lemma download_file_ok:
  assumes "remote_laws api rem loc rname" and "local_laws api rem loc P" and "copy_law api rem loc rname P"
    and "OverrideExistingFile cfg" and "rem w p \<noteq> None" and "marked (local_path cfg p) \<in> P"
  shows "\<exists>es w'. download_file api cfg p ds w = (None, es @ ds, w') \<and> unmarks es = [marked (local_path cfg p)] \<and>
    rem w' = (if DeleteRemoteFileAfterDownload cfg then (rem w)(p := None) else rem w) \<and> loc w' = (loc w)(marked (local_path cfg p) := rem w p)"
proof -
  let ?l = "marked (local_path cfg p)"
  obtain r w1 where 1: "rc_OpenFile api p O_RDONLY w = (Inr r, w1)" "rname r = p" "rem w1 = rem w" "loc w1 = loc w"
    using assms(1,5) unfolding remote_laws_def by metis
  obtain f w2 where 2: "createLocalFile api cfg ?l w1 = (Inr f, w2)" "file_Name api f = ?l" "rem w2 = rem w1" "loc w2 = (loc w1)(?l \<mapsto> [])"
    using createLocalFile_ok [OF assms(2,6,4)] by blast
  have "file_Name api f \<in> P" "rem w2 (rname r) \<noteq> None" using 1 2 assms(5,6) by simp_all
  then obtain w3 where 3: "copy_down api f r w2 = (None, w3)" "rem w3 = rem w2" "loc w3 = (loc w2)(file_Name api f := rem w2 (rname r))"
    using assms(3) unfolding copy_law_def by metis
  have e: "rem w3 = rem w" "loc w3 = (loc w)(?l := rem w p)" using 1 2 3 by simp_all
  show ?thesis
  proof (cases "DeleteRemoteFileAfterDownload cfg")
    case True
    obtain w4 where "rc_Remove api p w3 = (None, w4)" "rem w4 = (rem w3)(p := None)" "loc w4 = loc w3"
      using assms(1,5) e unfolding remote_laws_def by metis
    then show ?thesis using True 1 2 3 e assms(4) by (intro exI [of _ "[Unmark ?l, CloseLocal f, CloseRemote r]"] exI [of _ w4]) (simp add: download_file_def Let_def)
  next
    case False
    then show ?thesis using 1 2 3 e assms(4) by (intro exI [of _ "[Unmark ?l, CloseLocal f, CloseRemote r]"] exI [of _ w3]) (simp add: download_file_def Let_def)
  qed
qed

subsection \<open>The walk and the deferred calls\<close>

definition put_file :: "(string \<Rightarrow> string) \<Rightarrow> (string \<rightharpoonup> bytes) \<Rightarrow> string \<Rightarrow> (string \<rightharpoonup> bytes) \<Rightarrow> (string \<rightharpoonup> bytes)" where
  "put_file g v p m = m(g p := v p)"

lemma download_walk_ok:
  assumes "remote_laws api rem loc rname" and "local_laws api rem loc P" and "copy_law api rem loc rname P" and "OverrideExistingFile cfg"
  shows "\<lbrakk>\<And>p. p \<in> set (files_to_upload es) \<Longrightarrow> rem w p \<noteq> None \<and> marked (local_path cfg p) \<in> P; distinct (files_to_upload es)\<rbrakk> \<Longrightarrow>
    \<exists>xs w'. download_walk api cfg es ds w = (None, xs @ ds, w') \<and> unmarks xs = rev (map (\<lambda>p. marked (local_path cfg p)) (files_to_upload es)) \<and>
      rem w' = (if DeleteRemoteFileAfterDownload cfg then rem w |` (- set (files_to_upload es)) else rem w) \<and>
      loc w' = fold (put_file (\<lambda>p. marked (local_path cfg p)) (rem w)) (files_to_upload es) (loc w)"
proof (induction es arbitrary: ds w rule: files_to_upload.induct)
  case 1
  then show ?case by (auto simp: restrict_map_def)
next
  case (3 p isdir es)
  show ?case
  proof (cases isdir)
    case False
    have p: "rem w p \<noteq> None" "marked (local_path cfg p) \<in> P" using 3(3) [of p] False by simp_all
    obtain xs w1 where f: "download_file api cfg p ds w = (None, xs @ ds, w1)" "unmarks xs = [marked (local_path cfg p)]"
        "rem w1 = (if DeleteRemoteFileAfterDownload cfg then (rem w)(p := None) else rem w)" "loc w1 = (loc w)(marked (local_path cfg p) := rem w p)"
      using download_file_ok [OF assms p, of ds] by blast
    have np: "p \<notin> set (files_to_upload es)" "distinct (files_to_upload es)" using 3(4) False by simp_all
    have same: "rem w1 q = rem w q" if "q \<in> set (files_to_upload es)" for q using that np(1) f(3) by auto
    obtain ys w2 where g: "download_walk api cfg es (xs @ ds) w1 = (None, ys @ xs @ ds, w2)"
        "unmarks ys = rev (map (\<lambda>p. marked (local_path cfg p)) (files_to_upload es))"
        "rem w2 = (if DeleteRemoteFileAfterDownload cfg then rem w1 |` (- set (files_to_upload es)) else rem w1)"
        "loc w2 = fold (put_file (\<lambda>p. marked (local_path cfg p)) (rem w1)) (files_to_upload es) (loc w1)"
      using 3(2) [OF False, of w1 "xs @ ds"] 3(3) same np(2) False by auto
    have "fold (put_file (\<lambda>p. marked (local_path cfg p)) (rem w1)) (files_to_upload es) (loc w1) =
        fold (put_file (\<lambda>p. marked (local_path cfg p)) (rem w)) (files_to_upload es) (loc w1)"
      by (rule fold_cong) (simp_all add: same put_file_def fun_eq_iff)
    moreover have "loc w1 = put_file (\<lambda>p. marked (local_path cfg p)) (rem w) p (loc w)" using f(4) by (simp add: put_file_def)
    ultimately show ?thesis using False f(1-3) g by (intro exI [of _ "ys @ xs"] exI [of _ w2]) (auto simp: restrict_map_def)
  next
    case True
    then have t: "files_to_upload (WalkItem p isdir # es) = files_to_upload es" by simp
    from 3(1) [OF True 3(3,4) [unfolded t]] True show ?thesis unfolding t by simp
  qed
next
  case (2 e es)
  from 2(1) [OF 2(2,3) [unfolded files_to_upload.simps]] show ?case by (simp only: files_to_upload.simps download_walk.simps)
qed

text \<open>A rename on the files alone.\<close>

definition unmark_file :: "string \<Rightarrow> (string \<rightharpoonup> bytes) \<Rightarrow> (string \<rightharpoonup> bytes)" where
  "unmark_file p m = (if m p = None then m else m(p := None, strings_Replace p ''.download'' [] 1 := m p))"

lemma run_deferred_files:
  assumes "remote_laws api rem loc rname" and "local_laws api rem loc P"
  shows "(\<And>p. p \<in> set (unmarks ds) \<Longrightarrow> p \<in> P \<and> strings_Replace p ''.download'' [] 1 \<in> P) \<Longrightarrow>
    rem (run_deferred api ds w) = rem w \<and> loc (run_deferred api ds w) = fold unmark_file (unmarks ds) (loc w)"
proof (induction ds arbitrary: w rule: unmarks.induct)
  case (2 p ds)
  have "rem (unMarkFileInDownloadingState api p w) = rem w \<and> loc (unMarkFileInDownloadingState api p w) = unmark_file p (loc w)"
    using assms(2) 2(2) [of p] by (simp add: unMarkFileInDownloadingState_def unmark_file_def local_laws_def)
  then show ?case using 2 by simp
qed (use assms in \<open>simp_all add: remote_laws_def local_laws_def\<close>)

lemma fold_put:
  assumes "inj_on g (set ps)" and "distinct ps"
  shows "(p \<in> set ps \<longrightarrow> fold (put_file g v) ps m (g p) = v p) \<and> (q \<notin> g ` set ps \<longrightarrow> fold (put_file g v) ps m q = m q)"
  using assms
proof (induction ps arbitrary: m p q)
  case (Cons a ps)
  have q: "g p \<notin> g ` set ps" if "p = a" using that Cons.prems by (auto simp: inj_on_def)
  have "inj_on g (set ps)" "distinct ps" using Cons.prems by auto
  then show ?case using Cons.IH [where p = p and q = q and m = "put_file g v a m"] Cons.IH [where p = p and q = "g p" and m = "put_file g v a m"] q by (auto simp: put_file_def)
qed simp

lemma fold_unmark:
  assumes "distinct ts" and "inj_on (\<lambda>t. strings_Replace t ''.download'' [] 1) (set ts)"
    and "(\<lambda>t. strings_Replace t ''.download'' [] 1) ` set ts \<inter> set ts = {}" and "\<forall>t \<in> set ts. m t \<noteq> None"
  shows "(t \<in> set ts \<longrightarrow> fold unmark_file ts m (strings_Replace t ''.download'' [] 1) = m t \<and> fold unmark_file ts m t = None) \<and>
    (q \<notin> set ts \<union> (\<lambda>t. strings_Replace t ''.download'' [] 1) ` set ts \<longrightarrow> fold unmark_file ts m q = m q)"
  using assms
proof (induction ts arbitrary: m t q)
  case (Cons a ts)
  let ?u = "\<lambda>t. strings_Replace t ''.download'' [] 1"
  let ?m = "m(a := None, ?u a := m a)"
  have a: "unmark_file a m = ?m" using Cons.prems(4) by (auto simp: unmark_file_def)
  have "\<forall>t \<in> set ts. ?m t \<noteq> None" using Cons.prems by auto
  moreover have "inj_on ?u (set ts)" "?u ` set ts \<inter> set ts = {}" "distinct ts" using Cons.prems by auto
  ultimately have IH: "(t \<in> set ts \<longrightarrow> fold unmark_file ts ?m (?u t) = ?m t \<and> fold unmark_file ts ?m t = None) \<and>
      (q \<notin> set ts \<union> ?u ` set ts \<longrightarrow> fold unmark_file ts ?m q = ?m q)" for t q using Cons.IH by blast
  have n: "?u a \<notin> set ts \<union> ?u ` set ts" "a \<notin> set ts \<union> ?u ` set ts" "?u a \<noteq> a" using Cons.prems by (auto simp: inj_on_def)
  show ?case
  proof (cases "t = a")
    case True
    then show ?thesis using IH [of t "?u a"] IH [of t a] IH [of t q] n by (auto simp: a)
  next
    case False
    then show ?thesis using IH [of t q] Cons.prems by (auto simp: a)
  qed
qed simp

subsection \<open>The download\<close>

text \<open>Where the downloader puts a remote file.\<close>

definition staged_path :: "DownloaderConfig \<Rightarrow> string \<Rightarrow> string" where
  "staged_path cfg p = Join [Join [LocalStagingBaseDirectory cfg, LocalStagingDirectory cfg], Base p]"

lemma createLocalDir_files: "local_laws api rem loc P \<Longrightarrow> rem (snd (createLocalDir api d w)) = rem w \<and> loc (snd (createLocalDir api d w)) = loc w"
  by (simp add: createLocalDir_def local_laws_def)

lemma marked_contains: "strings_Contains (marked p) ''.download''"
  by (simp add: strings_Contains_def)

lemma unmark_staged:
  assumes "\<And>p. p \<in> set ps \<Longrightarrow> m p \<noteq> None \<and> \<not> strings_Contains (g p) ''.download''" and "distinct (map g ps)"
    and "m' = fold unmark_file (rev (map (\<lambda>p. marked (g p)) ps)) (fold (put_file (\<lambda>p. marked (g p)) m) ps l)"
  shows "(p \<in> set ps \<longrightarrow> m' (g p) = m p \<and> m' (marked (g p)) = None) \<and> (q \<notin> g ` set ps \<union> (\<lambda>p. marked (g p)) ` set ps \<longrightarrow> m' q = l q)"
proof -
  let ?ts = "rev (map (\<lambda>p. marked (g p)) ps)" and ?u = "\<lambda>t. strings_Replace t ''.download'' [] 1"
  let ?m1 = "fold (put_file (\<lambda>p. marked (g p)) m) ps l"
  have u: "?u (marked (g p)) = g p" if "p \<in> set ps" for p using unmark_name assms(1) that by blast
  have i: "inj_on (\<lambda>p. marked (g p)) (set ps)" "distinct ps" "inj_on g (set ps)" using assms(2) by (auto simp: distinct_map inj_on_def)
  note put = fold_put [OF i(1,2), of _ m l]
  have ts: "set ?ts = (\<lambda>p. marked (g p)) ` set ps" "?u ` set ?ts = g ` set ps" using u by (auto simp: image_image)
  have "distinct ?ts" using i(1,2) by (simp add: distinct_map)
  moreover have "inj_on ?u (set ?ts)" using u i(3) by (auto simp: ts(1) inj_on_def)
  moreover have "g p \<noteq> marked (g q)" if "p \<in> set ps" for p q using assms(1) [OF that] marked_contains [of "g q"] by metis
  then have "g ` set ps \<inter> (\<lambda>p. marked (g p)) ` set ps = {}" by (auto simp: disjoint_iff image_iff)
  then have "?u ` set ?ts \<inter> set ?ts = {}" unfolding ts(2) unfolding ts(1) .
  moreover have "\<forall>t \<in> set ?ts. ?m1 t \<noteq> None" using put assms(1) by (auto simp: ts(1))
  ultimately have f: "(t \<in> set ?ts \<longrightarrow> m' (?u t) = ?m1 t \<and> m' t = None) \<and> (q \<notin> set ?ts \<union> ?u ` set ?ts \<longrightarrow> m' q = ?m1 q)" for t
    unfolding assms(3) by (rule fold_unmark)
  show ?thesis using f [of "marked (g p)"] put [of p q] put [of p "marked (g p)"] u [of p] unfolding ts(2) unfolding ts(1) by auto
qed


lemma demo_stores: "remote_laws demo_api dw_remote dw_local (\<lambda>r. r)" "local_laws demo_api dw_remote dw_local UNIV" "copy_law demo_api dw_remote dw_local (\<lambda>r. r) UNIV"
  by (auto simp: remote_laws_def local_laws_def copy_law_def demo_api_def isDirFileExist_def os_IsNotExist_def the_error_def split: option.split)


end
