(* ===== verification/Go_Json.thy ===== *)
theory Go_Json
  imports Glob_Laws
begin

text \<open>
  The part of \<^verbatim>\<open>encoding/json\<close> that the service uses: \<^verbatim>\<open>json.Marshal\<close> of structs whose fields are strings (of Go 1.14, the version the module asks
  for; characters that mean something in HTML are escaped). To say what a receiver makes of the text there is a reader of such objects. Strings are lists of bytes; what is not UTF-8 is
  replaced, as the encoder does.
\<close>

subsection \<open>The encoder\<close>

abbreviation quote_mark :: char where "quote_mark \<equiv> CHR 0x22"

text \<open>The bytes below 128 that need no escape: the table \<^verbatim>\<open>htmlSafeSet\<close>.\<close>

definition htmlSafe :: "char \<Rightarrow> bool" where
  "htmlSafe c = (32 \<le> (of_char c :: nat) \<and> c \<noteq> quote_mark \<and> c \<noteq> CHR ''&'' \<and> c \<noteq> CHR ''<'' \<and> c \<noteq> CHR ''>'' \<and> c \<noteq> backslash)"

definition esc_ascii :: "char \<Rightarrow> string" where
  "esc_ascii c =
     (if htmlSafe c then [c]
      else if c = backslash \<or> c = quote_mark then [backslash, c]
      else if c = CHR 0x0A then [backslash, CHR ''n'']
      else if c = CHR 0x0D then [backslash, CHR ''r'']
      else if c = CHR 0x09 then [backslash, CHR ''t'']
      else [backslash, CHR ''u'', CHR ''0'', CHR ''0'', hex_digit (of_char c div 16), hex_digit (of_char c mod 16)])"

lemma DecodeRune_nonempty: "DecodeRuneInString (c # cs) = (r, n) \<Longrightarrow> 0 < n"
  using DecodeRune_width [of "c # cs"] by simp

text \<open>The loop of \<^verbatim>\<open>encodeState.string\<close>.\<close>

function json_escape :: "string \<Rightarrow> string" where
  "json_escape [] = []"
| "json_escape (c # cs) =
     (if (of_char c :: nat) < 128 then esc_ascii c @ json_escape cs
      else case DecodeRuneInString (c # cs) of
             (r, n) \<Rightarrow>
               (if r = RuneError \<and> n = 1 then backslash # ''ufffd'' @ json_escape cs
                else if r = 0x2028 \<or> r = 0x2029 then backslash # ''u202'' @ [hex_digit (r mod 16)] @ json_escape (drop n (c # cs))
                else take n (c # cs) @ json_escape (drop n (c # cs))))"
  by pat_completeness auto
termination
  by (relation "measure length") (auto dest!: DecodeRune_nonempty [OF sym])

declare json_escape.simps(2) [simp del]

definition json_string :: "string \<Rightarrow> string" where
  "json_string s = quote_mark # json_escape s @ [quote_mark]"

fun json_members :: "(string \<times> string) list \<Rightarrow> string" where
  "json_members [] = []"
| "json_members [(k, v)] = json_string k @ '':'' @ json_string v"
| "json_members ((k, v) # ms) = json_string k @ '':'' @ json_string v @ '','' @ json_members ms"

definition json_object :: "(string \<times> string) list \<Rightarrow> string" where
  "json_object ms = ''{'' @ json_members ms @ ''}''"

subsection \<open>A reader of such objects\<close>

definition hex_value :: "char \<Rightarrow> nat option" where
  "hex_value c =
     (let n = of_char c in if 48 \<le> n \<and> n \<le> 57 then Some (n - 48) else if 97 \<le> n \<and> n \<le> 102 then Some (n - 87) else if 65 \<le> n \<and> n \<le> 70 then Some (n - 55) else None)"

text \<open>The UTF-8 form of a rune of the basic plane.\<close>

definition rune_bytes :: "nat \<Rightarrow> string" where
  "rune_bytes r =
     (if r < 128 then [char_of r]
      else if r < 2048 then [char_of (192 + r div 64), char_of (128 + r mod 64)]
      else [char_of (224 + r div 4096), char_of (128 + r div 64 mod 64), char_of (128 + r mod 64)])"

definition unescape :: "string \<Rightarrow> (string \<times> string) option" where
  "unescape s =
     (case s of
        [] \<Rightarrow> None
      | e # cs \<Rightarrow>
          if e = quote_mark \<or> e = backslash \<or> e = CHR ''/'' then Some ([e], cs)
          else if e = CHR ''n'' then Some ([CHR 0x0A], cs)
          else if e = CHR ''r'' then Some ([CHR 0x0D], cs)
          else if e = CHR ''t'' then Some ([CHR 0x09], cs)
          else if e = CHR ''b'' then Some ([CHR 0x08], cs)
          else if e = CHR ''f'' then Some ([CHR 0x0C], cs)
          else if e = CHR ''u'' then
            (case cs of
               a # b # c # d # cs' \<Rightarrow>
                 (case (hex_value a, hex_value b, hex_value c, hex_value d) of
                    (Some i, Some j, Some k, Some l) \<Rightarrow> Some (rune_bytes (i * 4096 + j * 256 + k * 16 + l), cs')
                  | _ \<Rightarrow> None)
             | _ \<Rightarrow> None)
          else None)"

lemma unescape_shorter: "unescape s = Some (x, t) \<Longrightarrow> length t < length s"
  by (auto simp: unescape_def split: list.splits if_splits option.splits)

text \<open>The text up to the closing quotation mark, decoded, and what follows it. Control characters are not allowed.\<close>

function json_chars :: "string \<Rightarrow> (string \<times> string) option" where
  "json_chars [] = None"
| "json_chars (c # cs) =
     (if c = quote_mark then Some ([], cs)
      else if c = backslash then
        (case unescape cs of
           None \<Rightarrow> None
         | Some (x, cs') \<Rightarrow> (case json_chars cs' of None \<Rightarrow> None | Some (y, t) \<Rightarrow> Some (x @ y, t)))
      else if (of_char c :: nat) < 32 then None
      else (case json_chars cs of None \<Rightarrow> None | Some (y, t) \<Rightarrow> Some (c # y, t)))"
  by pat_completeness auto
termination
  by (relation "measure length") (auto dest: unescape_shorter)

declare json_chars.simps(2) [simp del]

definition read_string :: "string \<Rightarrow> (string \<times> string) option" where
  "read_string s = (case s of c # cs \<Rightarrow> if c = quote_mark then json_chars cs else None | [] \<Rightarrow> None)"

definition read_pair :: "string \<Rightarrow> ((string \<times> string) \<times> string) option" where
  "read_pair s =
     (case read_string s of
        Some (k, c # t) \<Rightarrow> if c = CHR '':'' then (case read_string t of Some (v, u) \<Rightarrow> Some ((k, v), u) | None \<Rightarrow> None) else None
      | _ \<Rightarrow> None)"

lemma json_chars_shorter: "json_chars s = Some (x, t) \<Longrightarrow> length t < length s"
proof (induction s arbitrary: x rule: json_chars.induct)
  case (2 c cs)
  then show ?case by (fastforce simp: json_chars.simps(2) dest: unescape_shorter split: if_splits option.splits)
qed simp

lemma read_string_shorter: "read_string s = Some (x, t) \<Longrightarrow> length t < length s"
  by (auto simp: read_string_def dest: json_chars_shorter split: list.splits if_splits)

lemma read_pair_shorter: "read_pair s = Some (p, t) \<Longrightarrow> length t < length s"
  by (auto simp: read_pair_def dest!: read_string_shorter split: option.splits list.splits if_splits prod.splits)

function read_members :: "string \<Rightarrow> ((string \<times> string) list \<times> string) option" where
  "read_members s =
     (case read_pair s of
        Some (p, c # t) \<Rightarrow>
          if c = CHR '','' then (case read_members t of Some (ps, u) \<Rightarrow> Some (p # ps, u) | None \<Rightarrow> None)
          else if c = CHR ''}'' then Some ([p], t)
          else None
      | _ \<Rightarrow> None)"
  by pat_completeness auto
termination
  by (relation "measure length") (auto dest: read_pair_shorter)

declare read_members.simps [simp del]

definition read_object :: "string \<Rightarrow> (string \<times> string) list option" where
  "read_object s =
     (case s of c # cs \<Rightarrow> if c = CHR ''{'' then (case read_members cs of Some (ps, []) \<Rightarrow> Some ps | _ \<Rightarrow> None) else None | [] \<Rightarrow> None)"

subsection \<open>What is read back\<close>

text \<open>A string with every byte that is not part of a rune replaced by the replacement character.\<close>

function to_valid :: "string \<Rightarrow> string" where
  "to_valid [] = []"
| "to_valid (c # cs) =
     (case DecodeRuneInString (c # cs) of
        (r, n) \<Rightarrow> if r = RuneError \<and> n = 1 then rune_bytes RuneError @ to_valid cs else take n (c # cs) @ to_valid (drop n (c # cs)))"
  by pat_completeness auto
termination
  by (relation "measure length") (auto dest!: DecodeRune_nonempty [OF sym])

declare to_valid.simps(2) [simp del]

definition prepend :: "string \<Rightarrow> (string \<times> string) option \<Rightarrow> (string \<times> string) option" where
  "prepend x r = (case r of None \<Rightarrow> None | Some (y, t) \<Rightarrow> Some (x @ y, t))"

lemma prepend_simps [simp]: "prepend x (Some (y, t)) = Some (x @ y, t)" "prepend x None = None"
  by (simp_all add: prepend_def)

lemma hex_value_digit: "n < 16 \<Longrightarrow> hex_value (hex_digit n) = Some n"
  by (simp add: hex_value_def hex_digit_def Let_def)

lemma json_chars_plain_char:
  "c \<noteq> quote_mark \<Longrightarrow> c \<noteq> backslash \<Longrightarrow> 32 \<le> (of_char c :: nat) \<Longrightarrow> json_chars (c # s) = prepend [c] (json_chars s)"
  by (simp add: json_chars.simps(2) prepend_def split: option.split)

lemma high_char: "128 \<le> (of_char c :: nat) \<Longrightarrow> c \<noteq> quote_mark \<and> c \<noteq> backslash \<and> 32 \<le> (of_char c :: nat)"
  by auto

lemma json_chars_high: "\<forall>c \<in> set xs. 128 \<le> (of_char c :: nat) \<Longrightarrow> json_chars (xs @ s) = prepend xs (json_chars s)"
proof (induction xs)
  case (Cons c xs)
  then have "json_chars ((c # xs) @ s) = prepend [c] (prepend xs (json_chars s))" using high_char [of c] by (simp add: json_chars_plain_char)
  then show ?case by (cases "json_chars s") auto
qed (cases "json_chars s", auto)

lemma json_chars_escape: "unescape cs = Some (x, s) \<Longrightarrow> json_chars (backslash # cs) = prepend x (json_chars s)"
  by (simp add: json_chars.simps(2) prepend_def)

lemma unescape_u:
  "i < 16 \<Longrightarrow> j < 16 \<Longrightarrow> k < 16 \<Longrightarrow> l < 16 \<Longrightarrow>
   unescape (CHR ''u'' # hex_digit i # hex_digit j # hex_digit k # hex_digit l # s) = Some (rune_bytes (i * 4096 + j * 256 + k * 16 + l), s)"
  by (simp add: unescape_def hex_value_digit)

lemma hex_digit_consts: "hex_digit 0 = CHR ''0''" "hex_digit 2 = CHR ''2''" "hex_digit 13 = CHR ''d''" "hex_digit 15 = CHR ''f''"
  by code_simp+

lemma json_chars_ascii:
  assumes "(of_char c :: nat) < 128"
  shows "json_chars (esc_ascii c @ s) = prepend [c] (json_chars s)"
proof -
  have b: "rune_bytes (of_char c div 16 * 16 + of_char c mod 16) = [c]" using assms by (simp add: rune_bytes_def)
  have u: "unescape (CHR ''u'' # CHR ''0'' # CHR ''0'' # hex_digit (of_char c div 16) # hex_digit (of_char c mod 16) # s) = Some ([c], s)"
    using unescape_u [of 0 0 "of_char c div 16" "of_char c mod 16" s] assms b by (simp add: hex_digit_consts)
  show ?thesis
    using json_chars_escape [OF u] json_chars_plain_char [of c s]
    by (simp add: esc_ascii_def htmlSafe_def json_chars_escape unescape_def)
qed

lemma three_bytes:
  fixes b c1 c2 r :: nat
  assumes "224 \<le> b" "128 \<le> c1" "c1 \<le> 191" "128 \<le> c2" "c2 \<le> 191" "r = (b - 224) * 4096 + (c1 - 128) * 64 + (c2 - 128)"
  shows "b = 224 + r div 4096" "c1 = 128 + r div 64 mod 64" "c2 = 128 + r mod 64"
proof -
  obtain x y z where x: "b = 224 + x" "c1 = 128 + y" "c2 = 128 + z" using assms by (metis le_iff_add)
  have y: "y < 64" "z < 64" "r = z + 64 * (y + 64 * x)" using assms x by auto
  have d: "r div 64 = y + 64 * x" "r mod 64 = z" unfolding y(3) using y(2) by (simp_all only: div_mult_self2 mod_mult_self2 div_less mod_less)
  have "r div 4096 = r div 64 div 64" by (simp flip: div_mult2_eq)
  also have "\<dots> = x" using y(1) unfolding d(1) by simp
  finally show "b = 224 + r div 4096" using x by simp
  show "c1 = 128 + r div 64 mod 64" using y(1) x unfolding d(1) by simp
  show "c2 = 128 + r mod 64" using x d(2) by simp
qed

text \<open>The two line separators of Unicode are written as escapes.\<close>

lemma separator_bytes:
  assumes "DecodeRuneInString s = (r, n)" and "s \<noteq> []" and "r = 0x2028 \<or> r = 0x2029"
  shows "take n s = rune_bytes r"
proof -
  obtain c cs where s: "s = c # cs" using assms(2) by (cases s) auto
  have r: "r = 8232 \<or> r = 8233" using assms(3) by simp
  have i: "is_cont 128 191 d \<Longrightarrow> 128 \<le> (of_char d :: nat) \<and> of_char d \<le> (191 :: nat)" for d by (simp add: is_cont_def)
  let ?b = "of_char c :: nat"
  consider (a) "?b < 128" | (b) "194 \<le> ?b" "?b \<le> 223" | (c) "224 \<le> ?b" "?b \<le> 239" | (d) "240 \<le> ?b" "?b \<le> 244" | (e) "128 \<le> ?b" "?b < 194 \<or> 244 < ?b"
    by linarith
  then show ?thesis
  proof cases
    case a
    then show ?thesis using assms(1) r s by (auto simp: DecodeRune_range(1))
  next
    case b
    then obtain c1 cs' where "cs = c1 # cs'" "second_ok c c1" "r = (?b - 192) * 64 + (of_char c1 - 128)"
      using assms(1) r s by (auto simp: DecodeRune_range(2) split: list.splits if_splits)
    moreover have "of_char c1 \<le> (191 :: nat)" using \<open>second_ok c c1\<close> by (auto simp: is_cont_def second_range_def split: if_splits)
    ultimately show ?thesis using b r by linarith
  next
    case c
    then obtain c1 c2 cs' where x: "cs = c1 # c2 # cs'" "second_ok c c1" "is_cont 128 191 c2" "n = 3"
        "r = (?b - 224) * 4096 + (of_char c1 - 128) * 64 + (of_char c2 - 128)"
      using assms(1) r s by (auto simp: DecodeRune_range(3) split: list.splits if_splits)
    have c1: "128 \<le> (of_char c1 :: nat)" "of_char c1 \<le> (191 :: nat)" using x(2) by (auto simp: is_cont_def second_range_def split: if_splits)
    note c2 = i [OF x(3)]
    have b: "?b = 224 + r div 4096" "(of_char c1 :: nat) = 128 + r div 64 mod 64" "(of_char c2 :: nat) = 128 + r mod 64"
      using three_bytes [OF c(1) c1 conjunct1 [OF c2] conjunct2 [OF c2] x(5)] by simp_all
    have "c = char_of ?b" "c1 = char_of (of_char c1 :: nat)" "c2 = char_of (of_char c2 :: nat)" by simp_all
    then show ?thesis using r x(1,4) s unfolding b by (auto simp: rune_bytes_def)
  next
    case d
    then obtain c1 c2 c3 cs' where x: "second_ok c c1" "r = (?b - 240) * 262144 + (of_char c1 - 128) * 4096 + (of_char c2 - 128) * 64 + (of_char c3 - 128)"
      using assms(1) r s by (auto simp: DecodeRune_range(4) split: list.splits if_splits)
    have "?b = 240 \<Longrightarrow> 144 \<le> (of_char c1 :: nat)" using x(1) by (auto simp: is_cont_def second_range_def)
    then show ?thesis using d r x(2) by (cases "?b = 240") auto
  next
    case e
    then show ?thesis using assms(1) r s by (auto simp: DecodeRune_range(5))
  qed
qed

lemma json_escape_read: "json_chars (json_escape s @ quote_mark # t) = Some (to_valid s, t)"
proof (induction s rule: json_escape.induct)
  case 1
  then show ?case by (simp add: json_chars.simps(2))
next
  case (2 c cs)
  obtain r n where d: "DecodeRuneInString (c # cs) = (r, n)" by fastforce
  show ?case
  proof (cases "(of_char c :: nat) < 128")
    case True
    then have "r = of_char c" "n = 1" using d by (auto simp: DecodeRune_range(1))
    then show ?thesis using 2(1) True d json_chars_ascii [OF True] by (simp add: json_escape.simps(2) to_valid.simps(2))
  next
    case high: False
    consider (bad) "r = RuneError \<and> n = 1" | (sep) "r = 0x2028 \<or> r = 0x2029" | (ok) "\<not> (r = RuneError \<and> n = 1)" "\<not> (r = 0x2028 \<or> r = 0x2029)" by blast
    then show ?thesis
    proof cases
      case bad
      have u: "unescape (''ufffd'' @ s) = Some (rune_bytes RuneError, s)" for s
        using unescape_u [of 15 15 15 13 s] by (simp add: hex_digit_consts)
      then show ?thesis using 2(2) [OF high d [symmetric] bad] bad high d json_chars_escape [OF u]
        by (simp add: json_escape.simps(2) to_valid.simps(2))
    next
      case sep
      have m: "r mod 16 < 16" "2 * 4096 + 0 * 256 + 2 * 16 + r mod 16 = r" using sep by auto
      have u: "unescape (''u202'' @ hex_digit (r mod 16) # s) = Some (rune_bytes r, s)" for s
        using unescape_u [of 2 0 2 "r mod 16" s] m by (simp add: hex_digit_consts)
      have nb: "\<not> (r = RuneError \<and> n = 1)" using sep by auto
      have e: "json_escape (c # cs) = backslash # ''u202'' @ [hex_digit (r mod 16)] @ json_escape (drop n (c # cs))"
        "to_valid (c # cs) = take n (c # cs) @ to_valid (drop n (c # cs))"
        using nb sep high d by (auto simp: json_escape.simps(2) to_valid.simps(2))
      show ?thesis unfolding e using 2(3) [OF high d [symmetric] nb sep] json_chars_escape [OF u] separator_bytes [OF d _ sep] by simp
    next
      case ok
      then have "\<forall>x \<in> set (take n (c # cs)). 128 \<le> (of_char x :: nat)" using DecodeRune_local [OF d _ ok(1), of "[]"] high by (cases "n = 1") auto
      note h = json_chars_high [OF this]
      have e: "json_escape (c # cs) = take n (c # cs) @ json_escape (drop n (c # cs))" "to_valid (c # cs) = take n (c # cs) @ to_valid (drop n (c # cs))"
        using ok high d by (auto simp: json_escape.simps(2) to_valid.simps(2))
      show ?thesis unfolding e using 2(4) [OF high d [symmetric] ok] h by simp
    qed
  qed
qed

lemma read_json_string: "read_string (json_string s @ t) = Some (to_valid s, t)"
  using json_escape_read [of s t] by (simp add: read_string_def json_string_def)

lemma read_json_pair: "read_pair (json_string k @ '':'' @ json_string v @ t) = Some ((to_valid k, to_valid v), t)"
  using read_json_string [of k "'':'' @ json_string v @ t"] read_json_string [of v t] by (simp add: read_pair_def)

lemma read_json_members: "ms \<noteq> [] \<Longrightarrow> read_members (json_members ms @ ''}'' @ t) = Some (map (\<lambda>(k, v). (to_valid k, to_valid v)) ms, t)"
proof (induction ms rule: json_members.induct)
  case (2 k v)
  then show ?case using read_json_pair [of k v "''}'' @ t"] by (simp add: read_members.simps)
next
  case (3 k v m ms)
  then show ?case using read_json_pair [of k v "'','' @ json_members (m # ms) @ ''}'' @ t"] by (subst read_members.simps) simp
qed simp

text \<open>What a receiver reads is what was written, up to bytes that are not UTF-8.\<close>

lemma read_json_object: "ms \<noteq> [] \<Longrightarrow> read_object (json_object ms) = Some (map (\<lambda>(k, v). (to_valid k, to_valid v)) ms)"
  using read_json_members [of ms "[]"] by (simp add: read_object_def json_object_def)

lemma to_valid_ascii: "\<forall>c \<in> set s. (of_char c :: nat) < 128 \<Longrightarrow> to_valid s = s"
  by (induction s) (simp_all add: to_valid.simps(2) DecodeRune_range(1))

subsection \<open>No control characters\<close>

definition no_control :: "string \<Rightarrow> bool" where
  "no_control s = list_all (\<lambda>c. 32 \<le> (of_char c :: nat)) s"

lemma no_control_simps [simp]: "no_control []" "no_control (c # s) \<longleftrightarrow> 32 \<le> (of_char c :: nat) \<and> no_control s" "no_control (s @ t) \<longleftrightarrow> no_control s \<and> no_control t"
  by (simp_all add: no_control_def)

lemma hex_digit_printable: "n < 16 \<Longrightarrow> 32 \<le> (of_char (hex_digit n) :: nat)"
  by (simp add: hex_digit_def)

lemma no_control_ascii: "(of_char c :: nat) < 128 \<Longrightarrow> no_control (esc_ascii c)"
  by (simp add: esc_ascii_def htmlSafe_def hex_digit_printable)

lemma no_control_escape: "no_control (json_escape s)"
proof (induction s rule: json_escape.induct)
  case (2 c cs)
  obtain r n where d: "DecodeRuneInString (c # cs) = (r, n)" by fastforce
  show ?case
  proof (cases "(of_char c :: nat) < 128")
    case True
    then show ?thesis using 2(1) no_control_ascii by (simp add: json_escape.simps(2))
  next
    case high: False
    have "no_control (take n (c # cs))" if "\<not> (r = RuneError \<and> n = 1)"
    proof -
      have "\<forall>x \<in> set (take n (c # cs)). 128 \<le> (of_char x :: nat)" using DecodeRune_local [OF d _ that, of "[]"] high by (cases "n = 1") auto
      then show ?thesis by (fastforce simp: no_control_def list_all_iff)
    qed
    then show ?thesis using 2(2-4) [OF high d [symmetric]] high d by (simp add: json_escape.simps(2) hex_digit_printable)
  qed
qed simp

lemma no_control_object: "no_control (json_object ms)"
proof -
  have "no_control (json_members ms)" by (induction ms rule: json_members.induct) (simp_all add: json_string_def no_control_escape)
  then show ?thesis by (simp add: json_object_def)
qed

end
