(* ===== verification/Log_Client.thy ===== *)
theory Log_Client
  imports Go_Json
begin

text \<open>
  The logging of the service (src/logc): the client that hands a message to every sink (logclient.go), the sink that writes to the standard output
  (stdLogClient.go) and the one that writes to two rolling files (rollingFileLogClient.go). What the loggers have written is a list of writers and texts in order. The clock is a
  parameter: the formatted time at which the n-th line is made. Format strings are split at their verbs; \<open>quote\<close> is what the verb \<^verbatim>\<open>%q\<close>
  prints, which depends on the tables of Unicode.
\<close>

subsection \<open>Formatting\<close>

datatype fmt_arg = AStr string | AInt int | ABool bool | AArgs "fmt_arg list"

datatype verb = VS | VD | VV | VQ

datatype piece = Lit_text string | Verb verb

type_synonym template = "piece list"

definition verb_char :: "verb \<Rightarrow> char" where
  "verb_char v = (case v of VS \<Rightarrow> CHR ''s'' | VD \<Rightarrow> CHR ''d'' | VV \<Rightarrow> CHR ''v'' | VQ \<Rightarrow> CHR ''q'')"

definition type_name :: "fmt_arg \<Rightarrow> string" where
  "type_name a = (case a of AStr _ \<Rightarrow> ''string'' | AInt _ \<Rightarrow> ''int'' | ABool _ \<Rightarrow> ''bool'' | AArgs _ \<Rightarrow> ''[]interface {}'')"

text \<open>The verb \<^verbatim>\<open>%v\<close>.\<close>

fun print_value :: "fmt_arg \<Rightarrow> string" where
  "print_value (AStr s) = s"
| "print_value (AInt i) = Itoa i"
| "print_value (ABool b) = (if b then ''true'' else ''false'')"
| "print_value (AArgs xs) = ''['' @ join_with '' '' (map print_value xs) @ '']''"

definition badVerb :: "verb \<Rightarrow> fmt_arg \<Rightarrow> string" where
  "badVerb v a = ''%!'' @ [verb_char v] @ ''('' @ type_name a @ ''='' @ print_value a @ '')''"

fun printArg :: "(fmt_arg \<Rightarrow> string) \<Rightarrow> verb \<Rightarrow> fmt_arg \<Rightarrow> string" where
  "printArg quote VV a = print_value a"
| "printArg quote v (AArgs xs) = ''['' @ join_with '' '' (map (printArg quote v) xs) @ '']''"
| "printArg quote VS (AStr s) = s"
| "printArg quote VD (AInt i) = Itoa i"
| "printArg quote VQ a = quote a"
| "printArg quote v a = badVerb v a"

text \<open>\<^verbatim>\<open>fmt.Sprintf\<close>: a verb without an argument is reported in the text, and so are arguments that are left over.\<close>

fun Sprintf :: "(fmt_arg \<Rightarrow> string) \<Rightarrow> template \<Rightarrow> fmt_arg list \<Rightarrow> string" where
  "Sprintf quote [] args = (if args = [] then [] else ''%!(EXTRA '' @ join_with '', '' (map (\<lambda>a. type_name a @ ''='' @ print_value a) args) @ '')'')"
| "Sprintf quote (Lit_text t # ps) args = t @ Sprintf quote ps args"
| "Sprintf quote (Verb v # ps) [] = ''%!'' @ [verb_char v] @ ''(MISSING)'' @ Sprintf quote ps []"
| "Sprintf quote (Verb v # ps) (a # args) = printArg quote v a @ Sprintf quote ps args"

subsection \<open>Sinks\<close>

datatype log_writer = Stdout | LogFile string

type_synonym log_out = "(log_writer \<times> string) list"

text \<open>\<^verbatim>\<open>log.Logger.Println\<close> of a logger without prefix and flags.\<close>

definition Println :: "log_writer \<Rightarrow> string \<Rightarrow> log_out \<Rightarrow> log_out" where
  "Println lw msg out = out @ [(lw, msg @ [CHR 0x0A])]"

record StdLogClient =
  stdoutWriter :: log_writer
  stderrWriter :: log_writer

definition NewStdLogClient :: StdLogClient where
  "NewStdLogClient = \<lparr>stdoutWriter = Stdout, stderrWriter = Stdout\<rparr>"

record RollingFileLogClient =
  logPath :: string
  errorWriter :: "log_writer option"
  infoWriter :: "log_writer option"

definition NewRollingFileLogClient :: "string \<Rightarrow> RollingFileLogClient" where
  "NewRollingFileLogClient path =
     (let infoFileName = ''ssftp-info.log''; errorFileName = ''ssftp-error.log''
      in if path = [] then \<lparr>logPath = [], errorWriter = None, infoWriter = None\<rparr>
         else \<lparr>logPath = path, errorWriter = Some (LogFile (Join [path, errorFileName])), infoWriter = Some (LogFile (Join [path, infoFileName]))\<rparr>)"

datatype LogSink = StdSink StdLogClient | FileSink RollingFileLogClient

text \<open>The two methods of a sink; \<open>None\<close> is the panic of a nil logger.\<close>

definition sink_Info :: "LogSink \<Rightarrow> string \<Rightarrow> log_out \<Rightarrow> log_out option" where
  "sink_Info s msg out =
     (case s of
        StdSink stdl \<Rightarrow> Some (Println (stdoutWriter stdl) msg out)
      | FileSink rfc \<Rightarrow> map_option (\<lambda>lw. Println lw msg out) (infoWriter rfc))"

definition sink_Err :: "LogSink \<Rightarrow> go_error \<Rightarrow> log_out \<Rightarrow> log_out option" where
  "sink_Err s err out =
     (case s of
        StdSink stdl \<Rightarrow> Some (Println (stderrWriter stdl) (err_Error err) out)
      | FileSink rfc \<Rightarrow> map_option (\<lambda>lw. Println lw (err_Error err) out) (errorWriter rfc))"

subsection \<open>The client\<close>

record LogConfig =
  FlatFileLogPath :: string

record LogClient =
  logConfig :: "LogConfig option"
  logsinks :: "LogSink list"

definition NewBasicStdoutLogClient :: LogClient where
  "NewBasicStdoutLogClient = \<lparr>logConfig = None, logsinks = [StdSink NewStdLogClient]\<rparr>"

definition InitLogDests :: "LogConfig \<Rightarrow> LogClient \<Rightarrow> LogClient" where
  "InitLogDests cfg lc =
     (let lc = lc\<lparr>logConfig := Some cfg\<rparr>
      in if FlatFileLogPath cfg \<noteq> [] then lc\<lparr>logsinks := logsinks lc @ [FileSink (NewRollingFileLogClient (FlatFileLogPath cfg))]\<rparr> else lc)"

text \<open>The value given to \<^verbatim>\<open>createLogMessage\<close>, a string or an error, and the record made of it.\<close>

datatype log_value = LString string | LError go_error

definition createLogMessage :: "string \<Rightarrow> log_value \<Rightarrow> string" where
  "createLogMessage timegen val =
     (case val of
        LString w \<Rightarrow> json_object [(''TimeGenerated'', timegen), (''Category'', ''Info''), (''Message'', w)]
      | LError e \<Rightarrow> json_object [(''TimeGenerated'', timegen), (''Category'', ''Error''), (''Message'', err_Error e)])"

fun info_loop :: "(nat \<Rightarrow> string) \<Rightarrow> LogSink list \<Rightarrow> string \<Rightarrow> log_out \<Rightarrow> log_out option" where
  "info_loop clock [] msg out = Some out"
| "info_loop clock (v # vs) msg out =
     (case sink_Info v (createLogMessage (clock (length out)) (LString msg)) out of
        None \<Rightarrow> None
      | Some out \<Rightarrow> info_loop clock vs msg out)"

fun err_loop :: "(nat \<Rightarrow> string) \<Rightarrow> LogSink list \<Rightarrow> go_error \<Rightarrow> log_out \<Rightarrow> log_out option" where
  "err_loop clock [] err out = Some out"
| "err_loop clock (v # vs) err out =
     (case sink_Err v (ErrText (createLogMessage (clock (length out)) (LError err))) out of
        None \<Rightarrow> None
      | Some out \<Rightarrow> err_loop clock vs err out)"

definition logInfoToSinks :: "(nat \<Rightarrow> string) \<Rightarrow> LogClient \<Rightarrow> string \<Rightarrow> log_out \<Rightarrow> log_out option" where
  "logInfoToSinks clock lc msg out = info_loop clock (logsinks lc) msg out"

definition logErrToSinks :: "(nat \<Rightarrow> string) \<Rightarrow> LogClient \<Rightarrow> go_error \<Rightarrow> log_out \<Rightarrow> log_out option" where
  "logErrToSinks clock lc err out = err_loop clock (logsinks lc) err out"

text \<open>The calls of the client. The functions named \<^verbatim>\<open>ErrIf...\<close> log only if there is an error, and say whether there was one.\<close>

definition lc_Info :: "(nat \<Rightarrow> string) \<Rightarrow> LogClient \<Rightarrow> string \<Rightarrow> log_out \<Rightarrow> log_out option" where
  "lc_Info clock lc msg out = logInfoToSinks clock lc msg out"

definition Infof :: "(nat \<Rightarrow> string) \<Rightarrow> (fmt_arg \<Rightarrow> string) \<Rightarrow> LogClient \<Rightarrow> template \<Rightarrow> fmt_arg list \<Rightarrow> log_out \<Rightarrow> log_out option" where
  "Infof clock quote lc msgTemplate args out = logInfoToSinks clock lc (Sprintf quote msgTemplate args) out"

definition ErrIf :: "(nat \<Rightarrow> string) \<Rightarrow> LogClient \<Rightarrow> go_error option \<Rightarrow> log_out \<Rightarrow> (bool \<times> log_out) option" where
  "ErrIf clock lc err out =
     (case err of Some e \<Rightarrow> map_option (\<lambda>out. (True, out)) (logErrToSinks clock lc e out) | None \<Rightarrow> Some (False, out))"

definition ErrIfm :: "(nat \<Rightarrow> string) \<Rightarrow> (fmt_arg \<Rightarrow> string) \<Rightarrow> LogClient \<Rightarrow> template \<Rightarrow> go_error option \<Rightarrow> log_out \<Rightarrow> (bool \<times> log_out) option" where
  "ErrIfm clock quote lc msg err out =
     (case err of
        Some e \<Rightarrow> map_option (\<lambda>out. (True, out)) (logErrToSinks clock lc (ErrText (Sprintf quote msg [AStr (err_Error e)])) out)
      | None \<Rightarrow> Some (False, out))"

definition Errmfo :: "(nat \<Rightarrow> string) \<Rightarrow> (fmt_arg \<Rightarrow> string) \<Rightarrow> LogClient \<Rightarrow> template \<Rightarrow> fmt_arg list \<Rightarrow> log_out \<Rightarrow> log_out option" where
  "Errmfo clock quote lc msgTemplate args out = logErrToSinks clock lc (ErrText (Sprintf quote msgTemplate [AArgs args])) out"

definition ErrIffmsg :: "(nat \<Rightarrow> string) \<Rightarrow> (fmt_arg \<Rightarrow> string) \<Rightarrow> LogClient \<Rightarrow> template \<Rightarrow> go_error option \<Rightarrow> fmt_arg list \<Rightarrow> log_out \<Rightarrow>
    (bool \<times> log_out) option" where
  "ErrIffmsg clock quote lc msgTemplate err args out =
     (case err of
        Some e \<Rightarrow> map_option (\<lambda>out. (True, out))
          (logErrToSinks clock lc (ErrText (Sprintf quote msgTemplate args @ [CHR 0x0A] @ ''Error: '' @ err_Error e)) out)
      | None \<Rightarrow> Some (False, out))"

text \<open>\<^verbatim>\<open>InfoStruct\<close>, with the text that \<^verbatim>\<open>json.Marshal\<close> gives for the value.\<close>

definition InfoStruct :: "(nat \<Rightarrow> string) \<Rightarrow> LogClient \<Rightarrow> string \<Rightarrow> log_out \<Rightarrow> log_out option" where
  "InfoStruct clock lc j out = logInfoToSinks clock lc j out"

subsection \<open>Sequences of calls\<close>

datatype log_call =
    CallInfo string
  | CallInfof template "fmt_arg list"
  | CallInfoStruct string
  | CallErrIf "go_error option"
  | CallErrIfm template "go_error option"
  | CallErrmfo template "fmt_arg list"
  | CallErrIffmsg template "go_error option" "fmt_arg list"

fun log_call_run :: "(nat \<Rightarrow> string) \<Rightarrow> (fmt_arg \<Rightarrow> string) \<Rightarrow> LogClient \<Rightarrow> log_call \<Rightarrow> log_out \<Rightarrow> log_out option" where
  "log_call_run clock quote lc (CallInfo msg) out = lc_Info clock lc msg out"
| "log_call_run clock quote lc (CallInfof t args) out = Infof clock quote lc t args out"
| "log_call_run clock quote lc (CallInfoStruct j) out = InfoStruct clock lc j out"
| "log_call_run clock quote lc (CallErrIf err) out = map_option snd (ErrIf clock lc err out)"
| "log_call_run clock quote lc (CallErrIfm t err) out = map_option snd (ErrIfm clock quote lc t err out)"
| "log_call_run clock quote lc (CallErrmfo t args) out = Errmfo clock quote lc t args out"
| "log_call_run clock quote lc (CallErrIffmsg t err args) out = map_option snd (ErrIffmsg clock quote lc t err args out)"

fun log_run :: "(nat \<Rightarrow> string) \<Rightarrow> (fmt_arg \<Rightarrow> string) \<Rightarrow> LogClient \<Rightarrow> log_call list \<Rightarrow> log_out \<Rightarrow> log_out option" where
  "log_run clock quote lc [] out = Some out"
| "log_run clock quote lc (c # cs) out = (case log_call_run clock quote lc c out of None \<Rightarrow> None | Some out \<Rightarrow> log_run clock quote lc cs out)"

text \<open>What a call has to say: nothing, or a category and a message.\<close>

fun log_event :: "(fmt_arg \<Rightarrow> string) \<Rightarrow> log_call \<Rightarrow> (string \<times> string) list" where
  "log_event quote (CallInfo msg) = [(''Info'', msg)]"
| "log_event quote (CallInfof t args) = [(''Info'', Sprintf quote t args)]"
| "log_event quote (CallInfoStruct j) = [(''Info'', j)]"
| "log_event quote (CallErrIf err) = (case err of None \<Rightarrow> [] | Some e \<Rightarrow> [(''Error'', err_Error e)])"
| "log_event quote (CallErrIfm t err) = (case err of None \<Rightarrow> [] | Some e \<Rightarrow> [(''Error'', Sprintf quote t [AStr (err_Error e)])])"
| "log_event quote (CallErrmfo t args) = [(''Error'', Sprintf quote t [AArgs args])]"
| "log_event quote (CallErrIffmsg t err args) =
     (case err of None \<Rightarrow> [] | Some e \<Rightarrow> [(''Error'', Sprintf quote t args @ [CHR 0x0A] @ ''Error: '' @ err_Error e)])"

text \<open>The text that a writer has got, its lines, and the record in a line.\<close>

definition written_to :: "log_writer \<Rightarrow> log_out \<Rightarrow> string" where
  "written_to lw out = concat (map snd (filter (\<lambda>p. fst p = lw) out))"

definition log_lines :: "string \<Rightarrow> string list" where
  "log_lines s = butlast (split_on (CHR 0x0A) s)"

definition log_record :: "string \<Rightarrow> (string \<times> string) option" where
  "log_record line =
     (case read_object line of
        Some [(a, t), (b, c), (d, m)] \<Rightarrow> if a = ''TimeGenerated'' \<and> b = ''Category'' \<and> d = ''Message'' then Some (c, m) else None
      | _ \<Rightarrow> None)"

subsection \<open>Laws\<close>

lemma written_simps [simp]:
  "written_to lw [] = []"
  "written_to lw (Println lv msg out) = (if lv = lw then written_to lw out @ msg @ [CHR 0x0A] else written_to lw out)"
  by (simp_all add: written_to_def Println_def)

lemma no_control_no_newline: "no_control s \<Longrightarrow> CHR 0x0A \<notin> set s"
  by (auto simp: no_control_def list_all_iff)

lemma split_on_append_delim: "split_on d (a @ d # b) = split_on d a @ split_on d b"
proof (induction a)
  case (Cons c a)
  then show ?case by (cases "split_on d a") auto
qed simp

definition line_ended :: "string \<Rightarrow> bool" where
  "line_ended t = (t = [] \<or> last t = CHR 0x0A)"

lemma log_lines_append:
  assumes "no_control l" and "line_ended t"
  shows "log_lines (t @ l @ [CHR 0x0A]) = log_lines t @ [l]"
proof -
  have l: "split_on (CHR 0x0A) (l @ [CHR 0x0A]) = [l, []]"
    using split_on_append [OF no_control_no_newline [OF assms(1)], of "[]"] by simp
  show ?thesis
  proof (cases t rule: rev_cases)
    case (snoc u d)
    then have d: "t = u @ [CHR 0x0A]" using assms(2) by (simp add: line_ended_def)
    show ?thesis using l split_on_append_delim [of "CHR 0x0A" u "l @ [CHR 0x0A]"] split_on_append_delim [of "CHR 0x0A" u "[]"]
      by (simp add: d log_lines_def butlast_append)
  qed (simp add: l log_lines_def)
qed

lemma record_of_message: "no_control (createLogMessage t v)"
  "log_record (createLogMessage t (LString w)) = Some (''Info'', to_valid w)"
  "log_record (createLogMessage t (LError e)) = Some (''Error'', to_valid (err_Error e))"
proof -
  have c: "to_valid ''TimeGenerated'' = ''TimeGenerated''" "to_valid ''Category'' = ''Category''" "to_valid ''Message'' = ''Message''"
    "to_valid ''Info'' = ''Info''" "to_valid ''Error'' = ''Error''" by (simp_all add: to_valid_ascii)
  show "no_control (createLogMessage t v)" by (cases v) (simp_all add: createLogMessage_def no_control_object)
  show "log_record (createLogMessage t (LString w)) = Some (''Info'', to_valid w)"
    "log_record (createLogMessage t (LError e)) = Some (''Error'', to_valid (err_Error e))"
    by (simp_all add: createLogMessage_def log_record_def read_json_object c)
qed

text \<open>The two files of a rolling log are different ones.\<close>

lemma Join_name_inj:
  assumes "is_elem a" "is_elem b" "a \<noteq> ''..''" "b \<noteq> ''..''" "p \<noteq> []" "Join [p, a] = Join [p, b]"
  shows "a = b"
proof -
  have e: "is_elem n \<Longrightarrow> n \<noteq> ''..'' \<Longrightarrow> clean_elems r (es @ [n]) = clean_elems r es @ [n]" for n r es
    by (auto simp: clean_elems_def clean_step_def is_elem_def)
  let ?r = "IsAbs p" and ?es = "split_on slash p"
  have j: "Join [p, n] = render ?r (clean_elems ?r ?es @ [n])" if "is_elem n" "n \<noteq> ''..''" for n
  proof -
    have "IsAbs (p @ slash # n) = ?r" using assms(5) by (cases p) (simp_all add: IsAbs_def)
    moreover have "split_on slash (p @ slash # n) = ?es @ [n]" using that by (simp add: split_on_slash_append split_on_word is_elem_def)
    ultimately show ?thesis using assms(5) e [OF that] by (simp add: Join_def Clean_def)
  qed
  have n: "normal_elems ?r (clean_elems ?r ?es @ [n])" if "is_elem n" "n \<noteq> ''..''" for n
    using normal_clean_elems [of "?es @ [n]" ?r] split_on_no_delim [of _ slash p] that e [OF that] by (auto simp: is_elem_def)
  have "render ?r (clean_elems ?r ?es @ [a]) = render ?r (clean_elems ?r ?es @ [b])" using assms(6) unfolding j [OF assms(1,3)] j [OF assms(2,4)] .
  then have "clean_elems ?r ?es @ [a] = clean_elems ?r ?es @ [b]"
    using clean_elems_render [OF n [OF assms(1,3)]] clean_elems_render [OF n [OF assms(2,4)]] by metis
  then show ?thesis by simp
qed

lemma log_files_differ: "path \<noteq> [] \<Longrightarrow> Join [path, ''ssftp-info.log''] \<noteq> Join [path, ''ssftp-error.log'']"
  using Join_name_inj [of "''ssftp-info.log''" "''ssftp-error.log''" path] by (auto simp: is_elem_def)

text \<open>A call is one run through the sinks, or nothing.\<close>

lemma err_loop_text: "err_loop clock vs e out = err_loop clock vs (ErrText (err_Error e)) out"
  by (induction vs arbitrary: out) (simp_all add: createLogMessage_def split: option.split)

lemma log_call_event:
  "log_call_run clock quote lc c out =
     (case log_event quote c of
        [] \<Rightarrow> Some out
      | (k, m) # _ \<Rightarrow> if k = ''Info'' then info_loop clock (logsinks lc) m out else err_loop clock (logsinks lc) (ErrText m) out)"
proof (cases c)
  case (CallErrIf err)
  then show ?thesis using err_loop_text [of clock "logsinks lc"] by (cases err) (simp_all add: ErrIf_def logErrToSinks_def option.map_comp comp_def option.map_ident)
qed (simp_all add: lc_Info_def Infof_def InfoStruct_def ErrIfm_def Errmfo_def ErrIffmsg_def logInfoToSinks_def logErrToSinks_def
       option.map_comp comp_def option.map_ident split: option.split)

text \<open>The lines of a writer are the records of these events.\<close>

definition holds_records :: "log_writer \<Rightarrow> (string \<times> string) list \<Rightarrow> log_out \<Rightarrow> bool" where
  "holds_records lw evs out \<longleftrightarrow> line_ended (written_to lw out) \<and>
     map log_record (log_lines (written_to lw out)) = map (\<lambda>(k, m). Some (k, to_valid m)) evs"

lemma holds_none: "holds_records lw [] []"
  by (simp add: holds_records_def line_ended_def log_lines_def)

lemma holds_other: "lv \<noteq> lw \<Longrightarrow> holds_records lw evs (Println lv s out) = holds_records lw evs out"
  by (simp add: holds_records_def)

lemma holds_line:
  assumes "holds_records lw evs out"
  shows "holds_records lw (evs @ [(''Info'', m)]) (Println lw (createLogMessage t (LString m)) out)"
    "holds_records lw (evs @ [(''Error'', err_Error e)]) (Println lw (createLogMessage t (LError e)) out)"
  using assms log_lines_append [OF record_of_message(1)] by (simp_all add: holds_records_def record_of_message line_ended_def)

text \<open>Which of the events a writer gets, if the files are in the directory \<open>path\<close>: the standard output all of them, the two files those of their category.\<close>

definition expected_log :: "string \<Rightarrow> (string \<times> string) list \<Rightarrow> log_writer \<Rightarrow> (string \<times> string) list" where
  "expected_log path evs lw =
     (if lw = Stdout then evs
      else if path \<noteq> [] \<and> lw = LogFile (Join [path, ''ssftp-info.log'']) then filter (\<lambda>e. fst e = ''Info'') evs
      else if path \<noteq> [] \<and> lw = LogFile (Join [path, ''ssftp-error.log'']) then filter (\<lambda>e. fst e = ''Error'') evs
      else [])"

definition service_log :: "LogConfig \<Rightarrow> LogClient" where
  "service_log cfg = InitLogDests cfg NewBasicStdoutLogClient"

lemma expected_Nil [simp]: "expected_log path [] lw = []"
  by (simp add: expected_log_def)

lemma service_log_sinks:
  "logsinks (service_log cfg) = StdSink NewStdLogClient # (if FlatFileLogPath cfg = [] then [] else [FileSink (NewRollingFileLogClient (FlatFileLogPath cfg))])"
  by (simp add: service_log_def InitLogDests_def NewBasicStdoutLogClient_def)

lemma info_logged:
  assumes "\<And>lw. holds_records lw (expected_log (FlatFileLogPath cfg) evs lw) out"
  shows "\<exists>out'. info_loop clock (logsinks (service_log cfg)) m out = Some out' \<and>
    (\<forall>lw. holds_records lw (expected_log (FlatFileLogPath cfg) (evs @ [(''Info'', m)]) lw) out')"
proof -
  let ?p = "FlatFileLogPath cfg"
  let ?out1 = "Println Stdout (createLogMessage (clock (length out)) (LString m)) out"
  let ?out2 = "Println (LogFile (Join [?p, ''ssftp-info.log''])) (createLogMessage (clock (length ?out1)) (LString m)) ?out1"
  show ?thesis
  proof (cases "?p = []")
    case True
    have "holds_records lw (expected_log ?p (evs @ [(''Info'', m)]) lw) ?out1" for lw
      using assms [of lw] holds_line(1) [of Stdout evs out m] by (cases "lw = Stdout") (simp_all add: expected_log_def True holds_other)
    then show ?thesis using True by (simp add: service_log_sinks sink_Info_def NewStdLogClient_def)
  next
    case False
    have "holds_records lw (expected_log ?p (evs @ [(''Info'', m)]) lw) ?out2" for lw
      using assms [of lw] holds_line(1) [of lw _ _ m] False log_files_differ [OF False]
      by (auto simp: expected_log_def holds_other split: if_splits)
    then show ?thesis using False by (simp add: service_log_sinks sink_Info_def NewStdLogClient_def NewRollingFileLogClient_def)
  qed
qed

lemma err_logged:
  assumes "\<And>lw. holds_records lw (expected_log (FlatFileLogPath cfg) evs lw) out"
  shows "\<exists>out'. err_loop clock (logsinks (service_log cfg)) (ErrText m) out = Some out' \<and>
    (\<forall>lw. holds_records lw (expected_log (FlatFileLogPath cfg) (evs @ [(''Error'', m)]) lw) out')"
proof -
  let ?p = "FlatFileLogPath cfg"
  let ?out1 = "Println Stdout (createLogMessage (clock (length out)) (LError (ErrText m))) out"
  let ?out2 = "Println (LogFile (Join [?p, ''ssftp-error.log''])) (createLogMessage (clock (length ?out1)) (LError (ErrText m))) ?out1"
  note line = holds_line(2) [of _ _ _ "ErrText m", simplified]
  show ?thesis
  proof (cases "?p = []")
    case True
    have "holds_records lw (expected_log ?p (evs @ [(''Error'', m)]) lw) ?out1" for lw
      using assms [of lw] line [of Stdout evs out] by (cases "lw = Stdout") (simp_all add: expected_log_def True holds_other)
    then show ?thesis using True by (simp add: service_log_sinks sink_Err_def NewStdLogClient_def)
  next
    case False
    have "holds_records lw (expected_log ?p (evs @ [(''Error'', m)]) lw) ?out2" for lw
      using assms [of lw] line [of lw] False log_files_differ [OF False]
      by (auto simp: expected_log_def holds_other split: if_splits)
    then show ?thesis using False by (simp add: service_log_sinks sink_Err_def NewStdLogClient_def NewRollingFileLogClient_def)
  qed
qed

lemma log_event_cases: "log_event quote c = [] \<or> (\<exists>m. log_event quote c = [(''Info'', m)]) \<or> (\<exists>m. log_event quote c = [(''Error'', m)])"
  by (cases c) (auto split: option.split)

lemma log_run_records:
  assumes "\<And>lw. holds_records lw (expected_log (FlatFileLogPath cfg) evs lw) out"
  shows "\<exists>out'. log_run clock quote (service_log cfg) calls out = Some out' \<and>
    (\<forall>lw. holds_records lw (expected_log (FlatFileLogPath cfg) (evs @ concat (map (log_event quote) calls)) lw) out')"
  using assms
proof (induction calls arbitrary: evs out)
  case (Cons c calls)
  have "\<exists>out1. log_call_run clock quote (service_log cfg) c out = Some out1 \<and>
      (\<forall>lw. holds_records lw (expected_log (FlatFileLogPath cfg) (evs @ log_event quote c) lw) out1)"
    using log_event_cases [of quote c] info_logged [OF Cons.prems] err_logged [OF Cons.prems] Cons.prems
    by (auto simp: log_call_event)
  then obtain out1 where "log_call_run clock quote (service_log cfg) c out = Some out1"
      "\<And>lw. holds_records lw (expected_log (FlatFileLogPath cfg) (evs @ log_event quote c) lw) out1" by blast
  then show ?case using Cons.IH [of "evs @ log_event quote c" out1] by simp
qed auto


text \<open>Most messages given to \<^verbatim>\<open>ErrIfm\<close> have no verb for the error: its text then comes as an extra argument.\<close>

lemma ErrIfm_without_verb: "Sprintf quote [Lit_text msg] [AStr e] = msg @ ''%!(EXTRA string='' @ e @ '')''"
  by (simp add: type_name_def)

end
