(* ===== verification/Virus_Report.thy ===== *)
theory Virus_Report
  imports Log_Client Scan_Pipeline
begin

text \<open>
  The report of a virus (src/webhook/webhook.go) and its place in the event loop of overlord.go. Parameters are \<^verbatim>\<open>url.Parse\<close> (its error) and \<^verbatim>\<open>http.Post\<close>
  (url, content type and body to an error or the status of the response, and the world after the request).
\<close>

subsection \<open>The webhook\<close>

record VirusDetectedWebhookData =
  wd_Username :: string
  wd_ScanMessage :: string
  wd_FilePath :: string
  wd_TimeGenerated :: string

text \<open>\<^verbatim>\<open>json.Marshal\<close> of the struct, with the names of its tags.\<close>

definition webhook_json :: "VirusDetectedWebhookData \<Rightarrow> string" where
  "webhook_json d = json_object [(''username'', wd_Username d), (''scanMessage'', wd_ScanMessage d), (''filePath'', wd_FilePath d), (''timeGenerated'', wd_TimeGenerated d)]"

record 'w http_env =
  url_Parse :: "string \<Rightarrow> go_error option"
  http_Post :: "string \<Rightarrow> string \<Rightarrow> string \<Rightarrow> 'w \<Rightarrow> (go_error + string) \<times> 'w"
  log_clock :: "nat \<Rightarrow> string"
  log_quote :: "fmt_arg \<Rightarrow> string"
  hc_logclient :: LogClient

definition isValidUrl :: "'w http_env \<Rightarrow> string \<Rightarrow> log_out \<Rightarrow> (bool \<times> log_out) option" where
  "isValidUrl hc urlp out = map_option (\<lambda>(b, out). (\<not> b, out)) (ErrIf (log_clock hc) (hc_logclient hc) (url_Parse hc urlp) out)"

text \<open>What follows the request: an error is logged, or else the status.\<close>

definition log_response :: "'w http_env \<Rightarrow> go_error + string \<Rightarrow> log_out \<Rightarrow> log_out option" where
  "log_response hc r out =
     (case ErrIf (log_clock hc) (hc_logclient hc) (the_error r) out of
        None \<Rightarrow> None
      | Some (failed, out) \<Rightarrow>
          (case r of
             Inr status \<Rightarrow> if \<not> failed then Infof (log_clock hc) (log_quote hc) (hc_logclient hc) [Lit_text ''Webhook invokation status '', Verb VS] [AStr status] out else Some out
           | Inl _ \<Rightarrow> Some out))"

definition CallVirusFoundWebhook :: "'w http_env \<Rightarrow> string \<Rightarrow> VirusDetectedWebhookData \<Rightarrow> log_out \<Rightarrow> 'w \<Rightarrow> (log_out \<times> 'w) option" where
  "CallVirusFoundWebhook hc url data out w =
     (case isValidUrl hc url out of
        None \<Rightarrow> None
      | Some (True, out) \<Rightarrow>
          (let b = webhook_json data
           in case Infof (log_clock hc) (log_quote hc) (hc_logclient hc)
                     [Lit_text ''Calling webhook '', Verb VS, Lit_text '' with params '', Verb VS] [AStr url, AStr b] out of
                None \<Rightarrow> None
              | Some out \<Rightarrow>
                  (case http_Post hc url ''application/json'' b w of
                     (r, w) \<Rightarrow> map_option (\<lambda>out. (out, w)) (log_response hc r out)))
      | Some (False, out) \<Rightarrow>
          map_option (\<lambda>(_, out). (out, w)) (ErrIf (log_clock hc) (hc_logclient hc) (Some (ErrText ''Webhook Url is invalid'')) out))"

subsection \<open>Waiting for the scanner\<close>

definition PingClamd :: "go_error option \<Rightarrow> bool \<times> go_error option" where
  "PingClamd ping = (case ping of Some err \<Rightarrow> (False, Some err) | None \<Rightarrow> (True, None))"

text \<open>
  \<^verbatim>\<open>proceedOnClamdConnect\<close>, with the results of the successive pings: the number of pings made when it returns, nothing if it still waits. It runs in a goroutine of its own that nobody
  waits for.
\<close>

fun proceedOnClamdConnect :: "go_error option list \<Rightarrow> nat option" where
  "proceedOnClamdConnect [] = None"
| "proceedOnClamdConnect (p # ps) = (case PingClamd p of (_, Some err) \<Rightarrow> map_option Suc (proceedOnClamdConnect ps) | (_, None) \<Rightarrow> Some 1)"

lemma proceeds_on_first_answer: "proceedOnClamdConnect ps = (if None \<in> set ps then Some (Suc (length (takeWhile (\<lambda>p. p \<noteq> None) ps))) else None)"
  by (induction ps) (auto simp: PingClamd_def)

subsection \<open>The event loop with its report\<close>

text \<open>
  The event loop on a result of the scanner, with the call that \<open>overlord_scan_event\<close> stands for: the name of the user is not filled in. The result is the disposition of the
  file, the log and the world; \<open>now\<close> is the formatted time.
\<close>

definition scan_event_report :: "('w, 'f) drive_api \<Rightarrow> 'w http_env \<Rightarrow> ConfigService \<Rightarrow> string \<Rightarrow> ClamAvScanResult \<Rightarrow> log_out \<Rightarrow> 'w \<Rightarrow>
    (disposition \<times> log_out \<times> 'w) option" where
  "scan_event_report os hc c now scanR out w =
     (case overlord_scan_event os c w scanR of
        (d, w) \<Rightarrow>
          (case d of
             MovedAndReported destPath url \<Rightarrow>
               map_option (\<lambda>(out, w). (d, out, w))
                 (CallVirusFoundWebhook hc url
                    \<lparr>wd_Username = [], wd_ScanMessage = Message scanR, wd_FilePath = destPath, wd_TimeGenerated = now\<rparr> out w)
           | _ \<Rightarrow> Some (d, out, w)))"

text \<open>The log client of the service is made in \<^verbatim>\<open>main\<close>, with the path of the configured destination.\<close>

definition main_log :: "ConfigService \<Rightarrow> LogClient" where
  "main_log c = service_log \<lparr>FlatFileLogPath = GetLogDestProp c ''file'' ''path''\<rparr>"

subsection \<open>Laws\<close>

lemma service_log_never_panics:
  "\<exists>out'. info_loop clock (logsinks (service_log cfg)) m out = Some out'" "\<exists>out'. err_loop clock (logsinks (service_log cfg)) e out = Some out'"
  by (simp_all add: service_log_sinks sink_Info_def sink_Err_def NewRollingFileLogClient_def)

lemma service_log_calls:
  "\<exists>out'. Infof clock quote (service_log cfg) t args out = Some out'"
  "\<exists>out'. ErrIf clock (service_log cfg) err out = Some (err \<noteq> None, out')"
  using service_log_never_panics(1) [of clock cfg _ out] service_log_never_panics(2) [of clock cfg _ out]
  by (fastforce simp: Infof_def ErrIf_def logInfoToSinks_def logErrToSinks_def split: option.split)+

lemma webhook_once:
  assumes "hc_logclient hc = service_log cfg"
  shows "\<exists>out'. CallVirusFoundWebhook hc url data out w =
    Some (out', if url_Parse hc url = None then snd (http_Post hc url ''application/json'' (webhook_json data) w) else w)"
proof -
  have "\<exists>out'. log_response hc r out = Some out'" for r out
  proof -
    obtain out1 where "ErrIf (log_clock hc) (hc_logclient hc) (the_error r) out = Some (the_error r \<noteq> None, out1)"
      using service_log_calls(2) [of "log_clock hc" cfg "the_error r" out] unfolding assms by blast
    then show ?thesis using service_log_calls(1) [of "log_clock hc" "log_quote hc" cfg _ _ out1] unfolding log_response_def assms
      by (cases r) auto
  qed
  note resp = this
  obtain out1 where v: "isValidUrl hc url out = Some (url_Parse hc url = None, out1)"
    using service_log_calls(2) [of "log_clock hc" cfg "url_Parse hc url" out] by (auto simp: isValidUrl_def assms)
  show ?thesis
  proof (cases "url_Parse hc url = None")
    case True
    obtain out2 where i: "Infof (log_clock hc) (log_quote hc) (hc_logclient hc)
        [Lit_text ''Calling webhook '', Verb VS, Lit_text '' with params '', Verb VS] [AStr url, AStr (webhook_json data)] out1 = Some out2"
      using service_log_calls(1) unfolding assms by blast
    obtain r w' where p: "http_Post hc url ''application/json'' (webhook_json data) w = (r, w')" by fastforce
    obtain out3 where "log_response hc r out2 = Some out3" using resp by blast
    with True v i p show ?thesis by (simp add: CallVirusFoundWebhook_def)
  next
    case False
    then show ?thesis using v service_log_calls(2) [of "log_clock hc" cfg "Some (ErrText ''Webhook Url is invalid'')" out1]
      by (auto simp: CallVirusFoundWebhook_def assms)
  qed
qed

lemma report_read:
  "read_object (webhook_json \<lparr>wd_Username = u, wd_ScanMessage = m, wd_FilePath = p, wd_TimeGenerated = t\<rparr>) =
     Some [(''username'', to_valid u), (''scanMessage'', to_valid m), (''filePath'', to_valid p), (''timeGenerated'', to_valid t)]"
proof -
  have "to_valid ''username'' = ''username''" "to_valid ''scanMessage'' = ''scanMessage''" "to_valid ''filePath'' = ''filePath''" "to_valid ''timeGenerated'' = ''timeGenerated''"
    by (simp_all add: to_valid_ascii)
  then show ?thesis by (simp add: webhook_json_def read_json_object)
qed


definition demo_http :: "nat http_env" where
  "demo_http = \<lparr>url_Parse = \<lambda>_. None, http_Post = \<lambda>_ _ _ w. (Inr ''200 OK'', w + 1), log_clock = \<lambda>_. ''Tue Mar  9 05:50:06 2021'', log_quote = print_value,
     hc_logclient = main_log demo_conf\<rparr>"

lemma demo_quarantine: "strings_Replace ''/mnt/ssftp/staging/bob/v'' ''/mnt/ssftp/staging'' ''/mnt/ssftp/quarantine'' (-1) = ''/mnt/ssftp/quarantine/bob/v''"
  by code_simp


end
