(* ===== verification/Serve_Stream.thy ===== *)
theory Serve_Stream
  imports Client_Server
begin

text \<open>
  \<^verbatim>\<open>Server.Serve\<close> of server.go as a whole, from the bytes that arrive on a connection to the responses and the end of the session, for a client that
  waits for the response to a request before it sends the next; for the other interleavings see \<open>Packet_Manager\<close>.
\<close>

subsection \<open>The loop\<close>

datatype serve_end = ServeReturned go_error | ServeCrashed

lemma ReadFull_parts: "ReadFull r n = (Inr b, r') \<Longrightarrow> incoming_bytes r = b @ incoming_bytes r' \<and> length b = n \<and> ends_with r' = ends_with r"
  by (auto simp: ReadFull_def Let_def split: if_splits)

lemma recvPacket_is_frame:
  assumes "recvPacket r al oid = (RecvOk t d, r', al')"
  shows "incoming_bytes r = packet_frame (t # d) @ incoming_bytes r' \<and> ends_with r' = ends_with r"
proof -
  obtain b r1 where 1: "ReadFull r 4 = (Inr b, r1)" using assms by (auto simp: recvPacket_def Let_def split: prod.splits sum.splits)
  obtain len rest where 2: "unmarshalUint32 b = Some (len, rest)" using assms 1 by (auto simp: recvPacket_def Let_def split: option.splits)
  have 3: "ReadFull r1 (unat len) = (Inr (t # d), r')"
    using assms 1 2 by (auto simp: recvPacket_def Let_def split: if_splits prod.splits sum.splits list.splits)
  have b: "b = marshalUint32 [] len @ rest" using 2 by (rule unmarshalUint32_Some)
  with ReadFull_parts [OF 1] have "rest = []" by (cases rest) (auto simp: marshalUint32_def)
  moreover have "len = of_nat (length (t # d))" using ReadFull_parts [OF 3] by simp
  ultimately show ?thesis using ReadFull_parts [OF 1] ReadFull_parts [OF 3] b by (simp add: packet_frame_eq)
qed

lemma Serve_receive_frame:
  assumes "Serve_receive r al oid = (Queued pkt closes, r', al')"
  obtains t d e where "incoming_bytes r = packet_frame (t # d) @ incoming_bytes r'" "ends_with r' = ends_with r" "makePacket t d = (pkt, e)"
    "closes \<longrightarrow> e \<noteq> None"
  using assms recvPacket_is_frame [of r al oid]
  by (fastforce simp: Serve_receive_def split: prod.splits recv_result.splits option.splits)

lemma Serve_receive_shorter: "Serve_receive r al oid = (Queued pkt closes, r', al') \<Longrightarrow> length (incoming_bytes r') < length (incoming_bytes r)"
  by (erule Serve_receive_frame) (simp add: packet_frame_eq)

text \<open>
  \<^verbatim>\<open>Serve\<close>, with the number of packets so far: the responses handed to the sender, how it ends, and the state it leaves. When a packet cannot be decoded the connection is closed; \<open>left\<close> says how
  many of the bytes that are left can still be read then. A nil packet makes the controller panic. \<open>iter\<close> is the order in which the map of open files is traversed.
\<close>

function Serve :: "('w, 'f) os_api \<Rightarrow> ((string \<rightharpoonup> 'f) \<Rightarrow> 'f list) \<Rightarrow> (reader \<Rightarrow> nat) \<Rightarrow> 'f Server \<Rightarrow> u32 \<Rightarrow> reader \<Rightarrow> 'w \<Rightarrow>
    responsePacket list \<times> serve_end \<times> 'f Server \<times> 'w" where
  "Serve os iter left svr n r w =
     (case Serve_receive r (svr_alloc svr) (n + 1) of
        (Stopped err, r, al) \<Rightarrow>
          ([], ServeReturned err, svr\<lparr>svr_alloc := map_option Free al\<rparr>, Serve_close_files os (iter (OpenFiles svr)) w)
      | (ReceivePanic, r, al) \<Rightarrow> ([], ServeCrashed, svr\<lparr>svr_alloc := al\<rparr>, w)
      | (Queued None closes, r, al) \<Rightarrow> ([], ServeCrashed, svr\<lparr>svr_alloc := al\<rparr>, w)
      | (Queued (Some pkt) closes, r, al) \<Rightarrow>
          (case sftpServerWorker os (svr\<lparr>svr_alloc := al\<rparr>) w \<lparr>oreq_packet = Some pkt, oreq_orderid = n + 1\<rparr> of
             (Responds rpkt, svr, w) \<Rightarrow>
               (case Serve os iter left (svr\<lparr>svr_alloc := map_option (\<lambda>a. ReleasePages a (n + 1)) (svr_alloc svr)\<rparr>) (n + 1)
                       (if closes then r\<lparr>incoming_bytes := take (left r) (incoming_bytes r)\<rparr> else r) w of
                  (rs, res) \<Rightarrow> (rpkt # rs, res))
           | (HandlerError _, svr, w) \<Rightarrow> Serve os iter left svr (n + 1) (r\<lparr>incoming_bytes := take (left r) (incoming_bytes r)\<rparr>) w
           | (HandlerPanic, svr, w) \<Rightarrow> ([], ServeCrashed, svr, w)))"
  by pat_completeness auto
termination
  by (relation "measure (\<lambda>(os, iter, left, svr, n, r, w). length (incoming_bytes r))") (auto dest!: Serve_receive_shorter [OF sym])

declare Serve.simps [simp del]

subsection \<open>Well-formed requests\<close>

definition request_stream :: "requestPacket list \<Rightarrow> bytes" where
  "request_stream ps = concat (map (\<lambda>p. packet_frame (the (MarshalBinary p))) ps)"

lemma Serve_receive_request:
  assumes "wire_packet p" and "length (the (MarshalBinary p)) \<le> maxMsgLength" and "incoming_bytes r = packet_frame (the (MarshalBinary p)) @ rest"
  shows "\<exists>al'. Serve_receive r al oid = (Queued (Some p) False, r\<lparr>incoming_bytes := rest\<rparr>, al')"
proof -
  obtain t b where m: "MarshalBinary p = Some (t # b)" "makePacket t b = (Some p, None)" using makePacket_MarshalBinary [OF assms(1)] by blast
  then show ?thesis using recvPacket_frame [of "t # b" r rest al oid] assms(2,3) by (simp add: Serve_receive_def)
qed

lemma worker_responds:
  assumes "wire_packet p"
  shows "\<exists>rp svr' w'. sftpServerWorker os svr w \<lparr>oreq_packet = Some p, oreq_orderid = oid\<rparr> = (Responds rp, svr', w') \<and> responsePacket_id rp = requestPacket_id p"
proof -
  obtain out svr' w' where run: "sftpServerWorker os svr w \<lparr>oreq_packet = Some p, oreq_orderid = oid\<rparr> = (out, svr', w')" by (rule prod_cases3)
  have "consistent p" "has_attrs p" using wire_packet_consistent [OF assms] by simp_all
  with worker_answered [OF run] run show ?thesis by (cases out) (auto simp: answered_as_def)
qed

lemma Serve_end:
  assumes "incoming_bytes r = []"
  shows "\<exists>svr' w'. Serve os iter left svr n r w = ([], ServeReturned (ends_with r), svr', w')"
  using assms by (simp add: Serve.simps [of os iter left svr n r w] Serve_receive_def recvPacket_def ReadFull_def Let_def)



subsection \<open>Any bytes\<close>

text \<open>The frames that end the process.\<close>

definition killer :: "bytes \<Rightarrow> bool" where
  "killer f \<longleftrightarrow> f = [0, 0, 0, 0] \<or>
     (\<exists>t d. f = packet_frame (t # d) \<and> (fst (makePacket t d) = None \<or> t \<in> {sshFxpSetstat, sshFxpFsetstat} \<and> snd (makePacket t d) \<noteq> None))"

definition killed_by :: "bytes \<Rightarrow> bool" where
  "killed_by bs \<longleftrightarrow> (\<exists>fs f rest. bs = concat (map packet_frame fs) @ f @ rest \<and> killer f)"

lemma killed_now: "killer f \<Longrightarrow> killed_by (f @ rest)"
  unfolding killed_by_def by (rule exI [of _ "[]"]) auto

lemma killed_later: "killed_by bs \<Longrightarrow> killed_by (packet_frame f @ bs)"
proof -
  assume "killed_by bs"
  then obtain fs g rest where "bs = concat (map packet_frame fs) @ g @ rest" "killer g" unfolding killed_by_def by blast
  then have "packet_frame f @ bs = concat (map packet_frame (f # fs)) @ g @ rest" by simp
  with \<open>killer g\<close> show ?thesis unfolding killed_by_def by blast
qed

lemma killed_more: "killed_by (take k bs) \<Longrightarrow> killed_by bs"
proof -
  assume "killed_by (take k bs)"
  then obtain fs g rest where t: "take k bs = concat (map packet_frame fs) @ g @ rest" "killer g" unfolding killed_by_def by blast
  have "bs = concat (map packet_frame fs) @ g @ (rest @ drop k bs)" using append_take_drop_id [of k bs] unfolding t(1) by simp
  with t(2) show ?thesis unfolding killed_by_def by blast
qed

lemma worker_crash:
  assumes "makePacket t d = (Some q, e)" and "sftpServerWorker os svr w \<lparr>oreq_packet = Some q, oreq_orderid = oid\<rparr> = (HandlerPanic, svr', w')"
  shows "e \<noteq> None \<and> t \<in> {sshFxpSetstat, sshFxpFsetstat}"
  using worker_answered [OF assms(2) makePacket_consistent(1) [OF assms(1)]] makePacket_consistent(2) [OF assms(1)] by (auto simp: answered_as_def)

lemma recvPacket_panic:
  assumes "recvPacket r al oid = (RecvPanic, r', al')"
  shows "take 4 (incoming_bytes r) = [0, 0, 0, 0]"
proof -
  obtain b r1 where 1: "ReadFull r 4 = (Inr b, r1)" using assms by (auto simp: recvPacket_def Let_def split: prod.splits sum.splits)
  have b: "length b = 4" "incoming_bytes r = b @ incoming_bytes r1" using ReadFull_parts [OF 1] by simp_all
  then obtain len rest where 2: "unmarshalUint32 b = Some (len, rest)" using unmarshalUint32_None_iff [of b] by (cases "unmarshalUint32 b") auto
  have "ReadFull r1 (unat len) = (Inr [], r')"
    using assms 1 2 by (auto simp: recvPacket_def Let_def split: if_splits prod.splits sum.splits list.splits)
  from ReadFull_parts [OF this] have "len = 0" by (simp add: unat_eq_0)
  with unmarshalUint32_Some [OF 2] b show ?thesis by (auto simp: marshalUint32_def)
qed

lemma receive_panic: "Serve_receive r al oid = (ReceivePanic, r', al') \<Longrightarrow> take 4 (incoming_bytes r) = [0, 0, 0, 0]"
  using recvPacket_panic [of r al oid] by (fastforce simp: Serve_receive_def split: prod.splits recv_result.splits)



end
