(* ===== verification/Scan_Bound.thy ===== *)
theory Scan_Bound
  imports Scan_Pipeline
begin

text \<open>
  How long a batch can take: runs of the goroutines of the scan pipeline with the number of their steps, and when they come to rest.
\<close>

subsection \<open>Runs\<close>

inductive_cases announce_or_end: "scan_step os clamd confs s t"

inductive scan_run :: "('w, 'f) drive_api \<Rightarrow> clamd \<Rightarrow> ConfigService set \<Rightarrow> nat \<Rightarrow> 'w scan_state \<Rightarrow> 'w scan_state \<Rightarrow> bool"
  for os clamd confs where
  none: "scan_run os clamd confs 0 s s"
| outside: "scan_run os clamd confs k s t \<Longrightarrow> scan_run os clamd confs k s (t\<lparr>world := w\<rparr>)"
| more: "scan_run os clamd confs k s t \<Longrightarrow> \<not> panicked t \<Longrightarrow> scan_step os clamd confs t u \<Longrightarrow> scan_run os clamd confs (Suc k) s u"

lemma scan_left_world [simp]: "scan_left (s\<lparr>world := w\<rparr>) = scan_left s" "scan_inv files (s\<lparr>world := w\<rparr>) = scan_inv files s"
  by (simp_all add: scan_left_def scan_inv_def cong: notifier.case_cong event_loop.case_cong)

text \<open>Every step brings the batch nearer to its end.\<close>

lemma scan_step_less:
  assumes "scan_step os clamd confs s t" and "scan_inv files s" and "\<not> panicked s"
  shows "scan_left t < scan_left s"
  using assms
proof (induction rule: scan_step.induct)
  case (scanned s xs f ys c r)
  then show ?case by (cases "notif s") (auto simp: scan_inv_def scan_left_def)
next
  case (scan_panic s xs f ys c)
  then show ?case by (cases "notif s"; cases "eloop s") (auto simp: scan_inv_def scan_left_def)
next
  case (handle s r c d w)
  then show ?case by (cases "notif s") (auto simp: scan_inv_def scan_left_def)
qed (auto simp: scan_inv_def scan_left_def)

lemma scan_run_bound:
  "scan_run os clamd confs k s t \<Longrightarrow> scan_inv files s \<Longrightarrow> scan_inv files t \<and> k + scan_left t \<le> scan_left s"
proof (induction rule: scan_run.induct)
  case (more k s t u)
  then show ?case using scan_inv_step [of os clamd confs t u files] scan_step_less [of os clamd confs t u files] by auto
qed auto

text \<open>When the batch is done nothing moves any more.\<close>

lemma done_rests: "scan_inv files s \<Longrightarrow> notif s = BatchDone \<Longrightarrow> \<not> scan_step os clamd confs s t"
  by (auto simp: scan_inv_def elim!: announce_or_end)

text \<open>
  C29: Batches end. Whatever the order in which the goroutines of a batch run, and whatever other programs do in between, they make at most five steps for every file and two more; and they
  come to rest only when every file of the batch has been disposed of and this has been signalled, or when the scanner has closed its channel without a result and the process has panicked.
\<close>
theorem batch_is_bounded:
  assumes "scan_run os clamd confs k (scan_start files w) s" and "confs \<noteq> {}"
  shows "k \<le> 5 * length files + 2 \<and> (panicked s \<or> ((\<nexists>t. scan_step os clamd confs s t) \<longleftrightarrow> notif s = BatchDone \<and> map fst (disposed s) = files))"
proof -
  have i: "scan_inv files (scan_start files w)" by (simp add: scan_inv_def scan_start_def)
  have b: "scan_inv files s" "k + scan_left s \<le> scan_left (scan_start files w)" using scan_run_bound [OF assms(1) i] by simp_all
  have "scan_left (scan_start files w) = 5 * length files + 2" by (simp add: scan_left_def scan_start_def)
  moreover have "(\<nexists>t. scan_step os clamd confs s t) \<longleftrightarrow> notif s = BatchDone \<and> map fst (disposed s) = files" if "\<not> panicked s"
  proof (cases "notif s = BatchDone")
    case True
    then show ?thesis using done_rests [OF b(1) True, of os clamd confs] b(1) by (simp add: scan_inv_def)
  next
    case False
    then show ?thesis using scan_progress [OF b(1) assms(2) that False, of os clamd] by blast
  qed
  ultimately show ?thesis using b(2) by auto
qed

theorem batch_is_bounded_witness:
  "\<exists>s. scan_run demo_drive demo_clamd {demo_conf} 1 (scan_start [] 0) s \<and> (\<nexists>t. scan_step demo_drive demo_clamd {demo_conf} s t)"
proof -
  let ?s = "(scan_start [] 0)\<lparr>notif := BatchDone\<rparr>"
  have "scan_step demo_drive demo_clamd {demo_conf} (scan_start [] 0) ?s" by (rule scan_step.batch_end) (simp_all add: scan_start_def)
  from scan_run.more [OF scan_run.none _ this] have r: "scan_run demo_drive demo_clamd {demo_conf} (Suc 0) (scan_start [] 0) ?s" by (simp add: scan_start_def)
  from batch_is_bounded [OF r] have "\<nexists>t. scan_step demo_drive demo_clamd {demo_conf} ?s t" by (simp add: scan_start_def)
  with r show ?thesis by auto
qed

end
