(* ===== verification/Spec2Isabelle.thy ===== *)
theory Spec2Isabelle
  imports Sftp_Service Mem_Dirs Client_Server Client_Laws Client_Read Client_Write Client_Download Client_Conn
    Client_Listing Service_Loops Transfer_Store Virus_Report Serve_Stream Scan_Bound
begin

text \<open>
  A verification of sSFTP, an SFTP service for Azure written in Go: an SFTP server that confines each account to a directory, a pipeline that scans
  every finished upload for viruses and moves it, clients that exchange files with other servers, and the SFTP package below them (a
  modified copy of \<^verbatim>\<open>github.com/pkg/sftp\<close> under src/src/pkgsftp), which has two servers and a client.

  \<^bold>\<open>The program and its parts.\<close> A connection is a stream of framed packets (packet.go). \<^verbatim>\<open>Server.Serve\<close> decodes them (packet-typing.go) and hands
  them to a packet manager (packet-manager.go), whose workers call the handlers of server.go and whose controller sends the responses in the order of the
  requests; buffers come from a page pool (allocator.go). The handlers keep a table of open files and map paths into the directory of
  the account (\<^verbatim>\<open>getUserJailPath\<close>). A second server (request-server.go, request.go) has the same front but leaves the work to handlers the
  user of the package supplies; request-example.go supplies an in-memory file system. The client (client.go, conn.go) sends requests, pairs the
  responses with them by id and pipelines the transfers of files; match.go expands patterns on the server's tree. The service (ssftp/) loads and validates a configuration file, lets accounts
  log in (user/usergov.go, sftpservice.go), and runs the scan pipeline (filewatcher.go, overlord.go, clamav.go), which reports viruses to a webhook (webhook/); all of it writes to a log (logc/). Its transfer clients
  (sftpclient/) log in with keys, also in the format of PuTTY (putty/).

  \<^bold>\<open>Conventions.\<close> \<open>Sftp_Prelude\<close> has the machine types, the errors as values, and strings as bytes. Go's panics are \<open>None\<close> or a
  constructor of a result type. The operating system is the record \<open>os_api\<close> of \<open>Os_Api\<close>, a parameter of the handlers;
  so are the handlers of the request server, the connection of the client, the YAML parser, the parser of keys, the AES block function and the virus scanner. Go's path functions
  are in \<open>Go_Path\<close>.

  \<^bold>\<open>Theories and sources.\<close>
    \<^item> \<open>Page_Allocator\<close>: allocator.go. No page is in use twice; releasing returns exactly the pages of a request.
    \<^item> \<open>Wire_Codec\<close>, \<open>Sftp_Protocol\<close>, \<open>File_Attrs\<close>: integers, strings and frames of packet.go, the constants and errors of sftp.go, attrs.go. Round trips,
      the bound of 256 KiB, and the panic on a frame of length zero.
    \<^item> \<open>Sftp_Packets\<close>, \<open>Packet_Roundtrip\<close>: all request and response packets with their encoders and decoders, \<^verbatim>\<open>makePacket\<close>. Every request is read back
      as it was written, and nothing but encodings is accepted.
    \<^item> \<open>Packet_Manager\<close>: the goroutines of packet-manager.go as a step relation. Order of the responses, close after the reads and writes before it, no
      request left unanswered at rest, pages given back.
    \<^item> \<open>Handle_Table\<close>: the locale of the two tables of handles, interpreted in \<open>Server_Safety\<close> and \<open>Request_Safety\<close>. Handles are never
      given out twice.
    \<^item> \<open>Sftp_Server\<close>, \<open>Server_Safety\<close>, \<open>Server_Jail\<close>: server.go, server_unix.go and the statvfs extension for linux. Every request is answered under its id;
      what a read-only server never calls; confinement of paths and where it fails. \<open>Serve_Stream\<close>: \<^verbatim>\<open>Serve\<close> as a whole, from the bytes of a connection to the responses
      and the end of the session: well-formed streams are served to the end, and which frames end the process.
    \<^item> \<open>Request_Server\<close>, \<open>Request_Safety\<close>, \<open>Request_Backend\<close>: request-server.go, request.go, request-attrs.go, and the locale that states what a backend
      owes the server. \<open>Mem_Fs\<close>, \<open>Mem_Fs_Correct\<close>, \<open>Mem_Server\<close>, \<open>Mem_Dirs\<close>: request-example.go, interpreted as such a backend; uploads are read back,
      directories are listed completely, renaming moves subtrees.
    \<^item> \<open>Client_Ops\<close>, \<open>Client_Laws\<close>: the operations of client.go over an abstract connection; the client and its options, \<^verbatim>\<open>MkdirAll\<close>.
      \<open>Client_Wire\<close>, \<open>Client_Server\<close>: the client against a server at the other end of the wire (the locale \<open>peer\<close>, interpreted on the server of
      server.go): its calls are the system calls of the server.
    \<^item> \<open>Client_File\<close>, \<open>Client_Read\<close>, \<open>Client_Write\<close>, \<open>Client_Download\<close>: the pipelined transfers of client.go over an arbitrary sequence of results;
      correct for every order of the answers. \<open>Client_Conn\<close>: conn.go as a step relation; responses reach their requests and no caller waits forever.
    \<^item> \<open>Config_Service\<close>, \<open>User_Gov\<close>, \<open>Sftp_Service\<close>, \<open>Scan_Pipeline\<close>: config.go and configvalidator.go, usergov.go, sftpservice.go, and
      the scanning and moving of files. The validator decides the specification, logins, and where files go on which answer of the scanner. \<open>Scan_Bound\<close>: how many
      steps a batch can take, and that it rests only when every file has been disposed of.
    \<^item> \<open>Glob_Match\<close>, \<open>Glob_Laws\<close>, \<open>Client_Listing\<close>: match.go. The matcher decides the language of a pattern; \<^verbatim>\<open>ReadDir\<close> and \<^verbatim>\<open>Glob\<close> of a client
      connected to the request server over the in-memory file system return exactly the files there are (the locale \<open>peer\<close>, interpreted a second time).
    \<^item> \<open>Service_Sessions\<close>: the connections of sftpservice.go as a step relation over the login callbacks. Sessions belong to configured users, but not always to the one who logged
      in. \<open>Service_Loops\<close>: overlord.go, main.go, the rounds of filewatcher.go and the host key. Reloads are all or nothing; files in use are left alone.
    \<^item> \<open>Go_Encoding\<close>, \<open>Putty_File\<close>, \<open>Putty_Keys\<close>, \<open>Putty_Correct\<close>: base64, hexadecimal numbers, SHA-1 and HMAC as the standard library has them; the key files of putty/, their
      decryption and their keys. Files and fields are read back, encrypted keys open, RSA keys are consistent, and which keys make the reader panic.
    \<^item> \<open>Transfer_Client\<close>, \<open>Transfer_Laws\<close>, \<open>Transfer_Login\<close>: sftpclient.go. Files are removed only after they were copied; where files get lost; which authentication methods
      are offered; the rounds of transfers of overlord.go as a step relation. \<open>Transfer_Store\<close>: against stores that keep what is written to them, downloads arrive.
    \<^item> \<open>Go_Json\<close>, \<open>Log_Client\<close>, \<open>Virus_Report\<close>: \<^verbatim>\<open>json.Marshal\<close> of structs of strings with a reader for the statements, the log client and its sinks (logc/), the webhook and its place
      in the event loop. Log records are neither lost nor forged, whatever bytes clients bring into them; a virus is reported once, without the user.
    \<^item> This theory: the composition of configuration, login, session and server.

  \<^bold>\<open>Termination and fuel.\<close> Loops are structural or have a termination proof. \<open>readdir_loop\<close> of the client may run for as long as a server sends names and is a
  partial function; a theorem on it shows that it returns. The transfers of \<open>Client_File\<close> consume a list of results; \<open>Waiting\<close> is the value
  when the list is too short, and the theorems say how long it has to be. \<open>read_all\<close> takes as many rounds as there are bytes, which is enough because every round
  consumes one.

  The recursion of \<open>Glob\<close> ends because the directory of a pattern is shorter than the pattern; that of \<open>derive_key\<close> because each round adds twenty bytes.

  \<open>Serve\<close> and the reader of JSON end because every round consumes bytes.

  \<^bold>\<open>Not modelled.\<close> The SSH handshake and listeners, the AES block function, the multiplication of curve points, the parsers of PEM keys, of YAML and of addresses, and the rotation of log files, which are
  calls of libraries and parameters here; timers; which messages the service logs at which place; build variants for other platforms and for debugging; the test client, a manual program.
\<close>

subsection \<open>From the configuration file to the confined path\<close>

lemma load_attempt_paths:
  assumes "load_attempt unmarshal url_ok env c f = (True, c')" "env \<noteq> ''dev''"
  shows "StagingPath (cs_config c') = DefaultStagingPath \<and> CleanPath (cs_config c') = DefaultCleanPath"
proof -
  obtain y msg cv where
    v: "Validate url_ok (NewConfigValidator (copy_yaml y (set_paths env (cs_config c)))) = ((msg, True), cv)"
    and c': "cs_config c' = cv_config cv"
    using assms(1) by (auto simp: load_attempt_def Let_def split: sum.splits prod.splits if_splits)
  from Validate_law(3) [OF v] c' assms(2) show ?thesis by (simp add: copy_yaml_def set_paths_def)
qed

lemma load_paths:
  "LoadYamlConfig unmarshal url_ok env c files = (True, c') \<Longrightarrow> env \<noteq> ''dev'' \<Longrightarrow>
   StagingPath (cs_config c') = DefaultStagingPath \<and> CleanPath (cs_config c') = DefaultCleanPath"
proof (induction files arbitrary: c)
  case (Cons f fs)
  obtain k d where a: "load_attempt unmarshal url_ok env c f = (k, d)" by (cases "load_attempt unmarshal url_ok env c f")
  show ?case
  proof (cases k)
    case True
    with Cons.prems a load_attempt_paths show ?thesis by auto
  next
    case False
    with Cons.prems a show ?thesis by (intro Cons.IH [of d]) auto
  qed
qed simp

lemma start_session_server:
  "start_session h exts addr ss = (svr, ss') \<Longrightarrow> svr_User svr = loginUser ss \<and> jailPath svr = session_jailPath ss"
  by (auto simp: start_session_def NewServer_def Let_def)

lemma default_staging_elems:
  "DefaultStagingPath = render True [''mnt'', ''ssftp'', ''staging'']"
  "normal_elems True [''mnt'', ''ssftp'', ''staging'']"
  by (simp_all add: DefaultStagingPath_def render_def normal_elems_def is_elem_def)



end
